(* ===== verification/Leases.thy ===== *)
theory Leases
  imports Sutra_Prelude
begin

text \<open>
  The in-memory counted resource leases of the job worker
  (\<^verbatim>\<open>src/sutradhara/jobs/leases.py\<close>): the parser of a job's resource declaration and the
  lease manager of one worker process.  The locale \<open>lease_account\<close> states the contract the
  worker relies on (a grant is added to the tally, a release takes it off again, the tally never
  passes the capacity); it is interpreted on the lease manager below.
\<close>

section \<open>Model\<close>

datatype lease_error =
    EntryNotObject json
  | BadPoolName json
  | CountNotInteger json
  | CountNegative json
  | CapacityNegative string
  | DoesNotFit "int dict"
  | ReleaseExceeds string

text \<open>\<open>normalize_required_resources\<close>: the loop body and the loop.\<close>

definition normalize_resource_item :: "int dict \<Rightarrow> json \<Rightarrow> lease_error + int dict" where
  "normalize_resource_item resources item =
     (case item of
        JObj fs \<Rightarrow>
          (case map_of fs ''pool'' of
             Some (JStr pool) \<Rightarrow>
               if pool = [] then Inl (BadPoolName item)
               else (case map_of fs ''count'' of
                       Some (JInt count) \<Rightarrow>
                         if count < 0 then Inl (CountNegative item)
                         else if count = 0 then Inr resources
                         else Inr (dict_set pool (dict_get resources pool 0 + count) resources)
                     | _ \<Rightarrow> Inl (CountNotInteger item))
           | _ \<Rightarrow> Inl (BadPoolName item))
      | _ \<Rightarrow> Inl (EntryNotObject item))"

fun normalize_loop :: "int dict \<Rightarrow> json list \<Rightarrow> lease_error + int dict" where
  "normalize_loop resources [] = Inr resources"
| "normalize_loop resources (item # rest) =
     res_bind (normalize_resource_item resources item) (\<lambda>r. normalize_loop r rest)"

definition normalize_required_resources :: "json list \<Rightarrow> lease_error + int dict" where
  "normalize_required_resources raw = normalize_loop [] raw"

text \<open>\<open>LeaseManager\<close>: the capacities and the live tally.\<close>

record lease_manager =
  lm_capacities :: "int dict"
  lm_leased :: "int dict"

definition lease_manager_init :: "int dict \<Rightarrow> lease_error + lease_manager" where
  "lease_manager_init capacities =
     (case find (\<lambda>(_, count). count < 0) capacities of
        Some (pool, _) \<Rightarrow> Inl (CapacityNegative pool)
      | None \<Rightarrow> Inr \<lparr>lm_capacities = capacities,
                    lm_leased = map (\<lambda>(pool, _). (pool, 0)) capacities\<rparr>)"

fun fits_unlocked :: "lease_manager \<Rightarrow> int dict \<Rightarrow> bool" where
  "fits_unlocked m [] = True"
| "fits_unlocked m ((pool, count) # rest) =
     (let capacity = dict_get (lm_capacities m) pool 0
      in if count > capacity - dict_get (lm_leased m) pool 0 then False
         else fits_unlocked m rest)"

definition fits :: "lease_manager \<Rightarrow> int dict \<Rightarrow> bool" where
  "fits m required = fits_unlocked m required"

definition can_ever_fit :: "lease_manager \<Rightarrow> int dict \<Rightarrow> bool" where
  "can_ever_fit m required =
     list_all (\<lambda>(pool, count). count \<le> dict_get (lm_capacities m) pool 0) required"

fun reserve_loop :: "int dict \<Rightarrow> int dict \<Rightarrow> int dict" where
  "reserve_loop leased [] = leased"
| "reserve_loop leased ((pool, count) # rest) =
     reserve_loop (dict_set pool (dict_get leased pool 0 + count) leased) rest"

definition reserve :: "lease_manager \<Rightarrow> int dict \<Rightarrow> lease_error + lease_manager \<times> int dict" where
  "reserve m required =
     (if \<not> fits_unlocked m required then Inl (DoesNotFit required)
      else Inr (m\<lparr>lm_leased := reserve_loop (lm_leased m) required\<rparr>, required))"

text \<open>
  \<open>release\<close> mutates the tally pool by pool and raises at the first pool that would go negative,
  keeping what it did before; the result is the tally and the exception, if any.
\<close>

fun release_loop :: "int dict \<Rightarrow> int dict \<Rightarrow> int dict \<times> lease_error option" where
  "release_loop leased [] = (leased, None)"
| "release_loop leased ((pool, count) # rest) =
     (let current = dict_get leased pool 0
      in if count < 0 \<or> count > current then (leased, Some (ReleaseExceeds pool))
         else release_loop (dict_set pool (current - count) leased) rest)"

definition release :: "lease_manager \<Rightarrow> int dict \<Rightarrow> lease_manager \<times> lease_error option" where
  "release m granted =
     (case release_loop (lm_leased m) granted of (leased, e) \<Rightarrow> (m\<lparr>lm_leased := leased\<rparr>, e))"

section \<open>Well-formed requests\<close>

text \<open>
  A request is a mapping (distinct pools) with non-negative counts: what the parser returns.
  \<open>amount r p\<close> is what it asks of one pool.
\<close>

definition wf_request :: "int dict \<Rightarrow> bool" where
  "wf_request r \<longleftrightarrow> distinct (map fst r) \<and> (\<forall>c \<in> snd ` set r. 0 \<le> c)"

abbreviation amount :: "int dict \<Rightarrow> string \<Rightarrow> int" where
  "amount r p \<equiv> dict_get r p 0"

lemma wf_request_simps [simp]:
  "wf_request []"
  "wf_request ((p, c) # r) \<longleftrightarrow> p \<notin> fst ` set r \<and> 0 \<le> c \<and> wf_request r"
  by (auto simp: wf_request_def)

lemma amount_nonneg: "wf_request r \<Longrightarrow> 0 \<le> amount r p"
  by (induction r) (auto simp: wf_request_def)

lemma amount_absent: "p \<notin> fst ` set r \<Longrightarrow> dict_get r p x = x"
  by (induction r) auto

lemma normalize_resource_item_cases:
  assumes "normalize_resource_item rs item = Inr rs'"
  obtains "rs' = rs"
  | p c where "0 < c" "rs' = dict_set p (dict_get rs p 0 + c) rs"
proof -
  have "rs' = rs \<or> (\<exists>p c. 0 < c \<and> rs' = dict_set p (dict_get rs p 0 + c) rs)"
    using assms unfolding normalize_resource_item_def
    by (auto split: json.splits option.splits if_splits) (metis linorder_cases)
  with that show ?thesis by blast
qed

lemma vals_dict_set: "snd ` set (dict_set p v rs) \<subseteq> insert v (snd ` set rs)"
  unfolding dict_set_def by (induction rs) auto

lemma dict_get_nonneg: "\<forall>c \<in> snd ` set rs. 0 < (c :: int) \<Longrightarrow> 0 \<le> dict_get rs p 0"
  by (induction rs) auto

lemma normalize_resource_item_positive:
  assumes step: "normalize_resource_item rs item = Inr rs'"
    and dist: "distinct (map fst rs)" and pos: "\<forall>c \<in> snd ` set rs. 0 < c"
  shows "distinct (map fst rs') \<and> (\<forall>c \<in> snd ` set rs'. 0 < c)"
  using step
proof (cases rule: normalize_resource_item_cases)
  case 1
  with dist pos show ?thesis by simp
next
  case (2 p c)
  have "0 < dict_get rs p 0 + c" using 2(1) dict_get_nonneg [OF pos, of p] by simp
  with pos have "\<forall>x \<in> insert (dict_get rs p 0 + c) (snd ` set rs). 0 < x" by simp
  then have "\<forall>x \<in> snd ` set rs'. 0 < x"
    unfolding 2(2) using vals_dict_set by (meson subsetD)
  with 2(2) dist show ?thesis by simp
qed

lemma normalize_loop_positive:
  "normalize_loop rs raw = Inr r \<Longrightarrow> distinct (map fst rs) \<Longrightarrow> \<forall>c \<in> snd ` set rs. 0 < c \<Longrightarrow>
   distinct (map fst r) \<and> (\<forall>c \<in> snd ` set r. 0 < c)"
proof (induction raw arbitrary: rs)
  case Nil
  then show ?case by simp
next
  case (Cons item raw)
  then obtain rs' where step: "normalize_resource_item rs item = Inr rs'"
    and rest: "normalize_loop rs' raw = Inr r"
    by (auto simp: res_bind_Inr_iff)
  from normalize_resource_item_positive [OF step Cons.prems(2,3)]
  show ?case using Cons.IH [OF rest] by blast
qed

lemma normalize_wf: "normalize_required_resources raw = Inr r \<Longrightarrow> wf_request r"
  using normalize_loop_positive [of "[]" raw r]
  by (force simp: normalize_required_resources_def wf_request_def)

section \<open>The contract of the lease manager\<close>

locale lease_account =
  fixes lease_of :: "'m \<Rightarrow> string \<Rightarrow> int"
    and cap_of :: "'m \<Rightarrow> string \<Rightarrow> int"
    and grant :: "'m \<Rightarrow> int dict \<Rightarrow> 'e + 'm \<times> int dict"
    and give_back :: "'m \<Rightarrow> int dict \<Rightarrow> 'm \<times> 'e option"
    and fits_now :: "'m \<Rightarrow> int dict \<Rightarrow> bool"
  assumes grant_iff: "wf_request r \<Longrightarrow>
      fits_now m r \<longleftrightarrow> (\<forall>p \<in> fst ` set r. lease_of m p + amount r p \<le> cap_of m p)"
    and grant_ok: "wf_request r \<Longrightarrow> fits_now m r \<Longrightarrow>
      \<exists>m'. grant m r = Inr (m', r) \<and> cap_of m' = cap_of m \<and>
           lease_of m' = (\<lambda>p. lease_of m p + amount r p)"
    and grant_fail: "\<not> fits_now m r \<Longrightarrow> \<exists>e. grant m r = Inl e"
    and give_back_ok: "wf_request r \<Longrightarrow> (\<And>p. amount r p \<le> lease_of m p) \<Longrightarrow>
      \<exists>m'. give_back m r = (m', None) \<and> cap_of m' = cap_of m \<and>
           lease_of m' = (\<lambda>p. lease_of m p - amount r p)"
begin

text \<open>
  \<open>accounted m gs\<close>: the tally is the sum of the outstanding grants \<open>gs\<close>, and no pool is leased
  beyond its capacity.
\<close>

definition accounted :: "'m \<Rightarrow> int dict list \<Rightarrow> bool" where
  "accounted m gs \<longleftrightarrow>
     (\<forall>g \<in> set gs. wf_request g) \<and>
     (\<forall>p. (\<Sum>g\<leftarrow>gs. amount g p) = lease_of m p) \<and>
     (\<forall>p. lease_of m p \<le> max 0 (cap_of m p))"

lemma outstanding_nonneg:
  "\<forall>g \<in> set gs. wf_request g \<Longrightarrow> 0 \<le> (\<Sum>g\<leftarrow>gs. amount g p)"
  by (induction gs) (auto simp: amount_nonneg)

lemma accounted_bounds:
  "accounted m gs \<Longrightarrow> 0 \<le> lease_of m p \<and> lease_of m p \<le> max 0 (cap_of m p)"
  unfolding accounted_def by (metis outstanding_nonneg)

lemma accounted_grant:
  assumes acc: "accounted m gs" and r: "wf_request r" and g: "grant m r = Inr (m', g)"
  shows "g = r \<and> cap_of m' = cap_of m \<and> accounted m' (r # gs)"
proof -
  from g grant_fail have fit: "fits_now m r" by force
  from grant_ok [OF r fit] g have g': "g = r" and cap: "cap_of m' = cap_of m"
    and lease: "lease_of m' = (\<lambda>p. lease_of m p + amount r p)" by auto
  have "lease_of m' p \<le> max 0 (cap_of m' p)" for p
  proof (cases "p \<in> fst ` set r")
    case True
    with grant_iff [OF r, of m] fit have "lease_of m p + amount r p \<le> cap_of m p" by blast
    with lease cap show ?thesis by simp
  next
    case False
    with acc lease cap show ?thesis by (simp add: amount_absent accounted_def)
  qed
  with acc r lease cap g' show ?thesis by (simp add: accounted_def)
qed

lemma accounted_give_back:
  assumes acc: "accounted m gs" and g: "g \<in> set gs"
  shows "\<exists>m'. give_back m g = (m', None) \<and> cap_of m' = cap_of m \<and> accounted m' (remove1 g gs)"
proof -
  have sum: "(\<Sum>h\<leftarrow>gs. amount h p) = amount g p + (\<Sum>h\<leftarrow>remove1 g gs. amount h p)" for p
    using g by (rule sum_list_map_remove1)
  have wfs: "\<forall>h \<in> set (remove1 g gs). wf_request h"
    using acc set_remove1_subset [of g gs] by (auto simp: accounted_def)
  have wf: "wf_request g" using acc g by (simp add: accounted_def)
  have le: "amount g p \<le> lease_of m p" for p
    using acc sum [of p] outstanding_nonneg [OF wfs, of p] by (simp add: accounted_def)
  obtain m' where m': "give_back m g = (m', None)" "cap_of m' = cap_of m"
    "lease_of m' = (\<lambda>p. lease_of m p - amount g p)"
    using give_back_ok [OF wf le] by blast
  have "(\<Sum>h\<leftarrow>remove1 g gs. amount h p) = lease_of m' p" for p
    using acc sum [of p] m'(3) by (simp add: accounted_def)
  moreover have "lease_of m' p \<le> max 0 (cap_of m' p)" for p
  proof -
    have "lease_of m p \<le> max 0 (cap_of m p)" using acc by (simp add: accounted_def)
    then show ?thesis using m'(2,3) amount_nonneg [OF wf, of p] by simp
  qed
  ultimately have "accounted m' (remove1 g gs)" using wfs by (simp add: accounted_def)
  with m' show ?thesis by blast
qed

end

section \<open>The lease manager meets the contract\<close>

lemma fits_unlocked_iff:
  "wf_request r \<Longrightarrow>
   fits_unlocked m r \<longleftrightarrow>
     (\<forall>p \<in> fst ` set r. dict_get (lm_leased m) p 0 + amount r p \<le> dict_get (lm_capacities m) p 0)"
proof (induction r)
  case Nil
  then show ?case by simp
next
  case (Cons pc r)
  obtain p c where pc: "pc = (p, c)" by (cases pc)
  with Cons.prems have "p \<notin> fst ` set r" by simp
  then have "amount (pc # r) q = amount r q" if "q \<in> fst ` set r" for q
    using pc that by auto
  with Cons pc show ?case by (auto simp: Let_def)
qed

lemma reserve_loop_get:
  "wf_request r \<Longrightarrow> dict_get (reserve_loop leased r) p 0 = dict_get leased p 0 + amount r p"
proof (induction r arbitrary: leased)
  case Nil
  then show ?case by simp
next
  case (Cons pc r)
  then show ?case by (cases pc) (auto simp: amount_absent)
qed

lemma release_loop_get:
  "wf_request r \<Longrightarrow> (\<And>p. amount r p \<le> dict_get leased p 0) \<Longrightarrow>
   \<exists>leased'. release_loop leased r = (leased', None) \<and>
     (\<forall>p. dict_get leased' p 0 = dict_get leased p 0 - amount r p)"
proof (induction r arbitrary: leased)
  case Nil
  then show ?case by simp
next
  case (Cons pc r)
  obtain p c where pc: "pc = (p, c)" by (cases pc)
  let ?l = "dict_set p (dict_get leased p 0 - c) leased"
  from Cons.prems(1) pc have c: "0 \<le> c" "wf_request r" "p \<notin> fst ` set r" by auto
  have "c \<le> dict_get leased p 0" using Cons.prems(2) [of p] pc by simp
  moreover have "amount r q \<le> dict_get ?l q 0" for q
    using Cons.prems(2) [of q] pc c \<open>c \<le> dict_get leased p 0\<close>
    by (cases "q = p") (auto simp: amount_absent)
  from Cons.IH [OF c(2) this] obtain l' where "release_loop ?l r = (l', None)"
    "\<forall>q. dict_get l' q 0 = dict_get ?l q 0 - amount r q" by blast
  ultimately show ?case using pc c by (auto simp: Let_def amount_absent)
qed

interpretation lm: lease_account
  "\<lambda>m p. dict_get (lm_leased m) p 0" "\<lambda>m p. dict_get (lm_capacities m) p 0"
  reserve release fits
proof unfold_locales
  fix r :: "int dict" and m :: lease_manager
  assume "wf_request r"
  then show "fits m r \<longleftrightarrow>
      (\<forall>p \<in> fst ` set r. dict_get (lm_leased m) p 0 + amount r p \<le> dict_get (lm_capacities m) p 0)"
    by (simp add: fits_def fits_unlocked_iff)
next
  fix r :: "int dict" and m :: lease_manager
  assume "wf_request r" "fits m r"
  then show "\<exists>m'. reserve m r = Inr (m', r) \<and>
      (\<lambda>p. dict_get (lm_capacities m') p 0) = (\<lambda>p. dict_get (lm_capacities m) p 0) \<and>
      (\<lambda>p. dict_get (lm_leased m') p 0) = (\<lambda>p. dict_get (lm_leased m) p 0 + amount r p)"
    by (auto simp: fits_def reserve_def reserve_loop_get)
next
  fix m :: lease_manager and r :: "int dict"
  assume "\<not> fits m r"
  then show "\<exists>e. reserve m r = Inl e" by (simp add: fits_def reserve_def)
next
  fix r :: "int dict" and m :: lease_manager
  assume "wf_request r" "\<And>p. amount r p \<le> dict_get (lm_leased m) p 0"
  from release_loop_get [OF this] show "\<exists>m'. release m r = (m', None) \<and>
      (\<lambda>p. dict_get (lm_capacities m') p 0) = (\<lambda>p. dict_get (lm_capacities m) p 0) \<and>
      (\<lambda>p. dict_get (lm_leased m') p 0) = (\<lambda>p. dict_get (lm_leased m) p 0 - amount r p)"
    by (auto simp: release_def)
qed

section \<open>Runs of the lease manager\<close>

text \<open>
  \<open>lease_run caps m gs\<close>: the manager \<open>m\<close> is reachable from \<open>LeaseManager(caps)\<close> by reserving
  parsed resource declarations and releasing outstanding grants, in any order; \<open>gs\<close> are the
  grants still held.
\<close>

inductive lease_run :: "int dict \<Rightarrow> lease_manager \<Rightarrow> int dict list \<Rightarrow> bool" where
  lease_start: "lease_manager_init caps = Inr m \<Longrightarrow> lease_run caps m []"
| lease_reserve: "lease_run caps m gs \<Longrightarrow> normalize_required_resources raw = Inr r \<Longrightarrow>
     reserve m r = Inr (m', g) \<Longrightarrow> lease_run caps m' (g # gs)"
| lease_release: "lease_run caps m gs \<Longrightarrow> g \<in> set gs \<Longrightarrow>
     release m g = (m', e) \<Longrightarrow> lease_run caps m' (remove1 g gs)"

lemma init_leased: "lease_manager_init caps = Inr m \<Longrightarrow> dict_get (lm_leased m) p 0 = 0"
proof -
  have "dict_get (map (\<lambda>(pool, _). (pool, 0)) (caps :: int dict)) p 0 = (0 :: int)"
    by (induction caps) auto
  then show "lease_manager_init caps = Inr m \<Longrightarrow> dict_get (lm_leased m) p 0 = 0"
    by (auto simp: lease_manager_init_def split: option.splits)
qed

lemma init_capacities: "lease_manager_init caps = Inr m \<Longrightarrow> lm_capacities m = caps"
  by (auto simp: lease_manager_init_def split: option.splits)

lemma init_nonneg: "lease_manager_init caps = Inr m \<Longrightarrow> 0 \<le> dict_get caps p 0"
proof -
  have "(\<forall>x \<in> set caps. \<not> snd x < 0) \<Longrightarrow> 0 \<le> dict_get caps p (0 :: int)"
    by (induction caps) auto
  then show "lease_manager_init caps = Inr m \<Longrightarrow> 0 \<le> dict_get caps p 0"
    by (auto simp: lease_manager_init_def find_None_set case_prod_beta split: option.splits)
qed

lemma lease_run_accounted:
  "lease_run caps m gs \<Longrightarrow>
   lm.accounted m gs \<and> (\<forall>p. dict_get (lm_capacities m) p 0 = dict_get caps p 0 \<and> 0 \<le> dict_get caps p 0)"
proof (induction rule: lease_run.induct)
  case (lease_start caps m)
  then show ?case
    by (simp add: lm.accounted_def init_leased init_capacities init_nonneg)
next
  case (lease_reserve caps m gs raw r m' g)
  from lease_reserve(4) have "lm.accounted m gs" by simp
  from lm.accounted_grant [OF this normalize_wf [OF lease_reserve(2)] lease_reserve(3)]
  have "g = r" "lm.accounted m' (r # gs)"
    "(\<lambda>p. dict_get (lm_capacities m') p 0) = (\<lambda>p. dict_get (lm_capacities m) p 0)" by simp_all
  with lease_reserve(4) show ?case by (simp add: fun_eq_iff)
next
  case (lease_release caps m gs g m' e)
  from lease_release(4) have "lm.accounted m gs" by simp
  from lm.accounted_give_back [OF this lease_release(2)] lease_release(3)
  have "lm.accounted m' (remove1 g gs)"
    "(\<lambda>p. dict_get (lm_capacities m') p 0) = (\<lambda>p. dict_get (lm_capacities m) p 0)" by auto
  with lease_release(4) show ?case by (simp add: fun_eq_iff)
qed

section \<open>Properties\<close>

text \<open>
  C8: In every state a worker can reach by reserving parsed declarations and releasing grants it
  holds, each pool's tally is non-negative, within the pool's configured capacity and equal to the
  sum of the outstanding grants; and releasing any outstanding grant raises no error.
\<close>

theorem lease_run_safe:
  assumes "lease_run caps m gs"
  shows "0 \<le> dict_get (lm_leased m) p 0 \<and> dict_get (lm_leased m) p 0 \<le> dict_get caps p 0 \<and>
         dict_get (lm_leased m) p 0 = (\<Sum>g\<leftarrow>gs. dict_get g p 0) \<and>
         (g \<in> set gs \<longrightarrow> snd (release m g) = None)"
proof -
  from lease_run_accounted [OF assms] have acc: "lm.accounted m gs"
    and cap: "dict_get (lm_capacities m) p 0 = dict_get caps p 0" "0 \<le> dict_get caps p 0" by auto
  have "g \<in> set gs \<Longrightarrow> snd (release m g) = None"
    using lm.accounted_give_back [OF acc] by force
  with lm.accounted_bounds [OF acc, of p] acc cap show ?thesis by (simp add: lm.accounted_def)
qed

lemma lease_example_run:
  "lease_run [(''cpu'', 4), (''io'', 2)]
     \<lparr>lm_capacities = [(''cpu'', 4), (''io'', 2)], lm_leased = [(''cpu'', 3), (''io'', 0)]\<rparr>
     [[(''cpu'', 3)]]"
proof -
  have s0: "lease_run [(''cpu'', 4), (''io'', 2)]
     \<lparr>lm_capacities = [(''cpu'', 4), (''io'', 2)], lm_leased = [(''cpu'', 0), (''io'', 0)]\<rparr> []"
    by (rule lease_start) (simp add: lease_manager_init_def)
  have n: "normalize_required_resources
      [JObj [(''pool'', JStr ''cpu''), (''count'', JInt 1)],
       JObj [(''pool'', JStr ''cpu''), (''count'', JInt 2)]] = Inr [(''cpu'', 3)]"
    by (simp add: normalize_required_resources_def normalize_resource_item_def dict_set_def)
  show ?thesis
    by (rule lease_reserve [OF s0 n]) (simp add: reserve_def Let_def dict_set_def)
qed

theorem lease_run_safe_witness:
  "dict_get [(''cpu'', 3), (''io'', 0)] ''cpu'' 0 \<le> dict_get [(''cpu'', 4), (''io'', 2)] ''cpu'' (0 :: int) \<and>
   snd (release \<lparr>lm_capacities = [(''cpu'', 4), (''io'', 2)],
                 lm_leased = [(''cpu'', 3), (''io'', 0)]\<rparr> [(''cpu'', 3)]) = None"
  using lease_run_safe [OF lease_example_run, of "''cpu''" "[(''cpu'', 3)]"] by simp

text \<open>
  A declaration that \<open>can_ever_fit\<close> refuses fits in no reachable state of the worker, so failing
  the job as never schedulable is right; one that it accepts fits as soon as nothing is outstanding.
\<close>

theorem can_ever_fit_exact:
  assumes run: "lease_run caps m gs" and req: "normalize_required_resources raw = Inr r"
  shows "(fits m r \<longrightarrow> can_ever_fit m r) \<and> (gs = [] \<longrightarrow> fits m r = can_ever_fit m r)"
proof -
  have wf: "wf_request r" by (rule normalize_wf [OF req])
  from lease_run_accounted [OF run] have acc: "lm.accounted m gs" by simp
  have am: "dict_get r p 0 = c" if "(p, c) \<in> set r" for p c
    using that wf by (auto simp: wf_request_def dict_get_def)
  have ever: "can_ever_fit m r \<longleftrightarrow> (\<forall>p \<in> fst ` set r. amount r p \<le> dict_get (lm_capacities m) p 0)"
    by (auto simp: can_ever_fit_def list_all_iff am)
  have "amount r p \<le> dict_get (lm_leased m) p 0 + amount r p" for p
    using lm.accounted_bounds [OF acc, of p] by simp
  then have "fits m r \<Longrightarrow> can_ever_fit m r"
    unfolding lm.grant_iff [OF wf] ever by (meson order_trans)
  moreover have "gs = [] \<Longrightarrow> dict_get (lm_leased m) p 0 = 0" for p
    using acc by (simp add: lm.accounted_def)
  ultimately show ?thesis unfolding lm.grant_iff [OF wf] ever by auto
qed

theorem can_ever_fit_exact_witness:
  "fits \<lparr>lm_capacities = [(''cpu'', 4), (''io'', 2)], lm_leased = [(''cpu'', 3), (''io'', 0)]\<rparr> [(''io'', 2)]
   \<and> can_ever_fit \<lparr>lm_capacities = [(''cpu'', 4), (''io'', 2)],
                     lm_leased = [(''cpu'', 3), (''io'', 0)]\<rparr> [(''io'', 2)]"
proof -
  have "normalize_required_resources [JObj [(''pool'', JStr ''io''), (''count'', JInt 2)]] = Inr [(''io'', 2)]"
    by (simp add: normalize_required_resources_def normalize_resource_item_def dict_set_def)
  note exact = can_ever_fit_exact [OF lease_example_run this]
  have "fits \<lparr>lm_capacities = [(''cpu'', 4), (''io'', 2)],
              lm_leased = [(''cpu'', 3), (''io'', 0)]\<rparr> [(''io'', 2)]"
    by (simp add: fits_def)
  with exact show ?thesis by blast
qed

text \<open>The count one entry of a declaration asks of a pool.\<close>

definition declared_count :: "json \<Rightarrow> string \<Rightarrow> int" where
  "declared_count item p =
     (case item of
        JObj fs \<Rightarrow>
          if map_of fs ''pool'' = Some (JStr p)
          then (case map_of fs ''count'' of Some (JInt c) \<Rightarrow> c | _ \<Rightarrow> 0) else 0
      | _ \<Rightarrow> 0)"

lemma normalize_resource_item_get:
  "normalize_resource_item rs item = Inr rs' \<Longrightarrow>
   dict_get rs' p 0 = dict_get rs p 0 + declared_count item p"
  by (auto simp: normalize_resource_item_def declared_count_def
      split: json.splits option.splits if_splits)

lemma normalize_loop_get:
  "normalize_loop rs raw = Inr r \<Longrightarrow>
   dict_get r p 0 = dict_get rs p 0 + (\<Sum>item\<leftarrow>raw. declared_count item p)"
  by (induction raw arbitrary: rs) (auto simp: res_bind_Inr_iff normalize_resource_item_get)

text \<open>
  The parsed declaration gives each pool the sum of the counts its entries declare, lists each
  pool once and lists no pool with a count below one.
\<close>

theorem normalize_sums:
  assumes "normalize_required_resources raw = Inr r"
  shows "dict_get r p 0 = (\<Sum>item\<leftarrow>raw. declared_count item p) \<and>
         distinct (map fst r) \<and> (\<forall>c \<in> snd ` set r. 0 < c)"
  using assms normalize_loop_get [of "[]" raw r p] normalize_loop_positive [of "[]" raw r]
  by (simp add: normalize_required_resources_def)

theorem normalize_sums_witness:
  "dict_get [(''cpu'', 3 :: int)] ''cpu'' 0 =
     (\<Sum>item\<leftarrow>[JObj [(''pool'', JStr ''cpu''), (''count'', JInt 1)],
              JObj [(''pool'', JStr ''cpu''), (''count'', JInt 2)]]. declared_count item ''cpu'')"
proof -
  have "normalize_required_resources
      [JObj [(''pool'', JStr ''cpu''), (''count'', JInt 1)],
       JObj [(''pool'', JStr ''cpu''), (''count'', JInt 2)]] = Inr [(''cpu'', 3)]"
    by (simp add: normalize_required_resources_def normalize_resource_item_def dict_set_def)
  from normalize_sums [OF this, of "''cpu''"] show ?thesis by blast
qed

end
