(* ===== verification/Py_Text.thy ===== *)
theory Py_Text
  imports Sutra_Prelude
begin

text \<open>
  The pieces of the Python standard library that the messages and the durations of the program
  are built from: \<open>str\<close> of an integer, \<open>repr\<close> of a string, \<open>datetime.isoformat\<close> of a UTC time, the
  rounding of \<open>timedelta(seconds=...)\<close>, \<open>str.partition\<close>, hexadecimal text.  A time is a number of
  microseconds since the epoch; a string holds the characters up to code point 255.
\<close>

section \<open>Integers as text\<close>

definition digit_char :: "nat \<Rightarrow> char" where
  "digit_char d = (if d < 10 then char_of (48 + d) else char_of (87 + d))"

fun str_nat :: "nat \<Rightarrow> string" where
  "str_nat n = (if n < 10 then [digit_char n] else str_nat (n div 10) @ [digit_char (n mod 10)])"

declare str_nat.simps [simp del]

definition str_int :: "int \<Rightarrow> string" where
  "str_int i = (if i < 0 then ''-'' @ str_nat (nat (- i)) else str_nat (nat i))"

definition digit_val :: "char \<Rightarrow> nat option" where
  "digit_val c = (let k = of_char c :: nat in if 48 \<le> k \<and> k \<le> 57 then Some (k - 48) else None)"

lemma digit_val_digit_char: "d < 10 \<Longrightarrow> digit_val (digit_char d) = Some d"
  by (simp add: digit_val_def digit_char_def)

text \<open>Decimal reading, the left inverse of \<open>str_nat\<close>.\<close>

fun nat_of_digits :: "nat \<Rightarrow> string \<Rightarrow> nat option" where
  "nat_of_digits acc [] = Some acc"
| "nat_of_digits acc (c # cs) =
     (case digit_val c of None \<Rightarrow> None | Some d \<Rightarrow> nat_of_digits (acc * 10 + d) cs)"

lemma nat_of_digits_append:
  "nat_of_digits acc (xs @ ys) =
   (case nat_of_digits acc xs of None \<Rightarrow> None | Some a \<Rightarrow> nat_of_digits a ys)"
  by (induction xs arbitrary: acc) (auto split: option.splits)

lemma nat_of_digits_str_nat: "nat_of_digits 0 (str_nat n) = Some n"
proof (induction n rule: str_nat.induct)
  case (1 n)
  show ?case
  proof (cases "n < 10")
    case True
    then show ?thesis by (simp add: str_nat.simps [of n] digit_val_digit_char)
  next
    case False
    with 1 show ?thesis
      by (simp add: str_nat.simps [of n] nat_of_digits_append digit_val_digit_char)
  qed
qed

lemma str_nat_inject: "str_nat m = str_nat n \<longleftrightarrow> m = n"
  using nat_of_digits_str_nat [of m] nat_of_digits_str_nat [of n] by (metis option.inject)

lemma str_nat_digits: "c \<in> set (str_nat n) \<Longrightarrow> digit_val c \<noteq> None"
  by (induction n rule: str_nat.induct) (subst (asm) str_nat.simps,
      auto simp: digit_val_digit_char split: if_splits)

lemma str_nat_not_Nil [simp]: "str_nat n \<noteq> []"
  by (subst str_nat.simps) simp

definition zfill :: "nat \<Rightarrow> nat \<Rightarrow> string" where
  "zfill w n = (let s = str_nat n in replicate (w - length s) (CHR ''0'') @ s)"

section \<open>Times\<close>

text \<open>\<open>timedelta(seconds=x)\<close> rounds to whole microseconds, halves to even.\<close>

definition round_half_even :: "rat \<Rightarrow> int" where
  "round_half_even x =
     (let f = \<lfloor>x\<rfloor>; d = x - of_int f in
      if d < 1 / 2 then f else if d > 1 / 2 then f + 1 else if even f then f else f + 1)"

definition timedelta_seconds :: "rat \<Rightarrow> int" where
  "timedelta_seconds s = round_half_even (s * 1000000)"

lemma round_half_even_of_int [simp]: "round_half_even (of_int k) = k"
  by (simp add: round_half_even_def)

lemma round_half_even_bounds: "\<lfloor>x\<rfloor> \<le> round_half_even x \<and> round_half_even x \<le> \<lceil>x\<rceil>"
proof -
  let ?d = "x - of_int \<lfloor>x\<rfloor>"
  have "\<lfloor>x\<rfloor> + 1 \<le> \<lceil>x\<rceil>" if "0 < ?d"
    using that by linarith
  moreover have "\<lfloor>x\<rfloor> \<le> \<lceil>x\<rceil>" by linarith
  ultimately show ?thesis
    unfolding round_half_even_def Let_def by (cases "?d < 1/2") auto
qed

lemma timedelta_seconds_mono_bounds:
  assumes "of_int a \<le> s" "s \<le> of_int b"
  shows "a * 1000000 \<le> timedelta_seconds s \<and> timedelta_seconds s \<le> b * 1000000"
proof -
  have "of_int (a * 1000000) \<le> s * 1000000" "s * 1000000 \<le> of_int (b * 1000000)"
    using assms by auto
  then have "a * 1000000 \<le> \<lfloor>s * 1000000\<rfloor>" "\<lceil>s * 1000000\<rceil> \<le> b * 1000000"
    by (simp_all only: le_floor_iff ceiling_le_iff)
  with round_half_even_bounds [of "s * 1000000"] show ?thesis
    unfolding timedelta_seconds_def by linarith
qed

text \<open>The proleptic Gregorian date of a day number counted from 1970-01-01.\<close>

definition year_day :: "int \<Rightarrow> int \<times> int" where
  "year_day doe =
     (let c = min (doe div 36524) 3; r = doe - 36524 * c; s = r mod 1461; b = min (s div 365) 3
      in (100 * c + 4 * (r div 1461) + b, s - 365 * b))"

definition month_day :: "int \<Rightarrow> int \<times> int" where
  "month_day doy =
     (let mp = (5 * doy + 2) div 153
      in (if mp < 10 then mp + 3 else mp - 9, doy - (153 * mp + 2) div 5 + 1))"

definition civil_from_days :: "int \<Rightarrow> int \<times> int \<times> int" where
  "civil_from_days n =
     (let z = n + 719468; (yoe, doy) = year_day (z mod 146097); (m, d) = month_day doy
      in (yoe + z div 146097 * 400 + (if m \<le> 2 then 1 else 0), m, d))"

definition iso_date :: "time \<Rightarrow> string" where
  "iso_date t =
     (let (y, m, d) = civil_from_days (t div 86400000000)
      in zfill 4 (nat y) @ ''-'' @ zfill 2 (nat m) @ ''-'' @ zfill 2 (nat d))"

definition isoformat :: "time \<Rightarrow> string" where
  "isoformat t =
     (let us = t mod 86400000000; secs = us div 1000000; frac = us mod 1000000; z2 = (\<lambda>k. zfill 2 (nat k))
      in iso_date t @ ''T'' @
         z2 (secs div 3600) @ '':'' @ z2 (secs div 60 mod 60) @ '':'' @ z2 (secs mod 60) @
         (if frac = 0 then [] else ''.'' @ zfill 6 (nat frac)) @ ''+00:00'')"

lemma length_str_nat: "n < 10 ^ Suc k \<Longrightarrow> length (str_nat n) \<le> Suc k"
proof (induction k arbitrary: n)
  case 0
  then show ?case by (simp add: str_nat.simps [of n])
next
  case (Suc k)
  have "n div 10 < 10 ^ Suc k" using Suc.prems by (simp add: div_less_iff_less_mult)
  from Suc.IH [OF this] show ?case by (subst str_nat.simps) simp
qed

lemma length_zfill: "n < 10 ^ Suc k \<Longrightarrow> length (zfill (Suc k) n) = Suc k"
  using length_str_nat [of n k] by (simp add: zfill_def Let_def)

lemma zfill_digits: "c \<in> set (zfill w n) \<Longrightarrow> digit_val c \<noteq> None"
proof -
  have "digit_val (CHR ''0'') \<noteq> None" by (simp add: digit_val_def)
  then show "c \<in> set (zfill w n) \<Longrightarrow> digit_val c \<noteq> None"
    using str_nat_digits [of c n] by (auto simp: zfill_def Let_def)
qed

lemma nat_of_digits_zeros: "nat_of_digits 0 (replicate k (CHR ''0'') @ s) = nat_of_digits 0 s"
  by (induction k) (simp_all add: digit_val_def)

lemma nat_of_digits_zfill: "nat_of_digits 0 (zfill w n) = Some n"
  by (simp add: zfill_def Let_def nat_of_digits_zeros nat_of_digits_str_nat)

text \<open>The years that a \<open>datetime\<close> can hold.\<close>

definition datetime_ok :: "time \<Rightarrow> bool" where
  "datetime_ok t = (let y = fst (civil_from_days (t div 86400000000)) in 1 \<le> y \<and> y \<le> 9999)"

lemma year_day_bounds: "year_day doe = (y, doy) \<Longrightarrow> 0 \<le> doy \<and> doy \<le> 365"
proof -
  assume yd: "year_day doe = (y, doy)"
  define s where "s = (doe - 36524 * min (doe div 36524) 3) mod 1461"
  define q where "q = s div 365"
  have s: "0 \<le> s" "s < 1461" unfolding s_def by simp_all
  have s': "s = 365 * q + s mod 365" "0 \<le> s mod 365" "s mod 365 < 365" unfolding q_def by simp_all
  have "doy = s - 365 * min q 3" using yd by (simp add: year_day_def s_def q_def Let_def)
  then have "doy = s - 365 * q \<or> doy = s - 1095 \<and> 3 < q" by (auto simp: min_def)
  with s s' show ?thesis by (elim disjE) linarith+
qed

lemma month_day_bounds:
  assumes "month_day doy = (m, d)" "0 \<le> doy" "doy \<le> 365"
  shows "1 \<le> m \<and> m \<le> 12 \<and> 1 \<le> d \<and> d \<le> 31"
proof -
  define mp where "mp = (5 * doy + 2) div 153"
  define e where "e = (153 * mp + 2) div 5"
  have mp': "5 * doy + 2 = 153 * mp + (5 * doy + 2) mod 153" "0 \<le> (5 * doy + 2) mod 153" "(5 * doy + 2) mod 153 < 153"
    unfolding mp_def by simp_all
  have e: "153 * mp + 2 = 5 * e + (153 * mp + 2) mod 5" "0 \<le> (153 * mp + 2) mod 5" "(153 * mp + 2) mod 5 < 5"
    unfolding e_def by simp_all
  have mp: "0 \<le> mp" "mp \<le> 11" using mp' assms(2,3) by linarith+
  have "e \<le> doy" "doy \<le> e + 30" using e mp' by linarith+
  moreover have "m = (if mp < 10 then mp + 3 else mp - 9)" "d = doy - e + 1"
    using assms(1) by (auto simp: month_day_def mp_def e_def Let_def)
  ultimately show ?thesis using mp by auto
qed

lemma civil_month_day:
  "civil_from_days n = (y, m, d) \<Longrightarrow> 1 \<le> m \<and> m \<le> 12 \<and> 1 \<le> d \<and> d \<le> 31"
  using month_day_bounds year_day_bounds
  by (force simp: civil_from_days_def Let_def split: prod.splits)

lemma iso_date_shape:
  assumes "datetime_ok t"
  shows "length (iso_date t) = 10 \<and> iso_date t ! 4 = CHR ''-'' \<and> iso_date t ! 7 = CHR ''-''"
proof -
  obtain y m d where c: "civil_from_days (t div 86400000000) = (y, m, d)" by (metis prod_cases3)
  have "nat y < 10 ^ Suc 3" "nat m < 10 ^ Suc 1" "nat d < 10 ^ Suc 1"
    using assms civil_month_day [OF c] c by (auto simp: datetime_ok_def)
  note l = this [THEN length_zfill]
  have "length (zfill 4 (nat y)) = 4" "length (zfill 2 (nat m)) = 2" "length (zfill 2 (nat d)) = 2"
    using l by (simp_all add: numeral_2_eq_2)
  then show ?thesis by (simp add: iso_date_def c nth_append)
qed

section \<open>Strings\<close>

definition hex_byte :: "nat \<Rightarrow> string" where
  "hex_byte k = [digit_char (k div 16), digit_char (k mod 16)]"

text \<open>\<open>repr\<close> of a string of characters up to code point 255.\<close>

definition repr_char :: "char \<Rightarrow> char \<Rightarrow> string" where
  "repr_char q c =
     (let k = of_char c :: nat in
      if c = q \<or> k = 92 then [char_of (92 :: nat), c]
      else if k = 9 then [char_of (92 :: nat), CHR ''t'']
      else if k = 10 then [char_of (92 :: nat), CHR ''n'']
      else if k = 13 then [char_of (92 :: nat), CHR ''r'']
      else if k < 32 \<or> (127 \<le> k \<and> k \<le> 160) \<or> k = 173 then [char_of (92 :: nat), CHR ''x''] @ hex_byte k
      else [c])"

definition py_repr :: "string \<Rightarrow> string" where
  "py_repr s =
     (let sq = char_of (39 :: nat); dq = char_of (34 :: nat);
          q = (if sq \<in> set s \<and> dq \<notin> set s then dq else sq)
      in [q] @ concat (map (repr_char q) s) @ [q])"

text \<open>\<open>str.partition\<close> at a one-character separator: head, whether found, tail.\<close>

fun partition_at :: "char \<Rightarrow> string \<Rightarrow> string \<times> bool \<times> string" where
  "partition_at sep [] = ([], False, [])"
| "partition_at sep (c # cs) =
     (if c = sep then ([], True, cs)
      else (case partition_at sep cs of (h, f, t) \<Rightarrow> (c # h, f, t)))"

lemma partition_at_join:
  "sep \<notin> set h \<Longrightarrow> partition_at sep (h @ sep # t) = (h, True, t)"
  by (induction h) auto

lemma partition_at_found:
  "partition_at sep s = (h, True, t) \<Longrightarrow> s = h @ sep # t \<and> sep \<notin> set h"
  by (induction s arbitrary: h t) (auto split: if_splits prod.splits)

lemma partition_at_notfound:
  "partition_at sep s = (h, False, t) \<Longrightarrow> sep \<notin> set s \<and> h = s \<and> t = []"
  by (induction s arbitrary: h t) (auto split: if_splits prod.splits)

text \<open>\<open>str.split\<close> at a one-character separator.\<close>

fun split_at :: "char \<Rightarrow> string \<Rightarrow> string list" where
  "split_at sep [] = [[]]"
| "split_at sep (c # cs) =
     (case split_at sep cs of
        [] \<Rightarrow> [[c]]
      | p # ps \<Rightarrow> if c = sep then [] # p # ps else (c # p) # ps)"

lemma split_at_none: "sep \<notin> set n \<Longrightarrow> split_at sep n = [n]"
  by (induction n) auto

lemma split_at_one: "sep \<notin> set d \<Longrightarrow> sep \<notin> set n \<Longrightarrow> split_at sep (d @ sep # n) = [d, n]"
  by (induction d) (auto simp: split_at_none)

definition is_hex_char :: "char \<Rightarrow> bool" where
  "is_hex_char c =
     (let k = of_char c :: nat in (48 \<le> k \<and> k \<le> 57) \<or> (97 \<le> k \<and> k \<le> 102) \<or> (65 \<le> k \<and> k \<le> 70))"

end
