(* ===== verification/Job_Models.thy ===== *)
theory Job_Models
  imports Py_Text
begin

text \<open>
  The rows of the job tables (\<^verbatim>\<open>src/sutradhara/jobs/models.py\<close>) and the database state they live
  in.  A table is the list of its rows in primary-key order of insertion; the rest of the catalog,
  which only handlers and gates read or write, is the type parameter \<open>'c\<close>.
\<close>

section \<open>Rows\<close>

datatype job_status = PENDING | QUEUED | RUNNING | SUCCEEDED | FAILED | CANCELLED

definition TERMINAL_STATUSES :: "job_status list" where
  "TERMINAL_STATUSES = [SUCCEEDED, FAILED, CANCELLED]"

definition LIVE_JOB_STATUSES :: "job_status list" where
  "LIVE_JOB_STATUSES = [PENDING, RUNNING, QUEUED]"

record job =
  j_id :: nat
  j_kind :: string
  j_params :: jobj
  j_required_resources :: "json list"
  j_prerequisites :: "nat list"
  j_status :: job_status
  j_step_state :: jobj
  j_attempts :: int
  j_not_before :: time
  j_priority :: int
  j_dedupe_key :: "string option"
  j_recon_domain :: "string option"
  j_recon_target_key :: "string option"
  j_last_error :: "string option"
  j_created_at :: time
  j_started_at :: "time option"
  j_finished_at :: "time option"

record job_attempt =
  a_id :: nat
  a_job_id :: nat
  a_job_kind :: string
  a_attempt_number :: int
  a_outcome :: job_status
  a_error :: "string option"
  a_started_at :: time
  a_finished_at :: time
  a_granted_leases :: "int dict"
  a_worker_id :: string
  a_code_version :: string
  a_detail :: jobj

record recon_condition =
  c_id :: nat
  c_domain :: string
  c_target_key :: string
  c_observed_state :: string
  c_condition :: string
  c_reason :: "string option"
  c_message :: "string option"
  c_attempt_count :: int
  c_next_eligible_at :: "time option"
  c_blocked_tool_name :: "string option"
  c_blocked_tool_version :: "string option"
  c_last_attempt_id :: "nat option"
  c_last_attempt_at :: "time option"
  c_last_success_at :: "time option"
  c_updated_at :: time

record condition_component =
  cc_condition_id :: nat
  cc_component :: string

record 'c engine_db =
  jobs :: "job list"
  job_attempts :: "job_attempt list"
  conditions :: "recon_condition list"
  condition_components :: "condition_component list"
  catalog :: 'c

section \<open>Keys\<close>

text \<open>The integer primary key of a new row: one above the largest in use.\<close>

definition fresh_id :: "nat list \<Rightarrow> nat" where
  "fresh_id ids = fold max ids 0 + 1"

lemma fold_max_ge: "x \<in> set ids \<Longrightarrow> x \<le> fold max ids (b :: nat)"
proof -
  have base: "b \<le> fold max ids b" for ids and b :: nat
    by (induction ids arbitrary: b) (auto intro: order_trans [OF max.cobounded2])
  show "x \<in> set ids \<Longrightarrow> x \<le> fold max ids b"
  proof (induction ids arbitrary: b)
    case (Cons a ids)
    then show ?case using base [of "max a b" ids] by auto
  qed simp
qed

lemma fresh_id_notin [simp]: "fresh_id ids \<notin> set ids"
  using fold_max_ge [of _ ids 0] by (force simp: fresh_id_def)

lemma fresh_id_greater: "x \<in> set ids \<Longrightarrow> x < fresh_id ids"
  using fold_max_ge [of x ids 0] by (simp add: fresh_id_def)

definition is_live :: "job \<Rightarrow> bool" where
  "is_live j = (j_status j \<in> set LIVE_JOB_STATUSES)"

definition get_job :: "job list \<Rightarrow> nat \<Rightarrow> job option" where
  "get_job js i = find (\<lambda>j. j_id j = i) js"

definition put_job :: "job \<Rightarrow> job list \<Rightarrow> job list" where
  "put_job j js = update_where (\<lambda>r. j_id r = j_id j) (\<lambda>_. j) js"

text \<open>
  The constraints the schema enforces on the job table: unique primary keys, and the partial unique
  index \<open>uq_job_dedupe_key_live\<close> over live rows.
\<close>

definition dedupe_keys_live :: "job list \<Rightarrow> string list" where
  "dedupe_keys_live js = List.map_filter j_dedupe_key (filter is_live js)"

definition jobs_ok :: "job list \<Rightarrow> bool" where
  "jobs_ok js = (distinct (map j_id js) \<and> distinct (dedupe_keys_live js))"

definition conditions_ok :: "recon_condition list \<Rightarrow> bool" where
  "conditions_ok cs =
     (distinct (map c_id cs) \<and> distinct (map (\<lambda>c. (c_domain c, c_target_key c)) cs))"

lemma get_job_Some: "get_job js i = Some j \<Longrightarrow> j \<in> set js \<and> j_id j = i"
  by (auto simp: get_job_def dest: find_SomeD)

lemma get_job_None: "get_job js i = None \<longleftrightarrow> i \<notin> j_id ` set js"
  by (auto simp: get_job_def find_None_iff)

lemma get_job_unique:
  "distinct (map j_id js) \<Longrightarrow> j \<in> set js \<Longrightarrow> get_job js (j_id j) = Some j"
  by (induction js) (auto simp: get_job_def rev_image_eqI)

lemma put_job_ids [simp]: "map j_id (put_job j js) = map j_id js"
  unfolding put_job_def by (rule map_update_where) simp

lemma put_job_set_ids [simp]: "j_id ` set (put_job j js) = j_id ` set js"
  using put_job_ids [of j js] by (metis list.set_map)

lemma get_job_put_job:
  "get_job (put_job j js) i =
   (if i = j_id j then (if i \<in> j_id ` set js then Some j else None) else get_job js i)"
  by (induction js) (auto simp: get_job_def put_job_def)

text \<open>
  A change of a row that keeps its key and does not turn a dead row live keeps the table's
  constraints; so does appending a row whose key is not live.
\<close>

lemma set_map_filter: "set (List.map_filter g rows) = {y. \<exists>r \<in> set rows. g r = Some y}"
  by (induction rows) (auto simp: List.map_filter_simps split: option.splits)

lemma map_filter_update_set:
  assumes "\<And>r. r \<in> set rows \<Longrightarrow> P r \<Longrightarrow> g (f r) = g r \<or> g (f r) = None"
  shows "set (List.map_filter g (update_where P f rows)) \<subseteq> set (List.map_filter g rows)"
  unfolding set_map_filter set_update_where using assms by force

lemma map_filter_update_distinct:
  assumes "\<And>r. r \<in> set rows \<Longrightarrow> P r \<Longrightarrow> g (f r) = g r \<or> g (f r) = None"
    and "distinct (List.map_filter g rows)"
  shows "distinct (List.map_filter g (update_where P f rows))"
  using assms
proof (induction rows)
  case (Cons a rows)
  have sub: "set (List.map_filter g (update_where P f rows)) \<subseteq> set (List.map_filter g rows)"
    by (rule map_filter_update_set) (simp add: Cons.prems(1))
  have IH: "distinct (List.map_filter g (update_where P f rows))"
    using Cons.prems by (intro Cons.IH) (auto simp: List.map_filter_simps split: option.splits)
  have "P a \<Longrightarrow> g (f a) = g a \<or> g (f a) = None" by (rule Cons.prems(1)) simp
  with sub IH Cons.prems(2) show ?case
    by (cases "g a") (auto simp: List.map_filter_simps split: option.splits)
qed (simp add: List.map_filter_simps)

definition live_key :: "job \<Rightarrow> string option" where
  "live_key j = (if is_live j then j_dedupe_key j else None)"

lemma dedupe_keys_live_alt: "dedupe_keys_live js = List.map_filter live_key js"
  by (induction js) (auto simp: dedupe_keys_live_def live_key_def List.map_filter_simps split: option.splits)

lemma jobs_ok_update:
  assumes "jobs_ok js" "\<And>r. j_id (f r) = j_id r"
    and "\<And>r. r \<in> set js \<Longrightarrow> P r \<Longrightarrow> live_key (f r) = live_key r \<or> live_key (f r) = None"
  shows "jobs_ok (update_where P f js)"
  using assms map_filter_update_distinct [of js P live_key f]
  by (auto simp: jobs_ok_def dedupe_keys_live_alt map_update_where)

lemma update_where_cong:
  "(\<And>r. r \<in> set rows \<Longrightarrow> P r = Q r) \<Longrightarrow> (\<And>r. r \<in> set rows \<Longrightarrow> Q r \<Longrightarrow> f r = g r) \<Longrightarrow>
   update_where P f rows = update_where Q g rows"
  by (induction rows) auto

lemma jobs_ok_put_job:
  assumes ok: "jobs_ok js" and old: "get_job js (j_id j) = Some j0"
    and key: "live_key j = live_key j0 \<or> live_key j = None"
  shows "jobs_ok (put_job j js)"
proof -
  have "r = j0" if "r \<in> set js" "j_id r = j_id j" for r
    using that old ok get_job_unique [of js r] by (auto simp: jobs_ok_def)
  then have "\<And>r. r \<in> set js \<Longrightarrow> j_id r = j_id j \<Longrightarrow> live_key j = live_key r \<or> live_key j = None"
    using key by auto
  then show ?thesis
    using ok map_filter_update_distinct [of js "\<lambda>r. j_id r = j_id j" live_key "\<lambda>_. j"]
    by (simp add: jobs_ok_def dedupe_keys_live_alt put_job_def [symmetric])
qed

lemma jobs_ok_append:
  assumes "jobs_ok js" "j_id j = fresh_id (map j_id js)"
    and "\<And>k. live_key j = Some k \<Longrightarrow> k \<notin> set (dedupe_keys_live js)"
  shows "jobs_ok (js @ [j])"
  using assms fresh_id_notin [of "map j_id js"]
  by (auto simp: jobs_ok_def dedupe_keys_live_alt List.map_filter_def split: option.splits)

end
