(* ===== verification/Job_Context.thy ===== *)
theory Job_Context
  imports Job_Models "HOL-Library.Multiset"
begin

text \<open>
  The per-run job context (\<^verbatim>\<open>src/sutradhara/jobs/registry.py\<close>), the component tags the engine seeds it
  with (\<^verbatim>\<open>job_context\<close>, \<^verbatim>\<open>_touch_param_components\<close> and \<^verbatim>\<open>attempt_detail\<close> of \<^verbatim>\<open>jobs/engine.py\<close>), and the
  checkpoint-batch obligations kept in a job's \<open>step_state\<close>.  Parameter values are JSON, so the
  bytes branches of the code, which serve in-process callers, have no counterpart here.
\<close>

section \<open>Context\<close>

record job_context =
  x_granted :: "int dict"
  x_observations :: "jobj list"
  x_components :: "string list"
  x_component_parents :: "(string \<times> string) list"
  x_batch_touched :: bool

datatype context_error = EmptyComponent | EmptyParent

definition add_component :: "string \<Rightarrow> job_context \<Rightarrow> job_context" where
  "add_component c ctx =
     (if c \<in> set (x_components ctx) then ctx
      else ctx\<lparr>x_components := x_components ctx @ [c]\<rparr>)"

text \<open>
  \<open>touch\<close> raises on an empty name; a raise after the component was added keeps the component, so the
  context is returned next to the error.
\<close>

definition touch :: "string \<Rightarrow> string option \<Rightarrow> job_context \<Rightarrow> job_context \<times> context_error option" where
  "touch component parent ctx =
     (if component = [] then (ctx, Some EmptyComponent)
      else let ctx1 = add_component component ctx in
        (case parent of
           None \<Rightarrow> (ctx1, None)
         | Some p \<Rightarrow>
             if p = [] then (ctx1, Some EmptyParent)
             else let ctx2 = add_component p ctx1 in
               (if (component, p) \<in> set (x_component_parents ctx2) then ctx2
                else ctx2\<lparr>x_component_parents := x_component_parents ctx2 @ [(component, p)]\<rparr>, None)))"

definition observe :: "jobj \<Rightarrow> job_context \<Rightarrow> job_context" where
  "observe facts ctx = ctx\<lparr>x_observations := x_observations ctx @ [facts]\<rparr>"

definition observe_session_open ::
  "string \<Rightarrow> int \<Rightarrow> string option \<Rightarrow> string option \<Rightarrow> job_context \<Rightarrow> job_context" where
  "observe_session_open session_id drive_element_address tape_uuid library ctx =
     (let ctx1 = observe [(''session_id'', JStr session_id),
                          (''drive_element_address'', JInt drive_element_address)] ctx;
          ctx2 = (case tape_uuid of None \<Rightarrow> ctx1 | Some t \<Rightarrow> fst (touch (''tape:'' @ t) None ctx1));
          drive = ''drive:'' @ str_int drive_element_address
      in case library of
           None \<Rightarrow> fst (touch drive None ctx2)
         | Some l \<Rightarrow> fst (touch drive (Some (''library:'' @ l)) ctx2))"

definition component_value :: "json option \<Rightarrow> string option" where
  "component_value v =
     (case v of
        Some (JStr s) \<Rightarrow> if s = [] then None else Some s
      | Some (JInt i) \<Rightarrow> Some (str_int i)
      | _ \<Rightarrow> None)"

text \<open>One \<open>for key in (...)\<close> loop of \<open>_touch_param_components\<close>.\<close>

fun touch_keys :: "(string \<Rightarrow> string) \<Rightarrow> jobj \<Rightarrow> string list \<Rightarrow> job_context \<Rightarrow> job_context" where
  "touch_keys tag params [] ctx = ctx"
| "touch_keys tag params (key # rest) ctx =
     touch_keys tag params rest
       (case component_value (map_of params key) of
          None \<Rightarrow> ctx
        | Some value \<Rightarrow> fst (touch (tag value) None ctx))"

definition asset_tag :: "string \<Rightarrow> string" where
  "asset_tag value = ''asset:'' @ (if starts_with ''sha256:'' value then value else ''sha256:'' @ value)"

definition dest_tag :: "string \<Rightarrow> string \<Rightarrow> string" where
  "dest_tag host value = ''dest:'' @ (if starts_with ''/'' value then host @ '':'' @ value else value)"

definition touch_param_components :: "string \<Rightarrow> jobj \<Rightarrow> job_context \<Rightarrow> job_context" where
  "touch_param_components host params ctx =
     touch_keys (dest_tag host) params [''dest_path'', ''destination'', ''output_path'']
       (touch_keys (\<lambda>v. ''backend:'' @ v) params [''backend'', ''backend_name'', ''target_backend'']
         (touch_keys (\<lambda>v. ''library:'' @ v) params [''library'', ''library_id'', ''library_uuid'']
           (touch_keys (\<lambda>v. ''drive:'' @ v) params [''drive'', ''drive_id'', ''drive_element_address'']
             (touch_keys (\<lambda>v. ''tape:'' @ v) params [''tape'', ''tape_id'', ''tape_uuid'', ''media_id'']
               (touch_keys asset_tag params [''asset_hash'', ''content_sha256''] ctx)))))"

definition new_context :: "string \<Rightarrow> int dict \<Rightarrow> job \<Rightarrow> job_context" where
  "new_context host granted job =
     touch_param_components host (j_params job)
       (fst (touch (''job:'' @ j_kind job) None
          \<lparr>x_granted = granted, x_observations = [], x_components = [], x_component_parents = [],
           x_batch_touched = False\<rparr>))"

definition attempt_detail :: "jobj \<Rightarrow> job_context \<Rightarrow> jobj" where
  "attempt_detail step_state ctx =
     [(''step_state'', JObj step_state),
      (''components'', JArr (map JStr (dedup_on id [] (x_components ctx)))),
      (''observations'', JArr (map JObj (x_observations ctx)))] @
     (if x_component_parents ctx = [] then []
      else [(''component_parents'',
             JArr (map (\<lambda>(c, p). JObj [(''component'', JStr c), (''parent'', JStr p)])
                       (x_component_parents ctx)))])"

section \<open>Checkpoint batches\<close>

definition CHECKPOINT_BATCH_STATE_KEY :: string where
  "CHECKPOINT_BATCH_STATE_KEY = ''checkpoint_batches''"

text \<open>
  \<open>dict(x or {})\<close> and \<open>list(x or [])\<close> on the stored JSON.  \<open>None\<close> stands for a stored value that is
  not of the shape this code writes (the code then raises while reading it).
\<close>

definition json_falsy :: "json \<Rightarrow> bool" where
  "json_falsy j =
     (case j of
        JNull \<Rightarrow> True | JBool b \<Rightarrow> \<not> b | JInt i \<Rightarrow> i = 0 | JFloat f \<Rightarrow> f = Fin 0
      | JStr s \<Rightarrow> s = [] | JArr xs \<Rightarrow> xs = [] | JObj fs \<Rightarrow> fs = [])"

definition obj_or_empty :: "json option \<Rightarrow> jobj option" where
  "obj_or_empty v =
     (case v of
        None \<Rightarrow> Some []
      | Some j \<Rightarrow> if json_falsy j then Some [] else (case j of JObj fs \<Rightarrow> Some fs | _ \<Rightarrow> None))"

definition objs_or_empty :: "json option \<Rightarrow> jobj list option" where
  "objs_or_empty v =
     (case v of
        None \<Rightarrow> Some []
      | Some j \<Rightarrow>
          if json_falsy j then Some []
          else (case j of
                  JArr xs \<Rightarrow> those (map (\<lambda>x. case x of JObj fs \<Rightarrow> Some fs | _ \<Rightarrow> None) xs)
                | _ \<Rightarrow> None))"

definition batches_of :: "jobj \<Rightarrow> jobj dict option" where
  "batches_of state =
     (case obj_or_empty (map_of state CHECKPOINT_BATCH_STATE_KEY) of
        None \<Rightarrow> None
      | Some fs \<Rightarrow> those (map (\<lambda>(k, v). case v of JObj b \<Rightarrow> Some (k, b) | _ \<Rightarrow> None) fs))"

definition batch_entry :: "string \<Rightarrow> int \<Rightarrow> string \<Rightarrow> jobj" where
  "batch_entry caller_object_id provisional_ordinal source =
     [(''caller_object_id'', JStr caller_object_id), (''provisional_ordinal'', JInt provisional_ordinal),
      (''source'', JStr source), (''restart_offset'', JInt 0)]"

definition entry_caller :: "jobj \<Rightarrow> json option" where
  "entry_caller item = map_of item ''caller_object_id''"

definition entry_key :: "jobj \<Rightarrow> (int \<times> string) option" where
  "entry_key item =
     (case (map_of item ''provisional_ordinal'', map_of item ''caller_object_id'') of
        (Some (JInt n), Some (JStr s)) \<Rightarrow> Some (n, s) | _ \<Rightarrow> None)"

definition put_batches :: "jobj dict \<Rightarrow> jobj \<Rightarrow> jobj" where
  "put_batches batches state =
     dict_set CHECKPOINT_BATCH_STATE_KEY (JObj (map (\<lambda>(k, b). (k, JObj b)) batches)) state"

definition record_batch_written :: "string \<Rightarrow> int \<Rightarrow> string \<Rightarrow> string \<Rightarrow> jobj \<Rightarrow> jobj option" where
  "record_batch_written batch_id provisional_ordinal caller_object_id source state =
     (case batches_of state of
        None \<Rightarrow> None
      | Some batches \<Rightarrow>
          (case objs_or_empty (map_of (dict_get batches batch_id []) ''objects'') of
             None \<Rightarrow> None
           | Some objs \<Rightarrow>
               let objects = filter (\<lambda>item. entry_caller item \<noteq> Some (JStr caller_object_id)) objs @
                             [batch_entry caller_object_id provisional_ordinal source]
               in if list_all (\<lambda>item. entry_key item \<noteq> None) objects
                  then Some (put_batches
                         (dict_set batch_id
                            [(''objects'', JArr (map JObj (sort_key (\<lambda>i. the (entry_key i)) objects)))]
                            batches) state)
                  else None))"

definition record_batch_checkpointed :: "string \<Rightarrow> string list \<Rightarrow> jobj \<Rightarrow> jobj option" where
  "record_batch_checkpointed batch_id caller_object_ids state =
     (case batches_of state of
        None \<Rightarrow> None
      | Some batches \<Rightarrow>
          (case map_of batches batch_id of
             None \<Rightarrow> Some state
           | Some batch \<Rightarrow>
               (case objs_or_empty (map_of batch ''objects'') of
                  None \<Rightarrow> None
                | Some objs \<Rightarrow>
                    let objects = filter (\<lambda>item. entry_caller item \<notin> (Some \<circ> JStr) ` set caller_object_ids) objs;
                        batches1 = (if objects = [] then dict_pop batch_id batches
                                    else dict_set batch_id
                                           (dict_set ''objects'' (JArr (map JObj objects)) batch) batches)
                    in if batches1 = [] then Some (dict_pop CHECKPOINT_BATCH_STATE_KEY state)
                       else Some (put_batches batches1 state))))"

section \<open>Component tags\<close>

definition context_ok :: "job_context \<Rightarrow> bool" where
  "context_ok ctx \<longleftrightarrow>
     distinct (x_components ctx) \<and> [] \<notin> set (x_components ctx) \<and> distinct (x_component_parents ctx) \<and>
     (\<forall>(c, p) \<in> set (x_component_parents ctx). c \<in> set (x_components ctx) \<and> p \<in> set (x_components ctx))"

lemma add_component_ok: "context_ok ctx \<Longrightarrow> c \<noteq> [] \<Longrightarrow> context_ok (add_component c ctx)"
  by (auto simp: context_ok_def add_component_def)

lemma add_component_set [simp]: "set (x_components (add_component c ctx)) = insert c (set (x_components ctx))"
  by (auto simp: add_component_def)

lemma add_component_parents [simp]: "x_component_parents (add_component c ctx) = x_component_parents ctx"
  by (simp add: add_component_def)

lemma add_relation_ok:
  "context_ok ctx \<Longrightarrow> c \<in> set (x_components ctx) \<Longrightarrow> q \<in> set (x_components ctx) \<Longrightarrow>
   ps = x_component_parents ctx \<Longrightarrow> (c, q) \<notin> set ps \<Longrightarrow>
   context_ok (ctx\<lparr>x_component_parents := ps @ [(c, q)]\<rparr>)"
  by (auto simp: context_ok_def)

lemma touch_ok: "context_ok ctx \<Longrightarrow> context_ok (fst (touch c p ctx))"
  by (auto simp: touch_def Let_def add_component_ok add_relation_ok split: option.splits)

lemma touch_keeps: "set (x_components ctx) \<subseteq> set (x_components (fst (touch c p ctx)))"
  by (auto simp: touch_def Let_def split: option.splits)

lemma touch_adds: "c \<noteq> [] \<Longrightarrow> c \<in> set (x_components (fst (touch c p ctx)))"
  by (auto simp: touch_def Let_def split: option.splits)

lemma touch_granted [simp]: "x_granted (fst (touch c p ctx)) = x_granted ctx"
  by (simp add: touch_def add_component_def Let_def split: option.splits)

lemma touch_keys_ok: "context_ok ctx \<Longrightarrow> context_ok (touch_keys tag params keys ctx)"
  by (induction keys arbitrary: ctx) (auto simp: touch_ok split: option.splits)

lemma touch_keys_keeps: "set (x_components ctx) \<subseteq> set (x_components (touch_keys tag params keys ctx))"
proof (induction keys arbitrary: ctx)
  case (Cons k keys)
  let ?c = "case component_value (map_of params k) of None \<Rightarrow> ctx | Some v \<Rightarrow> fst (touch (tag v) None ctx)"
  have "set (x_components ctx) \<subseteq> set (x_components ?c)" by (auto split: option.splits dest: subsetD [OF touch_keeps])
  with Cons.IH [of ?c] show ?case by auto
qed simp

lemma touch_keys_adds:
  "k \<in> set keys \<Longrightarrow> component_value (map_of params k) = Some v \<Longrightarrow> tag v \<noteq> [] \<Longrightarrow>
   tag v \<in> set (x_components (touch_keys tag params keys ctx))"
proof (induction keys arbitrary: ctx)
  case (Cons k' keys)
  show ?case
  proof (cases "k = k'")
    case True
    with Cons.prems touch_adds [of "tag v" None ctx] show ?thesis
      using subsetD [OF touch_keys_keeps] by simp
  qed (use Cons in auto)
qed simp

lemma new_context_ok: "context_ok (new_context host granted job)"
  unfolding new_context_def touch_param_components_def
  by (intro touch_keys_ok touch_ok) (simp add: context_ok_def)

lemma touch_batch [simp]: "x_batch_touched (fst (touch c p ctx)) = x_batch_touched ctx"
  by (simp add: touch_def add_component_def Let_def split: option.splits)

lemma touch_keys_batch [simp]: "x_batch_touched (touch_keys tag params keys ctx) = x_batch_touched ctx"
  by (induction keys arbitrary: ctx) (auto split: option.splits)

lemma new_context_untouched: "\<not> x_batch_touched (new_context host granted job)"
  by (simp add: new_context_def touch_param_components_def del: touch_keys.simps)

section \<open>Checkpoint obligations\<close>

text \<open>The objects of a batch that must be sent again if the batch is lost.\<close>

definition batch_objects :: "string \<Rightarrow> jobj \<Rightarrow> jobj list option" where
  "batch_objects batch_id state =
     (case batches_of state of
        None \<Rightarrow> None
      | Some batches \<Rightarrow> objs_or_empty (map_of (dict_get batches batch_id []) ''objects''))"

lemma those_map_Some: "(\<And>x. x \<in> set xs \<Longrightarrow> f (g x) = Some (h x)) \<Longrightarrow> those (map f (map g xs)) = Some (map h xs)"
  by (induction xs) auto

lemma objs_or_empty_None [simp]: "objs_or_empty None = Some []"
  by (simp add: objs_or_empty_def)

lemma objs_or_empty_JArr [simp]: "objs_or_empty (Some (JArr (map JObj xs))) = Some xs"
  using those_map_Some [of xs "\<lambda>x. case x of JObj fs \<Rightarrow> Some fs | _ \<Rightarrow> None" JObj id]
  by (auto simp: objs_or_empty_def json_falsy_def)

lemma batches_of_put [simp]: "batches_of (put_batches batches state) = Some batches"
proof -
  have "those (map (\<lambda>(k, v). case v of JObj b \<Rightarrow> Some (k, b) | _ \<Rightarrow> None)
               (map (\<lambda>(k, b). (k, JObj b)) batches)) = Some (map id batches)"
    by (rule those_map_Some) auto
  then show ?thesis
    by (auto simp: batches_of_def put_batches_def obj_or_empty_def json_falsy_def)
qed

lemma batches_of_pop [simp]: "batches_of (dict_pop CHECKPOINT_BATCH_STATE_KEY state) = Some []"
  by (simp add: batches_of_def obj_or_empty_def)

lemma batch_objects_Nil: "batches_of state = Some [] \<Longrightarrow> batch_objects b state = Some []"
  by (simp add: batch_objects_def objs_or_empty_def)

lemma put_batches_other: "k \<noteq> CHECKPOINT_BATCH_STATE_KEY \<Longrightarrow> map_of (put_batches bs state) k = map_of state k"
  by (simp add: put_batches_def)

lemma batch_objects_put:
  "batch_objects b (put_batches bs state) = objs_or_empty (map_of (dict_get bs b []) ''objects'')"
  by (simp add: batch_objects_def)

text \<open>
  Recording a written object makes it an obligation of its batch: the batch then lists exactly one
  entry for the caller's object, restarting at byte zero, and the entries of all other objects as
  before, in order of ordinal and name; no other batch and no other part of the step state changes.
\<close>

theorem batch_written_obligation:
  assumes "record_batch_written b n c src state = Some state'"
  shows "\<exists>objs objs'. batch_objects b state = Some objs \<and> batch_objects b state' = Some objs' \<and>
           mset objs' = add_mset (batch_entry c n src)
                          (filter_mset (\<lambda>i. entry_caller i \<noteq> Some (JStr c)) (mset objs)) \<and>
           sorted (map (\<lambda>i. the (entry_key i)) objs') \<and>
           (\<forall>b'. b' \<noteq> b \<longrightarrow> batch_objects b' state' = batch_objects b' state) \<and>
           (\<forall>k. k \<noteq> CHECKPOINT_BATCH_STATE_KEY \<longrightarrow> map_of state' k = map_of state k)"
proof -
  from assms obtain bs objs where bs: "batches_of state = Some bs"
    and objs: "objs_or_empty (map_of (dict_get bs b []) ''objects'') = Some objs"
    by (auto simp: record_batch_written_def split: option.splits)
  let ?new = "filter (\<lambda>i. entry_caller i \<noteq> Some (JStr c)) objs @ [batch_entry c n src]"
  let ?sorted = "sort_key (\<lambda>i. the (entry_key i)) ?new"
  have st: "state' = put_batches (dict_set b [(''objects'', JArr (map JObj ?sorted))] bs) state"
    using assms by (simp add: record_batch_written_def bs objs Let_def split: if_splits)
  have "batch_objects b state = Some objs" by (simp add: batch_objects_def bs objs)
  moreover have "batch_objects b state' = Some ?sorted"
    unfolding st batch_objects_put by simp
  moreover have "batch_objects b' state' = batch_objects b' state" if "b' \<noteq> b" for b'
    using that unfolding st batch_objects_put by (simp add: batch_objects_def bs dict_get_def)
  moreover have "mset ?sorted = add_mset (batch_entry c n src)
      (filter_mset (\<lambda>i. entry_caller i \<noteq> Some (JStr c)) (mset objs))"
    by (simp add: mset_filter)
  ultimately show ?thesis
    using put_batches_other unfolding st by (intro exI [of _ objs] exI [of _ ?sorted]) simp
qed

text \<open>
  A checkpoint clears exactly the objects it names: the batch keeps, in order, the entries of every
  other object, and no other batch and no other part of the step state changes.
\<close>

theorem batch_checkpoint_clears:
  assumes "record_batch_checkpointed b ids state = Some state'"
  shows "\<exists>objs. batch_objects b state = Some objs \<and>
           batch_objects b state' =
             Some (filter (\<lambda>i. entry_caller i \<notin> (Some \<circ> JStr) ` set ids) objs) \<and>
           (\<forall>b'. b' \<noteq> b \<longrightarrow> batch_objects b' state' = batch_objects b' state) \<and>
           (\<forall>k. k \<noteq> CHECKPOINT_BATCH_STATE_KEY \<longrightarrow> map_of state' k = map_of state k)"
proof -
  from assms obtain bs where bs: "batches_of state = Some bs"
    by (auto simp: record_batch_checkpointed_def split: option.splits)
  show ?thesis
  proof (cases "map_of bs b")
    case None
    then have "batch_objects b state = Some []"
      by (simp add: batch_objects_def bs dict_get_def objs_or_empty_def)
    moreover have "state' = state" using assms by (simp add: record_batch_checkpointed_def bs None)
    ultimately show ?thesis by simp
  next
    case (Some batch)
    with assms obtain objs where objs: "objs_or_empty (map_of batch ''objects'') = Some objs"
      by (auto simp: record_batch_checkpointed_def bs split: option.splits)
    let ?kept = "filter (\<lambda>i. entry_caller i \<notin> (Some \<circ> JStr) ` set ids) objs"
    let ?bs = "if ?kept = [] then dict_pop b bs
               else dict_set b (dict_set ''objects'' (JArr (map JObj ?kept)) batch) bs"
    have st: "state' = (if ?bs = [] then dict_pop CHECKPOINT_BATCH_STATE_KEY state else put_batches ?bs state)"
      using assms unfolding record_batch_checkpointed_def bs Some objs Let_def option.case
      by (metis option.inject)
    have new: "batches_of state' = Some ?bs" unfolding st by simp
    have "batch_objects b state = Some objs" by (simp add: batch_objects_def bs Some objs dict_get_def)
    moreover have "batch_objects b state' = Some ?kept"
      unfolding batch_objects_def new by (simp add: dict_get_def)
    moreover have "batch_objects b' state' = batch_objects b' state" if "b' \<noteq> b" for b'
      unfolding batch_objects_def new bs using that by (simp add: dict_get_def)
    moreover have "map_of state' k = map_of state k" if "k \<noteq> CHECKPOINT_BATCH_STATE_KEY" for k
      unfolding st using that put_batches_other by simp
    ultimately show ?thesis by blast
  qed
qed

definition example_written :: jobj where
  "example_written =
     put_batches [(''b1'', [(''objects'', JArr (map JObj [batch_entry ''o1'' 1 ''/s/o1'']))])] []"

theorem batch_written_obligation_witness:
  "\<exists>objs objs'. batch_objects ''b1'' [] = Some objs \<and> batch_objects ''b1'' example_written = Some objs' \<and>
     mset objs' = add_mset (batch_entry ''o1'' 1 ''/s/o1'')
                    (filter_mset (\<lambda>i. entry_caller i \<noteq> Some (JStr ''o1'')) (mset objs))"
proof -
  have "record_batch_written ''b1'' 1 ''o1'' ''/s/o1'' [] = Some example_written"
    by (simp add: record_batch_written_def batches_of_def obj_or_empty_def objs_or_empty_def
        example_written_def entry_key_def batch_entry_def dict_set_def)
  from batch_written_obligation [OF this] show ?thesis by blast
qed

theorem batch_checkpoint_clears_witness:
  "\<exists>objs. batch_objects ''b1'' example_written = Some objs \<and>
     batch_objects ''b1'' [] = Some (filter (\<lambda>i. entry_caller i \<notin> (Some \<circ> JStr) ` set [''o1'']) objs)"
proof -
  have "batches_of example_written =
      Some [(''b1'', [(''objects'', JArr (map JObj [batch_entry ''o1'' 1 ''/s/o1'']))])]"
    unfolding example_written_def by (rule batches_of_put)
  moreover have "dict_pop CHECKPOINT_BATCH_STATE_KEY example_written = []"
    by (simp add: example_written_def put_batches_def dict_set_def dict_pop_def)
  ultimately have "record_batch_checkpointed ''b1'' [''o1''] example_written = Some []"
    using objs_or_empty_JArr [of "[batch_entry ''o1'' 1 ''/s/o1'']"]
    by (simp add: record_batch_checkpointed_def entry_caller_def batch_entry_def dict_pop_def)
  from batch_checkpoint_clears [OF this] show ?thesis by blast
qed

end
