(* ===== verification/Job_Config.thy ===== *)
theory Job_Config
  imports Py_Text
begin

text \<open>
  Worker configuration and retry backoff (\<^verbatim>\<open>src/sutradhara/jobs/config.py\<close>).  Floating-point
  numbers are rationals; the value \<open>u\<close> that \<open>random.random()\<close> returns (between 0 and 1) is an argument.
\<close>

section \<open>Model\<close>

definition DEFAULT_MAX_BACKOFF_SECONDS :: int where
  "DEFAULT_MAX_BACKOFF_SECONDS = 3600"

definition DEFAULT_IO_CAPACITY :: int where
  "DEFAULT_IO_CAPACITY = 2"

definition jittered_backoff_seconds :: "rat \<Rightarrow> rat \<Rightarrow> rat \<Rightarrow> rat" where
  "jittered_backoff_seconds u base max_seconds =
     (if base \<le> 0 then 0
      else let clamp = max 0 max_seconds;
               lower = base * (8 / 10);
               upper = min (base * (12 / 10)) clamp
           in if lower > upper then clamp
              else lower + (upper - lower) * u)"

record retry_policy =
  max_attempts :: int
  backoff_seconds :: int

definition retry_policy_default :: retry_policy where
  "retry_policy_default = \<lparr>max_attempts = 1, backoff_seconds = 30\<rparr>"

definition delay_seconds :: "rat \<Rightarrow> retry_policy \<Rightarrow> int \<Rightarrow> int \<Rightarrow> rat" where
  "delay_seconds u p attempts max_seconds =
     (if attempts \<le> 0 then 0
      else let multiplier = (2 :: int) ^ nat (max 0 (attempts - 1))
           in jittered_backoff_seconds u (of_int (backoff_seconds p * multiplier)) (of_int max_seconds))"

record worker_config =
  capacities :: "int dict"
  retry :: retry_policy
  per_kind_retry :: "retry_policy dict"
  aging_threshold_scans :: int
  executor_workers :: "int option"
  max_backoff_seconds :: int

definition defaults :: "int option \<Rightarrow> worker_config" where
  "defaults cpu_count =
     (let cpu = (case cpu_count of None \<Rightarrow> 1 | Some n \<Rightarrow> if n = 0 then 1 else n)
      in \<lparr>capacities = [(''cpu'', cpu), (''io'', DEFAULT_IO_CAPACITY), (''tape_drive'', 0), (''gpu'', 0)],
          retry = retry_policy_default, per_kind_retry = [], aging_threshold_scans = 3,
          executor_workers = Some (max cpu (max DEFAULT_IO_CAPACITY 1)),
          max_backoff_seconds = DEFAULT_MAX_BACKOFF_SECONDS\<rparr>)"

definition with_pool_overrides :: "worker_config \<Rightarrow> int dict \<Rightarrow> worker_config" where
  "with_pool_overrides c overrides =
     (let caps = dict_merge (capacities c) overrides
      in c\<lparr>capacities := caps,
           executor_workers :=
             (case executor_workers c of
                Some n \<Rightarrow> Some n
              | None \<Rightarrow> Some (if caps = [] then 1 else max (Max (set (map snd caps))) 1))\<rparr>)"

definition retry_for_kind :: "worker_config \<Rightarrow> string \<Rightarrow> retry_policy" where
  "retry_for_kind c kind = dict_get (per_kind_retry c) kind (retry c)"

section \<open>Bounds\<close>

lemma jitter_point_bounds:
  fixes lo up u :: rat
  assumes "lo \<le> up" "0 \<le> u" "u \<le> 1"
  shows "lo \<le> lo + (up - lo) * u" "lo + (up - lo) * u \<le> up"
  using assms mult_left_mono [of u 1 "up - lo"] mult_nonneg_nonneg [of "up - lo" u] by auto

lemma jittered_backoff_bounds:
  assumes u: "0 \<le> u" "u \<le> 1"
  shows "0 \<le> jittered_backoff_seconds u base m \<and> jittered_backoff_seconds u base m \<le> max 0 m"
proof (cases "base \<le> 0 \<or> base * (8 / 10) > min (base * (12 / 10)) (max 0 m)")
  case True
  then have "jittered_backoff_seconds u base m = 0 \<or> jittered_backoff_seconds u base m = max 0 m"
    unfolding jittered_backoff_seconds_def Let_def by presburger
  then show ?thesis by (elim disjE) (simp_all only: max.cobounded1 order_refl simp_thms)
next
  case False
  let ?lo = "base * (8 / 10)" and ?up = "min (base * (12 / 10)) (max 0 m)"
  have le: "?lo \<le> ?up" and pos: "0 < base" using False by auto
  have eq: "jittered_backoff_seconds u base m = ?lo + (?up - ?lo) * u"
    using False by (simp add: jittered_backoff_seconds_def Let_def)
  have lo: "0 \<le> ?lo" using pos by simp
  have up: "?up \<le> max 0 m" by simp
  show ?thesis unfolding eq
    using order_trans [OF lo jitter_point_bounds(1) [OF le u]]
      order_trans [OF jitter_point_bounds(2) [OF le u] up] by (rule conjI)
qed

lemma jittered_backoff_window:
  assumes u: "0 \<le> u" "u \<le> 1" and b: "0 < base" and m: "base * (12 / 10) \<le> m"
  shows "base * (8 / 10) \<le> jittered_backoff_seconds u base m \<and>
         jittered_backoff_seconds u base m \<le> base * (12 / 10)"
proof -
  have "min (base * (12 / 10)) (max 0 m) = base * (12 / 10)" using m by auto
  moreover have "base * (8 / 10) \<le> base * (12 / 10)" using b by simp
  ultimately show ?thesis
    using b jitter_point_bounds [OF \<open>base * (8 / 10) \<le> base * (12 / 10)\<close> u]
    by (simp add: jittered_backoff_seconds_def)
qed

text \<open>
  A retry delay never goes below zero nor above the configured maximum (read as zero when it is
  negative), whatever the random draw; while 1.2 times the doubled base stays under the maximum the
  delay is within 20 percent of the base doubled once per earlier attempt.
\<close>

theorem delay_seconds_bounds:
  assumes "0 \<le> u" "u \<le> 1"
  shows "0 \<le> delay_seconds u p n m \<and> delay_seconds u p n m \<le> of_int (max 0 m) \<and>
         (1 \<le> n \<and> 0 < backoff_seconds p \<and>
            of_int (backoff_seconds p * 2 ^ nat (n - 1)) * (12 / 10) \<le> (of_int m :: rat) \<longrightarrow>
          of_int (backoff_seconds p * 2 ^ nat (n - 1)) * (8 / 10) \<le> delay_seconds u p n m \<and>
          delay_seconds u p n m \<le> of_int (backoff_seconds p * 2 ^ nat (n - 1)) * (12 / 10))"
proof -
  have mx: "max 0 (of_int m) = (of_int (max 0 m) :: rat)" by (simp add: max_def)
  have "max 0 (n - 1) = n - 1" if "1 \<le> n" using that by simp
  moreover have "0 < backoff_seconds p * 2 ^ nat (n - 1)" if "0 < backoff_seconds p" using that by simp
  ultimately show ?thesis
    using jittered_backoff_bounds [OF assms, of _ "of_int m"]
      jittered_backoff_window [OF assms, of "of_int (backoff_seconds p * 2 ^ nat (n - 1))" "of_int m"]
    unfolding delay_seconds_def Let_def mx by (auto simp del: of_int_mult of_int_max)
qed

theorem delay_seconds_bounds_witness:
  "of_int 120 * (8 / 10) \<le> delay_seconds (1 / 2) \<lparr>max_attempts = 5, backoff_seconds = 30\<rparr> 3 3600 \<and>
   delay_seconds (1 / 2) \<lparr>max_attempts = 5, backoff_seconds = 30\<rparr> 3 3600 \<le> of_int 120 * (12 / 10)"
  using delay_seconds_bounds
    [of "1 / 2" "\<lparr>max_attempts = 5, backoff_seconds = 30\<rparr>" 3 3600] by simp

end
