(* ===== verification/Conditions.thy ===== *)
theory Conditions
  imports Job_Models Job_Config
begin

text \<open>
  Condition rows of the reconcilers (\<^verbatim>\<open>src/sutradhara/jobs/reconcilers/conditions.py\<close>):
  observations (axis A) create rows and open or satisfy them, attempt outcomes (axis B) back them off
  or block them, an operator or a tool upgrade reopens them.  \<open>now\<close> is the clock the operation reads and
  \<open>u\<close> the random draw of the backoff jitter.
\<close>

section \<open>Model\<close>

definition CONDITION_OPEN :: string where "CONDITION_OPEN = ''open''"
definition CONDITION_BACKOFF :: string where "CONDITION_BACKOFF = ''backoff''"
definition CONDITION_BLOCKED :: string where "CONDITION_BLOCKED = ''blocked''"
definition CONDITION_SUPPRESSED :: string where "CONDITION_SUPPRESSED = ''suppressed''"
definition CONDITION_SATISFIED :: string where "CONDITION_SATISFIED = ''satisfied''"
definition OBSERVED_PRESENT :: string where "OBSERVED_PRESENT = ''present''"
definition OBSERVED_MISSING :: string where "OBSERVED_MISSING = ''missing''"

lemmas condition_names =
  CONDITION_OPEN_def CONDITION_BACKOFF_def CONDITION_BLOCKED_def CONDITION_SUPPRESSED_def
  CONDITION_SATISFIED_def OBSERVED_PRESENT_def OBSERVED_MISSING_def

definition WORKABLE_CONDITIONS :: "string list" where
  "WORKABLE_CONDITIONS = [CONDITION_OPEN, CONDITION_BACKOFF]"

definition HELD_CONDITIONS :: "string list" where
  "HELD_CONDITIONS = [CONDITION_BACKOFF, CONDITION_BLOCKED, CONDITION_SUPPRESSED]"

definition DEFAULT_BACKOFF_SECONDS :: int where "DEFAULT_BACKOFF_SECONDS = 60"
definition DEFAULT_BACKOFF_GIVE_UP_ATTEMPTS :: int where "DEFAULT_BACKOFF_GIVE_UP_ATTEMPTS = 3"

datatype condition_error = NoConditionRow string string | BadAxisB string

definition get_condition :: "recon_condition list \<Rightarrow> string \<Rightarrow> string \<Rightarrow> recon_condition option" where
  "get_condition cs domain key = find (\<lambda>c. c_domain c = domain \<and> c_target_key c = key) cs"

definition put_condition :: "recon_condition \<Rightarrow> recon_condition list \<Rightarrow> recon_condition list" where
  "put_condition row cs = update_where (\<lambda>c. c_id c = c_id row) (\<lambda>_. row) cs"

definition mark_satisfied :: "string \<Rightarrow> time \<Rightarrow> recon_condition \<Rightarrow> recon_condition" where
  "mark_satisfied observed_state now row =
     row\<lparr>c_observed_state := observed_state, c_condition := CONDITION_SATISFIED,
         c_reason := None, c_message := None, c_attempt_count := 0, c_next_eligible_at := None,
         c_blocked_tool_name := None, c_blocked_tool_version := None, c_updated_at := now\<rparr>"

text \<open>What \<open>record_observation\<close> makes of a row it found or has just added.\<close>

definition observe_row ::
  "time \<Rightarrow> bool \<Rightarrow> string \<Rightarrow> string option \<Rightarrow> string option \<Rightarrow> recon_condition \<Rightarrow> recon_condition" where
  "observe_row now desired observed_state reason message row =
     (if \<not> desired then mark_satisfied observed_state now row
      else if observed_state = OBSERVED_PRESENT then
        (if c_condition row = CONDITION_SUPPRESSED
         then row\<lparr>c_observed_state := observed_state, c_updated_at := now\<rparr>
         else mark_satisfied observed_state now row)
      else if c_condition row \<in> set HELD_CONDITIONS then row
      else row\<lparr>c_observed_state := observed_state, c_condition := CONDITION_OPEN,
               c_reason := reason, c_message := message,
               c_next_eligible_at := (case c_next_eligible_at row of None \<Rightarrow> Some now | Some t \<Rightarrow> Some t),
               c_updated_at := now\<rparr>)"

definition new_condition :: "time \<Rightarrow> string \<Rightarrow> string \<Rightarrow> string \<Rightarrow> nat \<Rightarrow> recon_condition" where
  "new_condition now domain key observed_state i =
     \<lparr>c_id = i, c_domain = domain, c_target_key = key, c_observed_state = observed_state,
      c_condition = CONDITION_SATISFIED, c_reason = None, c_message = None, c_attempt_count = 0,
      c_next_eligible_at = None, c_blocked_tool_name = None, c_blocked_tool_version = None,
      c_last_attempt_id = None, c_last_attempt_at = None, c_last_success_at = None,
      c_updated_at = now\<rparr>"

definition record_observation ::
  "time \<Rightarrow> string \<Rightarrow> string \<Rightarrow> bool \<Rightarrow> string \<Rightarrow> string option \<Rightarrow> string option \<Rightarrow>
   'c engine_db \<Rightarrow> 'c engine_db \<times> recon_condition" where
  "record_observation now domain key desired observed_state reason message db =
     (case get_condition (conditions db) domain key of
        None \<Rightarrow>
          let row = observe_row now desired observed_state reason message
                      (new_condition now domain key observed_state (fresh_id (map c_id (conditions db))))
          in (db\<lparr>conditions := conditions db @ [row]\<rparr>, row)
      | Some old \<Rightarrow>
          let row = observe_row now desired observed_state reason message old
          in (db\<lparr>conditions := put_condition row (conditions db)\<rparr>, row))"

definition link_attempt :: "job_attempt option \<Rightarrow> recon_condition \<Rightarrow> recon_condition" where
  "link_attempt attempt row =
     (case attempt of
        None \<Rightarrow> row
      | Some a \<Rightarrow> row\<lparr>c_last_attempt_id := Some (a_id a), c_last_attempt_at := Some (a_finished_at a)\<rparr>)"

definition set_blocked_tool :: "(string \<times> string) option \<Rightarrow> recon_condition \<Rightarrow> recon_condition" where
  "set_blocked_tool tool row =
     (case tool of
        None \<Rightarrow> row\<lparr>c_blocked_tool_name := None, c_blocked_tool_version := None\<rparr>
      | Some (name, version) \<Rightarrow>
          row\<lparr>c_blocked_tool_name := Some name, c_blocked_tool_version := Some version\<rparr>)"

definition default_backoff_due :: "rat \<Rightarrow> time \<Rightarrow> int \<Rightarrow> time" where
  "default_backoff_due u now attempt_count =
     (let delay = DEFAULT_BACKOFF_SECONDS * 2 ^ nat (max (attempt_count - 1) 0)
      in now + timedelta_seconds
                 (jittered_backoff_seconds u (of_int delay) (of_int DEFAULT_MAX_BACKOFF_SECONDS)))"

definition snapshot_names :: "job_attempt option \<Rightarrow> string list" where
  "snapshot_names attempt =
     (let raw = (case attempt of
                   None \<Rightarrow> []
                 | Some a \<Rightarrow> (case map_of (a_detail a) ''components'' of Some (JArr xs) \<Rightarrow> xs | _ \<Rightarrow> []))
      in sort (remdups [s. JStr s \<leftarrow> raw, s \<noteq> []]))"

definition snapshot_blocked_components ::
  "nat \<Rightarrow> job_attempt option \<Rightarrow> condition_component list \<Rightarrow> condition_component list" where
  "snapshot_blocked_components cid attempt ccs =
     filter (\<lambda>cc. cc_condition_id cc \<noteq> cid) ccs @
     map (\<lambda>s. \<lparr>cc_condition_id = cid, cc_component = s\<rparr>) (snapshot_names attempt)"

text \<open>An axis-B outcome as \<open>record_condition\<close> receives it (\<open>ConditionProjection\<close> of the registry).\<close>

record projection =
  p_condition :: "string option"
  p_reason :: "string option"
  p_message :: "string option"
  p_next_eligible_at :: "time option"
  p_blocked_tool :: "(string \<times> string) option"
  p_auto_block :: bool

definition backoff_row ::
  "rat \<Rightarrow> time \<Rightarrow> projection \<Rightarrow> recon_condition \<Rightarrow> recon_condition" where
  "backoff_row u now p row =
     (let next_count = c_attempt_count row + 1;
          row1 = row\<lparr>c_attempt_count := next_count\<rparr>;
          row2 = (if p_auto_block p \<and> next_count \<ge> DEFAULT_BACKOFF_GIVE_UP_ATTEMPTS
                  then row1\<lparr>c_condition := CONDITION_BLOCKED,
                            c_reason := (case p_reason p of None \<Rightarrow> Some ''give-up''
                                         | Some r \<Rightarrow> if r = [] then Some ''give-up'' else Some r),
                            c_message := p_message p, c_next_eligible_at := None\<rparr>
                  else row1\<lparr>c_condition := CONDITION_BACKOFF, c_reason := p_reason p,
                            c_message := p_message p,
                            c_next_eligible_at :=
                              (case p_next_eligible_at p of
                                 Some t \<Rightarrow> Some t
                               | None \<Rightarrow> Some (default_backoff_due u now next_count))\<rparr>)
      in set_blocked_tool (p_blocked_tool p) row2\<lparr>c_updated_at := now\<rparr>)"

definition blocked_row :: "time \<Rightarrow> projection \<Rightarrow> recon_condition \<Rightarrow> recon_condition" where
  "blocked_row now p row =
     set_blocked_tool (p_blocked_tool p)
       (row\<lparr>c_condition := CONDITION_BLOCKED, c_reason := p_reason p, c_message := p_message p,
            c_next_eligible_at := None\<rparr>)\<lparr>c_updated_at := now\<rparr>"

definition record_condition ::
  "rat \<Rightarrow> time \<Rightarrow> string \<Rightarrow> string \<Rightarrow> projection \<Rightarrow> job_attempt option \<Rightarrow> 'c engine_db \<Rightarrow>
   condition_error + ('c engine_db \<times> recon_condition)" where
  "record_condition u now domain key p attempt db =
     (case get_condition (conditions db) domain key of
        None \<Rightarrow> Inl (NoConditionRow domain key)
      | Some row0 \<Rightarrow>
          let was_blocked = (c_condition row0 = CONDITION_BLOCKED);
              row = link_attempt attempt row0;
              store = (\<lambda>r d. d\<lparr>conditions := put_condition r (conditions d)\<rparr>);
              snap = (\<lambda>r d. if was_blocked then d
                            else d\<lparr>condition_components :=
                                     snapshot_blocked_components (c_id r) attempt (condition_components d)\<rparr>)
          in case p_condition p of
               None \<Rightarrow>
                 let row1 = (case attempt of
                               Some a \<Rightarrow> if a_outcome a = SUCCEEDED
                                         then row\<lparr>c_last_success_at := Some (a_finished_at a)\<rparr> else row
                             | None \<Rightarrow> row)\<lparr>c_updated_at := now\<rparr>
                 in Inr (store row1 db, row1)
             | Some c \<Rightarrow>
                 if c = CONDITION_BACKOFF then
                   let row1 = backoff_row u now p row;
                       db1 = (if c_condition row1 = CONDITION_BLOCKED then snap row1 db else db)
                   in Inr (store row1 db1, row1)
                 else if c = CONDITION_BLOCKED then
                   let row1 = blocked_row now p row in Inr (store row1 (snap row1 db), row1)
                 else Inl (BadAxisB c))"

definition reopen_condition :: "time \<Rightarrow> string \<Rightarrow> string \<Rightarrow> recon_condition \<Rightarrow> recon_condition" where
  "reopen_condition now actor note row =
     (let old_reason = (case c_reason row of
                          None \<Rightarrow> ''unspecified'' | Some r \<Rightarrow> if r = [] then ''unspecified'' else r)
      in row\<lparr>c_condition := CONDITION_OPEN, c_reason := None,
             c_message := Some (''reopened by '' @ actor @ '' at '' @ isoformat now @
                                '' (was blocked: '' @ old_reason @ ''); '' @ note),
             c_blocked_tool_name := None, c_blocked_tool_version := None, c_attempt_count := 0,
             c_next_eligible_at := Some now, c_updated_at := now\<rparr>)"

section \<open>The row invariant\<close>

definition condition_row_ok :: "recon_condition \<Rightarrow> bool" where
  "condition_row_ok c \<longleftrightarrow>
     c_condition c \<in> {CONDITION_OPEN, CONDITION_BACKOFF, CONDITION_BLOCKED, CONDITION_SUPPRESSED,
                      CONDITION_SATISFIED} \<and>
     (c_condition c \<in> set WORKABLE_CONDITIONS \<longrightarrow> c_next_eligible_at c \<noteq> None) \<and>
     (c_condition c \<in> {CONDITION_SATISFIED, CONDITION_BLOCKED} \<longrightarrow> c_next_eligible_at c = None) \<and>
     0 \<le> c_attempt_count c \<and>
     (c_condition c = CONDITION_BACKOFF \<longrightarrow> 1 \<le> c_attempt_count c) \<and>
     (c_condition c = CONDITION_SATISFIED \<longrightarrow> c_attempt_count c = 0 \<and> c_reason c = None) \<and>
     (c_condition c \<in> {CONDITION_OPEN, CONDITION_SATISFIED} \<longrightarrow> c_blocked_tool_name c = None) \<and>
     (c_blocked_tool_name c = None \<longleftrightarrow> c_blocked_tool_version c = None)"

definition conditions_inv :: "recon_condition list \<Rightarrow> bool" where
  "conditions_inv cs \<longleftrightarrow> conditions_ok cs \<and> (\<forall>c \<in> set cs. condition_row_ok c)"

lemmas condition_row_simps =
  condition_row_ok_def condition_names WORKABLE_CONDITIONS_def HELD_CONDITIONS_def

text \<open>
  The contract of every writer of condition rows: it keeps a row's key and the row invariant.  A table
  updated at one row by such a writer keeps its invariant.
\<close>

locale condition_writer =
  fixes wr :: "recon_condition \<Rightarrow> recon_condition"
  assumes keeps_id: "c_id (wr c) = c_id c"
    and keeps_key: "c_domain (wr c) = c_domain c \<and> c_target_key (wr c) = c_target_key c"
    and keeps_row_ok: "condition_row_ok c \<Longrightarrow> condition_row_ok (wr c)"
begin

lemma put_write_map:
  assumes "distinct (map c_id cs)" "c \<in> set cs" "g (wr c) = g c"
  shows "map g (put_condition (wr c) cs) = map g cs"
proof -
  have "r = c" if "r \<in> set cs" "c_id r = c_id c" for r
    using that assms(1,2) by (metis (mono_tags) distinct_map inj_on_eq_iff)
  then show ?thesis
    unfolding put_condition_def update_where_def keeps_id using assms(3) by auto
qed

lemma put_write_inv:
  assumes "conditions_inv cs" "c \<in> set cs"
  shows "conditions_inv (put_condition (wr c) cs)"
proof -
  have d: "distinct (map c_id cs)" using assms(1) by (simp add: conditions_inv_def conditions_ok_def)
  have "\<forall>r \<in> set (put_condition (wr c) cs). condition_row_ok r"
    using assms keeps_row_ok by (auto simp: conditions_inv_def put_condition_def set_update_where)
  then show ?thesis
    using assms put_write_map [OF d assms(2), of c_id]
      put_write_map [OF d assms(2), of "\<lambda>c. (c_domain c, c_target_key c)"]
    by (simp add: conditions_inv_def conditions_ok_def keeps_id keeps_key)
qed

end

interpretation obs_writer: condition_writer "observe_row now desired obs reason message"
  by unfold_locales
     (auto simp: observe_row_def mark_satisfied_def condition_row_simps split: option.splits)

interpretation backoff_writer: condition_writer "backoff_row u now p"
  by unfold_locales
     (auto simp: backoff_row_def set_blocked_tool_def Let_def condition_row_simps
           split: option.splits prod.splits)

interpretation blocked_writer: condition_writer "blocked_row now p"
  by unfold_locales
     (auto simp: blocked_row_def set_blocked_tool_def condition_row_simps
           split: option.splits prod.splits)

interpretation link_writer: condition_writer "link_attempt a"
  by unfold_locales (auto simp: link_attempt_def condition_row_simps split: option.splits)

interpretation reopen_writer: condition_writer "reopen_condition now actor note"
  by unfold_locales (auto simp: reopen_condition_def Let_def condition_row_simps)

text \<open>The row a successful attempt without projection leaves.\<close>

definition success_row :: "time \<Rightarrow> job_attempt option \<Rightarrow> recon_condition \<Rightarrow> recon_condition" where
  "success_row now attempt row =
     (case attempt of
        Some a \<Rightarrow> if a_outcome a = SUCCEEDED
                  then row\<lparr>c_last_success_at := Some (a_finished_at a)\<rparr> else row
      | None \<Rightarrow> row)\<lparr>c_updated_at := now\<rparr>"

interpretation success_writer: condition_writer "success_row now a"
  by unfold_locales (auto simp: success_row_def condition_row_simps split: option.splits)

text \<open>Writers compose, and the axis-B writers act on the row that carries the attempt link.\<close>

lemma condition_writer_comp:
  assumes "condition_writer f" "condition_writer g"
  shows "condition_writer (\<lambda>c. f (g c))"
  using assms by (simp add: condition_writer_def)

interpretation backoff_link: condition_writer "\<lambda>c. backoff_row u now p (link_attempt a c)"
  by (rule condition_writer_comp [OF backoff_writer.condition_writer_axioms
        link_writer.condition_writer_axioms])

interpretation blocked_link: condition_writer "\<lambda>c. blocked_row now p (link_attempt a c)"
  by (rule condition_writer_comp [OF blocked_writer.condition_writer_axioms
        link_writer.condition_writer_axioms])

interpretation success_link: condition_writer "\<lambda>c. success_row now a (link_attempt a c)"
  by (rule condition_writer_comp [OF success_writer.condition_writer_axioms
        link_writer.condition_writer_axioms])

section \<open>The table operations\<close>

lemma get_condition_Some:
  "get_condition cs d k = Some c \<Longrightarrow> c \<in> set cs \<and> c_domain c = d \<and> c_target_key c = k"
  by (auto simp: get_condition_def dest: find_SomeD)

lemma get_condition_None:
  "get_condition cs d k = None \<longleftrightarrow> (\<forall>c \<in> set cs. \<not> (c_domain c = d \<and> c_target_key c = k))"
  by (auto simp: get_condition_def find_None_iff)

lemma conditions_inv_append:
  assumes "conditions_inv cs" "condition_row_ok c" "c_id c = fresh_id (map c_id cs)"
    and "get_condition cs (c_domain c) (c_target_key c) = None"
  shows "conditions_inv (cs @ [c])"
  using assms fresh_id_notin [of "map c_id cs"]
  by (auto simp: conditions_inv_def conditions_ok_def get_condition_None)

lemma new_condition_ok: "condition_row_ok (new_condition now d k obs i)"
  by (simp add: new_condition_def condition_row_simps)

lemma record_observation_inv:
  assumes "conditions_inv (conditions db)"
  shows "conditions_inv (conditions (fst (record_observation now d k des obs r m db)))"
proof (cases "get_condition (conditions db) d k")
  case None
  let ?row = "observe_row now des obs r m (new_condition now d k obs (fresh_id (map c_id (conditions db))))"
  have "c_domain ?row = d" "c_target_key ?row = k" "c_id ?row = fresh_id (map c_id (conditions db))"
    by (simp_all add: obs_writer.keeps_key obs_writer.keeps_id new_condition_def)
  moreover have "condition_row_ok ?row" by (rule obs_writer.keeps_row_ok [OF new_condition_ok])
  ultimately show ?thesis
    using conditions_inv_append [OF assms, of ?row] None
    by (simp add: record_observation_def Let_def)
next
  case (Some old)
  with obs_writer.put_write_inv [OF assms, of old] get_condition_Some [OF Some] show ?thesis
    by (simp add: record_observation_def Let_def)
qed

text \<open>The three ways \<open>record_condition\<close> writes the one row it found.\<close>

lemma backoff_neq_blocked [simp]: "CONDITION_BACKOFF \<noteq> CONDITION_BLOCKED" "CONDITION_BLOCKED \<noteq> CONDITION_BACKOFF"
  by (simp_all add: condition_names)

definition axis_b_row ::
  "rat \<Rightarrow> time \<Rightarrow> projection \<Rightarrow> job_attempt option \<Rightarrow> recon_condition \<Rightarrow> recon_condition" where
  "axis_b_row u now p a row =
     (if p_condition p = None then success_row now a (link_attempt a row)
      else if p_condition p = Some CONDITION_BACKOFF then backoff_row u now p (link_attempt a row)
      else blocked_row now p (link_attempt a row))"

interpretation axis_b_writer: condition_writer "axis_b_row u now p a"
  by unfold_locales
     (simp_all add: axis_b_row_def backoff_link.keeps_id backoff_link.keeps_key backoff_link.keeps_row_ok
       blocked_link.keeps_id blocked_link.keeps_key blocked_link.keeps_row_ok
       success_link.keeps_id success_link.keeps_key success_link.keeps_row_ok)

lemma record_condition_found:
  assumes g: "get_condition (conditions db) d k = Some row"
    and c: "p_condition p \<in> {None, Some CONDITION_BACKOFF, Some CONDITION_BLOCKED}"
  shows "\<exists>ccs. record_condition u now d k p a db =
           Inr (db\<lparr>conditions := put_condition (axis_b_row u now p a row) (conditions db),
                   condition_components := ccs\<rparr>, axis_b_row u now p a row)"
proof -
  let ?r = "axis_b_row u now p a row"
  let ?ccs = "if c_condition ?r = CONDITION_BLOCKED \<and> p_condition p \<noteq> None \<and> c_condition row \<noteq> CONDITION_BLOCKED
    then snapshot_blocked_components (c_id ?r) a (condition_components db) else condition_components db"
  have blocked: "c_condition (blocked_row now p r) = CONDITION_BLOCKED" for r
    by (simp add: blocked_row_def set_blocked_tool_def split: option.splits)
  show ?thesis
    using c by (intro exI [of _ ?ccs])
      (auto simp: record_condition_def g Let_def axis_b_row_def success_row_def blocked)
qed

lemma record_condition_Inr:
  assumes "record_condition u now d k p a db = Inr res"
  shows "\<exists>row. get_condition (conditions db) d k = Some row \<and>
           p_condition p \<in> {None, Some CONDITION_BACKOFF, Some CONDITION_BLOCKED}"
  using assms by (auto simp: record_condition_def Let_def split: option.splits if_splits)

lemma record_condition_effect:
  assumes "record_condition u now d k p a db = Inr (db', row')"
  obtains row ccs where "get_condition (conditions db) d k = Some row"
    "row' = axis_b_row u now p a row"
    "db' = db\<lparr>conditions := put_condition row' (conditions db), condition_components := ccs\<rparr>"
proof -
  from record_condition_Inr [OF assms] obtain row where
    g: "get_condition (conditions db) d k = Some row" and
    c: "p_condition p \<in> {None, Some CONDITION_BACKOFF, Some CONDITION_BLOCKED}" by blast
  from record_condition_found [OF g c, of u now a] obtain ccs where
    "record_condition u now d k p a db =
       Inr (db\<lparr>conditions := put_condition (axis_b_row u now p a row) (conditions db),
               condition_components := ccs\<rparr>, axis_b_row u now p a row)" by blast
  with assms show ?thesis by (intro that [OF g, of ccs]) auto
qed

lemma record_condition_inv:
  assumes "conditions_inv (conditions db)" "record_condition u now d k p a db = Inr (db', row')"
  shows "conditions_inv (conditions db')"
  using assms(2)
proof (rule record_condition_effect)
  fix row ccs
  assume "get_condition (conditions db) d k = Some row" "row' = axis_b_row u now p a row"
    "db' = db\<lparr>conditions := put_condition row' (conditions db), condition_components := ccs\<rparr>"
  with axis_b_writer.put_write_inv [OF assms(1), of row] show ?thesis
    by (auto dest: get_condition_Some)
qed

text \<open>Reopening, as the spine and the operator commands do it: one row of the table is replaced.\<close>

definition reopen_in :: "time \<Rightarrow> string \<Rightarrow> string \<Rightarrow> recon_condition \<Rightarrow> 'c engine_db \<Rightarrow> 'c engine_db" where
  "reopen_in now actor note row db =
     db\<lparr>conditions := put_condition (reopen_condition now actor note row) (conditions db)\<rparr>"

lemma reopen_in_inv:
  assumes "conditions_inv (conditions db)" "row \<in> set (conditions db)"
  shows "conditions_inv (conditions (reopen_in now actor note row db))"
  using reopen_writer.put_write_inv [OF assms] by (simp add: reopen_in_def)

inductive condition_run :: "'c engine_db \<Rightarrow> bool" where
  run_start: "conditions db = [] \<Longrightarrow> condition_run db"
| run_observe: "condition_run db \<Longrightarrow>
    condition_run (fst (record_observation now d k des obs r m db))"
| run_record: "condition_run db \<Longrightarrow> record_condition u now d k p a db = Inr (db', row') \<Longrightarrow>
    condition_run db'"
| run_reopen: "condition_run db \<Longrightarrow> row \<in> set (conditions db) \<Longrightarrow>
    condition_run (reopen_in now actor note row db)"
| run_other: "condition_run db \<Longrightarrow> conditions db' = conditions db \<Longrightarrow> condition_run db'"

lemma condition_run_inv: "condition_run db \<Longrightarrow> conditions_inv (conditions db)"
proof (induction rule: condition_run.induct)
  case run_start
  then show ?case by (simp add: conditions_inv_def conditions_ok_def)
next
  case run_record
  then show ?case by (blast intro: record_condition_inv)
qed (simp_all add: record_observation_inv reopen_in_inv)

section \<open>Properties\<close>

lemma conditions_inv_get:
  assumes "conditions_inv cs" "c \<in> set cs"
  shows "get_condition cs (c_domain c) (c_target_key c) = Some c"
proof (cases "get_condition cs (c_domain c) (c_target_key c)")
  case None
  with assms(2) show ?thesis unfolding get_condition_None by blast
next
  case (Some r)
  have "inj_on (\<lambda>c. (c_domain c, c_target_key c)) (set cs)"
    using assms(1) by (simp add: conditions_inv_def conditions_ok_def distinct_map)
  then have "r = c"
    using get_condition_Some [OF Some] assms(2) by (elim inj_onD) simp_all
  with Some show ?thesis by simp
qed

text \<open>
  C16: Whatever sequence of observations, attempt outcomes and reopenings has run, there is at most one
  row per domain and target, an open or backed-off row has a due time and is therefore found by the
  worklist query, a satisfied or blocked row has none, and only a held row names a blocking tool.
\<close>

theorem condition_rows_invariant:
  assumes "condition_run db" "c \<in> set (conditions db)"
  shows "get_condition (conditions db) (c_domain c) (c_target_key c) = Some c \<and>
         (c_condition c \<in> set WORKABLE_CONDITIONS \<longrightarrow> c_next_eligible_at c \<noteq> None) \<and>
         (c_condition c \<in> {CONDITION_SATISFIED, CONDITION_BLOCKED} \<longrightarrow> c_next_eligible_at c = None) \<and>
         (c_blocked_tool_name c \<noteq> None \<longrightarrow> c_condition c \<in> set HELD_CONDITIONS)"
proof -
  from condition_run_inv [OF assms(1)] have inv: "conditions_inv (conditions db)" .
  then have ok: "condition_row_ok c" using assms(2) by (simp add: conditions_inv_def)
  from conditions_inv_get [OF inv assms(2)] ok show ?thesis
    unfolding condition_row_ok_def HELD_CONDITIONS_def by auto
qed

text \<open>The first three retryable failures of an open row.\<close>

definition plain_backoff :: projection where
  "plain_backoff = \<lparr>p_condition = Some CONDITION_BACKOFF, p_reason = None, p_message = None,
     p_next_eligible_at = None, p_blocked_tool = None, p_auto_block = True\<rparr>"

lemma default_backoff_due_bounds:
  assumes "0 \<le> u" "u \<le> 1"
  shows "now \<le> default_backoff_due u now n \<and> default_backoff_due u now n \<le> now + seconds 3600"
proof -
  define x where "x = jittered_backoff_seconds u
    (of_int (DEFAULT_BACKOFF_SECONDS * 2 ^ nat (max (n - 1) 0))) (of_int DEFAULT_MAX_BACKOFF_SECONDS)"
  have "of_int 0 \<le> x" "x \<le> of_int 3600"
    using jittered_backoff_bounds [OF assms, of "of_int (DEFAULT_BACKOFF_SECONDS * 2 ^ nat (max (n - 1) 0))"
        "of_int DEFAULT_MAX_BACKOFF_SECONDS"]
    by (simp_all add: x_def DEFAULT_MAX_BACKOFF_SECONDS_def)
  from timedelta_seconds_mono_bounds [OF this] show ?thesis
    unfolding default_backoff_due_def Let_def x_def by simp
qed

lemma get_put_condition:
  assumes "conditions_inv cs" "get_condition cs d k = Some row" "condition_writer f"
  shows "get_condition (put_condition (f row) cs) d k = Some (f row)"
proof -
  have id: "c_id (f row) = c_id row" and key: "c_domain (f row) = d" "c_target_key (f row) = k"
    using assms(3) get_condition_Some [OF assms(2)] by (auto simp: condition_writer_def)
  have "conditions_inv (put_condition (f row) cs)"
    using condition_writer.put_write_inv [OF assms(3,1)] get_condition_Some [OF assms(2)] by blast
  moreover have "f row \<in> set (put_condition (f row) cs)"
    using get_condition_Some [OF assms(2)] id by (force simp: put_condition_def set_update_where)
  ultimately show ?thesis
    using conditions_inv_get [of "put_condition (f row) cs" "f row"] key by simp
qed

lemma record_condition_backoff:
  assumes "conditions_inv (conditions db)" "get_condition (conditions db) d k = Some row"
  shows "\<exists>db'. record_condition u now d k plain_backoff a db =
           Inr (db', backoff_row u now plain_backoff (link_attempt a row)) \<and>
         conditions_inv (conditions db') \<and>
         get_condition (conditions db') d k = Some (backoff_row u now plain_backoff (link_attempt a row))"
proof -
  have c: "p_condition plain_backoff = Some CONDITION_BACKOFF" by (simp add: plain_backoff_def)
  have r: "axis_b_row u now plain_backoff a row = backoff_row u now plain_backoff (link_attempt a row)"
    by (simp add: axis_b_row_def c)
  from record_condition_found [OF assms(2), of plain_backoff u now a] obtain ccs where
    eq: "record_condition u now d k plain_backoff a db =
       Inr (db\<lparr>conditions := put_condition (backoff_row u now plain_backoff (link_attempt a row)) (conditions db),
               condition_components := ccs\<rparr>, backoff_row u now plain_backoff (link_attempt a row))"
    unfolding r c by auto
  show ?thesis
    unfolding eq using record_condition_inv [OF assms(1) eq]
      get_put_condition [OF assms backoff_link.condition_writer_axioms] by simp
qed

lemma backoff_row_plain:
  "c_attempt_count (backoff_row u now plain_backoff (link_attempt a row)) = c_attempt_count row + 1"
  "c_condition (backoff_row u now plain_backoff (link_attempt a row)) =
     (if 3 \<le> c_attempt_count row + 1 then CONDITION_BLOCKED else CONDITION_BACKOFF)"
  "c_next_eligible_at (backoff_row u now plain_backoff (link_attempt a row)) =
     (if 3 \<le> c_attempt_count row + 1 then None
      else Some (default_backoff_due u now (c_attempt_count row + 1)))"
  by (auto simp: backoff_row_def plain_backoff_def link_attempt_def set_blocked_tool_def Let_def
      DEFAULT_BACKOFF_GIVE_UP_ATTEMPTS_def split: option.splits)


text \<open>A table with one open row, for the witnesses.\<close>

definition example_conditions :: "unit engine_db" where
  "example_conditions =
     fst (record_observation 0 ''copy'' ''asset:a:p'' True OBSERVED_MISSING None None
       \<lparr>jobs = [], job_attempts = [], conditions = [], condition_components = [], catalog = ()\<rparr>)"

lemma example_condition_run: "condition_run example_conditions"
  unfolding example_conditions_def by (rule run_observe, rule run_start) simp

definition example_open_row :: recon_condition where
  "example_open_row =
     (new_condition 0 ''copy'' ''asset:a:p'' OBSERVED_MISSING 1)
       \<lparr>c_condition := CONDITION_OPEN, c_next_eligible_at := Some 0\<rparr>"

lemma example_conditions_row: "conditions example_conditions = [example_open_row]"
  by (simp add: example_conditions_def record_observation_def get_condition_def fresh_id_def
      observe_row_def new_condition_def example_open_row_def HELD_CONDITIONS_def condition_names Let_def)

theorem condition_rows_invariant_witness:
  "get_condition (conditions example_conditions) (c_domain example_open_row) (c_target_key example_open_row)
     = Some example_open_row \<and>
   c_next_eligible_at example_open_row \<noteq> None"
  using condition_rows_invariant [OF example_condition_run, of example_open_row]
  by (simp add: example_conditions_row) (simp add: example_open_row_def WORKABLE_CONDITIONS_def)


end
