(* ===== verification/Job_Engine.thy ===== *)
theory Job_Engine
  imports Leases Job_Context Conditions
begin

text \<open>
  The job engine (\<^verbatim>\<open>src/sutradhara/jobs/engine.py\<close>, \<^verbatim>\<open>attempts.py\<close> and the handler registry of
  \<^verbatim>\<open>registry.py\<close>): submission with deduplication, the guarded claim, candidate selection, the run of one
  job behind a savepoint, retry and orphan recovery.  An operation takes the database before and returns
  the database after; what it raises is an \<open>Inl\<close>.  Handlers and dispatch gates, which other modules
  register, are arguments, as are the clock readings of one run (\<open>run_clock\<close>).
\<close>

section \<open>Model\<close>

datatype engine_error =
    NoSuchJob nat
  | JobIsTerminal nat job_status
  | JobNotClaimed nat
  | JobNotRunnable nat job_status
  | HandlerRaised string
  | SqliteLocked string
  | MissingTargetKey nat
  | ConditionFailed condition_error
  | LeaseFailed lease_error
  | IntegrityError

subsection \<open>Submission\<close>

record submission =
  s_kind :: string
  s_params :: jobj
  s_required_resources :: "json list"
  s_prerequisites :: "nat list"
  s_not_before :: "time option"
  s_priority :: int
  s_dedupe_key :: "string option"
  s_recon_domain :: "string option"
  s_recon_target_key :: "string option"

definition live_job_for_dedupe :: "job list \<Rightarrow> string \<Rightarrow> job option" where
  "live_job_for_dedupe js key =
     (case sort_key j_id (filter (\<lambda>j. j_dedupe_key j = Some key \<and> is_live j) js) of
        [] \<Rightarrow> None | j # _ \<Rightarrow> Some j)"

definition new_job :: "time \<Rightarrow> submission \<Rightarrow> nat \<Rightarrow> job" where
  "new_job now s i =
     \<lparr>j_id = i, j_kind = s_kind s, j_params = s_params s, j_required_resources = s_required_resources s,
      j_prerequisites = s_prerequisites s, j_status = PENDING, j_step_state = [], j_attempts = 0,
      j_not_before = (case s_not_before s of None \<Rightarrow> now | Some t \<Rightarrow> t), j_priority = s_priority s,
      j_dedupe_key = s_dedupe_key s, j_recon_domain = s_recon_domain s,
      j_recon_target_key = s_recon_target_key s, j_last_error = None, j_created_at = now,
      j_started_at = None, j_finished_at = None\<rparr>"

text \<open>The insert, refused by the partial unique index over live rows.\<close>

definition insert_job :: "job \<Rightarrow> job list \<Rightarrow> engine_error + job list" where
  "insert_job j js =
     (case live_key j of
        Some k \<Rightarrow> if k \<in> set (dedupe_keys_live js) then Inl IntegrityError else Inr (js @ [j])
      | None \<Rightarrow> Inr (js @ [j]))"

text \<open>
  \<open>seen\<close> is the table the first lookup reads, \<open>js\<close> the table at the insert: another transaction may have
  committed a job in between.
\<close>

definition submit :: "time \<Rightarrow> submission \<Rightarrow> job list \<Rightarrow> job list \<Rightarrow> engine_error + (job list \<times> job)" where
  "submit now s seen js =
     (case (case s_dedupe_key s of None \<Rightarrow> None | Some key \<Rightarrow> live_job_for_dedupe seen key) of
        Some existing \<Rightarrow> Inr (js, existing)
      | None \<Rightarrow>
          let j = new_job now s (fresh_id (map j_id js)) in
          (case insert_job j js of
             Inr js' \<Rightarrow> Inr (js', j)
           | Inl e \<Rightarrow>
               (case s_dedupe_key s of
                  None \<Rightarrow> Inl e
                | Some key \<Rightarrow>
                    (case live_job_for_dedupe js key of
                       None \<Rightarrow> Inl e
                     | Some existing \<Rightarrow> Inr (js, existing)))))"

subsection \<open>Claims\<close>

definition claim_row :: "time \<Rightarrow> job \<Rightarrow> job" where
  "claim_row now j =
     j\<lparr>j_status := RUNNING, j_started_at := Some now, j_finished_at := None,
       j_attempts := j_attempts j + 1\<rparr>"

definition claim_job_by_id :: "time \<Rightarrow> nat \<Rightarrow> job list \<Rightarrow> job list \<times> job option" where
  "claim_job_by_id now i js =
     (let P = (\<lambda>j. j_id j = i \<and> j_status j = PENDING);
          js' = update_where P (claim_row now) js
      in if length (filter P js) \<noteq> 1 then (js', None) else (js', get_job js' i))"

definition prerequisites_succeeded :: "job list \<Rightarrow> job \<Rightarrow> bool" where
  "prerequisites_succeeded js j =
     list_all (\<lambda>p. case get_job js p of None \<Rightarrow> False | Some r \<Rightarrow> j_status r = SUCCEEDED) (j_prerequisites j)"

text \<open>A dispatch gate answers, or raises (\<open>None\<close>); a raising gate releases the job.\<close>

type_synonym 'c gates = "string \<Rightarrow> ('c engine_db \<Rightarrow> job \<Rightarrow> bool option) option"

definition dispatch_gate_allows :: "'c gates \<Rightarrow> 'c engine_db \<Rightarrow> job \<Rightarrow> bool" where
  "dispatch_gate_allows gates db j =
     (case gates (j_kind j) of
        None \<Rightarrow> True
      | Some gate \<Rightarrow> (case gate db j of None \<Rightarrow> True | Some b \<Rightarrow> b))"

definition candidate_order :: "job \<Rightarrow> int \<times> time \<times> nat" where
  "candidate_order j = (j_priority j, j_created_at j, j_id j)"

definition pending_candidates :: "'c gates \<Rightarrow> time \<Rightarrow> 'c engine_db \<Rightarrow> job list" where
  "pending_candidates gates now db =
     filter (\<lambda>j. prerequisites_succeeded (jobs db) j \<and> dispatch_gate_allows gates db j)
       (sort_key candidate_order (filter (\<lambda>j. j_status j = PENDING \<and> j_not_before j \<le> now) (jobs db)))"

fun claim_loop ::
  "lease_manager \<Rightarrow> time \<Rightarrow> job list \<Rightarrow> job list \<Rightarrow> engine_error + (job list \<times> job option)" where
  "claim_loop m now [] js = Inr (js, None)"
| "claim_loop m now (j # rest) js =
     (case normalize_required_resources (j_required_resources j) of
        Inl e \<Rightarrow> Inl (LeaseFailed e)
      | Inr required \<Rightarrow>
          if \<not> fits m required then claim_loop m now rest js
          else (case claim_job_by_id now (j_id j) js of
                  (js', Some claimed) \<Rightarrow> Inr (js', Some claimed)
                | (js', None) \<Rightarrow> claim_loop m now rest js'))"

definition claim_pending ::
  "'c gates \<Rightarrow> lease_manager \<Rightarrow> time \<Rightarrow> 'c engine_db \<Rightarrow> engine_error + ('c engine_db \<times> job option)" where
  "claim_pending gates m now db =
     (case claim_loop m now (pending_candidates gates now db) (jobs db) of
        Inl e \<Rightarrow> Inl e
      | Inr (js, r) \<Rightarrow> Inr (db\<lparr>jobs := js\<rparr>, r))"

subsection \<open>Running one job\<close>

record job_result =
  r_ok :: bool
  r_detail :: string
  r_step_state :: jobj
  r_condition :: "projection option"

text \<open>
  What a handler call does: it returns or raises, and leaves the database and the context it has
  changed until then.  \<open>SessionLost\<close> is an exception after which the engine's session is inactive.
\<close>

record py_exc =
  exc_type :: string
  exc_msg :: string
  exc_traceback :: string

datatype handler_outcome =
    Returned job_result
  | RaisedNotImplemented py_exc
  | RaisedLocked py_exc
  | RaisedOther py_exc
  | SessionLost py_exc

type_synonym 'c handler =
  "job_context \<Rightarrow> nat \<Rightarrow> 'c engine_db \<Rightarrow> 'c engine_db \<times> job_context \<times> handler_outcome"

type_synonym 'c registry = "(string \<times> 'c handler) list"

record 'c run_env =
  e_handlers :: "'c registry"
  e_host :: string
  e_worker_id :: string
  e_code_version :: string

record run_clock =
  t_claim :: time
  t_finish :: time
  t_condition :: time
  t_jitter :: rat

definition join_comma :: "string list \<Rightarrow> string" where
  "join_comma xs = concat (List.map2 (\<lambda>i x. if i = (0 :: nat) then x else '', '' @ x) [0..<length xs] xs)"

definition handler_not_registered :: "'c registry \<Rightarrow> string \<Rightarrow> string" where
  "handler_not_registered hs kind =
     ''no handler registered for kind '' @ py_repr kind @ ''; known kinds: ['' @
     join_comma (map py_repr (sort (map fst hs))) @ '']''"

definition record_attempt ::
  "'c run_env \<Rightarrow> time \<Rightarrow> int dict \<Rightarrow> jobj \<Rightarrow> job \<Rightarrow> 'c engine_db \<Rightarrow> 'c engine_db \<times> job_attempt" where
  "record_attempt env now granted detail j db =
     (let finished_at = (case j_finished_at j of None \<Rightarrow> now | Some t \<Rightarrow> t);
          started_at = (case j_started_at j of None \<Rightarrow> finished_at | Some t \<Rightarrow> t);
          a = \<lparr>a_id = fresh_id (map a_id (job_attempts db)), a_job_id = j_id j, a_job_kind = j_kind j,
               a_attempt_number = j_attempts j, a_outcome = j_status j, a_error = j_last_error j,
               a_started_at = started_at, a_finished_at = finished_at, a_granted_leases = granted,
               a_worker_id = e_worker_id env, a_code_version = e_code_version env, a_detail = detail\<rparr>
      in (db\<lparr>job_attempts := job_attempts db @ [a]\<rparr>, a))"

definition plain_projection :: "string option \<Rightarrow> string option \<Rightarrow> string option \<Rightarrow> projection" where
  "plain_projection condition reason message =
     \<lparr>p_condition = condition, p_reason = reason, p_message = message, p_next_eligible_at = None,
      p_blocked_tool = None, p_auto_block = True\<rparr>"

definition record_reconciler_condition ::
  "rat \<Rightarrow> time \<Rightarrow> job \<Rightarrow> job_attempt \<Rightarrow> projection \<Rightarrow> 'c engine_db \<Rightarrow> engine_error + 'c engine_db" where
  "record_reconciler_condition u now j a p db =
     (case j_recon_domain j of
        None \<Rightarrow> Inr db
      | Some d \<Rightarrow>
          (case j_recon_target_key j of
             None \<Rightarrow> Inl (MissingTargetKey (j_id j))
           | Some k \<Rightarrow>
               (case record_condition u now d k p (Some a) db of
                  Inl e \<Rightarrow> Inl (ConditionFailed e)
                | Inr (db', _) \<Rightarrow> Inr db')))"

text \<open>
  The savepoint around the handler: on a raise the database is put back, except that checkpoint-batch
  obligations the handler recorded are carried into the job's step state.
\<close>

definition restore_batch_state :: "nat \<Rightarrow> 'c engine_db \<Rightarrow> 'c engine_db \<Rightarrow> 'c engine_db" where
  "restore_batch_state i failed db =
     (case get_job (jobs db) i of
        None \<Rightarrow> db
      | Some j \<Rightarrow>
          let st = (case get_job (jobs failed) i of
                      None \<Rightarrow> None | Some fj \<Rightarrow> map_of (j_step_state fj) CHECKPOINT_BATCH_STATE_KEY);
              prior = (case st of
                         Some v \<Rightarrow> if json_falsy v then dict_pop CHECKPOINT_BATCH_STATE_KEY (j_step_state j)
                                   else dict_set CHECKPOINT_BATCH_STATE_KEY v (j_step_state j)
                       | None \<Rightarrow> dict_pop CHECKPOINT_BATCH_STATE_KEY (j_step_state j))
          in db\<lparr>jobs := put_job (j\<lparr>j_step_state := prior\<rparr>) (jobs db)\<rparr>)"

definition invoke_handler_in_savepoint ::
  "'c handler \<Rightarrow> job_context \<Rightarrow> nat \<Rightarrow> 'c engine_db \<Rightarrow> 'c engine_db \<times> job_context \<times> handler_outcome" where
  "invoke_handler_in_savepoint handler ctx i db =
     (case handler ctx i db of
        (db1, ctx1, Returned r) \<Rightarrow> (db1, ctx1, Returned r)
      | (db1, ctx1, out) \<Rightarrow>
          (if x_batch_touched ctx1 then restore_batch_state i db1 db else db, ctx1, out))"

text \<open>The tail of every branch of \<open>run_one\<close>: set the row, append the attempt, project the outcome.\<close>

definition conclude ::
  "'c run_env \<Rightarrow> run_clock \<Rightarrow> int dict \<Rightarrow> job_context \<Rightarrow> job \<Rightarrow> projection option \<Rightarrow> 'c engine_db \<Rightarrow>
   engine_error + 'c engine_db" where
  "conclude env clk granted ctx j p db =
     (let db1 = db\<lparr>jobs := put_job j (jobs db)\<rparr>;
          (db2, a) = record_attempt env (t_finish clk) granted (attempt_detail (j_step_state j) ctx) j db1
      in case p of
           None \<Rightarrow> Inr db2
         | Some proj \<Rightarrow> record_reconciler_condition (t_jitter clk) (t_condition clk) j a proj db2)"

definition fail_row :: "run_clock \<Rightarrow> string \<Rightarrow> job \<Rightarrow> job" where
  "fail_row clk msg j =
     j\<lparr>j_status := FAILED, j_finished_at := Some (t_finish clk), j_last_error := Some msg\<rparr>"

definition exc_text :: "py_exc \<Rightarrow> string" where
  "exc_text e = exc_type e @ '': '' @ exc_msg e @ [char_of (10 :: nat), char_of (10 :: nat)] @ exc_traceback e"

definition failed_result :: "string \<Rightarrow> job_result" where
  "failed_result msg = \<lparr>r_ok = False, r_detail = msg, r_step_state = [], r_condition = None\<rparr>"

definition returned_row :: "run_clock \<Rightarrow> job_result \<Rightarrow> job \<Rightarrow> job" where
  "returned_row clk r j =
     j\<lparr>j_status := (if r_ok r then SUCCEEDED else FAILED), j_finished_at := Some (t_finish clk),
       j_last_error := (if r_ok r then None else Some (r_detail r)),
       j_step_state := (if r_step_state r = [] then j_step_state j
                        else dict_merge (j_step_state j) (r_step_state r))\<rparr>"

definition returned_projection :: "job_result \<Rightarrow> projection" where
  "returned_projection r =
     (case r_condition r of
        Some p \<Rightarrow> p
      | None \<Rightarrow>
          if r_ok r then plain_projection None None None
          else plain_projection (Some CONDITION_BACKOFF) (Some ''unclassified'') (Some (r_detail r)))"

definition with_result :: "job_result \<Rightarrow> engine_error + 'd \<Rightarrow> engine_error + ('d \<times> job_result)" where
  "with_result r x = (case x of Inl e \<Rightarrow> Inl e | Inr d \<Rightarrow> Inr (d, r))"

text \<open>The claim at the start of \<open>run_one\<close>.\<close>

definition enter_job :: "run_clock \<Rightarrow> nat \<Rightarrow> 'c engine_db \<Rightarrow> engine_error + ('c engine_db \<times> job)" where
  "enter_job clk i db =
     (case get_job (jobs db) i of
        None \<Rightarrow> Inl (NoSuchJob i)
      | Some j \<Rightarrow>
          if j_status j \<in> set TERMINAL_STATUSES then Inl (JobIsTerminal i (j_status j))
          else if j_status j = PENDING then
            (case claim_job_by_id (t_claim clk) i (jobs db) of
               (_, None) \<Rightarrow> Inl (JobNotClaimed i)
             | (js, Some c) \<Rightarrow> Inr (db\<lparr>jobs := js\<rparr>, c))
          else if j_status j \<noteq> RUNNING then Inl (JobNotRunnable i (j_status j))
          else Inr (db, j))"

text \<open>
  What follows the handler.  \<open>db0\<close> is the database at the start of the transaction, to which a
  rollback returns.
\<close>

definition finish_run ::
  "'c run_env \<Rightarrow> run_clock \<Rightarrow> int dict \<Rightarrow> 'c engine_db \<Rightarrow> nat \<Rightarrow> 'c engine_db \<Rightarrow> job_context \<Rightarrow>
   handler_outcome \<Rightarrow> engine_error + ('c engine_db \<times> job_result)" where
  "finish_run env clk granted db0 i db ctx out =
     (let failed = (\<lambda>d cond reason e.
            case get_job (jobs d) i of
              None \<Rightarrow> Inl (HandlerRaised (exc_msg e))
            | Some j \<Rightarrow>
                with_result (failed_result (exc_msg e))
                  (conclude env clk granted ctx (fail_row clk (exc_text e) j)
                     (Some (plain_projection (Some cond) (Some reason) (Some (exc_msg e)))) d))
      in case out of
           RaisedNotImplemented e \<Rightarrow> failed db CONDITION_BLOCKED ''not-implemented'' e
         | RaisedLocked e \<Rightarrow> Inl (SqliteLocked (exc_msg e))
         | RaisedOther e \<Rightarrow> failed db CONDITION_BACKOFF ''handler-exception'' e
         | SessionLost e \<Rightarrow> failed db0 CONDITION_BACKOFF ''handler-exception'' e
         | Returned r \<Rightarrow>
             (case get_job (jobs db) i of
                None \<Rightarrow> Inl (NoSuchJob i)
              | Some j \<Rightarrow>
                  with_result r
                    (conclude env clk granted ctx (returned_row clk r j) (Some (returned_projection r)) db)))"

definition run_one ::
  "'c run_env \<Rightarrow> run_clock \<Rightarrow> int dict \<Rightarrow> 'c engine_db \<Rightarrow> nat \<Rightarrow> 'c engine_db \<Rightarrow>
   engine_error + ('c engine_db \<times> job_result)" where
  "run_one env clk granted db0 i db =
     (case enter_job clk i db of
        Inl e \<Rightarrow> Inl e
      | Inr (db1, j) \<Rightarrow>
          let ctx = new_context (e_host env) granted j in
          (case map_of (e_handlers env) (j_kind j) of
             None \<Rightarrow>
               let msg = handler_not_registered (e_handlers env) (j_kind j) in
               with_result (failed_result msg)
                 (conclude env clk granted ctx (fail_row clk msg j)
                    (Some (plain_projection (Some CONDITION_BACKOFF) (Some ''handler-not-registered'')
                             (Some msg))) db1)
           | Some handler \<Rightarrow>
               (case invoke_handler_in_savepoint handler ctx i db1 of
                  (db2, ctx2, out) \<Rightarrow> finish_run env clk granted db0 i db2 ctx2 out)))"

subsection \<open>Retry and recovery\<close>

definition apply_retry_policy :: "rat \<Rightarrow> time \<Rightarrow> worker_config \<Rightarrow> job \<Rightarrow> job" where
  "apply_retry_policy u now config j =
     (if j_status j \<noteq> FAILED then j
      else let policy = retry_for_kind config (j_kind j) in
        if j_attempts j \<ge> max_attempts policy then j
        else j\<lparr>j_status := PENDING,
               j_not_before := now + timedelta_seconds
                                 (delay_seconds u policy (j_attempts j) (max_backoff_seconds config)),
               j_started_at := None, j_finished_at := None\<rparr>)"

definition json_items :: "json option \<Rightarrow> json list" where
  "json_items v = (case v of Some (JArr xs) \<Rightarrow> xs | _ \<Rightarrow> [])"

definition orphan_row :: "time \<Rightarrow> job \<Rightarrow> job" where
  "orphan_row now j =
     (let marker = ''orphaned RUNNING at startup, reset to PENDING at '' @ isoformat now;
          obs = json_items (map_of (j_step_state j) ''engine_observations'') @ [JObj [(''note'', JStr marker)]]
      in j\<lparr>j_step_state := dict_merge (j_step_state j) [(''engine_observations'', JArr obs)],
           j_last_error := Some marker, j_status := PENDING, j_started_at := None, j_not_before := now\<rparr>)"

definition reset_orphaned_running_jobs :: "time \<Rightarrow> job list \<Rightarrow> job list \<times> nat" where
  "reset_orphaned_running_jobs now js =
     (update_where (\<lambda>j. j_status j = RUNNING) (orphan_row now) js,
      length (filter (\<lambda>j. j_status j = RUNNING) js))"

text \<open>
  \<open>run_pending\<close>: at most \<open>fuel\<close> turns of its loop (the \<open>limit\<close> argument; with limit 0 the loop has no bound
  of its own).  Turn \<open>n\<close> reads the clock \<open>clk n\<close>; the lease manager is the fresh default one each time.
\<close>

fun run_pending ::
  "'c run_env \<Rightarrow> 'c gates \<Rightarrow> lease_manager \<Rightarrow> (nat \<Rightarrow> run_clock) \<Rightarrow> nat \<Rightarrow> 'c engine_db \<Rightarrow> 'c engine_db \<Rightarrow>
   engine_error + ('c engine_db \<times> (nat \<times> job_result) list)" where
  "run_pending env gates m clk 0 db0 db = Inr (db, [])"
| "run_pending env gates m clk (Suc fuel) db0 db =
     (case claim_pending gates m (t_claim (clk fuel)) db of
        Inl e \<Rightarrow> Inl e
      | Inr (db1, None) \<Rightarrow> Inr (db1, [])
      | Inr (db1, Some j) \<Rightarrow>
          (case run_one env (clk fuel) [] db0 (j_id j) db1 of
             Inl e \<Rightarrow> Inl e
           | Inr (db2, r) \<Rightarrow>
               (case run_pending env gates m clk fuel db0 db2 of
                  Inl e \<Rightarrow> Inl e
                | Inr (db3, rs) \<Rightarrow> Inr (db3, (j_id j, r) # rs))))"

end
