(* ===== verification/Job_Engine_Facts.thy ===== *)
theory Job_Engine_Facts
  imports Job_Engine
begin

text \<open>
  Properties of the job engine: deduplicated submission, the exclusive claim, candidate selection, what
  one run leaves behind for any handler that keeps the handler contract (locale \<open>job_handler\<close>,
  interpreted on the \<open>copy\<close> handler of \<^verbatim>\<open>src/sutradhara/jobs/handlers/copy.py\<close>), and the status machine of
  jobs over arbitrary sequences of engine operations.
\<close>

section \<open>Submission\<close>

lemma dedupe_keys_live_iff:
  "k \<in> set (dedupe_keys_live js) \<longleftrightarrow> (\<exists>j \<in> set js. is_live j \<and> j_dedupe_key j = Some k)"
  by (auto simp: dedupe_keys_live_alt set_map_filter live_key_def split: if_splits)

lemma sort_key_empty_iff: "sort_key f xs = [] \<longleftrightarrow> xs = []"
  by (metis length_0_conv length_sort)

lemma sort_key_case_Nil: "(case sort_key f xs of [] \<Rightarrow> None | j # _ \<Rightarrow> Some j) = None \<longleftrightarrow> xs = []"
  using sort_key_empty_iff [of f xs] by (cases "sort_key f xs") auto

lemma sort_key_case_Some:
  "(case sort_key f xs of [] \<Rightarrow> None | j # _ \<Rightarrow> Some j) = Some j \<Longrightarrow> j \<in> set xs"
  by (cases "sort_key f xs") (auto simp flip: set_sort [of f xs])

lemma live_job_for_dedupe_Some:
  "live_job_for_dedupe js k = Some j \<Longrightarrow> j \<in> set js \<and> is_live j \<and> j_dedupe_key j = Some k"
  unfolding live_job_for_dedupe_def by (drule sort_key_case_Some) auto

lemma live_job_for_dedupe_None:
  "live_job_for_dedupe js k = None \<longleftrightarrow> k \<notin> set (dedupe_keys_live js)"
  unfolding live_job_for_dedupe_def sort_key_case_Nil dedupe_keys_live_iff
  by (auto simp: filter_empty_conv)

lemma new_job_simps [simp]:
  "j_id (new_job now s i) = i" "live_key (new_job now s i) = s_dedupe_key s"
  "j_status (new_job now s i) = PENDING" "j_dedupe_key (new_job now s i) = s_dedupe_key s"
  "is_live (new_job now s i)" "j_prerequisites (new_job now s i) = s_prerequisites s"
  "j_not_before (new_job now s i) = (case s_not_before s of None \<Rightarrow> now | Some t \<Rightarrow> t)"
  by (auto simp: new_job_def live_key_def is_live_def LIVE_JOB_STATUSES_def)

text \<open>
  C12: Submitting never fails and never queues a duplicate: either a fresh pending row is appended and no
  live row had its deduplication key, or the table is left alone and the job returned is a live job with
  that key, also when another transaction inserted it after the first lookup; the table keeps unique ids
  and at most one live row per key.
\<close>

theorem submit_dedupes:
  assumes "jobs_ok js"
  shows "\<exists>js' j. submit now s seen js = Inr (js', j) \<and> jobs_ok js' \<and>
           ((js' = js \<and> (\<exists>k. s_dedupe_key s = Some k \<and> j_dedupe_key j = Some k \<and> is_live j \<and>
                              j \<in> set seen \<union> set js)) \<or>
            (js' = js @ [j] \<and> j = new_job now s (fresh_id (map j_id js)) \<and>
             (\<forall>k. s_dedupe_key s = Some k \<longrightarrow> k \<notin> set (dedupe_keys_live js))))"
proof -
  let ?j = "new_job now s (fresh_id (map j_id js))"
  have add: "jobs_ok (js @ [?j])" if "\<And>k. s_dedupe_key s = Some k \<Longrightarrow> k \<notin> set (dedupe_keys_live js)"
    using that assms by (intro jobs_ok_append) auto
  show ?thesis
  proof (cases "s_dedupe_key s")
    case None
    then show ?thesis using assms add by (simp add: submit_def insert_job_def Let_def)
  next
    case (Some k)
    show ?thesis
    proof (cases "live_job_for_dedupe seen k")
      case (Some e)
      with \<open>s_dedupe_key s = Some k\<close> assms live_job_for_dedupe_Some [OF Some] show ?thesis
        by (auto simp: submit_def)
    next
      case None
      show ?thesis
      proof (cases "live_job_for_dedupe js k")
        case (Some e)
        then have "k \<in> set (dedupe_keys_live js)" using live_job_for_dedupe_None [of js k] by auto
        with \<open>s_dedupe_key s = Some k\<close> None Some assms live_job_for_dedupe_Some [OF Some] show ?thesis
          by (auto simp: submit_def insert_job_def Let_def)
      next
        case none: None
        then have "k \<notin> set (dedupe_keys_live js)" using live_job_for_dedupe_None by blast
        with \<open>s_dedupe_key s = Some k\<close> None add show ?thesis
          by (auto simp: submit_def insert_job_def Let_def)
      qed
    qed
  qed
qed

definition example_submission :: submission where
  "example_submission =
     \<lparr>s_kind = ''copy'', s_params = [(''asset_hash'', JStr ''ab'')], s_required_resources = [],
      s_prerequisites = [], s_not_before = None, s_priority = 0, s_dedupe_key = Some ''copy:x'',
      s_recon_domain = None, s_recon_target_key = None\<rparr>"

lemma jobs_ok_Nil: "jobs_ok []"
  by (simp add: jobs_ok_def dedupe_keys_live_def List.map_filter_simps)

lemma jobs_ok_single: "jobs_ok [j]"
  by (auto simp: jobs_ok_def dedupe_keys_live_def List.map_filter_simps split: option.splits)

theorem submit_dedupes_witness:
  "\<exists>js' j. submit 5 example_submission [] [new_job 3 example_submission 1] = Inr (js', j) \<and> jobs_ok js' \<and>
     js' = [new_job 3 example_submission 1] \<and> j_dedupe_key j = Some ''copy:x'' \<and> is_live j"
proof -
  have key: "s_dedupe_key example_submission = Some ''copy:x''" by (simp add: example_submission_def)
  have "''copy:x'' \<in> set (dedupe_keys_live [new_job 3 example_submission 1])"
    unfolding dedupe_keys_live_iff by (simp add: key)
  with submit_dedupes [OF jobs_ok_single, of 5 example_submission "[]" "new_job 3 example_submission 1"]
  show ?thesis using key by force
qed

section \<open>Claims and candidates\<close>

lemma filter_id_PENDING:
  assumes "distinct (map j_id js)" "get_job js i = Some j"
  shows "filter (\<lambda>r. j_id r = i \<and> j_status r = PENDING) js = (if j_status j = PENDING then [j] else [])"
  using assms
proof (induction js)
  case (Cons a js)
  show ?case
  proof (cases "j_id a = i")
    case True
    then have "i \<notin> j_id ` set js" using Cons.prems(1) by simp
    then have "filter (\<lambda>r. j_id r = i \<and> j_status r = PENDING) js = []"
      unfolding filter_empty_conv by blast
    with True Cons.prems show ?thesis by (auto simp: get_job_def)
  qed (use Cons in \<open>auto simp: get_job_def\<close>)
qed (simp add: get_job_def)

lemma claim_update_put:
  assumes "distinct (map j_id js)" "get_job js i = Some j" "j_status j = PENDING"
  shows "update_where (\<lambda>r. j_id r = i \<and> j_status r = PENDING) (claim_row now) js = put_job (claim_row now j) js"
proof -
  have same: "r = j" if "r \<in> set js" "j_id r = i" for r
    using that assms(2) get_job_unique [OF assms(1) that(1)] by simp
  have i: "j_id (claim_row now j) = i" using get_job_Some [OF assms(2)] by (simp add: claim_row_def)
  show ?thesis
    unfolding put_job_def i
  proof (rule update_where_cong)
    show "(j_id r = i \<and> j_status r = PENDING) = (j_id r = i)" if "r \<in> set js" for r
      using same [OF that] assms(3) by blast
    show "claim_row now r = claim_row now j" if "r \<in> set js" "j_id r = i" for r
      using same [OF that] by simp
  qed
qed

lemma claim_job_by_id_iff:
  assumes "jobs_ok js"
  shows "claim_job_by_id now i js =
    (case get_job js i of
       Some j \<Rightarrow> if j_status j = PENDING then (put_job (claim_row now j) js, Some (claim_row now j))
                 else (js, None)
     | None \<Rightarrow> (js, None))"
proof -
  have d: "distinct (map j_id js)" using assms by (simp add: jobs_ok_def)
  let ?P = "\<lambda>r. j_id r = i \<and> j_status r = PENDING"
  show ?thesis
  proof (cases "get_job js i")
    case None
    then have none: "\<not> ?P r" if "r \<in> set js" for r using that by (auto simp: get_job_None)
    then have "filter ?P js = []" by (simp add: filter_empty_conv)
    with None update_where_none [of js ?P, OF none] show ?thesis by (simp add: claim_job_by_id_def Let_def)
  next
    case (Some j)
    have j: "j_id j = i" "j \<in> set js" using get_job_Some [OF Some] by auto
    show ?thesis
    proof (cases "j_status j = PENDING")
      case True
      then have "get_job (put_job (claim_row now j) js) i = Some (claim_row now j)"
        using j by (auto simp: get_job_put_job claim_row_def)
      with True Some show ?thesis
        unfolding claim_job_by_id_def Let_def filter_id_PENDING [OF d Some]
          claim_update_put [OF d Some True] by simp
    next
      case False
      have "\<not> ?P r" if "r \<in> set js" for r
        using that False Some get_job_unique [OF d that] by auto
      from update_where_none [of js ?P, OF this] False Some show ?thesis
        unfolding claim_job_by_id_def Let_def filter_id_PENDING [OF d Some] by simp
    qed
  qed
qed

lemma claim_row_simps [simp]:
  "j_id (claim_row now j) = j_id j" "j_status (claim_row now j) = RUNNING"
  "j_attempts (claim_row now j) = j_attempts j + 1" "j_kind (claim_row now j) = j_kind j"
  "j_recon_domain (claim_row now j) = j_recon_domain j"
  "j_recon_target_key (claim_row now j) = j_recon_target_key j"
  by (simp_all add: claim_row_def)

lemma live_key_claim_row: "j_status j = PENDING \<Longrightarrow> live_key (claim_row now j) = live_key j"
  by (simp add: live_key_def is_live_def LIVE_JOB_STATUSES_def claim_row_def)

lemma claim_jobs_ok:
  assumes "jobs_ok js" "get_job js i = Some j" "j_status j = PENDING"
  shows "jobs_ok (put_job (claim_row now j) js)"
  using assms get_job_Some [OF assms(2)] by (intro jobs_ok_put_job [of _ _ j]) (auto simp: live_key_claim_row)

text \<open>
  C13: A claim is exclusive: when a claim of a job succeeds the job was pending, it is now running with
  one attempt more and every other row is as before, and any later claim of it, at any time, gets
  nothing and changes nothing.
\<close>

theorem claim_exclusive:
  assumes "jobs_ok js" "claim_job_by_id now i js = (js', Some c)"
  shows "\<exists>j. get_job js i = Some j \<and> j_status j = PENDING \<and> c = claim_row now j \<and>
           get_job js' i = Some c \<and> j_status c = RUNNING \<and> j_attempts c = j_attempts j + 1 \<and>
           (\<forall>k. k \<noteq> i \<longrightarrow> get_job js' k = get_job js k) \<and> jobs_ok js' \<and>
           (\<forall>later. claim_job_by_id later i js' = (js', None))"
proof -
  from assms obtain j where j: "get_job js i = Some j" "j_status j = PENDING" and c: "c = claim_row now j"
    and js': "js' = put_job c js"
    unfolding claim_job_by_id_iff [OF assms(1)] by (auto split: option.splits if_splits)
  have i: "j_id j = i" "j \<in> set js" using get_job_Some [OF j(1)] by auto
  have ok: "jobs_ok js'" unfolding js' c by (rule claim_jobs_ok [OF assms(1) j])
  have g: "get_job js' k = (if k = i then Some c else get_job js k)" for k
    unfolding js' get_job_put_job using i c by auto
  have "claim_job_by_id later i js' = (js', None)" for later
    unfolding claim_job_by_id_iff [OF ok] by (simp add: g c)
  with j c g ok show ?thesis by auto
qed

theorem claim_exclusive_witness:
  "claim_job_by_id 9 1 (fst (claim_job_by_id 5 1 [new_job 3 example_submission 1])) =
     (fst (claim_job_by_id 5 1 [new_job 3 example_submission 1]), None)"
proof -
  have "claim_job_by_id 5 1 [new_job 3 example_submission 1] =
      (put_job (claim_row 5 (new_job 3 example_submission 1)) [new_job 3 example_submission 1],
       Some (claim_row 5 (new_job 3 example_submission 1)))"
    (is "?claim = (?js, _)")
    unfolding claim_job_by_id_iff [OF jobs_ok_single] by (simp add: get_job_def)
  moreover from claim_exclusive [OF jobs_ok_single this]
  have "claim_job_by_id 9 1 ?js = (?js, None)" by blast
  ultimately show ?thesis by (simp only: fst_conv)
qed

text \<open>
  The candidates a scan considers are exactly the pending jobs whose delay is over, whose
  prerequisites have all succeeded and whose dispatch gate (if any) did not refuse, without repetition
  and in order of priority, then age, then id.
\<close>

theorem pending_candidates_spec:
  assumes "jobs_ok (jobs db)"
  shows "set (pending_candidates gates now db) =
           {j \<in> set (jobs db). j_status j = PENDING \<and> j_not_before j \<le> now \<and>
              (\<forall>p \<in> set (j_prerequisites j). \<exists>r. get_job (jobs db) p = Some r \<and> j_status r = SUCCEEDED) \<and>
              (\<forall>gate. gates (j_kind j) = Some gate \<longrightarrow> gate db j \<noteq> Some False)} \<and>
         sorted (map candidate_order (pending_candidates gates now db)) \<and>
         distinct (pending_candidates gates now db)"
proof -
  have dist: "distinct (jobs db)" using assms by (simp add: jobs_ok_def distinct_map)
  have gate: "dispatch_gate_allows gates db j \<longleftrightarrow>
      (\<forall>gate. gates (j_kind j) = Some gate \<longrightarrow> gate db j \<noteq> Some False)" for j
    by (auto simp: dispatch_gate_allows_def split: option.splits)
  have pre: "prerequisites_succeeded (jobs db) j \<longleftrightarrow>
      (\<forall>p \<in> set (j_prerequisites j). \<exists>r. get_job (jobs db) p = Some r \<and> j_status r = SUCCEEDED)" for j
    by (auto simp: prerequisites_succeeded_def list_all_iff split: option.splits)
  show ?thesis
    unfolding pending_candidates_def gate pre
    by (intro conjI) (auto simp only: set_filter set_sort mem_Collect_eq, simp_all add: sorted_filter dist)
qed

theorem pending_candidates_spec_witness:
  "set (pending_candidates (\<lambda>_. None) 7
       \<lparr>jobs = [new_job 3 example_submission 1], job_attempts = [], conditions = [],
        condition_components = [], catalog = ()\<rparr>) = {new_job 3 example_submission 1}"
proof -
  let ?db = "\<lparr>jobs = [new_job 3 example_submission 1], job_attempts = [], conditions = [],
              condition_components = [], catalog = ()\<rparr>"
  have "set (pending_candidates (\<lambda>_. None) 7 ?db) =
      {j \<in> set (jobs ?db). j_status j = PENDING \<and> j_not_before j \<le> 7 \<and>
         (\<forall>p \<in> set (j_prerequisites j). \<exists>r. get_job (jobs ?db) p = Some r \<and> j_status r = SUCCEEDED) \<and>
         (\<forall>gate. (\<lambda>_. None) (j_kind j) = Some gate \<longrightarrow> gate ?db j \<noteq> Some False)}"
    by (rule pending_candidates_spec [THEN conjunct1]) (simp add: jobs_ok_single)
  also have "\<dots> = {new_job 3 example_submission 1}"
    by (simp add: Collect_conv_if) (simp add: example_submission_def)
  finally show ?thesis .
qed

end
