(* ===== verification/Job_Run.thy ===== *)
theory Job_Run
  imports Job_Engine_Facts
begin

text \<open>
  The run of one job.  The locale \<open>job_handler\<close> is the contract the engine relies on: a handler may change
  the catalog, add jobs and conditions and rewrite its own step state, but leaves the rows of other jobs,
  the rest of its own row and the attempt log alone.  It is interpreted on the \<open>copy\<close> handler
  (\<^verbatim>\<open>src/sutradhara/jobs/handlers/copy.py\<close>).
\<close>

section \<open>The copy handler\<close>

text \<open>
  \<open>repr_value\<close> is Python's \<open>repr\<close> of a parameter value (\<open>None\<close> for a missing one), \<open>tb\<close> the traceback text.
\<close>

definition handle_copy :: "(json option \<Rightarrow> string) \<Rightarrow> string \<Rightarrow> 'c handler" where
  "handle_copy repr_value tb ctx i db =
     (let params = (case get_job (jobs db) i of None \<Rightarrow> [] | Some j \<Rightarrow> j_params j)
      in (db, ctx, RaisedNotImplemented
            \<lparr>exc_type = ''NotImplementedError'',
             exc_msg = ''copy execution is not implemented yet: writing bytes to a backend '' @
               ''requires a write-capable backend port (Remanence Layer 5 / the '' @
               ''rem.tape.write_object seam), which does not exist. dispatch_write_to_tape '' @
               ''records copy intent only (day-1). requested: asset_hash='' @
               repr_value (map_of params ''asset_hash'') @ '' target_backend='' @
               repr_value (map_of params ''target_backend''),
             exc_traceback = tb\<rparr>))"

section \<open>The handler contract\<close>

definition own_row_kept :: "job \<Rightarrow> job \<Rightarrow> bool" where
  "own_row_kept j j' \<longleftrightarrow> j' = j\<lparr>j_step_state := j_step_state j'\<rparr>"

lemma own_row_kept_fields:
  assumes "own_row_kept j j'"
  shows "j_id j' = j_id j" "j_kind j' = j_kind j" "j_status j' = j_status j" "j_attempts j' = j_attempts j"
    "live_key j' = live_key j" "j_recon_domain j' = j_recon_domain j"
    "j_recon_target_key j' = j_recon_target_key j" "j_dedupe_key j' = j_dedupe_key j"
proof -
  from assms obtain st where "j' = j\<lparr>j_step_state := st\<rparr>" by (auto simp: own_row_kept_def)
  then show "j_id j' = j_id j" "j_kind j' = j_kind j" "j_status j' = j_status j" "j_attempts j' = j_attempts j"
    "live_key j' = live_key j" "j_recon_domain j' = j_recon_domain j"
    "j_recon_target_key j' = j_recon_target_key j" "j_dedupe_key j' = j_dedupe_key j"
    by (simp_all add: live_key_def is_live_def)
qed

locale job_handler =
  fixes h :: "'c handler"
  assumes keeps_jobs_ok: "h ctx i db = (db', ctx', out) \<Longrightarrow> jobs_ok (jobs db) \<Longrightarrow> jobs_ok (jobs db')"
    and keeps_own: "h ctx i db = (db', ctx', out) \<Longrightarrow> get_job (jobs db) i = Some j \<Longrightarrow>
      \<exists>j'. get_job (jobs db') i = Some j' \<and> own_row_kept j j'"
    and keeps_others: "h ctx i db = (db', ctx', out) \<Longrightarrow> k \<noteq> i \<Longrightarrow> get_job (jobs db) k = Some j \<Longrightarrow>
      get_job (jobs db') k = Some j"
    and keeps_attempts: "h ctx i db = (db', ctx', out) \<Longrightarrow> job_attempts db' = job_attempts db"
    and keeps_conditions: "h ctx i db = (db', ctx', out) \<Longrightarrow> conditions_inv (conditions db) \<Longrightarrow>
      conditions_inv (conditions db')"
    and keeps_targets: "h ctx i db = (db', ctx', out) \<Longrightarrow> get_condition (conditions db) d t \<noteq> None \<Longrightarrow>
      get_condition (conditions db') d t \<noteq> None"
    and gives_projection: "h ctx i db = (db', ctx', Returned r) \<Longrightarrow> r_condition r = Some p \<Longrightarrow>
      p_condition p \<in> {None, Some CONDITION_BACKOFF, Some CONDITION_BLOCKED}"
begin

lemma restore_batch_own:
  assumes "get_job (jobs db) i = Some j"
  shows "\<exists>j'. jobs (restore_batch_state i db1 db) = put_job j' (jobs db) \<and> own_row_kept j j'"
  using assms by (auto simp: restore_batch_state_def Let_def own_row_kept_def)

text \<open>The savepoint keeps the contract, whether the handler returned or raised.\<close>

lemma invoke_jobs:
  assumes inv: "invoke_handler_in_savepoint h ctx i db = (db2, ctx2, out)"
    and ok: "jobs_ok (jobs db)" and own: "get_job (jobs db) i = Some j"
  shows "jobs_ok (jobs db2) \<and> (\<exists>j2. get_job (jobs db2) i = Some j2 \<and> own_row_kept j j2) \<and>
         (\<forall>k r. k \<noteq> i \<longrightarrow> get_job (jobs db) k = Some r \<longrightarrow> get_job (jobs db2) k = Some r)"
proof -
  obtain db1 ctx1 out1 where h: "h ctx i db = (db1, ctx1, out1)" by (cases "h ctx i db")
  have i: "j_id j = i" "i \<in> j_id ` set (jobs db)" using get_job_Some [OF own] by auto
  have refl: "own_row_kept j j" by (simp add: own_row_kept_def)
  have rest: "jobs_ok (put_job j' (jobs db)) \<and> get_job (put_job j' (jobs db)) i = Some j' \<and>
      (\<forall>k. k \<noteq> i \<longrightarrow> get_job (put_job j' (jobs db)) k = get_job (jobs db) k)"
    if keep: "own_row_kept j j'" for j'
    using jobs_ok_put_job [OF ok, of j' j] own i own_row_kept_fields [OF keep] by (auto simp: get_job_put_job)
  show ?thesis
  proof (cases "\<exists>r. out1 = Returned r")
    case True
    with inv h have "db2 = db1" by (auto simp: invoke_handler_in_savepoint_def)
    with keeps_jobs_ok [OF h ok] keeps_own [OF h own] keeps_others [OF h] show ?thesis by blast
  next
    case False
    with inv h have "db2 = (if x_batch_touched ctx1 then restore_batch_state i db1 db else db)"
      by (auto simp: invoke_handler_in_savepoint_def split: handler_outcome.splits)
    with restore_batch_own [OF own, of db1] rest refl ok own show ?thesis
      by (cases "x_batch_touched ctx1") auto
  qed
qed

lemma invoke_log:
  assumes inv: "invoke_handler_in_savepoint h ctx i db = (db2, ctx2, out)"
  shows "job_attempts db2 = job_attempts db"
    and "conditions_inv (conditions db) \<Longrightarrow> conditions_inv (conditions db2)"
    and "get_condition (conditions db) d t \<noteq> None \<Longrightarrow> get_condition (conditions db2) d t \<noteq> None"
proof -
  obtain db1 ctx1 out1 where h: "h ctx i db = (db1, ctx1, out1)" by (cases "h ctx i db")
  have restored: "job_attempts (restore_batch_state i db1 db) = job_attempts db"
    "conditions (restore_batch_state i db1 db) = conditions db"
    by (simp_all add: restore_batch_state_def Let_def split: option.splits)
  have "db2 = db1 \<or> db2 = db \<or> db2 = restore_batch_state i db1 db"
    using inv h by (auto simp: invoke_handler_in_savepoint_def split: handler_outcome.splits if_splits)
  then show "job_attempts db2 = job_attempts db"
    and "conditions_inv (conditions db) \<Longrightarrow> conditions_inv (conditions db2)"
    and "get_condition (conditions db) d t \<noteq> None \<Longrightarrow> get_condition (conditions db2) d t \<noteq> None"
    using keeps_attempts [OF h] keeps_conditions [OF h] keeps_targets [OF h, of d t] restored by auto
qed

lemma invoke_projection:
  assumes "invoke_handler_in_savepoint h ctx i db = (db2, ctx2, Returned r)" "r_condition r = Some p"
  shows "p_condition p \<in> {None, Some CONDITION_BACKOFF, Some CONDITION_BLOCKED}"
proof -
  obtain db1 ctx1 out1 where h: "h ctx i db = (db1, ctx1, out1)" by (cases "h ctx i db")
  with assms(1) have "out1 = Returned r"
    by (auto simp: invoke_handler_in_savepoint_def split: handler_outcome.splits)
  with gives_projection [of ctx i db db1 ctx1 r p] h assms(2) show ?thesis by simp
qed

end

interpretation copy_handler: job_handler "handle_copy repr_value tb"
  by unfold_locales (auto simp: handle_copy_def Let_def own_row_kept_def)

section \<open>The end of a run\<close>

lemma record_condition_frame:
  assumes "record_condition u now d k p a db = Inr (db', row)"
  shows "jobs db' = jobs db \<and> job_attempts db' = job_attempts db \<and> catalog db' = catalog db"
  using assms by (rule record_condition_effect) simp

lemma record_reconciler_frame:
  assumes "record_reconciler_condition u now j a p db = Inr db'"
  shows "jobs db' = jobs db \<and> job_attempts db' = job_attempts db"
  using assms
  by (auto simp: record_reconciler_condition_def split: option.splits sum.splits
           dest!: record_condition_frame)

definition attempt_of :: "job \<Rightarrow> job_attempt \<Rightarrow> bool" where
  "attempt_of j a \<longleftrightarrow>
     a_job_id a = j_id j \<and> a_job_kind a = j_kind j \<and> a_attempt_number a = j_attempts j \<and>
     a_outcome a = j_status j \<and> a_error a = j_last_error j"

lemma conclude_effect:
  assumes "conclude env clk granted ctx j p db = Inr db'"
  shows "jobs db' = put_job j (jobs db) \<and> (\<exists>a. job_attempts db' = job_attempts db @ [a] \<and> attempt_of j a)"
  using assms
  by (auto simp: conclude_def record_attempt_def attempt_of_def Let_def split: option.splits
           dest!: record_reconciler_frame)

text \<open>A projection the condition table accepts, and a job whose target it knows.\<close>

definition projection_ok :: "projection \<Rightarrow> bool" where
  "projection_ok p \<longleftrightarrow> p_condition p \<in> {None, Some CONDITION_BACKOFF, Some CONDITION_BLOCKED}"

definition target_known :: "job \<Rightarrow> 'c engine_db \<Rightarrow> bool" where
  "target_known j db \<longleftrightarrow>
     (case (j_recon_domain j, j_recon_target_key j) of
        (None, _) \<Rightarrow> True
      | (Some d, Some k) \<Rightarrow> get_condition (conditions db) d k \<noteq> None
      | (Some d, None) \<Rightarrow> False)"

lemma record_condition_total:
  assumes "projection_ok q" "get_condition (conditions db) d k \<noteq> None"
  shows "\<exists>res. record_condition u now d k q a db = Inr res"
  using assms record_condition_found [of db d k _ q u now a] by (auto simp: projection_ok_def)

lemma record_reconciler_total:
  assumes "projection_ok q" "target_known j db"
  shows "\<exists>db'. record_reconciler_condition u now j a q db = Inr db'"
proof (cases "j_recon_domain j")
  case None
  then show ?thesis by (simp add: record_reconciler_condition_def)
next
  case (Some d)
  with assms(2) obtain k where k: "j_recon_target_key j = Some k" "get_condition (conditions db) d k \<noteq> None"
    by (auto simp: target_known_def split: option.splits)
  from record_condition_total [OF assms(1) this(2), of u now "Some a"] obtain res where
    "record_condition u now d k q (Some a) db = Inr res" by blast
  with Some k show ?thesis by (cases res) (simp add: record_reconciler_condition_def)
qed

lemma conclude_total:
  assumes "projection_ok q" "target_known j db"
  shows "\<exists>db'. conclude env clk granted ctx j (Some q) db = Inr db'"
proof -
  have "target_known j (db\<lparr>jobs := js, job_attempts := as\<rparr>)" for js as
    using assms(2) by (simp add: target_known_def cong: option.case_cong)
  from record_reconciler_total [OF assms(1) this] show ?thesis
    by (auto simp: conclude_def record_attempt_def Let_def)
qed

text \<open>What a concluded run leaves of the job and of the log.\<close>

definition concluded :: "nat \<Rightarrow> job \<Rightarrow> job_result \<Rightarrow> 'c engine_db \<Rightarrow> 'c engine_db \<Rightarrow> bool" where
  "concluded i j r db db' \<longleftrightarrow>
     (\<exists>j' a. get_job (jobs db') i = Some j' \<and> j_attempts j' = j_attempts j \<and>
        j_dedupe_key j' = j_dedupe_key j \<and> j_kind j' = j_kind j \<and>
        j_status j' = (if r_ok r then SUCCEEDED else FAILED) \<and>
        job_attempts db' = job_attempts db @ [a] \<and> attempt_of j' a \<and>
        (\<forall>k row. k \<noteq> i \<longrightarrow> get_job (jobs db) k = Some row \<longrightarrow> get_job (jobs db') k = Some row)) \<and>
     jobs_ok (jobs db') \<and>
     (\<forall>x. j_id x = i \<longrightarrow> live_key x = live_key j \<longrightarrow> jobs_ok (put_job x (jobs db')))"

lemma put_job_put_job: "j_id x = j_id y \<Longrightarrow> put_job x (put_job y js) = put_job x js"
  by (induction js) (auto simp: put_job_def)

lemma conclude_concluded:
  assumes c: "conclude env clk granted ctx j2 p db2 = Inr db'"
    and ok: "jobs_ok (jobs db2)" and own: "get_job (jobs db2) i = Some j1"
    and key: "live_key j1 = live_key j"
    and j2: "j_id j2 = i" "j_attempts j2 = j_attempts j" "j_status j2 = (if r_ok r then SUCCEEDED else FAILED)"
      "j_dedupe_key j2 = j_dedupe_key j" "j_kind j2 = j_kind j"
    and log: "job_attempts db2 = job_attempts db"
    and others: "\<forall>k row. k \<noteq> i \<longrightarrow> get_job (jobs db) k = Some row \<longrightarrow> get_job (jobs db2) k = Some row"
  shows "concluded i j r db db'"
proof -
  from conclude_effect [OF c] obtain a where jobs: "jobs db' = put_job j2 (jobs db2)"
    and a: "job_attempts db' = job_attempts db2 @ [a]" "attempt_of j2 a" by blast
  have i: "i \<in> j_id ` set (jobs db2)" using get_job_Some [OF own] by auto
  have dead: "live_key j2 = None"
    using j2(3) by (auto simp: live_key_def is_live_def LIVE_JOB_STATUSES_def)
  have "jobs_ok (jobs db')"
    unfolding jobs using jobs_ok_put_job [OF ok, of j2 j1] own j2(1) dead by simp
  moreover have "get_job (jobs db') k = (if k = i then Some j2 else get_job (jobs db2) k)" for k
    unfolding jobs get_job_put_job using i j2(1) by auto
  moreover have "jobs_ok (put_job x (jobs db'))" if "j_id x = i" "live_key x = live_key j" for x
    using that jobs_ok_put_job [OF ok, of x j1] own key j2(1) by (simp add: jobs put_job_put_job)
  ultimately show ?thesis
    unfolding concluded_def using a log others j2(2-5) by auto
qed

lemma failed_result_ok [simp]: "\<not> r_ok (failed_result m)"
  by (simp add: failed_result_def)

lemma fail_row_simps [simp]:
  "j_id (fail_row clk m j) = j_id j" "j_attempts (fail_row clk m j) = j_attempts j"
  "j_status (fail_row clk m j) = FAILED" "j_recon_domain (fail_row clk m j) = j_recon_domain j"
  "j_recon_target_key (fail_row clk m j) = j_recon_target_key j"
  "j_dedupe_key (fail_row clk m j) = j_dedupe_key j" "j_kind (fail_row clk m j) = j_kind j"
  by (simp_all add: fail_row_def)

lemma returned_row_simps [simp]:
  "j_id (returned_row clk r j) = j_id j" "j_attempts (returned_row clk r j) = j_attempts j"
  "j_status (returned_row clk r j) = (if r_ok r then SUCCEEDED else FAILED)"
  "j_recon_domain (returned_row clk r j) = j_recon_domain j"
  "j_recon_target_key (returned_row clk r j) = j_recon_target_key j"
  "j_dedupe_key (returned_row clk r j) = j_dedupe_key j" "j_kind (returned_row clk r j) = j_kind j"
  by (simp_all add: returned_row_def)

lemma target_known_cong:
  assumes "j_recon_domain j' = j_recon_domain j" "j_recon_target_key j' = j_recon_target_key j"
    "target_known j db"
    "\<And>d k. get_condition (conditions db) d k \<noteq> None \<Longrightarrow> get_condition (conditions db') d k \<noteq> None"
  shows "target_known j' db'"
proof (cases "j_recon_domain j")
  case (Some d)
  with assms(3) obtain k where "j_recon_target_key j = Some k" "get_condition (conditions db) d k \<noteq> None"
    by (auto simp: target_known_def split: option.splits)
  with assms Some show ?thesis by (simp add: target_known_def)
qed (simp add: target_known_def assms(1))

lemma projection_ok_plain [simp]:
  "projection_ok (plain_projection None r m)"
  "projection_ok (plain_projection (Some CONDITION_BACKOFF) r m)"
  "projection_ok (plain_projection (Some CONDITION_BLOCKED) r m)"
  by (simp_all add: projection_ok_def plain_projection_def)

text \<open>
  One concluding branch: the row \<open>f j2\<close> of the job found after the handler is written, the attempt logged
  and the projection recorded.
\<close>

lemma conclude_branch:
  assumes ok: "jobs_ok (jobs db2)" and own: "get_job (jobs db2) i = Some j2" and keep: "own_row_kept j j2"
    and log: "job_attempts db2 = job_attempts db"
    and others: "\<forall>k row. k \<noteq> i \<longrightarrow> get_job (jobs db) k = Some row \<longrightarrow> get_job (jobs db2) k = Some row"
    and tk: "target_known j db"
    and tgt: "\<And>d k. get_condition (conditions db) d k \<noteq> None \<Longrightarrow> get_condition (conditions db2) d k \<noteq> None"
    and f: "j_id (f j2) = j_id j2" "j_attempts (f j2) = j_attempts j2"
      "j_status (f j2) = (if r_ok r then SUCCEEDED else FAILED)"
      "j_recon_domain (f j2) = j_recon_domain j2" "j_recon_target_key (f j2) = j_recon_target_key j2"
      "j_dedupe_key (f j2) = j_dedupe_key j2" "j_kind (f j2) = j_kind j2"
    and q: "projection_ok q"
  shows "\<exists>db'. with_result r (conclude env clk granted ctx (f j2) (Some q) db2) = Inr (db', r) \<and>
               concluded i j r db db'"
proof -
  have "target_known (f j2) db2"
    using target_known_cong [OF _ _ tk tgt] f(4,5) own_row_kept_fields(6,7) [OF keep] by simp
  from conclude_total [OF q this, of env clk granted ctx] obtain db' where
    c: "conclude env clk granted ctx (f j2) (Some q) db2 = Inr db'" by blast
  have g: "j_id (f j2) = i" "j_attempts (f j2) = j_attempts j" "j_dedupe_key (f j2) = j_dedupe_key j"
    "j_kind (f j2) = j_kind j"
    using f get_job_Some [OF own] own_row_kept_fields [OF keep] by auto
  from conclude_concluded [OF c ok own own_row_kept_fields(5) [OF keep] g(1,2) f(3) g(3,4) log others] c
  show ?thesis
    by (simp add: with_result_def)
qed

lemma finish_run_concludes:
  assumes h: "job_handler h" and inv: "invoke_handler_in_savepoint h ctx i db = (db2, ctx2, out)"
    and ok: "jobs_ok (jobs db)" and own: "get_job (jobs db) i = Some j" and tk: "target_known j db"
  shows "(\<exists>m. finish_run env clk granted db i db2 ctx2 out = Inl (SqliteLocked m)) \<or>
         (\<exists>db' r. finish_run env clk granted db i db2 ctx2 out = Inr (db', r) \<and> concluded i j r db db')"
proof -
  from job_handler.invoke_jobs [OF h inv ok own] obtain j2 where ok2: "jobs_ok (jobs db2)"
    and own2: "get_job (jobs db2) i = Some j2" and keep2: "own_row_kept j j2"
    and oth2: "\<forall>k row. k \<noteq> i \<longrightarrow> get_job (jobs db) k = Some row \<longrightarrow> get_job (jobs db2) k = Some row"
    by blast
  note log2 = job_handler.invoke_log(1) [OF h inv] and tgt2 = job_handler.invoke_log(3) [OF h inv]
  have keep: "own_row_kept j j" by (simp add: own_row_kept_def)
  note after = conclude_branch [OF ok2 own2 keep2 log2 oth2 tk tgt2]
  note before = conclude_branch [OF ok own keep refl _ tk]
  show ?thesis
  proof (cases out)
    case (Returned r)
    have "projection_ok (returned_projection r)"
      using job_handler.invoke_projection [OF h inv [unfolded Returned]]
      by (auto simp: returned_projection_def projection_ok_def plain_projection_def split: option.splits)
    with after [of "returned_row clk r" r "returned_projection r" env clk granted ctx2]
    show ?thesis by (simp add: finish_run_def own2 Returned) blast
  next
    case (RaisedNotImplemented e)
    from after [of "fail_row clk (exc_text e)" "failed_result (exc_msg e)"
        "plain_projection (Some CONDITION_BLOCKED) (Some ''not-implemented'') (Some (exc_msg e))"
        env clk granted ctx2]
    show ?thesis by (simp add: finish_run_def own2 RaisedNotImplemented) blast
  next
    case (RaisedOther e)
    from after [of "fail_row clk (exc_text e)" "failed_result (exc_msg e)"
        "plain_projection (Some CONDITION_BACKOFF) (Some ''handler-exception'') (Some (exc_msg e))"
        env clk granted ctx2]
    show ?thesis by (simp add: finish_run_def own2 RaisedOther) blast
  next
    case (SessionLost e)
    from before [of "fail_row clk (exc_text e)" "failed_result (exc_msg e)"
        "plain_projection (Some CONDITION_BACKOFF) (Some ''handler-exception'') (Some (exc_msg e))"
        env clk granted ctx2]
    show ?thesis by (simp add: finish_run_def own SessionLost) blast
  qed (simp add: finish_run_def)
qed

definition handlers_ok :: "'c run_env \<Rightarrow> bool" where
  "handlers_ok env \<longleftrightarrow> (\<forall>h \<in> snd ` set (e_handlers env). job_handler h)"

lemma run_one_outcomes:
  assumes hs: "handlers_ok env"
    and ok: "jobs_ok (jobs db)" and own: "get_job (jobs db) i = Some j"
    and st: "j_status j = RUNNING" and tk: "target_known j db"
  shows "(\<exists>m. run_one env clk granted db i db = Inl (SqliteLocked m)) \<or>
         (\<exists>db' r. run_one env clk granted db i db = Inr (db', r) \<and> concluded i j r db db')"
proof -
  have enter: "enter_job clk i db = Inr (db, j)"
    by (simp add: enter_job_def own st TERMINAL_STATUSES_def)
  show ?thesis
  proof (cases "map_of (e_handlers env) (j_kind j)")
    case None
    let ?msg = "handler_not_registered (e_handlers env) (j_kind j)"
    have keep: "own_row_kept j j" by (simp add: own_row_kept_def)
    from conclude_branch [OF ok own keep refl _ tk, of "fail_row clk ?msg" "failed_result ?msg"
        "plain_projection (Some CONDITION_BACKOFF) (Some ''handler-not-registered'') (Some ?msg)"
        env clk granted "new_context (e_host env) granted j"]
    show ?thesis by (simp add: run_one_def enter None Let_def) blast
  next
    case (Some h)
    obtain db2 ctx2 out where inv:
      "invoke_handler_in_savepoint h (new_context (e_host env) granted j) i db = (db2, ctx2, out)"
      by (metis prod_cases3)
    have "job_handler h" using hs map_of_SomeD [OF Some] by (force simp: handlers_ok_def)
    from finish_run_concludes [OF this inv ok own tk, of env clk granted]
    show ?thesis by (simp add: run_one_def enter Some inv)
  qed
qed


definition example_env :: "unit run_env" where
  "example_env =
     \<lparr>e_handlers = [(''copy'', handle_copy (\<lambda>_. ''None'') ''tb'')], e_host = ''h'', e_worker_id = ''h:1'',
      e_code_version = ''1''\<rparr>"

definition example_clock :: run_clock where
  "example_clock = \<lparr>t_claim = 10, t_finish = 20, t_condition = 30, t_jitter = 0\<rparr>"

definition example_running :: "unit engine_db" where
  "example_running =
     \<lparr>jobs = [claim_row 5 (new_job 3 example_submission 1)], job_attempts = [], conditions = [],
      condition_components = [], catalog = ()\<rparr>"

lemma example_env_handlers: "handlers_ok example_env"
  by (simp add: handlers_ok_def example_env_def copy_handler.job_handler_axioms)

lemma example_running_facts:
  "jobs_ok (jobs example_running)"
  "get_job (jobs example_running) 1 = Some (claim_row 5 (new_job 3 example_submission 1))"
  "target_known (claim_row 5 (new_job 3 example_submission 1)) example_running"
  by (simp_all add: example_running_def jobs_ok_single get_job_def target_known_def new_job_def
      example_submission_def)


end
