(* ===== verification/Worker.thy ===== *)
theory Worker
  imports Job_Run
begin

text \<open>
  The lease-aware job worker (\<^verbatim>\<open>src/sutradhara/jobs/worker.py\<close>): claiming candidates that fit the
  leases, ageing of blocked candidates, jobs that can never fit, the attempt transaction with its lock
  retries, the deferred failure record, and the drain loop as a step relation in which job threads
  complete in any order.  Each \<open>session_scope\<close> is one atomic change of the committed database.
\<close>

section \<open>Model\<close>

subsection \<open>Claiming\<close>

definition repr_int_dict :: "int dict \<Rightarrow> string" where
  "repr_int_dict d = ''{'' @ join_comma (map (\<lambda>(k, v). py_repr k @ '': '' @ str_int v) d) @ ''}''"

definition never_fits_row :: "time \<Rightarrow> int dict \<Rightarrow> int dict \<Rightarrow> job \<Rightarrow> job" where
  "never_fits_row now required caps j =
     j\<lparr>j_attempts := j_attempts j + 1, j_started_at := Some now, j_status := FAILED,
       j_finished_at := Some now,
       j_last_error := Some (''required resources '' @ repr_int_dict required @
                             '' exceed worker capacities '' @ repr_int_dict caps)\<rparr>"

definition mark_never_fits ::
  "'c run_env \<Rightarrow> run_clock \<Rightarrow> int dict \<Rightarrow> int dict \<Rightarrow> job \<Rightarrow> 'c engine_db \<Rightarrow> engine_error + 'c engine_db" where
  "mark_never_fits env clk required caps j db =
     (let j' = never_fits_row (t_finish clk) required caps j
      in conclude env clk [] (new_context (e_host env) [] j') j'
           (Some (plain_projection (Some CONDITION_BACKOFF) (Some ''never-fit'') (j_last_error j'))) db)"

type_synonym scans = "(nat \<times> int) list"
type_synonym grant = "nat \<times> int dict"

text \<open>
  One pass over the candidates.  It ends with a claimed job and its grant, or with none: the candidates
  are exhausted, or one of them has been blocked for \<open>aging_threshold_scans\<close> passes and the pass stops so
  that resources drain towards it.  On an error the blocked-scan counts so far are kept.
\<close>

fun claim_scan ::
  "'c run_env \<Rightarrow> worker_config \<Rightarrow> run_clock \<Rightarrow> job list \<Rightarrow> 'c engine_db \<Rightarrow> lease_manager \<Rightarrow> scans \<Rightarrow>
   (engine_error \<times> scans) + ('c engine_db \<times> lease_manager \<times> scans \<times> grant option)" where
  "claim_scan env cfg clk [] db m bs = Inr (db, m, bs, None)"
| "claim_scan env cfg clk (c # rest) db m bs =
     (case normalize_required_resources (j_required_resources c) of
        Inl e \<Rightarrow> Inl (LeaseFailed e, bs)
      | Inr required \<Rightarrow>
          if \<not> can_ever_fit m required then
            (case mark_never_fits env clk required (capacities cfg) c db of
               Inl e \<Rightarrow> Inl (e, bs)
             | Inr db' \<Rightarrow> claim_scan env cfg clk rest db' m (dict_pop (j_id c) bs))
          else if \<not> fits m required then
            (let count = dict_get bs (j_id c) 0 + 1; bs' = dict_set (j_id c) count bs
             in if count \<ge> aging_threshold_scans cfg then Inr (db, m, bs', None)
                else claim_scan env cfg clk rest db m bs')
          else
            (case claim_job_by_id (t_claim clk) (j_id c) (jobs db) of
               (js, None) \<Rightarrow> claim_scan env cfg clk rest (db\<lparr>jobs := js\<rparr>) m bs
             | (js, Some job) \<Rightarrow>
                 (case reserve m required of
                    Inl e \<Rightarrow> Inl (LeaseFailed e, bs)
                  | Inr (m', granted) \<Rightarrow>
                      Inr (db\<lparr>jobs := js\<rparr>, m', dict_pop (j_id c) bs, Some (j_id job, granted)))))"

text \<open>
  The bounded claim loop; an error carries the manager and the grants reserved so far.
\<close>

fun claim_available_bounded ::
  "'c run_env \<Rightarrow> 'c gates \<Rightarrow> worker_config \<Rightarrow> (nat \<Rightarrow> run_clock) \<Rightarrow> nat \<Rightarrow> 'c engine_db \<Rightarrow> lease_manager \<Rightarrow>
   scans \<Rightarrow> grant list \<Rightarrow>
   (engine_error \<times> lease_manager \<times> scans \<times> grant list) + ('c engine_db \<times> lease_manager \<times> scans \<times> grant list)"
where
  "claim_available_bounded env gates cfg clk 0 db m bs claimed = Inr (db, m, bs, claimed)"
| "claim_available_bounded env gates cfg clk (Suc n) db m bs claimed =
     (case claim_scan env cfg (clk n) (pending_candidates gates (t_claim (clk n)) db) db m bs of
        Inl (e, bs') \<Rightarrow> Inl (e, m, bs', claimed)
      | Inr (db', m', bs', None) \<Rightarrow> Inr (db', m', bs', claimed)
      | Inr (db', m', bs', Some g) \<Rightarrow>
          claim_available_bounded env gates cfg clk n db' m' bs' (claimed @ [g]))"

fun release_all :: "lease_manager \<Rightarrow> grant list \<Rightarrow> lease_manager" where
  "release_all m [] = m"
| "release_all m ((_, g) # gs) = release_all (fst (release m g)) gs"

text \<open>
  \<open>_claim_available\<close>: when the claim transaction fails (\<open>commit_locked\<close>: its commit meets a SQLite lock)
  the database is rolled back and the reservations are released; a lock error means nothing was claimed,
  any other error is raised.
\<close>

definition claim_available ::
  "'c run_env \<Rightarrow> 'c gates \<Rightarrow> worker_config \<Rightarrow> (nat \<Rightarrow> run_clock) \<Rightarrow> bool \<Rightarrow> nat \<Rightarrow> 'c engine_db \<Rightarrow>
   lease_manager \<Rightarrow> scans \<Rightarrow> 'c engine_db \<times> lease_manager \<times> scans \<times> (engine_error + grant list)" where
  "claim_available env gates cfg clk commit_locked max_new db m bs =
     (case claim_available_bounded env gates cfg clk max_new db m bs [] of
        Inr (db', m', bs', claimed) \<Rightarrow>
          if commit_locked then (db, release_all m' claimed, bs', Inr [])
          else (db', m', bs', Inr claimed)
      | Inl (e, m', bs', claimed) \<Rightarrow>
          (db, release_all m' claimed, bs',
           (case e of SqliteLocked _ \<Rightarrow> Inr [] | _ \<Rightarrow> Inl e)))"

subsection \<open>Executing\<close>

record worker_outcome =
  o_job_id :: nat
  o_result :: job_result
  o_granted :: "int dict"
  o_failure_record_pending :: bool

definition execute_job_once ::
  "'c run_env \<Rightarrow> worker_config \<Rightarrow> run_clock \<Rightarrow> nat \<Rightarrow> int dict \<Rightarrow> 'c engine_db \<Rightarrow>
   engine_error + ('c engine_db \<times> worker_outcome)" where
  "execute_job_once env cfg clk i granted db =
     (case run_one env clk granted db i db of
        Inl e \<Rightarrow> Inl e
      | Inr (db1, r) \<Rightarrow>
          let db2 = (case get_job (jobs db1) i of
                       None \<Rightarrow> db1
                     | Some j \<Rightarrow>
                         if j_recon_domain j = None
                         then db1\<lparr>jobs := put_job (apply_retry_policy (t_jitter clk) (t_condition clk) cfg j)
                                                  (jobs db1)\<rparr>
                         else db1)
          in Inr (db2, \<lparr>o_job_id = i, o_result = r, o_granted = granted,
                        o_failure_record_pending = False\<rparr>))"

definition LOCK_BACKOFF :: "rat list" where
  "LOCK_BACKOFF = [1 / 10, 5 / 10, 2, 5]"

text \<open>
  \<open>persist_lock_failure\<close> answers whether the failure is settled; \<open>locked\<close> says that its transaction
  meets a lock.
\<close>

definition persist_lock_failure ::
  "'c run_env \<Rightarrow> run_clock \<Rightarrow> bool \<Rightarrow> worker_outcome \<Rightarrow> 'c engine_db \<Rightarrow> engine_error + ('c engine_db \<times> bool)" where
  "persist_lock_failure env clk locked out db =
     (if locked then Inr (db, False)
      else (case get_job (jobs db) (o_job_id out) of
              None \<Rightarrow> Inr (db, True)
            | Some j \<Rightarrow>
                let j' = fail_row clk (r_detail (o_result out)) j in
                (case conclude env clk (o_granted out) (new_context (e_host env) (o_granted out) j') j'
                        (Some (plain_projection (Some CONDITION_BACKOFF) (Some ''sqlite-lock-exhausted'')
                                 (j_last_error j'))) db of
                   Inl e \<Rightarrow> Inl e
                 | Inr db' \<Rightarrow> Inr (db', True))))"

text \<open>
  \<open>execute_job\<close>: each element of \<open>tries\<close> is one run of the attempt transaction with what the handlers do
  in it, its clock and the committed database it starts from; there are at most
  \<open>length LOCK_BACKOFF + 1\<close> of them.
\<close>

fun execute_tries ::
  "worker_config \<Rightarrow> nat \<Rightarrow> int dict \<Rightarrow> string \<Rightarrow> ('c run_env \<times> run_clock \<times> 'c engine_db) list \<Rightarrow>
   string + (engine_error + ('c engine_db \<times> worker_outcome))" where
  "execute_tries cfg i granted detail [] = Inl detail"
| "execute_tries cfg i granted detail ((env, clk, db) # rest) =
     (case execute_job_once env cfg clk i granted db of
        Inl (SqliteLocked m) \<Rightarrow> execute_tries cfg i granted m rest
      | res \<Rightarrow> Inr res)"

definition execute_job ::
  "worker_config \<Rightarrow> nat \<Rightarrow> int dict \<Rightarrow> ('c run_env \<times> run_clock \<times> 'c engine_db) list \<Rightarrow>
   'c run_env \<Rightarrow> run_clock \<Rightarrow> bool \<Rightarrow> 'c engine_db \<Rightarrow> engine_error + ('c engine_db \<times> worker_outcome)" where
  "execute_job cfg i granted tries env clk locked db =
     (case execute_tries cfg i granted [] (take (length LOCK_BACKOFF + 1) tries) of
        Inr res \<Rightarrow> res
      | Inl detail \<Rightarrow>
          let out = \<lparr>o_job_id = i, o_result = failed_result detail, o_granted = granted,
                     o_failure_record_pending = False\<rparr> in
          (case persist_lock_failure env clk locked out db of
             Inl e \<Rightarrow> Inl e
           | Inr (db', True) \<Rightarrow> Inr (db', out)
           | Inr (db', False) \<Rightarrow> Inr (db', out\<lparr>o_failure_record_pending := True\<rparr>)))"

subsection \<open>Draining\<close>

record 'c worker =
  w_db :: "'c engine_db"
  w_leases :: lease_manager
  w_blocked_scans :: scans
  w_pending_failures :: "(nat \<times> worker_outcome) list"
  w_recovery_pending :: bool
  w_futures :: "grant list"

definition recover_orphans :: "time \<Rightarrow> bool \<Rightarrow> 'c worker \<Rightarrow> 'c worker" where
  "recover_orphans now locked w =
     (if locked then w\<lparr>w_recovery_pending := True\<rparr>
      else w\<lparr>w_db := (w_db w)\<lparr>jobs := fst (reset_orphaned_running_jobs now (jobs (w_db w)))\<rparr>,
             w_recovery_pending := False\<rparr>)"

text \<open>The head of \<open>drain\<close>: settle deferred failures, then recover orphans when none is left.\<close>

fun settle_failures ::
  "'c run_env \<Rightarrow> run_clock \<Rightarrow> (nat \<Rightarrow> bool) \<Rightarrow> (nat \<times> worker_outcome) list \<Rightarrow> 'c engine_db \<Rightarrow>
   engine_error + ('c engine_db \<times> (nat \<times> worker_outcome) list)" where
  "settle_failures env clk locked [] db = Inr (db, [])"
| "settle_failures env clk locked ((i, out) # rest) db =
     (case persist_lock_failure env clk (locked i) out db of
        Inl e \<Rightarrow> Inl e
      | Inr (db', done) \<Rightarrow>
          (case settle_failures env clk locked rest db' of
             Inl e \<Rightarrow> Inl e
           | Inr (db'', kept) \<Rightarrow> Inr (db'', if done then kept else (i, out) # kept)))"

definition drain_start ::
  "'c run_env \<Rightarrow> run_clock \<Rightarrow> (nat \<Rightarrow> bool) \<Rightarrow> bool \<Rightarrow> bool \<Rightarrow> 'c worker \<Rightarrow> engine_error + 'c worker" where
  "drain_start env clk locked recover_locked recover w =
     (case settle_failures env clk locked (w_pending_failures w) (w_db w) of
        Inl e \<Rightarrow> Inl e
      | Inr (db, kept) \<Rightarrow>
          let w1 = w\<lparr>w_db := db, w_pending_failures := kept\<rparr>
          in Inr (if (recover \<or> w_recovery_pending w) \<and> kept = []
                  then recover_orphans (t_claim clk) recover_locked w1 else w1))"

definition max_workers :: "worker_config \<Rightarrow> int" where
  "max_workers cfg =
     max (case executor_workers cfg of None \<Rightarrow> 1 | Some n \<Rightarrow> if n = 0 then 1 else n) 1"

text \<open>
  The states a worker passes through: a drain starts with no thread running; within it claims are
  dispatched while there are free slots, running jobs complete in any order, and other processes commit
  to the database in between.
\<close>

inductive worker_run :: "worker_config \<Rightarrow> 'c worker \<Rightarrow> bool" for cfg where
  worker_init: "lease_manager_init (capacities cfg) = Inr m \<Longrightarrow>
    worker_run cfg \<lparr>w_db = db, w_leases = m, w_blocked_scans = [], w_pending_failures = [],
                    w_recovery_pending = False, w_futures = []\<rparr>"
| worker_start: "worker_run cfg w \<Longrightarrow> w_futures w = [] \<Longrightarrow>
    drain_start env clk locked rlocked recover w = Inr w' \<Longrightarrow> worker_run cfg w'"
| worker_claim: "worker_run cfg w \<Longrightarrow> \<not> w_recovery_pending w \<Longrightarrow>
    claim_available env gates cfg clks locked (nat (max_workers cfg - int (length (w_futures w))))
      (w_db w) (w_leases w) (w_blocked_scans w) = (db', m', bs', Inr claimed) \<Longrightarrow>
    worker_run cfg (w\<lparr>w_db := db', w_leases := m', w_blocked_scans := bs',
                      w_futures := w_futures w @ claimed\<rparr>)"
| worker_done: "worker_run cfg w \<Longrightarrow> (i, g) \<in> set (w_futures w) \<Longrightarrow>
    execute_job cfg i g tries env clk locked (w_db w) = Inr (db', out) \<Longrightarrow>
    release (w_leases w) g = (m', err) \<Longrightarrow>
    worker_run cfg (w\<lparr>w_db := db', w_leases := m', w_futures := remove1 (i, g) (w_futures w),
        w_pending_failures := (if o_failure_record_pending out
                               then dict_set (o_job_id out) out (w_pending_failures w)
                               else w_pending_failures w)\<rparr>)"
| worker_commit: "worker_run cfg w \<Longrightarrow> worker_run cfg (w\<lparr>w_db := db'\<rparr>)"

section \<open>Leases of the worker\<close>

context lease_account
begin

lemma accounted_mset:
  assumes "mset gs = mset gs'" "accounted m gs"
  shows "accounted m gs'"
proof -
  have "(\<Sum>g\<leftarrow>gs. amount g p) = (\<Sum>g\<leftarrow>gs'. amount g p)" for p
    using assms(1) by (metis mset_map sum_mset_sum_list)
  moreover have "set gs = set gs'" using assms(1) by (rule mset_eq_setD)
  ultimately show ?thesis using assms(2) by (simp add: accounted_def)
qed

end

definition same_caps :: "lease_manager \<Rightarrow> lease_manager \<Rightarrow> bool" where
  "same_caps m m' \<longleftrightarrow> (\<forall>p. dict_get (lm_capacities m') p 0 = dict_get (lm_capacities m) p 0)"

lemma claim_scan_accounted:
  "claim_scan env cfg clk cs db m bs = Inr (db', m', bs', g) \<Longrightarrow> lm.accounted m gs \<Longrightarrow>
   same_caps m m' \<and> lm.accounted m' ((case g of None \<Rightarrow> [] | Some (_, x) \<Rightarrow> [x]) @ gs)"
proof (induction cs arbitrary: db bs)
  case (Cons c cs)
  from Cons.prems(1) obtain required where req: "normalize_required_resources (j_required_resources c) = Inr required"
    by (auto split: sum.splits)
  consider (never) "\<not> can_ever_fit m required" | (blocked) "can_ever_fit m required" "\<not> fits m required"
    | (fit) "can_ever_fit m required" "fits m required" by blast
  then show ?case
  proof cases
    case never
    with Cons show ?thesis by (auto simp: req split: sum.splits)
  next
    case blocked
    with Cons show ?thesis by (auto simp: req Let_def same_caps_def split: if_splits)
  next
    case fit
    obtain js r where cl: "claim_job_by_id (t_claim clk) (j_id c) (jobs db) = (js, r)" by fastforce
    show ?thesis
    proof (cases r)
      case None
      with fit Cons show ?thesis by (simp add: req cl)
    next
      case (Some job)
      with fit Cons.prems(1) obtain granted where
        res: "reserve m required = Inr (m', granted)" and g: "g = Some (j_id job, granted)"
        by (auto simp: req cl split: sum.splits)
      from lm.accounted_grant [OF Cons.prems(2) normalize_wf [OF req] res] g show ?thesis
        by (auto simp: same_caps_def fun_eq_iff)
    qed
  qed
qed (auto simp: same_caps_def)

definition claims_accounted ::
  "lease_manager \<Rightarrow> int dict list \<Rightarrow> nat \<Rightarrow>
   (engine_error \<times> lease_manager \<times> scans \<times> grant list) + ('c engine_db \<times> lease_manager \<times> scans \<times> grant list) \<Rightarrow> bool"
where
  "claims_accounted m gs bound res =
     (case res of
        Inr (db', m', bs', claimed') \<Rightarrow>
          same_caps m m' \<and> lm.accounted m' (map snd claimed' @ gs) \<and> length claimed' \<le> bound
      | Inl (e, m', bs', claimed') \<Rightarrow> same_caps m m' \<and> lm.accounted m' (map snd claimed' @ gs))"

lemma claims_accounted_trans:
  "same_caps m m1 \<Longrightarrow> claims_accounted m1 gs b res \<Longrightarrow> claims_accounted m gs b res"
  by (auto simp: claims_accounted_def same_caps_def split: sum.splits)

lemma claim_bounded_accounted:
  "lm.accounted m (map snd claimed @ gs) \<Longrightarrow>
   claims_accounted m gs (length claimed + n) (claim_available_bounded env gates cfg clk n db m bs claimed)"
proof (induction n arbitrary: db m bs claimed)
  case 0
  then show ?case by (simp add: claims_accounted_def same_caps_def)
next
  case (Suc n)
  let ?scan = "claim_scan env cfg (clk n) (pending_candidates gates (t_claim (clk n)) db) db m bs"
  consider (err) e bs1 where "?scan = Inl (e, bs1)" | (none) db1 m1 bs1 where "?scan = Inr (db1, m1, bs1, None)"
    | (some) db1 m1 bs1 i x where "?scan = Inr (db1, m1, bs1, Some (i, x))"
    by (metis (no_types) option.exhaust prod.exhaust sum.exhaust)
  then show ?case
  proof cases
    case err
    then show ?thesis using Suc.prems by (simp add: claims_accounted_def same_caps_def)
  next
    case none
    from claim_scan_accounted [OF none Suc.prems] show ?thesis by (simp add: claims_accounted_def none)
  next
    case some
    from claim_scan_accounted [OF some Suc.prems] have c: "same_caps m m1"
      and a: "lm.accounted m1 (x # map snd claimed @ gs)" by simp_all
    have "lm.accounted m1 (map snd (claimed @ [(i, x)]) @ gs)"
      by (rule lm.accounted_mset [OF _ a]) simp
    from claims_accounted_trans [OF c Suc.IH [OF this, of db1 bs1]] show ?thesis by (simp add: some)
  qed
qed

lemma release_all_accounted:
  "lm.accounted m (map snd claimed @ gs) \<Longrightarrow>
   same_caps m (release_all m claimed) \<and> lm.accounted (release_all m claimed) gs"
proof (induction claimed arbitrary: m)
  case (Cons c claimed)
  obtain i g where c: "c = (i, g)" by (cases c)
  from lm.accounted_give_back [OF Cons.prems, of g] c obtain m' where
    "release m g = (m', None)" "same_caps m m'" "lm.accounted m' (map snd claimed @ gs)"
    by (auto simp: same_caps_def fun_eq_iff)
  with Cons.IH [of m'] c show ?case by (auto simp: same_caps_def)
qed (simp add: same_caps_def)

lemma claim_available_accounted:
  assumes acc: "lm.accounted m gs"
    and claim: "claim_available env gates cfg clk locked n db m bs = (db', m', bs', res)"
  shows "same_caps m m' \<and> lm.accounted m' (map snd (case res of Inr claimed \<Rightarrow> claimed | Inl _ \<Rightarrow> []) @ gs) \<and>
         length (case res of Inr claimed \<Rightarrow> claimed | Inl _ \<Rightarrow> []) \<le> n"
proof -
  let ?b = "claim_available_bounded env gates cfg clk n db m bs []"
  have b: "claims_accounted m gs n ?b" using claim_bounded_accounted [of m "[]" gs n] acc by simp
  consider (ok) db1 m1 bs1 cl where "?b = Inr (db1, m1, bs1, cl)"
    | (err) e m1 bs1 cl where "?b = Inl (e, m1, bs1, cl)"
    by (metis (no_types) prod.exhaust sum.exhaust)
  then show ?thesis
  proof cases
    case ok
    with b have "same_caps m m1" "lm.accounted m1 (map snd cl @ gs)" "length cl \<le> n"
      by (simp_all add: claims_accounted_def)
    with release_all_accounted [of m1 cl gs] claim ok show ?thesis
      by (auto simp: claim_available_def same_caps_def split: if_splits)
  next
    case err
    with b have "same_caps m m1" "lm.accounted m1 (map snd cl @ gs)" by (simp_all add: claims_accounted_def)
    with release_all_accounted [of m1 cl gs] claim err show ?thesis
      by (auto simp: claim_available_def same_caps_def split: engine_error.splits)
  qed
qed

lemma drain_start_frame:
  "drain_start env clk locked rl rec w = Inr w' \<Longrightarrow> w_leases w' = w_leases w \<and> w_futures w' = w_futures w"
  by (auto simp: drain_start_def recover_orphans_def Let_def split: sum.splits if_splits)

lemma worker_run_accounted:
  "worker_run cfg w \<Longrightarrow>
   lm.accounted (w_leases w) (map snd (w_futures w)) \<and>
   int (length (w_futures w)) \<le> max_workers cfg \<and>
   (\<forall>p. dict_get (lm_capacities (w_leases w)) p 0 = dict_get (capacities cfg) p 0 \<and>
        0 \<le> dict_get (capacities cfg) p 0)"
proof (induction rule: worker_run.induct)
  case (worker_init m db)
  then show ?case
    by (simp add: lm.accounted_def init_leased init_capacities init_nonneg max_workers_def)
next
  case (worker_start w env clk locked rlocked recover w')
  from drain_start_frame [OF worker_start(3)] worker_start(4) show ?case by simp
next
  case (worker_claim w env gates clks locked db' m' bs' claimed)
  let ?gs = "map snd (w_futures w)" and ?n = "nat (max_workers cfg - int (length (w_futures w)))"
  from worker_claim(4) have acc: "lm.accounted (w_leases w) ?gs" by simp
  from claim_available_accounted [OF acc worker_claim(3)]
  have c: "same_caps (w_leases w) m'" and a: "lm.accounted m' (map snd claimed @ ?gs)"
    and l: "length claimed \<le> ?n" by simp_all
  have "lm.accounted m' (map snd (w_futures w @ claimed))" by (rule lm.accounted_mset [OF _ a]) simp
  moreover have "int (length (w_futures w)) + int (length claimed) \<le> max_workers cfg"
    using l worker_claim(4) by linarith
  ultimately show ?case using c worker_claim(4) by (simp add: same_caps_def)
next
  case (worker_done w i g tries env clk locked db' out m' err)
  from worker_done(5) have acc: "lm.accounted (w_leases w) (map snd (w_futures w))" by simp
  have "g \<in> set (map snd (w_futures w))" using worker_done(2) by force
  from lm.accounted_give_back [OF acc this] worker_done(4)
  have a: "lm.accounted m' (remove1 g (map snd (w_futures w)))"
    and c: "same_caps (w_leases w) m'" by (auto simp: same_caps_def fun_eq_iff)
  have "mset (remove1 g (map snd (w_futures w))) = mset (map snd (remove1 (i, g) (w_futures w)))"
    using worker_done(2) by (simp add: image_mset_Diff)
  moreover have "int (length (w_futures w) - 1) \<le> max_workers cfg" using worker_done(5) by linarith
  ultimately show ?case using lm.accounted_mset [OF _ a] c worker_done(2,5)
    by (simp add: same_caps_def length_remove1)
qed auto

text \<open>
  C9: However claims, completions, lock failures and commits of other processes interleave, in every
  state of the worker each resource pool's tally is exactly the sum of what the jobs in flight were
  granted, lies between zero and the configured capacity, no more jobs are in flight than the worker has
  threads, and giving back the grant of any job in flight raises no error.
\<close>

theorem worker_leases_safe:
  assumes "worker_run cfg w"
  shows "dict_get (lm_leased (w_leases w)) p 0 = (\<Sum>g\<leftarrow>map snd (w_futures w). dict_get g p 0) \<and>
         0 \<le> dict_get (lm_leased (w_leases w)) p 0 \<and>
         dict_get (lm_leased (w_leases w)) p 0 \<le> dict_get (capacities cfg) p 0 \<and>
         int (length (w_futures w)) \<le> max_workers cfg \<and>
         ((i, g) \<in> set (w_futures w) \<longrightarrow> snd (release (w_leases w) g) = None)"
proof -
  from worker_run_accounted [OF assms] have acc: "lm.accounted (w_leases w) (map snd (w_futures w))"
    and len: "int (length (w_futures w)) \<le> max_workers cfg"
    and cap: "dict_get (lm_capacities (w_leases w)) p 0 = dict_get (capacities cfg) p 0"
      "0 \<le> dict_get (capacities cfg) p 0" by auto
  have "snd (release (w_leases w) g) = None" if "(i, g) \<in> set (w_futures w)"
  proof -
    have "g \<in> set (map snd (w_futures w))" using that by force
    from lm.accounted_give_back [OF acc this] show ?thesis by auto
  qed
  moreover have "(\<Sum>g\<leftarrow>map snd (w_futures w). dict_get g p 0) = dict_get (lm_leased (w_leases w)) p 0"
    using acc by (simp add: lm.accounted_def)
  ultimately show ?thesis using lm.accounted_bounds [OF acc, of p] cap len by simp
qed

definition example_config :: worker_config where
  "example_config = (defaults (Some 2))\<lparr>capacities := [(''cpu'', 2)]\<rparr>"

definition cpu_job :: job where
  "cpu_job = (new_job 3 example_submission 1)
     \<lparr>j_required_resources := [JObj [(''pool'', JStr ''cpu''), (''count'', JInt 2)]]\<rparr>"

definition example_worker :: "unit worker" where
  "example_worker =
     \<lparr>w_db = \<lparr>jobs = [cpu_job], job_attempts = [], conditions = [], condition_components = [], catalog = ()\<rparr>,
      w_leases = \<lparr>lm_capacities = [(''cpu'', 2)], lm_leased = [(''cpu'', 0)]\<rparr>, w_blocked_scans = [],
      w_pending_failures = [], w_recovery_pending = False, w_futures = []\<rparr>"

lemma example_worker_run: "worker_run example_config example_worker"
  unfolding example_worker_def
  by (rule worker_init) (simp add: example_config_def lease_manager_init_def)

lemma cpu_job_simps [simp]:
  "j_status cpu_job = PENDING" "j_not_before cpu_job = 3" "j_prerequisites cpu_job = []" "j_id cpu_job = 1"
  "j_required_resources cpu_job = [JObj [(''pool'', JStr ''cpu''), (''count'', JInt 2)]]"
  by (simp_all add: cpu_job_def new_job_def example_submission_def)

lemma example_worker_claim:
  "claim_available example_env (\<lambda>_. None) example_config (\<lambda>_. example_clock) False 2
     (w_db example_worker) (w_leases example_worker) (w_blocked_scans example_worker) =
   ((w_db example_worker)\<lparr>jobs := [claim_row 10 cpu_job]\<rparr>,
    \<lparr>lm_capacities = [(''cpu'', 2)], lm_leased = [(''cpu'', 2)]\<rparr>, [], Inr [(1, [(''cpu'', 2)])])"
  by (simp add: claim_available_def numeral_2_eq_2 example_worker_def pending_candidates_def
      prerequisites_succeeded_def dispatch_gate_allows_def normalize_required_resources_def
      normalize_resource_item_def can_ever_fit_def fits_def reserve_def dict_set_def dict_pop_def
      claim_job_by_id_def get_job_def example_clock_def Let_def)

theorem worker_leases_safe_witness:
  "dict_get [(''cpu'', 2 :: int)] ''cpu'' 0 = (\<Sum>g\<leftarrow>map snd [(1 :: nat, [(''cpu'', 2 :: int)])]. dict_get g ''cpu'' 0) \<and>
   snd (release \<lparr>lm_capacities = [(''cpu'', 2)], lm_leased = [(''cpu'', 2)]\<rparr> [(''cpu'', 2)]) = None"
proof -
  have "nat (max_workers example_config - int (length (w_futures example_worker))) = 2"
    by (simp add: max_workers_def example_config_def defaults_def example_worker_def DEFAULT_IO_CAPACITY_def)
  moreover have "\<not> w_recovery_pending example_worker" by (simp add: example_worker_def)
  ultimately have "worker_run example_config (example_worker\<lparr>w_db := (w_db example_worker)\<lparr>jobs := [claim_row 10 cpu_job]\<rparr>,
      w_leases := \<lparr>lm_capacities = [(''cpu'', 2)], lm_leased = [(''cpu'', 2)]\<rparr>, w_blocked_scans := [],
      w_futures := w_futures example_worker @ [(1, [(''cpu'', 2)])]\<rparr>)"
    using worker_claim [OF example_worker_run, of example_env "\<lambda>_. None" "\<lambda>_. example_clock" False]
      example_worker_claim by simp
  from worker_leases_safe [OF this, of "''cpu''" 1 "[(''cpu'', 2)]"] show ?thesis
    by (simp add: example_worker_def)
qed

end
