(* ===== verification/Job_History.thy ===== *)
theory Job_History
  imports Worker
begin

text \<open>
  The life of a job over any sequence of the operations that write the job table: submission, the
  worker's claim transaction, the attempt transaction with its retry, the deferred lock failure and the
  recovery of orphans.
\<close>

section \<open>One step\<close>

text \<open>Rows stay, attempt counts do not go down and a succeeded row is left alone.\<close>

definition jobs_step :: "job list \<Rightarrow> job list \<Rightarrow> bool" where
  "jobs_step js js' \<longleftrightarrow>
     jobs_ok js' \<and>
     (\<forall>k j. get_job js k = Some j \<longrightarrow>
        (\<exists>j'. get_job js' k = Some j' \<and> j_kind j' = j_kind j \<and> j_attempts j \<le> j_attempts j' \<and>
              (j_status j = SUCCEEDED \<longrightarrow> j' = j)))"

lemma jobs_step_refl: "jobs_ok js \<Longrightarrow> jobs_step js js"
  by (simp add: jobs_step_def)

definition row_step :: "job \<Rightarrow> job \<Rightarrow> bool" where
  "row_step j j' \<longleftrightarrow>
     j_kind j' = j_kind j \<and> j_attempts j \<le> j_attempts j' \<and> (j_status j = SUCCEEDED \<longrightarrow> j' = j)"

lemma row_step_trans: "row_step a b \<Longrightarrow> row_step b c \<Longrightarrow> row_step a c"
  by (auto simp: row_step_def)

lemma jobs_step_alt:
  "jobs_step js js' \<longleftrightarrow>
   jobs_ok js' \<and> (\<forall>k j. get_job js k = Some j \<longrightarrow> (\<exists>j'. get_job js' k = Some j' \<and> row_step j j'))"
  by (simp add: jobs_step_def row_step_def)

lemma jobs_step_trans: "jobs_step a b \<Longrightarrow> jobs_step b c \<Longrightarrow> jobs_step a c"
  unfolding jobs_step_alt by (meson row_step_trans)

lemma jobs_step_ok: "jobs_step a b \<Longrightarrow> jobs_ok b"
  by (simp add: jobs_step_def)

text \<open>Replacing one row that has not succeeded.\<close>

lemma jobs_step_put:
  assumes "jobs_ok js" "get_job js (j_id x) = Some j" "jobs_ok (put_job x js)"
    and "j_status j \<noteq> SUCCEEDED" "j_kind x = j_kind j" "j_attempts j \<le> j_attempts x"
  shows "jobs_step js (put_job x js)"
proof -
  have "j_id x \<in> j_id ` set js" using get_job_Some [OF assms(2)] by (metis imageI)
  with assms show ?thesis by (auto simp: jobs_step_def get_job_put_job)
qed

lemma get_job_append: "get_job js k = Some j \<Longrightarrow> get_job (js @ ys) k = Some j"
  by (induction js) (auto simp: get_job_def)

lemma submit_step:
  assumes "jobs_ok js" "submit now s seen js = Inr (js', j)"
  shows "jobs_step js js'"
proof -
  have "js' = js \<or> (js' = js @ [j] \<and> j = new_job now s (fresh_id (map j_id js)) \<and>
      (\<forall>k. live_key j = Some k \<longrightarrow> k \<notin> set (dedupe_keys_live js)))"
    using assms(2) by (auto simp: submit_def insert_job_def Let_def split: option.splits if_splits)
  then show ?thesis
    using assms(1) jobs_ok_append [OF assms(1), of j] get_job_append
    by (fastforce simp: jobs_step_def)
qed

lemma live_key_orphan: "j_status j = RUNNING \<Longrightarrow> live_key (orphan_row now j) = live_key j"
  by (simp add: live_key_def is_live_def LIVE_JOB_STATUSES_def orphan_row_def Let_def)

lemma get_job_update_where:
  "(\<And>r. j_id (f r) = j_id r) \<Longrightarrow>
   get_job (update_where P f js) k = map_option (\<lambda>r. if P r then f r else r) (get_job js k)"
  by (induction js) (auto simp: get_job_def)

lemma orphan_row_simps [simp]:
  "j_id (orphan_row now j) = j_id j" "j_kind (orphan_row now j) = j_kind j"
  "j_attempts (orphan_row now j) = j_attempts j" "j_status (orphan_row now j) = PENDING"
  by (simp_all add: orphan_row_def Let_def)

lemma reset_orphans_step:
  assumes "jobs_ok js"
  shows "jobs_step js (fst (reset_orphaned_running_jobs now js))"
proof -
  have "jobs_ok (update_where (\<lambda>j. j_status j = RUNNING) (orphan_row now) js)"
    by (rule jobs_ok_update [OF assms]) (auto simp: live_key_orphan)
  then show ?thesis
    by (auto simp: jobs_step_def reset_orphaned_running_jobs_def get_job_update_where)
qed

lemma live_key_dead: "j_status j \<in> {SUCCEEDED, FAILED, CANCELLED} \<Longrightarrow> live_key j = None"
  by (auto simp: live_key_def is_live_def LIVE_JOB_STATUSES_def)

lemma conclude_step:
  assumes "conclude env clk granted ctx x p db = Inr db'" "jobs_ok (jobs db)"
    and "get_job (jobs db) (j_id x) = Some j" "j_status j \<noteq> SUCCEEDED" "j_kind x = j_kind j"
    and "j_attempts j \<le> j_attempts x" "j_status x = FAILED"
  shows "jobs_step (jobs db) (jobs db')"
proof -
  have "jobs_ok (put_job x (jobs db))"
    by (rule jobs_ok_put_job [OF assms(2,3)]) (simp add: live_key_dead assms(7))
  from jobs_step_put [OF assms(2,3) this assms(4-6)] conclude_effect [OF assms(1)] show ?thesis by simp
qed

section \<open>The claim transaction\<close>

definition fresh_candidates :: "job list \<Rightarrow> job list \<Rightarrow> bool" where
  "fresh_candidates cs js \<longleftrightarrow>
     distinct (map j_id cs) \<and> (\<forall>c \<in> set cs. get_job js (j_id c) = Some c \<and> j_status c = PENDING)"

lemma pending_candidates_fresh:
  assumes "jobs_ok (jobs db)"
  shows "fresh_candidates (pending_candidates gates now db) (jobs db)"
proof -
  have d: "distinct (map j_id (jobs db))" using assms by (simp add: jobs_ok_def)
  have "distinct (map j_id (filter P (sort_key candidate_order (filter Q (jobs db)))))" for P Q
    using d by (simp add: distinct_map inj_on_def)
  then show ?thesis
    using get_job_unique [OF d] by (auto simp: fresh_candidates_def pending_candidates_def)
qed

lemma claim_scan_step:
  assumes "jobs_ok (jobs db)" "fresh_candidates cs (jobs db)"
    and "claim_scan env cfg clk cs db m bs = Inr (db', m', bs', g)"
  shows "jobs_step (jobs db) (jobs db')"
  using assms
proof (induction cs arbitrary: db bs)
  case Nil
  then show ?case by (simp add: jobs_step_refl)
next
  case (Cons c cs)
  have c: "get_job (jobs db) (j_id c) = Some c" "j_status c = PENDING" and d: "j_id c \<notin> j_id ` set cs"
    and cs: "fresh_candidates cs (jobs db)" using Cons.prems(2) by (auto simp: fresh_candidates_def)
  from Cons.prems(3) obtain required where
    req: "normalize_required_resources (j_required_resources c) = Inr required" by (auto split: sum.splits)
  consider (never) "\<not> can_ever_fit m required" | (blocked) "can_ever_fit m required" "\<not> fits m required"
    | (fit) "can_ever_fit m required" "fits m required" by blast
  then show ?case
  proof cases
    case never
    with Cons.prems(3) req obtain db1 where
      mark: "mark_never_fits env clk required (capacities cfg) c db = Inr db1"
      and rest: "claim_scan env cfg clk cs db1 m (dict_pop (j_id c) bs) = Inr (db', m', bs', g)"
      by (auto split: sum.splits)
    let ?x = "never_fits_row (t_finish clk) required (capacities cfg) c"
    have x: "j_id ?x = j_id c" "j_kind ?x = j_kind c" "j_attempts ?x = j_attempts c + 1" "j_status ?x = FAILED"
      by (simp_all add: never_fits_row_def)
    have con: "conclude env clk [] (new_context (e_host env) [] ?x) ?x
        (Some (plain_projection (Some CONDITION_BACKOFF) (Some ''never-fit'') (j_last_error ?x))) db = Inr db1"
      using mark by (simp add: mark_never_fits_def Let_def)
    have step: "jobs_step (jobs db) (jobs db1)"
      using conclude_step [OF con Cons.prems(1), of c] c x by simp
    have eff: "jobs db1 = put_job ?x (jobs db)" using conclude_effect [OF con] by simp
    have "get_job (jobs db1) (j_id c') = Some c' \<and> j_status c' = PENDING" if "c' \<in> set cs" for c'
    proof -
      have "j_id c' \<noteq> j_id ?x" using that d x(1) by (metis imageI)
      then show ?thesis unfolding eff get_job_put_job using cs that by (simp add: fresh_candidates_def)
    qed
    then have "fresh_candidates cs (jobs db1)" using cs by (simp add: fresh_candidates_def)
    from Cons.IH [OF jobs_step_ok [OF step] this rest] step show ?thesis by (rule jobs_step_trans [rotated])
  next
    case blocked
    with Cons cs req show ?thesis by (auto simp: Let_def jobs_step_refl split: if_splits)
  next
    case fit
    with Cons.prems req c
    have "jobs db' = put_job (claim_row (t_claim clk) c) (jobs db)"
      by (auto simp: claim_job_by_id_iff split: sum.splits)
    moreover have "jobs_step (jobs db) (put_job (claim_row (t_claim clk) c) (jobs db))"
      by (rule jobs_step_put [OF Cons.prems(1)]) (auto simp: c claim_jobs_ok [OF Cons.prems(1) c])
    ultimately show ?thesis by simp
  qed
qed

lemma claim_bounded_step:
  assumes "jobs_ok (jobs db)"
    and "claim_available_bounded env gates cfg clk n db m bs cl = Inr (db', m', bs', cl')"
  shows "jobs_step (jobs db) (jobs db')"
  using assms
proof (induction n arbitrary: db m bs cl)
  case (Suc n)
  let ?cs = "pending_candidates gates (t_claim (clk n)) db"
  from Suc.prems(2) obtain db1 m1 bs1 g where scan: "claim_scan env cfg (clk n) ?cs db m bs = Inr (db1, m1, bs1, g)"
    by (auto split: sum.splits)
  from claim_scan_step [OF Suc.prems(1) pending_candidates_fresh [OF Suc.prems(1)] scan]
  have step: "jobs_step (jobs db) (jobs db1)" .
  show ?case
  proof (cases g)
    case None
    with scan Suc.prems(2) step show ?thesis by simp
  next
    case (Some x)
    with scan Suc.prems(2)
    have "claim_available_bounded env gates cfg clk n db1 m1 bs1 (cl @ [x]) = Inr (db', m', bs', cl')" by simp
    from jobs_step_trans [OF step Suc.IH [OF jobs_step_ok [OF step] this]] show ?thesis .
  qed
qed (simp add: jobs_step_refl)

lemma claim_available_step:
  assumes "jobs_ok (jobs db)" "claim_available env gates cfg clk locked n db m bs = (db', m', bs', res)"
  shows "jobs_step (jobs db) (jobs db')"
  using assms claim_bounded_step [OF assms(1), of env gates cfg clk n m bs "[]"]
  by (auto simp: claim_available_def jobs_step_refl split: sum.splits if_splits)

section \<open>The attempt transaction\<close>

lemma retry_row_simps [simp]:
  "j_id (apply_retry_policy u now cfg j) = j_id j" "j_kind (apply_retry_policy u now cfg j) = j_kind j"
  "j_attempts (apply_retry_policy u now cfg j) = j_attempts j"
  "j_dedupe_key (apply_retry_policy u now cfg j) = j_dedupe_key j"
  by (simp_all add: apply_retry_policy_def Let_def)

lemma retry_status:
  "j_status (apply_retry_policy u now cfg j) =
     (if j_status j = FAILED \<and> j_attempts j < max_attempts (retry_for_kind cfg (j_kind j)) then PENDING
      else j_status j)"
  by (simp add: apply_retry_policy_def Let_def)

lemma execute_once_step:
  assumes hs: "handlers_ok env" and ok: "jobs_ok (jobs db)" and own: "get_job (jobs db) i = Some j"
    and st: "j_status j = RUNNING" and tk: "target_known j db"
    and run: "execute_job_once env cfg clk i granted db = Inr (db', out)"
  shows "jobs_step (jobs db) (jobs db')"
proof -
  from run obtain db1 r where r1: "run_one env clk granted db i db = Inr (db1, r)"
    by (auto simp: execute_job_once_def split: sum.splits)
  with run_one_outcomes [OF hs ok own st tk, of clk granted] have con: "concluded i j r db db1" by auto
  then obtain j1 where j1: "get_job (jobs db1) i = Some j1" "j_attempts j1 = j_attempts j"
    "j_dedupe_key j1 = j_dedupe_key j" "j_kind j1 = j_kind j"
    and oth: "\<And>k row. k \<noteq> i \<Longrightarrow> get_job (jobs db) k = Some row \<Longrightarrow> get_job (jobs db1) k = Some row"
    and ok1: "jobs_ok (jobs db1)"
    and again: "\<And>x. j_id x = i \<Longrightarrow> live_key x = live_key j \<Longrightarrow> jobs_ok (put_job x (jobs db1))"
    unfolding concluded_def by blast
  let ?x = "apply_retry_policy (t_jitter clk) (t_condition clk) cfg j1"
  have id: "j_id j1 = i" "i \<in> j_id ` set (jobs db1)" using get_job_Some [OF j1(1)] by auto
  have "jobs_ok (put_job ?x (jobs db1))"
  proof (cases "is_live ?x")
    case True
    then have "live_key ?x = live_key j"
      using j1(3) st by (simp add: live_key_def is_live_def LIVE_JOB_STATUSES_def)
    with again [of ?x] id show ?thesis by simp
  next
    case False
    then show ?thesis
      using jobs_ok_put_job [OF ok1, of ?x j1] j1(1) id by (simp add: live_key_def)
  qed
  moreover have "jobs db' = put_job ?x (jobs db1) \<or> jobs db' = jobs db1"
    using run r1 j1(1) by (auto simp: execute_job_once_def Let_def split: if_splits)
  moreover have "row_step j ?x" "row_step j j1" using j1 st by (auto simp: row_step_def)
  moreover have "get_job (put_job ?x (jobs db1)) k = (if k = i then Some ?x else get_job (jobs db1) k)" for k
    using id by (auto simp: get_job_put_job)
  ultimately show ?thesis
    unfolding jobs_step_alt using ok1 oth own j1(1)
    by (metis (no_types) option.inject order_refl row_step_def)
qed

lemma persist_failure_step:
  assumes "jobs_ok (jobs db)" "get_job (jobs db) (o_job_id out) = Some j" "j_status j = RUNNING"
    and "persist_lock_failure env clk locked out db = Inr (db', b)"
  shows "jobs_step (jobs db) (jobs db')"
proof (cases locked)
  case True
  with assms show ?thesis by (simp add: persist_lock_failure_def jobs_step_refl)
next
  case False
  let ?x = "fail_row clk (r_detail (o_result out)) j"
  have "j_id j = o_job_id out" using get_job_Some [OF assms(2)] by simp
  from False assms(2,4) obtain p where
    "conclude env clk (o_granted out) (new_context (e_host env) (o_granted out) ?x) ?x p db = Inr db'"
    by (auto simp: persist_lock_failure_def Let_def split: sum.splits)
  from conclude_step [OF this assms(1), of j] assms(2,3) \<open>j_id j = o_job_id out\<close> show ?thesis by simp
qed

section \<open>Histories\<close>

text \<open>
  One committed change of the job table by an operation of the engine or the worker.
\<close>

inductive engine_step :: "worker_config \<Rightarrow> 'c engine_db \<Rightarrow> 'c engine_db \<Rightarrow> bool" for cfg where
  engine_submit: "submit now s seen (jobs db) = Inr (js, j) \<Longrightarrow> engine_step cfg db (db\<lparr>jobs := js\<rparr>)"
| engine_claim: "claim_available env gates cfg clks locked n db m bs = (db', m', bs', res) \<Longrightarrow>
    engine_step cfg db db'"
| engine_attempt: "handlers_ok env \<Longrightarrow> get_job (jobs db) i = Some j \<Longrightarrow> j_status j = RUNNING \<Longrightarrow>
    target_known j db \<Longrightarrow> execute_job_once env cfg clk i granted db = Inr (db', out) \<Longrightarrow>
    engine_step cfg db db'"
| engine_lock_failure: "get_job (jobs db) (o_job_id out) = Some j \<Longrightarrow> j_status j = RUNNING \<Longrightarrow>
    persist_lock_failure env clk locked out db = Inr (db', b) \<Longrightarrow> engine_step cfg db db'"
| engine_recover: "engine_step cfg db (db\<lparr>jobs := fst (reset_orphaned_running_jobs now (jobs db))\<rparr>)"

lemma engine_step_jobs: "engine_step cfg db db' \<Longrightarrow> jobs_ok (jobs db) \<Longrightarrow> jobs_step (jobs db) (jobs db')"
proof (induction rule: engine_step.induct)
  case (engine_submit now s seen db js j)
  then show ?case using submit_step by simp
next
  case (engine_claim env gates clks locked n db m bs db' m' bs' res)
  then show ?case using claim_available_step by blast
next
  case (engine_attempt env db i j clk granted db' out)
  then show ?case using execute_once_step by blast
next
  case (engine_lock_failure db out j env clk locked db' b)
  then show ?case using persist_failure_step by blast
next
  case (engine_recover db now)
  then show ?case using reset_orphans_step by simp
qed

lemma engine_steps_jobs:
  "(engine_step cfg)\<^sup>*\<^sup>* db db' \<Longrightarrow> jobs_ok (jobs db) \<Longrightarrow> jobs_step (jobs db) (jobs db')"
proof (induction rule: rtranclp_induct)
  case base
  then show ?case by (rule jobs_step_refl)
next
  case (step y z)
  then show ?case using engine_step_jobs jobs_step_ok jobs_step_trans by blast
qed



end
