(* ===== verification/Reconcile_Spine.thy ===== *)
theory Reconcile_Spine
  imports Job_History
begin

text \<open>
  The generic reconcile loop (\<^verbatim>\<open>src/sutradhara/jobs/reconcilers/spine.py\<close> and \<^verbatim>\<open>registry.py\<close>): discovery
  refreshes condition rows, processing re-observes each due row and enqueues a job when its gate is open.
  A reconciler is a record of its hooks; the locale \<open>reconciler_hooks\<close> is what the loop needs of them.
\<close>

section \<open>Model\<close>

record observation =
  ob_target_key :: string
  ob_desired :: bool
  ob_observed_state :: string

record 'c reconciler =
  rc_enumerate_targets :: "'c engine_db \<Rightarrow> nat option \<Rightarrow> nat \<Rightarrow> observation list"
  rc_observe :: "'c engine_db \<Rightarrow> string \<Rightarrow> engine_error + ('c engine_db \<times> observation)"
  rc_reconcile_target :: "time \<Rightarrow> string \<Rightarrow> 'c engine_db \<Rightarrow> engine_error + 'c engine_db"
  rc_classify_condition ::
    "(string \<Rightarrow> recon_condition \<Rightarrow> 'c engine_db \<Rightarrow> 'c engine_db \<times> recon_condition) option"

definition classify :: "'c reconciler \<Rightarrow> string \<Rightarrow> 'c engine_db \<times> recon_condition \<Rightarrow> 'c engine_db \<times> recon_condition" where
  "classify r key st =
     (case rc_classify_condition r of
        None \<Rightarrow> st
      | Some f \<Rightarrow> f key (snd st) (fst st))"

definition discover_one :: "time \<Rightarrow> 'c reconciler \<Rightarrow> string \<Rightarrow> observation \<Rightarrow> 'c engine_db \<Rightarrow> 'c engine_db" where
  "discover_one now r domain ob db =
     fst (classify r (ob_target_key ob)
            (record_observation now domain (ob_target_key ob) (ob_desired ob) (ob_observed_state ob)
               None None db))"

definition discover :: "time \<Rightarrow> 'c reconciler \<Rightarrow> string \<Rightarrow> nat \<Rightarrow> nat option \<Rightarrow> 'c engine_db \<Rightarrow> 'c engine_db \<times> nat" where
  "discover now r domain batch cursor db =
     (let obs = rc_enumerate_targets r db cursor batch
      in (foldl (\<lambda>d ob. discover_one now r domain ob d) db obs, length obs))"

definition due_order :: "recon_condition \<Rightarrow> time \<times> nat" where
  "due_order c = (case c_next_eligible_at c of None \<Rightarrow> 0 | Some t \<Rightarrow> t, c_id c)"

definition is_due :: "string \<Rightarrow> time \<Rightarrow> recon_condition \<Rightarrow> bool" where
  "is_due domain due_at c =
     (c_domain c = domain \<and> c_condition c \<in> set [CONDITION_OPEN, CONDITION_BACKOFF] \<and>
      (case c_next_eligible_at c of None \<Rightarrow> False | Some t \<Rightarrow> t \<le> due_at))"

definition due_workable :: "string \<Rightarrow> nat \<Rightarrow> time \<Rightarrow> 'c engine_db \<Rightarrow> recon_condition list" where
  "due_workable domain limit due_at db =
     take limit (sort_key due_order (filter (is_due domain due_at) (conditions db)))"

definition gate_open :: "string \<Rightarrow> string \<Rightarrow> recon_condition \<Rightarrow> bool \<Rightarrow> time \<Rightarrow> 'c engine_db \<Rightarrow> bool" where
  "gate_open domain key condition desired now db =
     (desired \<and> c_condition condition \<in> set [CONDITION_OPEN, CONDITION_BACKOFF] \<and>
      (case c_next_eligible_at condition of None \<Rightarrow> False | Some t \<Rightarrow> t \<le> now) \<and>
      \<not> list_ex (\<lambda>j. j_recon_domain j = Some domain \<and> j_recon_target_key j = Some key \<and> is_live j) (jobs db))"

definition process_one ::
  "time \<Rightarrow> 'c reconciler \<Rightarrow> string \<Rightarrow> string \<Rightarrow> 'c engine_db \<Rightarrow> engine_error + 'c engine_db" where
  "process_one now r domain key db =
     (case rc_observe r db key of
        Inl e \<Rightarrow> Inl e
      | Inr (db1, ob) \<Rightarrow>
          (case classify r key
                  (record_observation now domain key (ob_desired ob) (ob_observed_state ob) None None db1) of
             (db2, refreshed) \<Rightarrow>
               if gate_open domain key refreshed (ob_desired ob) now db2
               then rc_reconcile_target r now key db2 else Inr db2))"

fun process_loop ::
  "time \<Rightarrow> 'c reconciler \<Rightarrow> string \<Rightarrow> string list \<Rightarrow> 'c engine_db \<Rightarrow> engine_error + ('c engine_db \<times> nat)" where
  "process_loop now r domain [] db = Inr (db, 0)"
| "process_loop now r domain (key # keys) db =
     (case process_one now r domain key db of
        Inl e \<Rightarrow> Inl e
      | Inr db1 \<Rightarrow>
          (case process_loop now r domain keys db1 of
             Inl e \<Rightarrow> Inl e
           | Inr (db2, n) \<Rightarrow> Inr (db2, Suc n)))"

definition process ::
  "time \<Rightarrow> 'c reconciler \<Rightarrow> string \<Rightarrow> nat \<Rightarrow> 'c engine_db \<Rightarrow> engine_error + ('c engine_db \<times> nat)" where
  "process now r domain limit db =
     process_loop now r domain (map c_target_key (due_workable domain limit now db)) db"

text \<open>\<open>version tool\<close> is what the tool's version provider answers now.\<close>

definition version_bumped :: "(string \<Rightarrow> string) \<Rightarrow> recon_condition \<Rightarrow> bool" where
  "version_bumped version row =
     (case c_blocked_tool_name row of
        None \<Rightarrow> False
      | Some tool \<Rightarrow> version tool \<noteq> ''unknown'' \<and> Some (version tool) \<noteq> c_blocked_tool_version row)"

definition bump_note :: "(string \<Rightarrow> string) \<Rightarrow> recon_condition \<Rightarrow> string" where
  "bump_note version row =
     (let tool = the (c_blocked_tool_name row);
          previous = (case c_blocked_tool_version row of None \<Rightarrow> ''unknown'' | Some v \<Rightarrow> if v = [] then ''unknown'' else v)
      in tool @ '' version changed from '' @ previous @ '' to '' @ version tool)"

definition reopen_version_bumped ::
  "time \<Rightarrow> (string \<Rightarrow> string) \<Rightarrow> string \<Rightarrow> 'c engine_db \<Rightarrow> 'c engine_db \<times> nat" where
  "reopen_version_bumped now version domain db =
     (let rows = filter (\<lambda>c. c_domain c = domain \<and> c_condition c = CONDITION_BLOCKED \<and>
                             c_blocked_tool_name c \<noteq> None) (conditions db);
          bumped = filter (version_bumped version) (sort_key c_id rows)
      in (foldl (\<lambda>d row. reopen_in now ''version-bump'' (bump_note version row) row d) db bumped, length bumped))"

definition reconcile ::
  "time \<Rightarrow> (string \<Rightarrow> string) \<Rightarrow> 'c reconciler \<Rightarrow> string \<Rightarrow> nat \<Rightarrow> nat option \<Rightarrow> nat \<Rightarrow> 'c engine_db \<Rightarrow>
   engine_error + ('c engine_db \<times> nat \<times> nat)" where
  "reconcile now version r domain batch cursor limit db =
     (let db1 = fst (reopen_version_bumped now version domain db);
          (db2, discovered) = discover now r domain batch cursor db1
      in case process now r domain limit db2 of
           Inl e \<Rightarrow> Inl e
         | Inr (db3, processed) \<Rightarrow> Inr (db3, discovered, processed))"

section \<open>What the loop needs of a reconciler\<close>

text \<open>
  Observing changes neither jobs nor conditions, and enqueueing submits at most one job, tagged with the
  domain and the target and deduplicated by a key of the target.
\<close>

definition flight_ok :: "string \<Rightarrow> (string \<Rightarrow> string) \<Rightarrow> job list \<Rightarrow> bool" where
  "flight_ok domain dkey js \<longleftrightarrow>
     (\<forall>j \<in> set js. is_live j \<and> j_recon_domain j = Some domain \<longrightarrow>
        (\<exists>k. j_recon_target_key j = Some k \<and> j_dedupe_key j = Some (dkey k)))"

lemma single_flight:
  assumes "jobs_ok js" "flight_ok domain dkey js" "j1 \<in> set js" "j2 \<in> set js" "is_live j1" "is_live j2"
    and "j_recon_domain j1 = Some domain" "j_recon_domain j2 = Some domain"
    and "j_recon_target_key j1 = j_recon_target_key j2"
  shows "j1 = j2"
proof -
  have d: "distinct (List.map_filter live_key js)"
    using assms(1) by (simp add: jobs_ok_def dedupe_keys_live_alt)
  from assms(2,3,5,7) obtain k1 where k1: "j_recon_target_key j1 = Some k1" "j_dedupe_key j1 = Some (dkey k1)"
    unfolding flight_ok_def by blast
  from assms(2,4,6,8) obtain k2 where k2: "j_recon_target_key j2 = Some k2" "j_dedupe_key j2 = Some (dkey k2)"
    unfolding flight_ok_def by blast
  define k where "k = dkey k1"
  have "live_key j1 = Some k" "live_key j2 = Some k"
    using k1 k2 assms(5,6,9) by (simp_all add: live_key_def k_def)
  with d assms(3,4) show ?thesis
  proof (induction js)
    case (Cons a js)
    have "k \<in> set (List.map_filter live_key js)" if "j \<in> set js" "live_key j = Some k" for j
      using that by (auto simp: set_map_filter)
    with Cons show ?case by (auto simp: List.map_filter_simps split: option.splits)
  qed simp
qed

lemma reopen_fold_inv:
  "conditions_inv (conditions db) \<Longrightarrow> set rows \<subseteq> set (conditions db) \<Longrightarrow> distinct (map c_id rows) \<Longrightarrow>
   conditions_inv (conditions (foldl (\<lambda>d row. reopen_in now a (note row) row d) db rows)) \<and>
   jobs (foldl (\<lambda>d row. reopen_in now a (note row) row d) db rows) = jobs db"
proof (induction rows arbitrary: db)
  case (Cons row rows)
  let ?db = "reopen_in now a (note row) row db"
  have inv: "conditions_inv (conditions ?db)" using Cons.prems by (intro reopen_in_inv) auto
  have "x \<in> set (conditions ?db)" if "x \<in> set rows" for x
  proof -
    have "c_id row \<notin> c_id ` set rows" using Cons.prems(3) by simp
    with that have "c_id x \<noteq> c_id row" by (metis imageI)
    then show ?thesis using that Cons.prems(2)
      by (auto simp: reopen_in_def put_condition_def set_update_where reopen_writer.keeps_id)
  qed
  with Cons.IH [OF inv] Cons.prems(3) show ?case by (auto simp: reopen_in_def)
qed simp

lemma reopen_version_bumped_inv:
  assumes "conditions_inv (conditions db)"
  shows "conditions_inv (conditions (fst (reopen_version_bumped now version domain db))) \<and>
         jobs (fst (reopen_version_bumped now version domain db)) = jobs db"
proof -
  have "distinct (map c_id (conditions db))"
    using assms by (simp add: conditions_inv_def conditions_ok_def)
  then have "distinct (map c_id (filter P (sort_key c_id (filter Q (conditions db)))))" for P Q
    by (simp add: distinct_map inj_on_def)
  with reopen_fold_inv [OF assms] show ?thesis by (auto simp: reopen_version_bumped_def Let_def)
qed

locale reconciler_hooks =
  fixes r :: "'c reconciler" and domain :: string and dkey :: "string \<Rightarrow> string"
  assumes observe_frame: "rc_observe r db key = Inr (db', ob) \<Longrightarrow>
      jobs db' = jobs db \<and> conditions db' = conditions db \<and> ob_target_key ob = key"
    and reconcile_submits: "rc_reconcile_target r now key db = Inr db' \<Longrightarrow>
      conditions db' = conditions db \<and>
      (jobs db' = jobs db \<or>
       (\<exists>s j. submit now s (jobs db) (jobs db) = Inr (jobs db', j) \<and> s_recon_domain s = Some domain \<and>
              s_recon_target_key s = Some key \<and> s_dedupe_key s = Some (dkey key)))"
    and no_classifier: "rc_classify_condition r = None"
begin

definition spine_ok :: "'c engine_db \<Rightarrow> bool" where
  "spine_ok db \<longleftrightarrow> jobs_ok (jobs db) \<and> flight_ok domain dkey (jobs db) \<and> conditions_inv (conditions db)"

lemma reconcile_keeps:
  assumes "spine_ok db" "rc_reconcile_target r now key db = Inr db'"
  shows "spine_ok db' \<and> length (jobs db') \<le> Suc (length (jobs db))"
proof -
  from reconcile_submits [OF assms(2)]
  consider "jobs db' = jobs db"
    | s j where "submit now s (jobs db) (jobs db) = Inr (jobs db', j)" "s_recon_domain s = Some domain"
      "s_recon_target_key s = Some key" "s_dedupe_key s = Some (dkey key)" by blast
  then show ?thesis
  proof cases
    case 1
    with assms reconcile_submits [OF assms(2)] show ?thesis by (simp add: spine_ok_def)
  next
    case 2
    have ok: "jobs_ok (jobs db)" using assms(1) by (simp add: spine_ok_def)
    have "jobs db' = jobs db \<or> jobs db' = jobs db @ [new_job now s (fresh_id (map j_id (jobs db)))]"
      using 2(1) by (auto simp: submit_def insert_job_def Let_def split: option.splits if_splits)
    moreover have "flight_ok domain dkey (jobs db @ [new_job now s i])" for i
      using assms(1) 2 by (auto simp: spine_ok_def flight_ok_def new_job_def)
    ultimately show ?thesis
      using submit_step [OF ok 2(1)] assms(1) reconcile_submits [OF assms(2)]
      by (auto simp: spine_ok_def jobs_step_def)
  qed
qed

lemma process_one_keeps:
  assumes "spine_ok db" "process_one now r domain key db = Inr db'"
  shows "spine_ok db' \<and> length (jobs db') \<le> Suc (length (jobs db))"
proof -
  from assms(2) obtain db1 ob where ob: "rc_observe r db key = Inr (db1, ob)"
    by (auto simp: process_one_def split: sum.splits)
  let ?rec = "record_observation now domain key (ob_desired ob) (ob_observed_state ob) None None db1"
  have "jobs (fst ?rec) = jobs db" "conditions_inv (conditions (fst ?rec))"
    using observe_frame [OF ob] assms(1) record_observation_inv [of db1]
    by (simp_all add: spine_ok_def record_observation_def Let_def split: option.splits)
  then have ok: "spine_ok (fst ?rec)" and len: "length (jobs (fst ?rec)) = length (jobs db)"
    using assms(1) by (simp_all add: spine_ok_def)
  have "db' = fst ?rec \<or> rc_reconcile_target r now key (fst ?rec) = Inr db'"
    using assms(2) ob no_classifier by (auto simp: process_one_def classify_def split: prod.splits if_splits)
  with reconcile_keeps [OF ok] ok len show ?thesis by auto
qed

lemma process_loop_keeps:
  "spine_ok db \<Longrightarrow> process_loop now r domain keys db = Inr (db', n) \<Longrightarrow>
   spine_ok db' \<and> n = length keys \<and> length (jobs db') \<le> length (jobs db) + length keys"
proof (induction keys arbitrary: db n)
  case (Cons key keys)
  then obtain db1 m where one: "process_one now r domain key db = Inr db1"
    and rest: "process_loop now r domain keys db1 = Inr (db', m)" and n: "n = Suc m"
    by (auto split: sum.splits)
  from process_one_keeps [OF Cons.prems(1) one] Cons.IH [OF _ rest] n show ?case by auto
qed simp

lemma discover_keeps:
  assumes "spine_ok db"
  shows "spine_ok (fst (discover now r domain batch cursor db)) \<and>
         jobs (fst (discover now r domain batch cursor db)) = jobs db"
proof -
  have one: "spine_ok (discover_one now r domain ob d) \<and> jobs (discover_one now r domain ob d) = jobs d"
    if "spine_ok d" for ob d
    using that record_observation_inv [of d]
    by (simp add: discover_one_def classify_def no_classifier spine_ok_def)
       (simp add: record_observation_def Let_def split: option.splits)
  have "spine_ok (foldl (\<lambda>d ob. discover_one now r domain ob d) db obs) \<and>
        jobs (foldl (\<lambda>d ob. discover_one now r domain ob d) db obs) = jobs db" for obs
    using assms by (induction obs arbitrary: db) (simp_all add: one)
  then show ?thesis by (simp add: discover_def Let_def)
qed

lemma reconcile_keeps_spine:
  assumes ok: "spine_ok db" and run: "reconcile now version r domain batch cursor limit db = Inr (db', d, p)"
  shows "spine_ok db' \<and> p \<le> limit \<and> length (jobs db') \<le> length (jobs db) + p"
proof -
  let ?db1 = "fst (reopen_version_bumped now version domain db)"
  let ?db2 = "fst (discover now r domain batch cursor ?db1)"
  have ok1: "spine_ok ?db1" "jobs ?db1 = jobs db"
    using ok reopen_version_bumped_inv [of db now version domain] by (simp_all add: spine_ok_def)
  note ok2 = discover_keeps [OF ok1(1), of now batch cursor]
  have "process now r domain limit ?db2 = Inr (db', p)"
    using run by (auto simp: reconcile_def Let_def split: sum.splits prod.splits)
  then have loop: "process_loop now r domain (map c_target_key (due_workable domain limit now ?db2)) ?db2 = Inr (db', p)"
    by (simp add: process_def)
  have "length (due_workable domain limit now ?db2) \<le> limit" by (simp add: due_workable_def)
  with process_loop_keeps [OF _ loop] ok1 ok2 show ?thesis by simp
qed

text \<open>A due target that is wanted, missing and has no live job gets its job.\<close>

lemma process_one_enqueues:
  assumes ob: "rc_observe r db key = Inr (db1, ob)" "ob_desired ob" "ob_observed_state ob \<noteq> OBSERVED_PRESENT"
    and inv: "conditions_inv (conditions db)"
    and row: "get_condition (conditions db) domain key = Some c" "is_due domain now c"
    and idle: "\<not> (\<exists>j \<in> set (jobs db). is_live j \<and> j_recon_domain j = Some domain \<and> j_recon_target_key j = Some key)"
  shows "\<exists>db2. jobs db2 = jobs db \<and> catalog db2 = catalog db1 \<and> conditions_inv (conditions db2) \<and>
           get_condition (conditions db2) domain key \<noteq> None \<and>
           process_one now r domain key db = rc_reconcile_target r now key db2"
proof -
  let ?rec = "record_observation now domain key True (ob_observed_state ob) None None db1"
  have fr: "jobs db1 = jobs db" "conditions db1 = conditions db" using observe_frame [OF ob(1)] by auto
  have snd: "snd ?rec = observe_row now True (ob_observed_state ob) None None c"
    using fr row(1) by (simp add: record_observation_def Let_def)
  have fst: "jobs (fst ?rec) = jobs db" "catalog (fst ?rec) = catalog db1"
    using fr by (simp_all add: record_observation_def Let_def split: option.splits)
  have "conditions (fst ?rec) = put_condition (snd ?rec) (conditions db)"
    unfolding snd using fr row(1) by (simp add: record_observation_def Let_def)
  then have g: "get_condition (conditions (fst ?rec)) domain key \<noteq> None"
    unfolding snd using get_put_condition [OF inv row(1) obs_writer.condition_writer_axioms] by simp
  have i: "conditions_inv (conditions (fst ?rec))" using record_observation_inv [of db1] inv fr by simp
  obtain t where t: "c_next_eligible_at c = Some t" "t \<le> now" and st: "c_condition c \<in> {CONDITION_OPEN, CONDITION_BACKOFF}"
    using row(2) by (auto simp: is_due_def split: option.splits)
  have "gate_open domain key (snd ?rec) True now (fst ?rec)"
    unfolding gate_open_def snd fst
    using t st ob(3) idle by (auto simp: observe_row_def HELD_CONDITIONS_def list_ex_iff condition_names)
  then have "process_one now r domain key db = rc_reconcile_target r now key (fst ?rec)"
    using ob(1,2) no_classifier by (auto simp: process_one_def classify_def split: prod.splits)
  with fst g i show ?thesis by blast
qed

end

end
