(* ===== verification/Catalog.thy ===== *)
theory Catalog
  imports Sutra_Prelude
begin

text \<open>
  The catalog tables (\<^verbatim>\<open>src/sutradhara/catalog/models.py\<close> and \<^verbatim>\<open>types.py\<close>) as far as durability,
  replication, archiving and retention read or write them.  A table is the list of its rows; a content
  hash is the string of its bytes.  Columns that none of the modelled code reads are left out.
\<close>

section \<open>Enumerations\<close>

datatype copy_health = HealthOk | HealthSuspect | HealthCorrupt | HealthMissing

datatype intake_status = RECEIVING | VERIFYING | QUARANTINED | REGISTERED

datatype retention_state = HELD | RELEASED | TOMBSTONED | ABANDONED | PURGED

datatype arrangement_status = DRAFT | PENDING_DERIVATIVES | READY | SUBMITTED | ARR_ABANDONED

type_synonym bytes = string

section \<open>Rows\<close>

record backend_row =
  be_id :: nat
  be_name :: string
  be_kind :: string
  be_family :: string

record pool_row =
  po_id :: string
  po_backend_id :: nat
  po_representation :: string
  po_location :: string
  po_offsite_gate :: bool
  po_tier :: string
  po_accepts_writes :: bool
  po_retired :: bool
  po_media_generation :: "string option"
  po_min_object_bytes :: "int option"

record class_pool =
  ap_id :: nat
  ap_artifactclass :: string
  ap_pool_id :: string
  ap_active :: bool
  ap_sort_order :: int

record policy_row =
  pr_artifactclass :: string
  pr_bundle_group :: "string option"
  pr_target_bytes :: int
  pr_max_age_seconds :: int
  pr_min_copies :: int
  pr_min_impl_families :: int
  pr_ruleset :: string
  pr_hdcache_config :: jobj

record copy_row =
  cp_id :: nat
  cp_asset_hash :: "bytes option"
  cp_bundle_id :: "string option"
  cp_backend_id :: nat
  cp_pool_id :: "string option"
  cp_native_locator :: jobj
  cp_storage_metadata :: jobj
  cp_source :: string
  cp_integrity_hash :: bytes
  cp_hash_provenance :: string
  cp_health :: copy_health
  cp_health_changed_at :: time
  cp_last_checked_at :: "time option"
  cp_last_measured_digest :: "bytes option"
  cp_last_measured_at :: "time option"
  cp_deleted_at :: "time option"

record asset_locator =
  al_asset_hash :: bytes
  al_pool_id :: string
  al_copy_id :: "nat option"
  al_bundle_id :: "string option"
  al_member_path :: string
  al_native_locator :: jobj
  al_representation :: string

record bundle_row =
  bu_id :: string
  bu_group :: string
  bu_group_basis :: jobj
  bu_status :: string
  bu_total_bytes :: int
  bu_member_count :: int
  bu_target_bytes :: int
  bu_max_age_seconds :: int
  bu_archive_id :: "string option"
  bu_scan_summary :: "jobj option"
  bu_review_summary :: "jobj option"
  bu_customer_manifest_path :: "string option"
  bu_claimed_by :: "string option"
  bu_opened_at :: time
  bu_flushed_at :: "time option"
  bu_sealed_at :: "time option"
  bu_held_at :: "time option"

record bundle_member =
  bm_id :: nat
  bm_bundle_id :: string
  bm_asset_hash :: bytes
  bm_artifactclass :: string
  bm_member_path :: string
  bm_source_path :: "string option"
  bm_size_bytes :: int
  bm_file_sha256 :: bytes
  bm_source_metadata :: "jobj option"
  bm_added_at :: time

record staging_transform =
  tf_id :: nat
  tf_member_id :: nat
  tf_bundle_id :: string
  tf_asset_hash :: bytes
  tf_artifactclass :: string
  tf_step_order :: int
  tf_kind :: string
  tf_reversible :: bool
  tf_original_member_path :: string
  tf_stored_member_path :: string
  tf_original_size_bytes :: int
  tf_stored_size_bytes :: int
  tf_original_sha256 :: bytes
  tf_stored_sha256 :: bytes
  tf_parameters :: jobj
  tf_result :: jobj

record blob_root =
  br_bundle_id :: string
  br_copy_id :: nat
  br_pool_id :: string
  br_root_path :: string
  br_native_locator :: jobj
  br_archive_id :: "string option"

record exclusion_record =
  ex_bundle_id :: "string option"
  ex_artifactclass :: string
  ex_asset_hash :: "bytes option"
  ex_path :: "string option"
  ex_reason :: string
  ex_count :: int
  ex_bytes_total :: int
  ex_ruleset_name :: "string option"
  ex_ruleset_hash :: "string option"
  ex_detail :: "jobj option"

record review_decision =
  rd_bundle_id :: string
  rd_action :: string
  rd_scope :: string
  rd_subtree :: "string option"
  rd_reason :: "string option"
  rd_reviewer :: "string option"
  rd_persisted_rule :: "jobj option"

record intake_row =
  in_id :: string
  in_manifest_path :: "string option"
  in_manifest_digest :: "string option"
  in_requested_profile :: "string option"
  in_status :: intake_status
  in_retention_state :: retention_state
  in_released_at :: "time option"
  in_release_fingerprint :: "string option"
  in_tombstoned_at :: "time option"
  in_tombstone_path :: "string option"
  in_staging_deleted_at :: "time option"

record ingest_item =
  it_id :: nat
  it_intake_id :: string
  it_asset_hash :: bytes
  it_artifactclass :: string
  it_as_received_path :: string
  it_metadata :: jobj

record virtual_member =
  vm_asset_hash :: bytes
  vm_artifactclass :: string
  vm_excluded :: bool

record submission_member =
  sm_id :: nat
  sm_submission_id :: string
  sm_ingest_item_id :: "nat option"
  sm_archive_path :: string
  sm_sha256 :: bytes
  sm_size_bytes :: int

record arrangement_row =
  ar_id :: nat
  ar_intake_id :: string
  ar_status :: arrangement_status
  ar_submission_id :: "string option"

record offsite_confirmation =
  of_media_id :: string
  of_confirmed_at :: time
  of_confirmed_by :: string
  of_shipment_id :: "string option"
  of_revoked_at :: "time option"
  of_revoked_by :: "string option"

record retention_event =
  ev_id :: nat
  ev_intake_id :: "string option"
  ev_subject_type :: string
  ev_subject_id :: string
  ev_action :: string
  ev_operation_id :: string
  ev_actor :: string
  ev_at :: time
  ev_detail :: "jobj option"
  ev_supersedes_source :: "string option"
  ev_supersedes_event_id :: "nat option"

record verify_receipt =
  vr_event_id :: nat
  vr_copy_id :: nat
  vr_backend_id :: nat
  vr_expected_digest :: bytes
  vr_measured_digest :: "bytes option"
  vr_backend_ok :: bool
  vr_failure_kind :: "string option"
  vr_failure_detail :: "string option"
  vr_source :: string
  vr_execution_id :: string
  vr_producer_process :: string
  vr_actor :: "string option"
  vr_at :: time

record journal_checkpoint =
  ck_global_sequence :: int
  ck_head_hash :: bytes
  ck_verify_receipt_cursor :: int
  ck_retention_event_cursor :: int
  ck_published_filename :: string
  ck_published_at :: time

record catalog_db =
  backends :: "backend_row list"
  pools :: "pool_row list"
  class_pools :: "class_pool list"
  policies :: "policy_row list"
  copies :: "copy_row list"
  asset_locators :: "asset_locator list"
  bundles :: "bundle_row list"
  bundle_members :: "bundle_member list"
  logical_assets :: "bytes list"
  staging_transforms :: "staging_transform list"
  blob_roots :: "blob_root list"
  exclusion_records :: "exclusion_record list"
  review_decisions :: "review_decision list"
  intakes :: "intake_row list"
  ingest_items :: "ingest_item list"
  virtual_members :: "virtual_member list"
  submission_members :: "submission_member list"
  arrangements :: "arrangement_row list"
  offsite_confirmations :: "offsite_confirmation list"
  retention_events :: "retention_event list"
  verify_receipts :: "verify_receipt list"
  journal_checkpoints :: "journal_checkpoint option"

section \<open>Lookups\<close>

definition get_backend :: "catalog_db \<Rightarrow> nat \<Rightarrow> backend_row option" where
  "get_backend c i = find (\<lambda>b. be_id b = i) (backends c)"

definition get_pool :: "catalog_db \<Rightarrow> string \<Rightarrow> pool_row option" where
  "get_pool c p = find (\<lambda>r. po_id r = p) (pools c)"

definition get_bundle :: "catalog_db \<Rightarrow> string \<Rightarrow> bundle_row option" where
  "get_bundle c b = find (\<lambda>r. bu_id r = b) (bundles c)"

definition get_intake :: "catalog_db \<Rightarrow> string \<Rightarrow> intake_row option" where
  "get_intake c i = find (\<lambda>r. in_id r = i) (intakes c)"

lemma get_pool_Some: "get_pool c p = Some r \<Longrightarrow> r \<in> set (pools c) \<and> po_id r = p"
  by (auto simp: get_pool_def dest: find_SomeD)

text \<open>
  What the schema guarantees of the rows used here: primary keys are unique, a copy belongs to an asset
  or to a bundle but not to both, memberships are unique per class and pool and point at existing pools,
  pools at existing backends.
\<close>

definition catalog_ok :: "catalog_db \<Rightarrow> bool" where
  "catalog_ok c \<longleftrightarrow>
     distinct (map be_id (backends c)) \<and> distinct (map po_id (pools c)) \<and>
     distinct (map cp_id (copies c)) \<and> distinct (map bu_id (bundles c)) \<and>
     distinct (map pr_artifactclass (policies c)) \<and>
     distinct (map (\<lambda>m. (ap_artifactclass m, ap_pool_id m)) (class_pools c)) \<and>
     (\<forall>r \<in> set (copies c). (cp_asset_hash r = None) \<noteq> (cp_bundle_id r = None)) \<and>
     (\<forall>m \<in> set (class_pools c). get_pool c (ap_pool_id m) \<noteq> None) \<and>
     (\<forall>p \<in> set (pools c). get_backend c (po_backend_id p) \<noteq> None)"

end
