(* ===== verification/Durability.thy ===== *)
theory Durability
  imports Catalog Py_Text
begin

text \<open>
  Replication targets and durability accounting (\<^verbatim>\<open>src/sutradhara/durability.py\<close>; \<open>target_pools\<close> and
  \<open>_pool_target_entry\<close> of \<^verbatim>\<open>src/sutradhara/replication.py\<close>): which copies count for an asset or a bundle,
  which pools the policy wants, and what is missing.
\<close>

section \<open>Replication targets\<close>

datatype replication_error =
    PolicyMissing string
  | DuplicatePool string string
  | BadRepresentation string
  | BackendUnavailable string nat
  | DanglingPool string
  | NoSuchBundle string
  | RepresentationDrift string

record pool_target =
  pt_pool_id :: string
  pt_artifactclass :: string
  pt_backend_id :: nat
  pt_backend_name :: string
  pt_representation :: string
  pt_key_epoch :: "string option"
  pt_location :: string
  pt_offsite_gate :: bool
  pt_tier :: string
  pt_sort_order :: int

definition REPRESENTATIONS :: "string list" where
  "REPRESENTATIONS = [''raw-bytes'', ''rem-object-v1'', ''rem-encrypt-v1'', ''d2tar-raw'']"

text \<open>\<open>available\<close> are the ids of the backends the caller supplies.\<close>

definition pool_target_entry ::
  "catalog_db \<Rightarrow> pool_row \<Rightarrow> nat list \<Rightarrow> string \<Rightarrow> string option \<Rightarrow> int \<Rightarrow> replication_error + pool_target" where
  "pool_target_entry c pool available artifactclass key_epoch sort_order =
     (if po_representation pool \<notin> set REPRESENTATIONS then Inl (BadRepresentation (po_representation pool))
      else if po_backend_id pool \<notin> set available then
        Inl (BackendUnavailable (po_id pool) (po_backend_id pool))
      else Inr \<lparr>pt_pool_id = po_id pool, pt_artifactclass = artifactclass,
                pt_backend_id = po_backend_id pool,
                pt_backend_name = (case get_backend c (po_backend_id pool) of None \<Rightarrow> [] | Some b \<Rightarrow> be_name b),
                pt_representation = po_representation pool,
                pt_key_epoch = (if po_representation pool = ''rem-encrypt-v1'' then key_epoch else None),
                pt_location = po_location pool, pt_offsite_gate = po_offsite_gate pool,
                pt_tier = po_tier pool, pt_sort_order = sort_order\<rparr>)"

definition accepting_pool :: "catalog_db \<Rightarrow> string \<Rightarrow> bool" where
  "accepting_pool c p = (\<exists>r \<in> set (pools c). po_id r = p \<and> po_accepts_writes r)"

definition memberships :: "catalog_db \<Rightarrow> string \<Rightarrow> bool \<Rightarrow> class_pool list" where
  "memberships c artifactclass write_eligible_only =
     sort_key (\<lambda>m. (ap_sort_order m, ap_pool_id m))
       (filter (\<lambda>m. ap_artifactclass m = artifactclass \<and> ap_active m \<and>
                    (write_eligible_only \<longrightarrow> accepting_pool c (ap_pool_id m))) (class_pools c))"

fun target_loop ::
  "catalog_db \<Rightarrow> string \<Rightarrow> nat list \<Rightarrow> string option \<Rightarrow> string list \<Rightarrow> class_pool list \<Rightarrow>
   replication_error + pool_target list" where
  "target_loop c artifactclass available key_epoch seen [] = Inr []"
| "target_loop c artifactclass available key_epoch seen (m # ms) =
     (case get_pool c (ap_pool_id m) of
        None \<Rightarrow> Inl (DanglingPool (ap_pool_id m))
      | Some pool \<Rightarrow>
          if po_id pool \<in> set seen then Inl (DuplicatePool artifactclass (po_id pool))
          else res_bind (pool_target_entry c pool available artifactclass key_epoch (ap_sort_order m))
                 (\<lambda>t. res_bind (target_loop c artifactclass available key_epoch (po_id pool # seen) ms)
                        (\<lambda>ts. Inr (t # ts))))"

definition target_pools ::
  "catalog_db \<Rightarrow> string \<Rightarrow> nat list \<Rightarrow> string option \<Rightarrow> bool \<Rightarrow> replication_error + pool_target list" where
  "target_pools c artifactclass available key_epoch write_eligible_only =
     (let ms = memberships c artifactclass write_eligible_only
      in if ms = [] then Inl (PolicyMissing artifactclass)
         else target_loop c artifactclass available key_epoch [] ms)"

text \<open>\<open>_policy_targets\<close>: every backend behind an active membership is supplied.\<close>

definition policy_targets :: "catalog_db \<Rightarrow> string \<Rightarrow> replication_error + pool_target list" where
  "policy_targets c artifactclass =
     target_pools c artifactclass
       [be_id b. b \<leftarrow> backends c,
          list_ex (\<lambda>p. po_backend_id p = be_id b \<and>
                       list_ex (\<lambda>m. ap_pool_id m = po_id p \<and> ap_artifactclass m = artifactclass \<and> ap_active m)
                         (class_pools c)) (pools c)]
       None False"

section \<open>Durable copies\<close>

definition copy_counts :: "bool \<Rightarrow> copy_row \<Rightarrow> bool" where
  "copy_counts require_verified r =
     (cp_health r = HealthOk \<and> cp_deleted_at r = None \<and>
      (require_verified \<longrightarrow>
         cp_last_measured_digest r \<noteq> None \<and> cp_last_measured_digest r = Some (cp_integrity_hash r)))"

definition pool_matches :: "string option \<Rightarrow> copy_row \<Rightarrow> bool" where
  "pool_matches pool_id r = (case pool_id of None \<Rightarrow> True | Some p \<Rightarrow> cp_pool_id r = Some p)"

definition bundle_placements :: "catalog_db \<Rightarrow> bool \<Rightarrow> string option \<Rightarrow> string \<Rightarrow> copy_row list" where
  "bundle_placements c require_verified pool_id bundle_id =
     sort_key cp_id (filter (\<lambda>r. cp_bundle_id r = Some bundle_id \<and> copy_counts require_verified r \<and>
                                 pool_matches pool_id r) (copies c))"

definition asset_has_artifactclass_membership :: "catalog_db \<Rightarrow> bytes \<Rightarrow> string \<Rightarrow> bool" where
  "asset_has_artifactclass_membership c asset_hash artifactclass =
     (list_ex (\<lambda>i. it_asset_hash i = asset_hash \<and> it_artifactclass i = artifactclass \<and>
                   list_ex (\<lambda>n. in_id n = it_intake_id i \<and> in_status n = REGISTERED) (intakes c))
        (ingest_items c) \<or>
      list_ex (\<lambda>v. vm_asset_hash v = asset_hash \<and> vm_artifactclass v = artifactclass \<and> \<not> vm_excluded v)
        (virtual_members c))"

definition locator_artifactclass_filter :: "catalog_db \<Rightarrow> bytes \<Rightarrow> string \<Rightarrow> asset_locator \<Rightarrow> bool" where
  "locator_artifactclass_filter c asset_hash artifactclass l =
     (case al_bundle_id l of
        Some b \<Rightarrow> list_ex (\<lambda>m. bm_bundle_id m = b \<and> bm_asset_hash m = asset_hash \<and>
                              bm_artifactclass m = artifactclass) (bundle_members c)
      | None \<Rightarrow> asset_has_artifactclass_membership c asset_hash artifactclass)"

definition locator_leg ::
  "catalog_db \<Rightarrow> string option \<Rightarrow> string option \<Rightarrow> bytes \<Rightarrow> copy_row \<Rightarrow> asset_locator \<Rightarrow> bool" where
  "locator_leg c artifactclass pool_id asset_hash r l =
     (al_copy_id l = Some (cp_id r) \<and> al_asset_hash l = asset_hash \<and>
      (case pool_id of None \<Rightarrow> True | Some p \<Rightarrow> al_pool_id l = p \<and> cp_pool_id r = Some p) \<and>
      (case artifactclass of None \<Rightarrow> True | Some a \<Rightarrow> locator_artifactclass_filter c asset_hash a l))"

definition direct_copies :: "catalog_db \<Rightarrow> bool \<Rightarrow> bytes \<Rightarrow> copy_row list" where
  "direct_copies c require_verified asset_hash =
     sort_key cp_id (filter (\<lambda>r. cp_asset_hash r = Some asset_hash \<and> copy_counts require_verified r) (copies c))"

definition dedupe_by_copy_id :: "copy_row list \<Rightarrow> copy_row list" where
  "dedupe_by_copy_id rs = dedup_on cp_id [] rs"

definition asset_placements ::
  "catalog_db \<Rightarrow> bool \<Rightarrow> string option \<Rightarrow> string option \<Rightarrow> bytes \<Rightarrow> copy_row list" where
  "asset_placements c require_verified artifactclass pool_id asset_hash =
     (let asset_copies = sort_key cp_id
            (filter (\<lambda>r. cp_asset_hash r = Some asset_hash \<and> copy_counts require_verified r \<and>
                         pool_matches pool_id r) (copies c));
          bundle_copies = sort_key cp_id
            (concat (map (\<lambda>r. map (\<lambda>_. r)
                                (filter (locator_leg c artifactclass pool_id asset_hash r) (asset_locators c)))
                       (filter (copy_counts require_verified) (copies c))))
      in dedupe_by_copy_id (asset_copies @ bundle_copies))"

section \<open>Placement status\<close>

record placement_entry =
  pe_target :: pool_target
  pe_have :: bool
  pe_duplicate_count :: nat
  pe_is_duplicate :: bool

record placement_status =
  ps_complete :: bool
  ps_have :: "placement_entry set"
  ps_want :: "placement_entry set"
  ps_missing :: "placement_entry set"

definition placement_entry_of :: "pool_target \<Rightarrow> nat \<Rightarrow> placement_entry" where
  "placement_entry_of t n =
     \<lparr>pe_target = t, pe_have = (n > 0), pe_duplicate_count = n, pe_is_duplicate = (n > 1)\<rparr>"

definition count_by_pool :: "copy_row list \<Rightarrow> nat \<Rightarrow> string \<Rightarrow> nat" where
  "count_by_pool rs backend_id pool_id =
     length (filter (\<lambda>r. cp_backend_id r = backend_id \<and> cp_pool_id r = Some pool_id) rs)"

definition status_of :: "pool_target list \<Rightarrow> (nat \<Rightarrow> string \<Rightarrow> nat) \<Rightarrow> placement_status" where
  "status_of targets counts =
     (let entries = map (\<lambda>t. placement_entry_of t (counts (pt_backend_id t) (pt_pool_id t))) targets
      in \<lparr>ps_complete = (filter (Not \<circ> pe_have) entries = []), ps_have = set (filter pe_have entries),
          ps_want = set entries, ps_missing = set (filter (Not \<circ> pe_have) entries)\<rparr>)"

text \<open>
  \<open>bundle_copy_counts_by_pool\<close>: the grouped query, as the list of its groups, and the dictionary built
  from it for the requested bundles.
\<close>

definition bundle_copy_groups :: "catalog_db \<Rightarrow> bool \<Rightarrow> string list \<Rightarrow> ((string \<times> nat \<times> string) \<times> nat) list" where
  "bundle_copy_groups c require_verified bundle_ids =
     (let rows = filter (\<lambda>r. (case cp_bundle_id r of None \<Rightarrow> False | Some b \<Rightarrow> b \<in> set bundle_ids) \<and>
                             copy_counts require_verified r \<and> cp_pool_id r \<noteq> None) (copies c);
          key = (\<lambda>r. (the (cp_bundle_id r), cp_backend_id r, the (cp_pool_id r)))
      in map (\<lambda>k. (k, length (filter (\<lambda>r. key r = k) rows))) (remdups (map key rows)))"

definition bundle_copy_counts_by_pool ::
  "catalog_db \<Rightarrow> bool \<Rightarrow> string list \<Rightarrow> (string \<times> ((nat \<times> string) \<times> nat) list) list" where
  "bundle_copy_counts_by_pool c require_verified bundle_ids =
     foldl (\<lambda>counts ((b, be, p), n). dict_set b (dict_set (be, p) n (dict_get counts b [])) counts)
       (foldl (\<lambda>d b. dict_set b [] d) [] bundle_ids)
       (if bundle_ids = [] then [] else bundle_copy_groups c require_verified bundle_ids)"

definition bundle_artifactclasses :: "catalog_db \<Rightarrow> bundle_row \<Rightarrow> string list" where
  "bundle_artifactclasses c b =
     (let classes = sort (remdups [bm_artifactclass m. m \<leftarrow> bundle_members c, bm_bundle_id m = bu_id b])
      in if classes \<noteq> [] then classes
         else sort (remdups [pr_artifactclass p. p \<leftarrow> policies c, pr_bundle_group p = Some (bu_group b)]))"

fun bundle_targets_loop ::
  "catalog_db \<Rightarrow> (nat \<times> string) list \<Rightarrow> string list \<Rightarrow> replication_error + pool_target list" where
  "bundle_targets_loop c seen [] = Inr []"
| "bundle_targets_loop c seen (a # as) =
     res_bind (policy_targets c a)
       (\<lambda>ts. let new = dedup_on (\<lambda>t. (pt_backend_id t, pt_pool_id t)) seen ts in
          res_bind (bundle_targets_loop c (map (\<lambda>t. (pt_backend_id t, pt_pool_id t)) new @ seen) as)
            (\<lambda>rest. Inr (new @ rest)))"

definition bundle_policy_targets :: "catalog_db \<Rightarrow> bundle_row \<Rightarrow> replication_error + pool_target list" where
  "bundle_policy_targets c b = bundle_targets_loop c [] (bundle_artifactclasses c b)"

definition bundle_placement_status ::
  "catalog_db \<Rightarrow> bool \<Rightarrow> string \<Rightarrow> replication_error + placement_status" where
  "bundle_placement_status c require_verified bundle_id =
     (case get_bundle c bundle_id of
        None \<Rightarrow> Inl (NoSuchBundle bundle_id)
      | Some b \<Rightarrow>
          res_bind (bundle_policy_targets c b)
            (\<lambda>ts. let counts = dict_get (bundle_copy_counts_by_pool c require_verified [bundle_id]) bundle_id []
                  in Inr (status_of ts (\<lambda>be p. dict_get counts (be, p) 0))))"

definition asset_placement_status ::
  "catalog_db \<Rightarrow> bool \<Rightarrow> string \<Rightarrow> bytes \<Rightarrow> replication_error + placement_status" where
  "asset_placement_status c require_verified artifactclass asset_hash =
     res_bind (policy_targets c artifactclass)
       (\<lambda>ts. Inr (status_of ts
               (count_by_pool (asset_placements c require_verified (Some artifactclass) None asset_hash))))"

section \<open>Media identity\<close>

datatype media_error = MissingMediaId nat string | UnsupportedFamily nat string

definition nonempty_str :: "json option \<Rightarrow> string option" where
  "nonempty_str v = (case v of Some (JStr s) \<Rightarrow> if s = [] then None else Some s | _ \<Rightarrow> None)"

definition copy_media_identity ::
  "string \<Rightarrow> copy_row \<Rightarrow> media_error + (string \<times> string) option" where
  "copy_media_identity family r =
     (if family = ''memory'' then Inr None
      else if family = ''tape'' then
        (case nonempty_str (map_of (cp_native_locator r) ''tape_uuid'') of
           Some v \<Rightarrow> Inr (Some (family, v)) | None \<Rightarrow> Inl (MissingMediaId (cp_id r) family))
      else if family = ''d2tape'' then
        (case nonempty_str (map_of (cp_native_locator r) ''volume_uuid'') of
           Some v \<Rightarrow> Inr (Some (family, v))
         | None \<Rightarrow> (case nonempty_str (map_of (cp_native_locator r) ''barcode'') of
                      Some v \<Rightarrow> Inr (Some (family, v)) | None \<Rightarrow> Inl (MissingMediaId (cp_id r) family)))
      else if family \<in> {''disk'', ''cloud''} then Inr (Some (family, ''backend:'' @ str_nat (cp_backend_id r)))
      else Inl (UnsupportedFamily (cp_id r) family))"

section \<open>What counts\<close>

lemma copy_counts_mono: "copy_counts True r \<Longrightarrow> copy_counts v r"
  by (auto simp: copy_counts_def)

lemma bundle_placements_set:
  "r \<in> set (bundle_placements c v p b) \<longleftrightarrow>
   r \<in> set (copies c) \<and> cp_bundle_id r = Some b \<and> copy_counts v r \<and> pool_matches p r"
  by (auto simp: bundle_placements_def)

lemma dedup_on_ids: "distinct (map cp_id (dedupe_by_copy_id rs))"
  unfolding dedupe_by_copy_id_def by (rule distinct_dedup_on)

lemma dedupe_by_copy_id_set:
  assumes "\<And>r s. r \<in> set rs \<Longrightarrow> s \<in> set rs \<Longrightarrow> cp_id r = cp_id s \<Longrightarrow> r = s"
  shows "set (dedupe_by_copy_id rs) = set rs"
proof
  show "set (dedupe_by_copy_id rs) \<subseteq> set rs"
    unfolding dedupe_by_copy_id_def by (rule set_dedup_on_subset)
  show "set rs \<subseteq> set (dedupe_by_copy_id rs)"
  proof
    fix r assume r: "r \<in> set rs"
    then have "cp_id r \<in> cp_id ` set (dedupe_by_copy_id rs)"
      unfolding dedupe_by_copy_id_def by (simp add: keys_dedup_on)
    then obtain s where "s \<in> set (dedupe_by_copy_id rs)" "cp_id s = cp_id r" by auto
    with assms [of s r] r set_dedup_on_subset [of cp_id "[]" rs] show "r \<in> set (dedupe_by_copy_id rs)"
      by (auto simp: dedupe_by_copy_id_def)
  qed
qed

text \<open>
  C19: The copies that count for an asset under a class are exactly the healthy, undeleted copies (measured
  to their own digest, when verification is required) that either hold the asset itself or are reached
  through a locator of the asset whose bundle has the asset as a member of that class, or which has lost
  its bundle while the catalog still places the asset in the class; each counts once.
\<close>

theorem asset_placements_exact:
  assumes "catalog_ok c"
  shows "distinct (map cp_id (asset_placements c v (Some a) None h)) \<and>
         (r \<in> set (asset_placements c v (Some a) None h) \<longleftrightarrow>
            r \<in> set (copies c) \<and> cp_health r = HealthOk \<and> cp_deleted_at r = None \<and>
            (v \<longrightarrow> cp_last_measured_digest r = Some (cp_integrity_hash r)) \<and>
            (cp_asset_hash r = Some h \<or>
             (\<exists>l \<in> set (asset_locators c). al_copy_id l = Some (cp_id r) \<and> al_asset_hash l = h \<and>
                (case al_bundle_id l of
                   Some b \<Rightarrow> \<exists>m \<in> set (bundle_members c). bm_bundle_id m = b \<and> bm_asset_hash m = h \<and>
                                                            bm_artifactclass m = a
                 | None \<Rightarrow> asset_has_artifactclass_membership c h a))))"
proof -
  let ?A = "sort_key cp_id (filter (\<lambda>r. cp_asset_hash r = Some h \<and> copy_counts v r \<and> pool_matches None r) (copies c))"
  let ?B = "sort_key cp_id (concat (map (\<lambda>r. map (\<lambda>_. r) (filter (locator_leg c (Some a) None h r) (asset_locators c)))
                              (filter (copy_counts v) (copies c))))"
  have P: "asset_placements c v (Some a) None h = dedupe_by_copy_id (?A @ ?B)"
    by (simp add: asset_placements_def)
  have A: "r \<in> set ?A \<longleftrightarrow> r \<in> set (copies c) \<and> cp_asset_hash r = Some h \<and> copy_counts v r" for r
    by (simp add: pool_matches_def)
  have B: "r \<in> set ?B \<longleftrightarrow> r \<in> set (copies c) \<and> copy_counts v r \<and>
      (\<exists>l \<in> set (asset_locators c). locator_leg c (Some a) None h r l)" for r
    by auto
  have inj: "inj_on cp_id (set (copies c))" using assms by (simp add: catalog_ok_def distinct_map)
  have "set (dedupe_by_copy_id (?A @ ?B)) = set (?A @ ?B)"
  proof (rule dedupe_by_copy_id_set)
    fix r s assume "r \<in> set (?A @ ?B)" "s \<in> set (?A @ ?B)" "cp_id r = cp_id s"
    then have "r \<in> set (copies c)" "s \<in> set (copies c)" unfolding set_append Un_iff A B by blast+
    with inj \<open>cp_id r = cp_id s\<close> show "r = s" by (simp add: inj_on_eq_iff)
  qed
  then have mem: "r \<in> set (asset_placements c v (Some a) None h) \<longleftrightarrow> r \<in> set ?A \<or> r \<in> set ?B"
    unfolding P by simp
  have cc: "copy_counts v r \<longleftrightarrow> cp_health r = HealthOk \<and> cp_deleted_at r = None \<and>
      (v \<longrightarrow> cp_last_measured_digest r = Some (cp_integrity_hash r))"
    by (auto simp: copy_counts_def)
  have leg: "locator_leg c (Some a) None h r l \<longleftrightarrow> al_copy_id l = Some (cp_id r) \<and> al_asset_hash l = h \<and>
      (case al_bundle_id l of
         Some b \<Rightarrow> \<exists>m \<in> set (bundle_members c). bm_bundle_id m = b \<and> bm_asset_hash m = h \<and> bm_artifactclass m = a
       | None \<Rightarrow> asset_has_artifactclass_membership c h a)" for l
    by (simp add: locator_leg_def locator_artifactclass_filter_def list_ex_iff split: option.split)
  have "distinct (map cp_id (asset_placements c v (Some a) None h))" unfolding P by (rule dedup_on_ids)
  then show ?thesis unfolding mem A B leg cc by blast
qed

section \<open>The grouped counts\<close>

lemma foldl_groups:
  assumes "distinct (map fst gs)"
  shows "dict_get (dict_get (foldl (\<lambda>counts ((b, be, p), n).
            dict_set b (dict_set (be, p) n (dict_get counts b [])) counts) d gs) b []) (be, p) 0 =
         (case map_of gs (b, be, p) of Some n \<Rightarrow> n | None \<Rightarrow> dict_get (dict_get d b []) (be, p) (0 :: nat))"
  using assms
proof (induction gs arbitrary: d)
  case (Cons g gs)
  obtain b' be' p' n where g: "g = ((b', be', p'), n)" by (metis prod_cases3 surj_pair)
  let ?d = "dict_set b' (dict_set (be', p') n (dict_get d b' [])) d"
  have "map_of gs (b', be', p') = None" using Cons.prems g by (force simp: map_of_eq_None_iff)
  with Cons.IH [of ?d] Cons.prems g show ?case
    by (auto simp: dict_get_def split: option.splits)
qed simp

lemma map_of_counted: "map_of (map (\<lambda>k. (k, f k)) ks) k = (if k \<in> set ks then Some (f k) else None)"
  by (induction ks) auto

lemma empty_counts: "dict_get (foldl (\<lambda>d b. dict_set b [] d) d bs) b [] = (if b \<in> set bs then [] else dict_get d b [])"
  by (induction bs arbitrary: d) (auto simp: dict_get_def)

lemma bundle_counts_grouped:
  assumes "b \<in> set bundle_ids"
  shows "dict_get (dict_get (bundle_copy_counts_by_pool c v bundle_ids) b []) (be, p) 0 =
         length (filter (\<lambda>r. cp_backend_id r = be \<and> cp_pool_id r = Some p) (bundle_placements c v None b))"
proof -
  let ?rows = "filter (\<lambda>r. (case cp_bundle_id r of None \<Rightarrow> False | Some b \<Rightarrow> b \<in> set bundle_ids) \<and>
                           copy_counts v r \<and> cp_pool_id r \<noteq> None) (copies c)"
  let ?key = "\<lambda>r. (the (cp_bundle_id r), cp_backend_id r, the (cp_pool_id r))"
  have ne: "bundle_ids \<noteq> []" using assms by auto
  have groups: "bundle_copy_groups c v bundle_ids =
      map (\<lambda>k. (k, length (filter (\<lambda>r. ?key r = k) ?rows))) (remdups (map ?key ?rows))"
    by (simp add: bundle_copy_groups_def Let_def)
  have dist: "distinct (map fst (bundle_copy_groups c v bundle_ids))" by (simp add: groups comp_def)
  have "dict_get (dict_get (bundle_copy_counts_by_pool c v bundle_ids) b []) (be, p) 0 =
      length (filter (\<lambda>r. ?key r = (b, be, p)) ?rows)"
    unfolding bundle_copy_counts_by_pool_def if_not_P [OF ne] foldl_groups [OF dist] empty_counts
    unfolding groups map_of_counted by (auto simp: dict_get_def filter_empty_conv)
  also have "filter (\<lambda>r. ?key r = (b, be, p)) ?rows =
      filter (\<lambda>r. cp_backend_id r = be \<and> cp_pool_id r = Some p)
        (filter (\<lambda>r. cp_bundle_id r = Some b \<and> copy_counts v r \<and> pool_matches None r) (copies c))"
    unfolding filter_filter
    by (rule filter_cong [OF refl]) (use assms in \<open>auto simp: pool_matches_def split: option.splits\<close>)
  finally show ?thesis by (simp add: bundle_placements_def filter_sort)
qed

text \<open>
  C20: The grouped query that batch observers use agrees with the per-bundle durability view: for every
  requested bundle, backend and pool it gives the number of copies \<open>durable_placements\<close> lists for that
  bundle in that pool, and zero where it lists none.
\<close>

theorem bundle_counts_match_placements:
  assumes "b \<in> set bundle_ids"
  shows "dict_get (dict_get (bundle_copy_counts_by_pool c v bundle_ids) b []) (be, p) 0 =
         length (filter (\<lambda>r. cp_backend_id r = be \<and> cp_pool_id r = Some p) (bundle_placements c v None b))"
  using assms by (rule bundle_counts_grouped)

section \<open>Wanted and missing\<close>

lemma target_loop_pools:
  "target_loop c a av ke seen ms = Inr ts \<Longrightarrow>
   map pt_pool_id ts = map ap_pool_id ms \<and>
   (\<forall>t \<in> set ts. \<exists>pool. get_pool c (pt_pool_id t) = Some pool \<and> pt_backend_id t = po_backend_id pool)"
proof (induction ms arbitrary: seen ts)
  case (Cons m ms)
  then obtain pool t ts' where pool: "get_pool c (ap_pool_id m) = Some pool"
    and t: "pool_target_entry c pool av a ke (ap_sort_order m) = Inr t"
    and rest: "target_loop c a av ke (po_id pool # seen) ms = Inr ts'" and ts: "ts = t # ts'"
    by (auto simp: res_bind_Inr_iff split: option.splits if_splits)
  have "pt_pool_id t = ap_pool_id m" "pt_backend_id t = po_backend_id pool"
    using t get_pool_Some [OF pool] by (auto simp: pool_target_entry_def split: if_splits)
  with Cons.IH [OF rest] ts pool show ?case by auto
qed simp

text \<open>A pool is realized when a counting copy sits in it on the pool's own backend.\<close>

definition realized :: "catalog_db \<Rightarrow> copy_row list \<Rightarrow> string \<Rightarrow> bool" where
  "realized c rs p \<longleftrightarrow>
     (\<exists>pool. get_pool c p = Some pool \<and>
        (\<exists>r \<in> set rs. cp_backend_id r = po_backend_id pool \<and> cp_pool_id r = Some p))"

lemma policy_targets_pools:
  assumes "policy_targets c a = Inr ts"
  shows "pt_pool_id ` set ts = {ap_pool_id m | m. m \<in> set (class_pools c) \<and> ap_artifactclass m = a \<and> ap_active m}"
    and "\<And>t. t \<in> set ts \<Longrightarrow> \<exists>pool. get_pool c (pt_pool_id t) = Some pool \<and> pt_backend_id t = po_backend_id pool"
    and "ts \<noteq> []"
proof -
  obtain av where "target_pools c a av None False = Inr ts"
    using assms by (simp add: policy_targets_def)
  then have ms: "memberships c a False \<noteq> []" and loop: "target_loop c a av None [] (memberships c a False) = Inr ts"
    by (auto simp: target_pools_def Let_def split: if_splits)
  have "map pt_pool_id ts = map ap_pool_id (memberships c a False)" using target_loop_pools [OF loop] by blast
  from arg_cong [where f = set, OF this] arg_cong [where f = length, OF this] ms
  show "pt_pool_id ` set ts = {ap_pool_id m | m. m \<in> set (class_pools c) \<and> ap_artifactclass m = a \<and> ap_active m}"
    "ts \<noteq> []" by (auto simp: memberships_def)
  show "\<And>t. t \<in> set ts \<Longrightarrow> \<exists>pool. get_pool c (pt_pool_id t) = Some pool \<and> pt_backend_id t = po_backend_id pool"
    using target_loop_pools [OF loop] by blast
qed

lemma count_positive_realized:
  assumes "get_pool c (pt_pool_id t) = Some pool" "pt_backend_id t = po_backend_id pool"
  shows "0 < count_by_pool rs (pt_backend_id t) (pt_pool_id t) \<longleftrightarrow> realized c rs (pt_pool_id t)"
  using assms by (auto simp: count_by_pool_def realized_def filter_empty_conv)

lemma status_of_complete:
  "ps_complete (status_of ts counts) \<longleftrightarrow> (\<forall>t \<in> set ts. 0 < counts (pt_backend_id t) (pt_pool_id t))"
  by (auto simp: status_of_def placement_entry_of_def Let_def filter_empty_conv)

lemma status_of_partition:
  "ps_have (status_of ts counts) \<union> ps_missing (status_of ts counts) = ps_want (status_of ts counts) \<and>
   ps_have (status_of ts counts) \<inter> ps_missing (status_of ts counts) = {} \<and>
   (ps_complete (status_of ts counts) \<longleftrightarrow> ps_missing (status_of ts counts) = {})"
  by (auto simp: status_of_def Let_def filter_empty_conv)

text \<open>
  C21: The placement status of an asset is complete exactly when every pool that is an active member of the
  class holds a counting copy of the asset on the pool's own backend; a class without active pools is
  refused, never reported complete; realized and missing pools split the wanted ones.
\<close>

theorem asset_status_complete_iff:
  assumes "asset_placement_status c v a h = Inr st"
  shows "(ps_complete st \<longleftrightarrow>
            (\<forall>m \<in> set (class_pools c). ap_artifactclass m = a \<and> ap_active m \<longrightarrow>
               realized c (asset_placements c v (Some a) None h) (ap_pool_id m))) \<and>
         (\<exists>m \<in> set (class_pools c). ap_artifactclass m = a \<and> ap_active m) \<and>
         ps_have st \<union> ps_missing st = ps_want st \<and> ps_have st \<inter> ps_missing st = {}"
proof -
  let ?rs = "asset_placements c v (Some a) None h"
  from assms obtain ts where ts: "policy_targets c a = Inr ts" and st: "st = status_of ts (count_by_pool ?rs)"
    by (auto simp: asset_placement_status_def res_bind_Inr_iff)
  note pools = policy_targets_pools [OF ts]
  have "ps_complete st \<longleftrightarrow> (\<forall>p \<in> pt_pool_id ` set ts. realized c ?rs p)"
    unfolding st status_of_complete using pools(2) count_positive_realized by blast
  moreover have "\<exists>m \<in> set (class_pools c). ap_artifactclass m = a \<and> ap_active m"
  proof -
    from pools(3) obtain t where "t \<in> set ts" by (cases ts) auto
    then have "pt_pool_id t \<in> pt_pool_id ` set ts" by simp
    then show ?thesis unfolding pools(1) by blast
  qed
  ultimately show ?thesis
    using status_of_partition [of ts "count_by_pool ?rs"] unfolding pools(1) st by blast
qed

lemma policy_target_keys:
  assumes "policy_targets c a = Inr us"
  shows "(\<lambda>t. (pt_backend_id t, pt_pool_id t)) ` set us =
    {(po_backend_id pool, ap_pool_id m) | m pool. m \<in> set (class_pools c) \<and>
        ap_artifactclass m = a \<and> ap_active m \<and> get_pool c (ap_pool_id m) = Some pool}" (is "?K = ?P")
proof
  note pools = policy_targets_pools [OF assms]
  show "?K \<subseteq> ?P"
  proof
    fix x assume "x \<in> ?K"
    then obtain t where t: "t \<in> set us" "x = (pt_backend_id t, pt_pool_id t)" by auto
    from t(1) have "pt_pool_id t \<in> pt_pool_id ` set us" by simp
    with pools(1) obtain m where m: "pt_pool_id t = ap_pool_id m" "m \<in> set (class_pools c)"
      "ap_artifactclass m = a" "ap_active m" by auto
    from pools(2) [OF t(1)] m t(2) show "x \<in> ?P" by auto
  qed
  show "?P \<subseteq> ?K"
  proof
    fix x assume "x \<in> ?P"
    then obtain m pool where x: "x = (po_backend_id pool, ap_pool_id m)" "get_pool c (ap_pool_id m) = Some pool"
      and m: "m \<in> set (class_pools c)" "ap_artifactclass m = a" "ap_active m" by auto
    from m have "ap_pool_id m \<in> pt_pool_id ` set us" unfolding pools(1) by blast
    then obtain t where t: "t \<in> set us" "pt_pool_id t = ap_pool_id m" by auto
    from pools(2) [OF t(1)] t x have "x = (pt_backend_id t, pt_pool_id t)" by auto
    with t(1) show "x \<in> ?K" by blast
  qed
qed

text \<open>The targets of a bundle: the pools of its members' classes, first occurrence of each.\<close>

definition class_pool_keys :: "catalog_db \<Rightarrow> string \<Rightarrow> (nat \<times> string) set" where
  "class_pool_keys c a = {(po_backend_id pool, ap_pool_id m) | m pool. m \<in> set (class_pools c) \<and>
     ap_artifactclass m = a \<and> ap_active m \<and> get_pool c (ap_pool_id m) = Some pool}"

lemma bundle_targets_loop_pools:
  "bundle_targets_loop c seen as = Inr ts \<Longrightarrow>
   (\<lambda>t. (pt_backend_id t, pt_pool_id t)) ` set ts = (\<Union>a \<in> set as. class_pool_keys c a) - set seen"
proof (induction as arbitrary: seen ts)
  case (Cons a as)
  let ?k = "\<lambda>t. (pt_backend_id t, pt_pool_id t)"
  from Cons.prems obtain us rest where us: "policy_targets c a = Inr us"
    and rest: "bundle_targets_loop c (map ?k (dedup_on ?k seen us) @ seen) as = Inr rest"
    and ts: "ts = dedup_on ?k seen us @ rest"
    by (auto simp: res_bind_Inr_iff Let_def)
  have "?k ` set us = class_pool_keys c a"
    unfolding class_pool_keys_def by (rule policy_target_keys [OF us])
  then have new: "?k ` set (dedup_on ?k seen us) = class_pool_keys c a - set seen"
    using keys_dedup_on [of ?k seen us] by simp
  have "?k ` set rest = (\<Union>a \<in> set as. class_pool_keys c a) - (?k ` set (dedup_on ?k seen us) \<union> set seen)"
    using Cons.IH [OF rest] by simp
  then show ?case unfolding ts set_append image_Un new by auto
qed simp

text \<open>
  The placement status of a bundle is complete exactly when, for every class among its members (or,
  while it has none, every class whose policy derives its group), each active pool of the class holds a
  counting copy of the bundle on the pool's own backend.
\<close>

theorem bundle_status_complete_iff:
  assumes "bundle_placement_status c v b = Inr st"
  shows "\<exists>row. get_bundle c b = Some row \<and>
           (ps_complete st \<longleftrightarrow>
              (\<forall>a \<in> set (bundle_artifactclasses c row). \<forall>m \<in> set (class_pools c).
                 ap_artifactclass m = a \<and> ap_active m \<and> get_pool c (ap_pool_id m) \<noteq> None \<longrightarrow>
                 realized c (bundle_placements c v None b) (ap_pool_id m))) \<and>
           ps_have st \<union> ps_missing st = ps_want st \<and> ps_have st \<inter> ps_missing st = {}"
proof -
  let ?rs = "bundle_placements c v None b"
  let ?n = "\<lambda>be p. dict_get (dict_get (bundle_copy_counts_by_pool c v [b]) b []) (be, p) 0"
  from assms obtain row ts where row: "get_bundle c b = Some row"
    and ts: "bundle_targets_loop c [] (bundle_artifactclasses c row) = Inr ts" and st: "st = status_of ts ?n"
    by (auto simp: bundle_placement_status_def bundle_policy_targets_def res_bind_Inr_iff Let_def
        split: option.splits)
  have n: "?n be p = count_by_pool ?rs be p" for be p
    using bundle_counts_grouped [of b "[b]" c v be p] by (simp add: count_by_pool_def)
  have "ps_complete st \<longleftrightarrow> (\<forall>k \<in> (\<lambda>t. (pt_backend_id t, pt_pool_id t)) ` set ts. 0 < count_by_pool ?rs (fst k) (snd k))"
    unfolding st status_of_complete n by auto
  also have "\<dots> \<longleftrightarrow> (\<forall>a \<in> set (bundle_artifactclasses c row). \<forall>m \<in> set (class_pools c).
                 ap_artifactclass m = a \<and> ap_active m \<and> get_pool c (ap_pool_id m) \<noteq> None \<longrightarrow>
                 realized c ?rs (ap_pool_id m))"
    unfolding bundle_targets_loop_pools [OF ts] class_pool_keys_def realized_def count_by_pool_def
      length_greater_0_conv filter_empty_conv by fastforce
  finally show ?thesis using row status_of_partition [of ts ?n] unfolding st by blast
qed

section \<open>Witnesses\<close>

definition example_copy :: "nat \<Rightarrow> bytes option \<Rightarrow> string option \<Rightarrow> string \<Rightarrow> copy_row" where
  "example_copy i asset bundle pool =
     \<lparr>cp_id = i, cp_asset_hash = asset, cp_bundle_id = bundle, cp_backend_id = 1, cp_pool_id = Some pool,
      cp_native_locator = [(''tape_uuid'', JStr ''T1'')], cp_storage_metadata = [], cp_source = ''ingest'',
      cp_integrity_hash = ''d'', cp_hash_provenance = ''locally_computed'', cp_health = HealthOk,
      cp_health_changed_at = 0, cp_last_checked_at = None,
      cp_last_measured_digest = Some ''d'', cp_last_measured_at = Some 0, cp_deleted_at = None\<rparr>"

definition example_pool :: "string \<Rightarrow> pool_row" where
  "example_pool p =
     \<lparr>po_id = p, po_backend_id = 1, po_representation = ''raw-bytes'', po_location = ''site'',
      po_offsite_gate = False, po_tier = ''t'', po_accepts_writes = True, po_retired = False,
      po_media_generation = None, po_min_object_bytes = None\<rparr>"

definition example_catalog :: catalog_db where
  "example_catalog =
     \<lparr>backends = [\<lparr>be_id = 1, be_name = ''lib'', be_kind = ''memory'', be_family = ''tape''\<rparr>],
      pools = [example_pool ''A'', example_pool ''B''],
      class_pools = [\<lparr>ap_id = 1, ap_artifactclass = ''vid'', ap_pool_id = ''A'', ap_active = True, ap_sort_order = 0\<rparr>,
                     \<lparr>ap_id = 2, ap_artifactclass = ''vid'', ap_pool_id = ''B'', ap_active = True, ap_sort_order = 1\<rparr>],
      policies = [\<lparr>pr_artifactclass = ''vid'', pr_bundle_group = Some ''g'', pr_target_bytes = 10,
                   pr_max_age_seconds = 60, pr_min_copies = 2, pr_min_impl_families = 1, pr_ruleset = [], pr_hdcache_config = []\<rparr>],
      copies = [example_copy 1 (Some ''h'') None ''A'', example_copy 2 None (Some ''b1'') ''A'',
                example_copy 3 None (Some ''b1'') ''B''],
      asset_locators = [\<lparr>al_asset_hash = ''h'', al_pool_id = ''B'', al_copy_id = Some 3,
                         al_bundle_id = Some ''b1'', al_member_path = ''x'', al_native_locator = [], al_representation = ''raw-bytes''\<rparr>],
      bundles = [\<lparr>bu_id = ''b1'', bu_group = ''g'', bu_group_basis = [], bu_status = ''sealed'',
                  bu_total_bytes = 5, bu_member_count = 1, bu_target_bytes = 10, bu_max_age_seconds = 60,
                  bu_archive_id = Some ''archive-b1'', bu_scan_summary = None, bu_review_summary = None,
                  bu_customer_manifest_path = None, bu_claimed_by = None, bu_opened_at = 0, bu_flushed_at = None, bu_sealed_at = None,
                  bu_held_at = None\<rparr>],
      bundle_members = [\<lparr>bm_id = 1, bm_bundle_id = ''b1'', bm_asset_hash = ''h'', bm_artifactclass = ''vid'',
                         bm_member_path = ''x'', bm_source_path = None, bm_size_bytes = 5, bm_file_sha256 = ''h'',
                         bm_source_metadata = None, bm_added_at = 0\<rparr>],
      logical_assets = [''h''], staging_transforms = [], blob_roots = [], exclusion_records = [], review_decisions = [],
      intakes = [\<lparr>in_id = ''i1'', in_manifest_path = Some ''/land/i1/manifest.csv'', in_manifest_digest = None,
                  in_requested_profile = None, in_status = REGISTERED, in_retention_state = HELD, in_released_at = None,
                  in_release_fingerprint = None, in_tombstoned_at = None, in_tombstone_path = None,
                  in_staging_deleted_at = None\<rparr>],
      ingest_items = [\<lparr>it_id = 1, it_intake_id = ''i1'', it_asset_hash = ''h'', it_artifactclass = ''vid'',
                       it_as_received_path = ''x'', it_metadata = []\<rparr>],
      virtual_members = [], submission_members = [\<lparr>sm_id = 1, sm_submission_id = ''s1'', sm_ingest_item_id = Some 1,
        sm_archive_path = ''x'', sm_sha256 = ''h'', sm_size_bytes = 5\<rparr>],
      arrangements = [], offsite_confirmations = [], retention_events = [], verify_receipts = [],
      journal_checkpoints = None\<rparr>"

lemmas example_catalog_defs =
  example_catalog_def example_copy_def example_pool_def

lemma example_catalog_ok: "catalog_ok example_catalog"
  by (simp add: catalog_ok_def example_catalog_defs get_pool_def get_backend_def)

theorem asset_placements_exact_witness:
  "distinct (map cp_id (asset_placements example_catalog True (Some ''vid'') None ''h'')) \<and>
   example_copy 3 None (Some ''b1'') ''B'' \<in> set (asset_placements example_catalog True (Some ''vid'') None ''h'')"
  using asset_placements_exact [OF example_catalog_ok, of True "''vid''" "''h''" "example_copy 3 None (Some ''b1'') ''B''"]
  by (simp add: example_catalog_defs)

theorem bundle_counts_match_placements_witness:
  "dict_get (dict_get (bundle_copy_counts_by_pool example_catalog True [''b1'', ''b2'']) ''b1'' []) (1, ''B'') 0 = 1"
  using bundle_counts_match_placements [of "''b1''" "[''b1'', ''b2'']" example_catalog True 1 "''B''"]
  by (simp add: example_catalog_defs bundle_placements_def copy_counts_def pool_matches_def)

lemma example_memberships:
  "map ap_pool_id (memberships example_catalog ''vid'' False) = [''A'', ''B'']"
  by (simp add: memberships_def example_catalog_defs)

lemma example_get_pool: "p \<in> {''A'', ''B''} \<Longrightarrow> get_pool example_catalog p = Some (example_pool p)"
  by (auto simp: get_pool_def example_catalog_defs)

lemma example_targets:
  "\<exists>ts. policy_targets example_catalog ''vid'' = Inr ts"
proof -
  have av: "\<exists>t. pool_target_entry example_catalog (example_pool p) [1] ''vid'' None n = Inr t" for p n
    by (simp add: pool_target_entry_def example_pool_def REPRESENTATIONS_def)
  have "\<exists>ts. target_loop example_catalog ''vid'' [1] None seen ms = Inr ts"
    if "set (map ap_pool_id ms) \<subseteq> {''A'', ''B''}" "distinct (map ap_pool_id ms @ seen)" for ms seen
    using that
  proof (induction ms arbitrary: seen)
    case (Cons m ms)
    from Cons.IH [of "ap_pool_id m # seen"] Cons.prems obtain ts where
      "target_loop example_catalog ''vid'' [1] None (ap_pool_id m # seen) ms = Inr ts" by auto
    moreover obtain t where
      "pool_target_entry example_catalog (example_pool (ap_pool_id m)) [1] ''vid'' None (ap_sort_order m) = Inr t"
      using av by blast
    moreover have "po_id (example_pool (ap_pool_id m)) = ap_pool_id m" by (simp add: example_pool_def)
    ultimately show ?case using Cons.prems by (simp add: example_get_pool res_bind_def)
  qed simp
  from this [of "memberships example_catalog ''vid'' False" "[]"]
  have "\<exists>ts. target_loop example_catalog ''vid'' [1] None [] (memberships example_catalog ''vid'' False) = Inr ts"
    unfolding example_memberships by simp
  moreover have "memberships example_catalog ''vid'' False \<noteq> []" using example_memberships by fastforce
  moreover have "policy_targets example_catalog ''vid'' = target_pools example_catalog ''vid'' [1] None False"
    by (simp add: policy_targets_def example_catalog_defs)
  ultimately show ?thesis by (simp add: target_pools_def)
qed

theorem asset_status_complete_iff_witness:
  "\<exists>st. asset_placement_status example_catalog True ''vid'' ''h'' = Inr st \<and> ps_complete st"
proof -
  obtain st where st: "asset_placement_status example_catalog True ''vid'' ''h'' = Inr st"
    using example_targets by (auto simp: asset_placement_status_def res_bind_def)
  have "realized example_catalog (asset_placements example_catalog True (Some ''vid'') None ''h'') (ap_pool_id m)"
    if "m \<in> set (class_pools example_catalog)" for m
    using that
    by (auto simp: example_catalog_defs realized_def get_pool_def asset_placements_def copy_counts_def
        pool_matches_def locator_leg_def locator_artifactclass_filter_def dedupe_by_copy_id_def)
  with asset_status_complete_iff [OF st] st show ?thesis by blast
qed

theorem bundle_status_complete_iff_witness:
  "\<exists>st. bundle_placement_status example_catalog True ''b1'' = Inr st \<and> ps_complete st"
proof -
  have cl: "get_bundle example_catalog ''b1'' = Some (hd (bundles example_catalog))"
    "bundle_artifactclasses example_catalog (hd (bundles example_catalog)) = [''vid'']"
    by (simp_all add: get_bundle_def bundle_artifactclasses_def example_catalog_defs Let_def)
  obtain st where st: "bundle_placement_status example_catalog True ''b1'' = Inr st"
    using example_targets
    by (auto simp: bundle_placement_status_def bundle_policy_targets_def cl res_bind_def Let_def)
  have "realized example_catalog (bundle_placements example_catalog True None ''b1'') (ap_pool_id m)"
    if "m \<in> set (class_pools example_catalog)" for m
    using that
    by (auto simp: example_catalog_defs realized_def get_pool_def bundle_placements_def copy_counts_def
        pool_matches_def)
  with bundle_status_complete_iff [OF st] st show ?thesis by blast
qed

end
