(* ===== verification/Py_Hex.thy ===== *)
theory Py_Hex
  imports Py_Text
begin

text \<open>
  \<open>bytes.hex\<close> and \<open>bytes.fromhex\<close> of the Python library; a byte string is a \<open>string\<close>.
\<close>

section \<open>Model\<close>

definition hex_of :: "string \<Rightarrow> string" where
  "hex_of b = concat (map (\<lambda>c. hex_byte (of_char c)) b)"

definition hex_val :: "char \<Rightarrow> nat option" where
  "hex_val c =
     (let k = of_char c :: nat in
      if 48 \<le> k \<and> k \<le> 57 then Some (k - 48)
      else if 97 \<le> k \<and> k \<le> 102 then Some (k - 87)
      else if 65 \<le> k \<and> k \<le> 70 then Some (k - 55) else None)"

text \<open>\<open>bytes.fromhex\<close>: pairs of hexadecimal digits, ASCII white space allowed between them.\<close>

definition is_ascii_space :: "char \<Rightarrow> bool" where
  "is_ascii_space c = (let k = of_char c :: nat in k = 32 \<or> (9 \<le> k \<and> k \<le> 13))"

fun fromhex :: "string \<Rightarrow> string option" where
  "fromhex [] = Some []"
| "fromhex [c] = (if is_ascii_space c then Some [] else None)"
| "fromhex (c # d # cs) =
     (if is_ascii_space c then fromhex (d # cs)
      else (case (hex_val c, hex_val d) of
              (Some x, Some y) \<Rightarrow> map_option (\<lambda>bs. char_of (16 * x + y) # bs) (fromhex cs)
            | _ \<Rightarrow> None))"

section \<open>Round trip\<close>

lemma of_char_less: "(of_char c :: nat) < 256"
  by (metis mod_less_divisor of_char_mod_256 zero_less_numeral)

lemma of_char_div: "(of_char c :: nat) div 16 < 16"
  using of_char_less [of c] by (simp add: div_less_iff_less_mult)

lemma hex_val_digit: "d < 16 \<Longrightarrow> hex_val (digit_char d) = Some d"
proof -
  assume d: "d < 16"
  then have "(of_char (digit_char d) :: nat) = (if d < 10 then 48 + d else 87 + d)"
    by (simp add: digit_char_def)
  with d show ?thesis by (simp add: hex_val_def)
qed

lemma digit_char_plain: "d < 16 \<Longrightarrow> \<not> is_ascii_space (digit_char d) \<and> digit_char d \<noteq> CHR '':''"
proof -
  assume "d < 16"
  then have "hex_val (digit_char d) \<noteq> None" by (simp add: hex_val_digit)
  then show ?thesis by (auto simp: hex_val_def is_ascii_space_def Let_def split: if_splits)
qed

lemma hex_of_Cons: "hex_of (c # b) = digit_char (of_char c div 16) # digit_char (of_char c mod 16) # hex_of b"
  by (simp add: hex_of_def hex_byte_def)

lemma fromhex_hex_of: "fromhex (hex_of b) = Some b"
proof (induction b)
  case Nil
  then show ?case by (simp add: hex_of_def)
next
  case (Cons c b)
  have "(of_char c :: nat) div 16 < 16" by (rule of_char_div)
  moreover have "(of_char c :: nat) mod 16 < 16" by simp
  ultimately have "fromhex (hex_of (c # b)) =
      map_option (\<lambda>bs. char_of (16 * ((of_char c :: nat) div 16) + of_char c mod 16) # bs) (fromhex (hex_of b))"
    unfolding hex_of_Cons by (simp add: hex_val_digit digit_char_plain)
  then show ?case using Cons.IH by simp
qed

lemma hex_of_no_colon: "CHR '':'' \<notin> set (hex_of b)"
proof (induction b)
  case (Cons c b)
  have "(of_char c :: nat) div 16 < 16" by (rule of_char_div)
  with digit_char_plain [of "of_char c div 16"] digit_char_plain [of "of_char c mod 16"] Cons show ?case
    unfolding hex_of_Cons by auto
qed (simp add: hex_of_def)

lemma length_hex_of: "length (hex_of b) = 2 * length b"
  by (induction b) (simp_all add: hex_of_Cons, simp add: hex_of_def)

end
