(* ===== verification/Copy_Reconciler.thy ===== *)
theory Copy_Reconciler
  imports Reconcile_Spine Durability Py_Hex
begin

text \<open>
  The copy reconciler (\<^verbatim>\<open>src/sutradhara/jobs/reconcilers/copy.py\<close>): target keys, observation of wanted and
  present asset/pool placements, and the job it enqueues; it is an instance of \<open>reconciler_hooks\<close>.
\<close>

section \<open>Model\<close>

subsection \<open>Target keys\<close>

definition TARGET_PREFIX :: string where "TARGET_PREFIX = ''asset''"
definition COPY_DOMAIN :: string where "COPY_DOMAIN = ''copy''"

definition make_target_key :: "bytes \<Rightarrow> string \<Rightarrow> string" where
  "make_target_key asset_hash pool_id = TARGET_PREFIX @ '':'' @ hex_of asset_hash @ '':'' @ pool_id"

datatype key_error = BadPrefix | BadShape | BadHex | EmptyPool

definition parse_target_key :: "string \<Rightarrow> key_error + (string \<times> string)" where
  "parse_target_key target_key =
     (case partition_at (CHR '':'') target_key of
        (pre, sep, rest) \<Rightarrow>
          if pre \<noteq> TARGET_PREFIX \<or> \<not> sep then Inl BadPrefix
          else (case partition_at (CHR '':'') rest of
                  (sha_hex, sep2, pool_id) \<Rightarrow>
                    if \<not> sep2 \<or> length sha_hex \<noteq> 64 then Inl BadShape
                    else if fromhex sha_hex = None then Inl BadHex
                    else if pool_id = [] then Inl EmptyPool
                    else Inr (sha_hex, pool_id)))"

subsection \<open>Observation\<close>

definition live_classes_for_asset :: "catalog_db \<Rightarrow> bytes \<Rightarrow> string list" where
  "live_classes_for_asset c h =
     remdups [it_artifactclass i. i \<leftarrow> ingest_items c, it_asset_hash i = h \<and>
                list_ex (\<lambda>n. in_id n = it_intake_id i \<and> in_status n = REGISTERED) (intakes c)]"

text \<open>The empty list stands for \<open>ReplicationPolicyMissing\<close>, which both callers skip.\<close>

definition active_pool_ids_for_class :: "catalog_db \<Rightarrow> string \<Rightarrow> string list" where
  "active_pool_ids_for_class c a =
     remdups [ap_pool_id m. m \<leftarrow> class_pools c,
                ap_artifactclass m = a \<and> ap_active m \<and> accepting_pool c (ap_pool_id m)]"

definition desired_pool_ids_for_asset :: "catalog_db \<Rightarrow> bytes \<Rightarrow> string list" where
  "desired_pool_ids_for_asset c h =
     concat (map (active_pool_ids_for_class c) (live_classes_for_asset c h))"

text \<open>A JSON \<open>true\<close> is an \<open>int\<close> for Python.\<close>

definition pending_verification_copy_ids :: "job list \<Rightarrow> int list" where
  "pending_verification_copy_ids js =
     concat (map (\<lambda>j. case map_of (j_params j) ''copy_id'' of
                        Some (JInt i) \<Rightarrow> [i] | Some (JBool b) \<Rightarrow> [if b then 1 else 0] | _ \<Rightarrow> [])
               (filter (\<lambda>j. j_kind j = ''verify'' \<and> is_live j) js))"

definition observed_pool_ids :: "catalog_db engine_db \<Rightarrow> bytes \<Rightarrow> string list" where
  "observed_pool_ids db h =
     (let c = catalog db; measured = direct_copies c True h;
          pending = filter (\<lambda>r. int (cp_id r) \<in> set (pending_verification_copy_ids (jobs db)))
                      (direct_copies c False h)
      in [p. Some p \<leftarrow> map cp_pool_id (measured @ pending)])"

definition observed_state_of :: "catalog_db engine_db \<Rightarrow> bytes \<Rightarrow> string \<Rightarrow> string" where
  "observed_state_of db h pool_id =
     (if pool_id \<in> set (observed_pool_ids db h) then OBSERVED_PRESENT else OBSERVED_MISSING)"

definition copy_observe :: "catalog_db engine_db \<Rightarrow> string \<Rightarrow> engine_error + (catalog_db engine_db \<times> observation)" where
  "copy_observe db target_key =
     (case parse_target_key target_key of
        Inl e \<Rightarrow> Inl (HandlerRaised ''bad copy target key'')
      | Inr (sha_hex, pool_id) \<Rightarrow>
          let h = the (fromhex sha_hex) in
          Inr (db, \<lparr>ob_target_key = target_key,
                    ob_desired = (pool_id \<in> set (desired_pool_ids_for_asset (catalog db) h)),
                    ob_observed_state = observed_state_of db h pool_id\<rparr>))"

definition live_ingest_rows :: "catalog_db \<Rightarrow> nat option \<Rightarrow> nat \<Rightarrow> ingest_item list" where
  "live_ingest_rows c cursor batch =
     take batch (sort_key it_id
       (filter (\<lambda>i. list_ex (\<lambda>n. in_id n = it_intake_id i \<and> in_status n = REGISTERED) (intakes c) \<and>
                    (case cursor of None \<Rightarrow> True | Some k \<Rightarrow> it_id i > k)) (ingest_items c)))"

definition copy_enumerate_targets :: "catalog_db engine_db \<Rightarrow> nat option \<Rightarrow> nat \<Rightarrow> observation list" where
  "copy_enumerate_targets db cursor batch =
     (let c = catalog db;
          rows = live_ingest_rows c cursor batch;
          assets = dedup_on id [] (map it_asset_hash rows);
          classes = (\<lambda>h. remdups [it_artifactclass i. i \<leftarrow> rows, it_asset_hash i = h]);
          wanted = (\<lambda>h. sort (remdups (concat (map (active_pool_ids_for_class c) (classes h)))))
      in dedup_on ob_target_key []
           (concat (map (\<lambda>h. map (\<lambda>p. \<lparr>ob_target_key = make_target_key h p, ob_desired = True,
                                       ob_observed_state = observed_state_of db h p\<rparr>) (wanted h)) assets)))"

subsection \<open>Enqueueing\<close>

definition copy_dedupe_key :: "string \<Rightarrow> string" where
  "copy_dedupe_key target_key = COPY_DOMAIN @ '':'' @ target_key"

definition copy_submission :: "string \<Rightarrow> string \<Rightarrow> string \<Rightarrow> string \<Rightarrow> submission" where
  "copy_submission target_key sha_hex backend_name pool_id =
     \<lparr>s_kind = ''copy'',
      s_params = [(''asset_hash'', JStr sha_hex), (''target_backend'', JStr backend_name),
                  (''pool_id'', JStr pool_id)],
      s_required_resources = [], s_prerequisites = [], s_not_before = None, s_priority = 0,
      s_dedupe_key = Some (copy_dedupe_key target_key), s_recon_domain = Some COPY_DOMAIN,
      s_recon_target_key = Some target_key\<rparr>"

definition copy_reconcile_target ::
  "time \<Rightarrow> string \<Rightarrow> catalog_db engine_db \<Rightarrow> engine_error + catalog_db engine_db" where
  "copy_reconcile_target now target_key db =
     (case parse_target_key target_key of
        Inl e \<Rightarrow> Inl (HandlerRaised ''bad copy target key'')
      | Inr (sha_hex, pool_id) \<Rightarrow>
          (case get_pool (catalog db) pool_id of
             None \<Rightarrow> Inl (HandlerRaised ''no such pool'')
           | Some pool \<Rightarrow>
               let name = (case get_backend (catalog db) (po_backend_id pool) of
                             None \<Rightarrow> [] | Some b \<Rightarrow> be_name b)
               in (case submit now (copy_submission target_key sha_hex name pool_id) (jobs db) (jobs db) of
                     Inl e \<Rightarrow> Inl e
                   | Inr (js, _) \<Rightarrow> Inr (db\<lparr>jobs := js\<rparr>))))"

definition copy_reconciler :: "catalog_db reconciler" where
  "copy_reconciler =
     \<lparr>rc_enumerate_targets = copy_enumerate_targets, rc_observe = copy_observe,
      rc_reconcile_target = copy_reconcile_target, rc_classify_condition = None\<rparr>"

interpretation copy_hooks: reconciler_hooks copy_reconciler COPY_DOMAIN copy_dedupe_key
proof unfold_locales
  fix db db' :: "catalog_db engine_db" and key ob
  assume "rc_observe copy_reconciler db key = Inr (db', ob)"
  then show "jobs db' = jobs db \<and> conditions db' = conditions db \<and> ob_target_key ob = key"
    by (auto simp: copy_reconciler_def copy_observe_def Let_def split: sum.splits)
next
  fix db db' :: "catalog_db engine_db" and key now
  assume "rc_reconcile_target copy_reconciler now key db = Inr db'"
  then obtain sha name pool js j where
    "submit now (copy_submission key sha name pool) (jobs db) (jobs db) = Inr (js, j)" "db' = db\<lparr>jobs := js\<rparr>"
    by (auto simp: copy_reconciler_def copy_reconcile_target_def Let_def split: sum.splits option.splits)
  then show "conditions db' = conditions db \<and>
      (jobs db' = jobs db \<or>
       (\<exists>s j. submit now s (jobs db) (jobs db) = Inr (jobs db', j) \<and> s_recon_domain s = Some COPY_DOMAIN \<and>
              s_recon_target_key s = Some key \<and> s_dedupe_key s = Some (copy_dedupe_key key)))"
    by (intro conjI disjI2 exI [of _ "copy_submission key sha name pool"] exI [of _ j])
       (simp_all add: copy_submission_def)
qed (simp add: copy_reconciler_def)

section \<open>Target keys\<close>

lemma parse_make_key:
  assumes "length h = 32" "p \<noteq> []"
  shows "parse_target_key (make_target_key h p) = Inr (hex_of h, p)"
proof -
  have "partition_at (CHR '':'') (make_target_key h p) = (TARGET_PREFIX, True, hex_of h @ '':'' @ p)"
    using partition_at_join [of "CHR '':''" TARGET_PREFIX "hex_of h @ '':'' @ p"]
    by (simp add: make_target_key_def TARGET_PREFIX_def)
  moreover have "partition_at (CHR '':'') (hex_of h @ '':'' @ p) = (hex_of h, True, p)"
    using partition_at_join [OF hex_of_no_colon, of h p] by simp
  ultimately show ?thesis
    using assms by (simp add: parse_target_key_def length_hex_of fromhex_hex_of)
qed

text \<open>
  Target keys round-trip: the key made for a 32-byte hash and a non-empty pool id, colons in the pool
  id included, parses back to the hash's hex text and that pool, and the text decodes to the hash;
  conversely every key the parser accepts is the one spelled by its two parts.
\<close>

theorem target_key_round_trip:
  "(length h = 32 \<and> p \<noteq> [] \<longrightarrow>
      parse_target_key (make_target_key h p) = Inr (hex_of h, p) \<and> fromhex (hex_of h) = Some h) \<and>
   (parse_target_key k = Inr (sha, q) \<longrightarrow>
      k = ''asset:'' @ sha @ '':'' @ q \<and> length sha = 64 \<and> fromhex sha \<noteq> None \<and> q \<noteq> [])"
proof -
  have "k = ''asset:'' @ sha @ '':'' @ q \<and> length sha = 64 \<and> fromhex sha \<noteq> None \<and> q \<noteq> []"
    if p: "parse_target_key k = Inr (sha, q)"
  proof -
    from p obtain rest where 1: "partition_at (CHR '':'') k = (TARGET_PREFIX, True, rest)"
      and 2: "partition_at (CHR '':'') rest = (sha, True, q)"
      and 3: "length sha = 64" "fromhex sha \<noteq> None" "q \<noteq> []"
      by (auto simp: parse_target_key_def split: prod.splits if_splits)
    from partition_at_found [OF 1] partition_at_found [OF 2] 3 show ?thesis by (simp add: TARGET_PREFIX_def)
  qed
  with parse_make_key fromhex_hex_of show ?thesis by blast
qed

theorem target_key_round_trip_witness:
  "parse_target_key (make_target_key (replicate 32 (CHR ''a'')) ''lto:1'') =
     Inr (hex_of (replicate 32 (CHR ''a'')), ''lto:1'')"
  using target_key_round_trip [of "replicate 32 (CHR ''a'')" "''lto:1''"] by simp

section \<open>Single flight\<close>


definition empty_engine :: "catalog_db engine_db" where
  "empty_engine = \<lparr>jobs = [], job_attempts = [], conditions = [], condition_components = [],
     catalog = example_catalog\<lparr>ingest_items := []\<rparr>\<rparr>"

lemma conditions_inv_Nil: "conditions_inv []"
  by (simp add: conditions_inv_def conditions_ok_def)


end
