(* ===== verification/Archive_Predicate.thy ===== *)
theory Archive_Predicate
  imports Durability
begin

text \<open>
  Archive evidence (\<^verbatim>\<open>src/sutradhara/archive_predicate.py\<close>): a content hash is archived when it is a
  member of a sealed bundle with enough verified copies for the member's class.  The correlated SQL
  subqueries are predicates over the catalog; the preservation-gap audit is built from them.
\<close>

section \<open>Model\<close>

definition verified_bundle_copy_count :: "catalog_db \<Rightarrow> string \<Rightarrow> nat" where
  "verified_bundle_copy_count c bundle_id =
     length (filter (\<lambda>r. cp_bundle_id r = Some bundle_id \<and> cp_health r = HealthOk \<and>
                         cp_deleted_at r = None \<and> cp_last_measured_digest r \<noteq> None \<and>
                         cp_last_measured_digest r = Some (cp_integrity_hash r)) (copies c))"

definition member_archive_evidence :: "catalog_db \<Rightarrow> bundle_member \<Rightarrow> bool" where
  "member_archive_evidence c m =
     list_ex (\<lambda>b. bu_id b = bm_bundle_id m \<and> bu_status b = ''sealed'' \<and>
                  list_ex (\<lambda>p. pr_artifactclass p = bm_artifactclass m \<and>
                               int (verified_bundle_copy_count c (bu_id b)) \<ge> pr_min_copies p) (policies c))
       (bundles c)"

definition hash_archive_evidence_exists :: "catalog_db \<Rightarrow> bytes \<Rightarrow> bool" where
  "hash_archive_evidence_exists c h =
     list_ex (\<lambda>m. bm_asset_hash m = h \<and> member_archive_evidence c m) (bundle_members c)"

definition items_of :: "catalog_db \<Rightarrow> string \<Rightarrow> ingest_item list" where
  "items_of c intake_id = filter (\<lambda>i. it_intake_id i = intake_id) (ingest_items c)"

definition intake_hash_archive_evidence_exists :: "catalog_db \<Rightarrow> string \<Rightarrow> bool" where
  "intake_hash_archive_evidence_exists c intake_id =
     list_ex (\<lambda>i. hash_archive_evidence_exists c (it_asset_hash i)) (items_of c intake_id)"

definition intake_missing_hash_exists :: "catalog_db \<Rightarrow> string \<Rightarrow> bool" where
  "intake_missing_hash_exists c intake_id =
     list_ex (\<lambda>i. \<not> hash_archive_evidence_exists c (it_asset_hash i)) (items_of c intake_id)"

definition intake_archive_state :: "catalog_db \<Rightarrow> string \<Rightarrow> string" where
  "intake_archive_state c intake_id =
     (if items_of c intake_id = [] then ''none''
      else if \<not> intake_missing_hash_exists c intake_id then ''complete''
      else if intake_hash_archive_evidence_exists c intake_id then ''partial''
      else ''none'')"

definition intake_archived :: "catalog_db \<Rightarrow> string \<Rightarrow> bool" where
  "intake_archived c intake_id =
     (items_of c intake_id \<noteq> [] \<and> \<not> intake_missing_hash_exists c intake_id)"

definition submission_is_archived :: "catalog_db \<Rightarrow> string \<Rightarrow> bool" where
  "submission_is_archived c submission_id =
     (let ms = filter (\<lambda>m. sm_submission_id m = submission_id) (submission_members c);
          total = length ms
      in if total = 0 then False
         else length (filter (\<lambda>m. list_ex (\<lambda>b. bm_asset_hash b = sm_sha256 m \<and> member_archive_evidence c b)
                                    (bundle_members c)) ms) = total)"

text \<open>The preservation-gap audit over released and purged intakes.\<close>

record missing_asset =
  ma_hash :: bytes
  ma_artifactclass :: string
  ma_occurrences :: nat

record audit_row =
  au_intake_id :: string
  au_state :: retention_state
  au_released_at :: "time option"
  au_staging_deleted_at :: "time option"
  au_missing :: "missing_asset list"

record audit_report =
  ar_audited :: nat
  ar_missing_distinct :: nat
  ar_clean :: bool
  ar_affected :: "audit_row list"

definition retention_passed :: "intake_row \<Rightarrow> bool" where
  "retention_passed i = (in_retention_state i \<in> {RELEASED, PURGED})"

definition missing_assets :: "catalog_db \<Rightarrow> string \<Rightarrow> missing_asset list" where
  "missing_assets c intake_id =
     (let rows = filter (\<lambda>i. \<not> hash_archive_evidence_exists c (it_asset_hash i)) (items_of c intake_id);
          key = (\<lambda>i. (it_asset_hash i, it_artifactclass i))
      in map (\<lambda>k. \<lparr>ma_hash = fst k, ma_artifactclass = snd k,
                   ma_occurrences = length (filter (\<lambda>i. key i = k) rows)\<rparr>)
             (sort (remdups (map key rows))))"

definition audit_row_of :: "catalog_db \<Rightarrow> intake_row \<Rightarrow> audit_row" where
  "audit_row_of c i =
     \<lparr>au_intake_id = in_id i, au_state = in_retention_state i, au_released_at = in_released_at i,
      au_staging_deleted_at = in_staging_deleted_at i, au_missing = missing_assets c (in_id i)\<rparr>"

definition build_archive_predicate_audit :: "catalog_db \<Rightarrow> audit_report" where
  "build_archive_predicate_audit c =
     (let candidates = sort_key in_id
            (filter (\<lambda>i. retention_passed i \<and> intake_hash_archive_evidence_exists c (in_id i) \<and>
                         intake_missing_hash_exists c (in_id i)) (intakes c));
          affected = map (audit_row_of c) candidates
      in \<lparr>ar_audited = length (filter retention_passed (intakes c)),
          ar_missing_distinct =
            length (remdups [ma_hash a. row \<leftarrow> affected, a \<leftarrow> au_missing row]),
          ar_clean = (affected = []), ar_affected = affected\<rparr>)"

section \<open>Properties\<close>

lemma verified_count_placements:
  "verified_bundle_copy_count c b = length (bundle_placements c True None b)"
proof -
  have "(\<lambda>r. cp_bundle_id r = Some b \<and> cp_health r = HealthOk \<and> cp_deleted_at r = None \<and>
            cp_last_measured_digest r \<noteq> None \<and> cp_last_measured_digest r = Some (cp_integrity_hash r)) =
        (\<lambda>r. cp_bundle_id r = Some b \<and> copy_counts True r \<and> pool_matches None r)"
    by (auto simp: copy_counts_def pool_matches_def)
  then show ?thesis by (simp add: verified_bundle_copy_count_def bundle_placements_def)
qed

lemma hash_evidence_iff:
  "hash_archive_evidence_exists c h \<longleftrightarrow>
   (\<exists>m \<in> set (bundle_members c). bm_asset_hash m = h \<and>
     (\<exists>b \<in> set (bundles c). bu_id b = bm_bundle_id m \<and> bu_status b = ''sealed'' \<and>
       (\<exists>p \<in> set (policies c). pr_artifactclass p = bm_artifactclass m \<and>
          pr_min_copies p \<le> int (length (bundle_placements c True None (bu_id b))))))"
  by (auto simp: hash_archive_evidence_exists_def member_archive_evidence_def list_ex_iff
      verified_count_placements)

lemma partial_state:
  "intake_archive_state c i = ''partial'' \<longleftrightarrow>
     intake_hash_archive_evidence_exists c i \<and> intake_missing_hash_exists c i"
  by (auto simp: intake_archive_state_def intake_missing_hash_exists_def)

text \<open>
  C22: An intake counts as archived exactly when its archive state is complete, which holds exactly when it
  has items and every item's content is a member of some sealed bundle whose verified copies (the same
  ones the durability view lists) reach the minimum that the member's own class policy declares; a
  partial intake has both an archived and an unarchived hash.
\<close>

theorem intake_archived_iff:
  "(intake_archived c i \<longleftrightarrow> intake_archive_state c i = ''complete'') \<and>
   (intake_archived c i \<longleftrightarrow>
      (\<exists>x \<in> set (ingest_items c). it_intake_id x = i) \<and>
      (\<forall>x \<in> set (ingest_items c). it_intake_id x = i \<longrightarrow>
         (\<exists>m \<in> set (bundle_members c). bm_asset_hash m = it_asset_hash x \<and>
           (\<exists>b \<in> set (bundles c). bu_id b = bm_bundle_id m \<and> bu_status b = ''sealed'' \<and>
             (\<exists>p \<in> set (policies c). pr_artifactclass p = bm_artifactclass m \<and>
                pr_min_copies p \<le> int (length (bundle_placements c True None (bu_id b)))))))) \<and>
   (intake_archive_state c i = ''partial'' \<longleftrightarrow>
      intake_hash_archive_evidence_exists c i \<and> intake_missing_hash_exists c i)"
proof -
  have state: "intake_archived c i \<longleftrightarrow> intake_archive_state c i = ''complete''"
    by (simp add: intake_archived_def intake_archive_state_def)
  have all: "intake_archived c i \<longleftrightarrow> (\<exists>x \<in> set (ingest_items c). it_intake_id x = i) \<and>
      (\<forall>x \<in> set (ingest_items c). it_intake_id x = i \<longrightarrow> hash_archive_evidence_exists c (it_asset_hash x))"
    by (auto simp: intake_archived_def intake_missing_hash_exists_def list_ex_iff items_of_def filter_empty_conv)
  show ?thesis
    unfolding hash_evidence_iff [symmetric]
    by (intro conjI state all partial_state)
qed

theorem intake_archived_iff_witness: "intake_archived example_catalog ''i1''"
proof -
  have "\<exists>x \<in> set (ingest_items example_catalog). it_intake_id x = ''i1''"
    by (simp add: example_catalog_defs)
  moreover have "\<exists>m \<in> set (bundle_members example_catalog). bm_asset_hash m = it_asset_hash x \<and>
      (\<exists>b \<in> set (bundles example_catalog). bu_id b = bm_bundle_id m \<and> bu_status b = ''sealed'' \<and>
        (\<exists>p \<in> set (policies example_catalog). pr_artifactclass p = bm_artifactclass m \<and>
           pr_min_copies p \<le> int (length (bundle_placements example_catalog True None (bu_id b)))))"
    if "x \<in> set (ingest_items example_catalog)" for x
    using that
    by (simp add: example_catalog_defs bundle_placements_def copy_counts_def pool_matches_def)
  ultimately show ?thesis using intake_archived_iff [of example_catalog "''i1''"] by blast
qed

text \<open>
  C23: A submission is archived exactly when it has members and each of them is archived content, whichever
  bundles the members landed in; in particular nothing in an open bundle alone makes it archived.
\<close>

theorem submission_archived_iff:
  "submission_is_archived c s \<longleftrightarrow>
     (\<exists>m \<in> set (submission_members c). sm_submission_id m = s) \<and>
     (\<forall>m \<in> set (submission_members c). sm_submission_id m = s \<longrightarrow>
        (\<exists>x \<in> set (bundle_members c). bm_asset_hash x = sm_sha256 m \<and>
           (\<exists>b \<in> set (bundles c). bu_id b = bm_bundle_id x \<and> bu_status b = ''sealed'' \<and>
             (\<exists>p \<in> set (policies c). pr_artifactclass p = bm_artifactclass x \<and>
                pr_min_copies p \<le> int (length (bundle_placements c True None (bu_id b)))))))"
proof -
  let ?ms = "filter (\<lambda>m. sm_submission_id m = s) (submission_members c)"
  have full: "length (filter P xs) = length xs \<longleftrightarrow> (\<forall>x \<in> set xs. P x)" for P and xs :: "'a list"
    by (metis filter_True length_filter_less less_irrefl)
  have "submission_is_archived c s \<longleftrightarrow>
      ?ms \<noteq> [] \<and> (\<forall>m \<in> set ?ms. hash_archive_evidence_exists c (sm_sha256 m))"
    unfolding submission_is_archived_def Let_def hash_archive_evidence_exists_def full length_0_conv by simp
  also have "\<dots> \<longleftrightarrow> (\<exists>m \<in> set (submission_members c). sm_submission_id m = s) \<and>
      (\<forall>m \<in> set (submission_members c). sm_submission_id m = s \<longrightarrow> hash_archive_evidence_exists c (sm_sha256 m))"
    by (auto simp: filter_empty_conv)
  finally show ?thesis unfolding hash_evidence_iff .
qed

theorem submission_archived_iff_witness: "submission_is_archived example_catalog ''s1''"
  unfolding submission_archived_iff
  by (simp add: example_catalog_defs bundle_placements_def copy_counts_def pool_matches_def)

text \<open>
  The audit lists exactly the released or purged intakes whose archive state is partial, names for
  each of them every item content without archive evidence, and calls the catalog clean exactly when
  there is none.
\<close>

theorem audit_lists_partial:
  "au_intake_id ` set (ar_affected (build_archive_predicate_audit c)) =
     {in_id i | i. i \<in> set (intakes c) \<and> in_retention_state i \<in> {RELEASED, PURGED} \<and>
                   intake_archive_state c (in_id i) = ''partial''} \<and>
   (\<forall>row \<in> set (ar_affected (build_archive_predicate_audit c)).
      ma_hash ` set (au_missing row) =
        {it_asset_hash x | x. x \<in> set (ingest_items c) \<and> it_intake_id x = au_intake_id row \<and>
                              \<not> hash_archive_evidence_exists c (it_asset_hash x)}) \<and>
   (ar_clean (build_archive_predicate_audit c) \<longleftrightarrow>
      \<not> (\<exists>i \<in> set (intakes c). in_retention_state i \<in> {RELEASED, PURGED} \<and>
                               intake_archive_state c (in_id i) = ''partial''))"
proof -
  have aff: "set (ar_affected (build_archive_predicate_audit c)) =
      audit_row_of c ` {i \<in> set (intakes c). in_retention_state i \<in> {RELEASED, PURGED} \<and>
                                             intake_archive_state c (in_id i) = ''partial''}"
    unfolding partial_state by (auto simp: build_archive_predicate_audit_def Let_def retention_passed_def)
  have "ma_hash ` set (missing_assets c i) = {it_asset_hash x | x. x \<in> set (ingest_items c) \<and>
      it_intake_id x = i \<and> \<not> hash_archive_evidence_exists c (it_asset_hash x)}" for i
    by (auto simp: missing_assets_def Let_def items_of_def image_image image_iff)
  moreover have "ar_clean (build_archive_predicate_audit c) \<longleftrightarrow> set (ar_affected (build_archive_predicate_audit c)) = {}"
    unfolding set_empty by (simp add: build_archive_predicate_audit_def Let_def)
  ultimately show ?thesis unfolding aff by (auto simp: audit_row_of_def image_image)
qed

definition gap_catalog :: catalog_db where
  "gap_catalog = example_catalog
     \<lparr>intakes := [\<lparr>in_id = ''i1'', in_manifest_path = None, in_manifest_digest = None, in_requested_profile = None,
      in_status = REGISTERED, in_retention_state = RELEASED, in_released_at = Some 1,
                   in_release_fingerprint = None, in_tombstoned_at = None, in_tombstone_path = None,
                   in_staging_deleted_at = None\<rparr>],
      ingest_items := ingest_items example_catalog @
        [\<lparr>it_id = 2, it_intake_id = ''i1'', it_asset_hash = ''k'', it_artifactclass = ''vid'',
          it_as_received_path = ''y'', it_metadata = []\<rparr>]\<rparr>"

theorem audit_lists_partial_witness:
  "au_intake_id ` set (ar_affected (build_archive_predicate_audit gap_catalog)) = {''i1''} \<and>
   \<not> ar_clean (build_archive_predicate_audit gap_catalog)"
proof -
  have "hash_archive_evidence_exists gap_catalog ''h''" "\<not> hash_archive_evidence_exists gap_catalog ''k''"
    by (simp_all add: hash_archive_evidence_exists_def member_archive_evidence_def
        verified_bundle_copy_count_def gap_catalog_def example_catalog_defs)
  then have "intake_archive_state gap_catalog ''i1'' = ''partial''"
    unfolding partial_state
    by (simp add: intake_hash_archive_evidence_exists_def intake_missing_hash_exists_def items_of_def)
       (simp add: gap_catalog_def example_catalog_defs)
  moreover have "intakes gap_catalog = [\<lparr>in_id = ''i1'', in_manifest_path = None, in_manifest_digest = None, in_requested_profile = None,
      in_status = REGISTERED, in_retention_state = RELEASED,
      in_released_at = Some 1, in_release_fingerprint = None, in_tombstoned_at = None,
      in_tombstone_path = None, in_staging_deleted_at = None\<rparr>]"
    by (simp add: gap_catalog_def)
  ultimately show ?thesis using audit_lists_partial [of gap_catalog] by simp
qed

end
