(* ===== verification/Canonical_Json.thy ===== *)
theory Canonical_Json
  imports Sha256
begin

text \<open>
  \<open>json.dumps(value, sort_keys=True, separators=(",", ":"))\<close> of the Python library and the digest
  \<open>_hash_json\<close> of \<^verbatim>\<open>src/sutradhara/retention_journal.py\<close> built on it.  \<open>fr\<close> prints a \<open>float\<close> (Python's
  \<open>repr\<close>); what the proofs need of it is \<open>float_text_ok\<close>.  The text determines the value up to the order
  of dictionary keys.
\<close>

section \<open>Printing\<close>

definition json_escape :: "bool \<Rightarrow> char \<Rightarrow> string" where
  "json_escape ensure_ascii c =
     (let k = of_char c :: nat; bs = CHR 0x5C
      in if k = 34 \<or> k = 92 then [bs, c]
         else if k = 8 then [bs, CHR ''b''] else if k = 9 then [bs, CHR ''t'']
         else if k = 10 then [bs, CHR ''n''] else if k = 12 then [bs, CHR ''f'']
         else if k = 13 then [bs, CHR ''r'']
         else if k < 32 \<or> (ensure_ascii \<and> 126 < k) then [bs, CHR ''u'', CHR ''0'', CHR ''0''] @ hex_byte k
         else [c])"

definition json_quote :: "bool \<Rightarrow> string \<Rightarrow> string" where
  "json_quote a s = CHR 0x22 # concat (map (json_escape a) s) @ [CHR 0x22]"

fun join_items :: "('a \<Rightarrow> string) \<Rightarrow> 'a list \<Rightarrow> string" where
  "join_items f [] = []"
| "join_items f [x] = f x"
| "join_items f (x # y # xs) = f x @ CHR '','' # join_items f (y # xs)"

lemma join_items_cong [fundef_cong]:
  "xs = ys \<Longrightarrow> (\<And>x. x \<in> set ys \<Longrightarrow> f x = g x) \<Longrightarrow> join_items f xs = join_items g ys"
  by (induction f xs arbitrary: ys rule: join_items.induct) auto

fun dumps :: "(pyfloat \<Rightarrow> string) \<Rightarrow> bool \<Rightarrow> json \<Rightarrow> string" where
  "dumps fr a JNull = ''null''"
| "dumps fr a (JBool b) = (if b then ''true'' else ''false'')"
| "dumps fr a (JInt i) = str_int i"
| "dumps fr a (JFloat x) = fr x"
| "dumps fr a (JStr s) = json_quote a s"
| "dumps fr a (JArr xs) = CHR ''['' # join_items (dumps fr a) xs @ [CHR '']'']"
| "dumps fr a (JObj kvs) =
     CHR ''{'' # join_items (\<lambda>(k, v). json_quote a k @ CHR '':'' # dumps fr a v) kvs @ [CHR ''}'']"

text \<open>\<open>sort_keys=True\<close>, at every level.\<close>

fun sort_json :: "json \<Rightarrow> json" where
  "sort_json (JArr xs) = JArr (map sort_json xs)"
| "sort_json (JObj kvs) = JObj (sort_key fst (map (\<lambda>(k, v). (k, sort_json v)) kvs))"
| "sort_json v = v"

definition canonical_json :: "(pyfloat \<Rightarrow> string) \<Rightarrow> json \<Rightarrow> string" where
  "canonical_json fr v = dumps fr False (sort_json v)"

definition hash_json :: "(pyfloat \<Rightarrow> string) \<Rightarrow> json \<Rightarrow> string" where
  "hash_json fr v = sha256_hex (utf8 (canonical_json fr v))"

section \<open>The text determines the value\<close>

definition structural :: "char \<Rightarrow> bool" where
  "structural c = (c \<in> set [CHR 0x22, CHR '','', CHR '':'', CHR ''['', CHR '']'', CHR ''{'', CHR ''}''])"

definition float_text_ok :: "(pyfloat \<Rightarrow> string) \<Rightarrow> bool" where
  "float_text_ok fr \<longleftrightarrow>
     inj fr \<and> (\<forall>x. fr x \<noteq> [] \<and> list_all (\<lambda>c. \<not> structural c) (fr x) \<and>
                   fr x \<notin> {''null'', ''true'', ''false''} \<and> fr x \<notin> range str_int)"

definition closed_after :: "string \<Rightarrow> bool" where
  "closed_after s = (case s of [] \<Rightarrow> True | c # _ \<Rightarrow> c \<in> set [CHR '','', CHR '']'', CHR ''}''])"

lemma closed_after_simps [simp]:
  "closed_after []" "closed_after (c # s) \<longleftrightarrow> c = CHR '','' \<or> c = CHR '']'' \<or> c = CHR ''}''"
  by (auto simp: closed_after_def)

lemma token_prefix:
  assumes "list_all (\<lambda>c. \<not> structural c) t" "list_all (\<lambda>c. \<not> structural c) t'"
    and "closed_after s" "closed_after s'" "t @ s = t' @ s'"
  shows "t = t' \<and> s = s'"
proof -
  have "takeWhile (\<lambda>c. \<not> structural c) (u @ r) = u" if "list_all (\<lambda>c. \<not> structural c) u" "closed_after r" for u r
    using that by (cases r) (auto simp: takeWhile_append2 list_all_iff structural_def)
  with assms show ?thesis by (metis append_eq_append_conv)
qed

lemma of_char_inject: "of_char c = (of_char d :: nat) \<longleftrightarrow> c = d"
  by (simp add: of_char_eq_iff)

lemma hex_byte_inject: "k < 256 \<Longrightarrow> l < 256 \<Longrightarrow> hex_byte k = hex_byte l \<Longrightarrow> k = l"
proof -
  assume kl: "k < 256" "l < 256" and eq: "hex_byte k = hex_byte l"
  have inj: "d < 16 \<Longrightarrow> e < 16 \<Longrightarrow> digit_char d = digit_char e \<Longrightarrow> d = e" for d e :: nat
    by (auto simp: digit_char_def split: if_splits)
  have "k div 16 = l div 16" "k mod 16 = l mod 16"
    using eq kl inj [of "k div 16" "l div 16"] inj [of "k mod 16" "l mod 16"]
    by (simp_all add: hex_byte_def div_less_iff_less_mult)
  then show "k = l" by (metis div_mult_mod_eq)
qed

lemma char_codes:
  "of_char c = (8 :: nat) \<Longrightarrow> c = CHR 0x08" "of_char c = (9 :: nat) \<Longrightarrow> c = CHR 0x09"
  "of_char c = (10 :: nat) \<Longrightarrow> c = CHR 0x0A" "of_char c = (12 :: nat) \<Longrightarrow> c = CHR 0x0C"
  "of_char c = (13 :: nat) \<Longrightarrow> c = CHR 0x0D"
  by (rule iffD1 [OF of_char_inject], simp)+

lemma json_escape_shape:
  "json_escape a c = [c] \<and> of_char c \<noteq> (34 :: nat) \<and> of_char c \<noteq> (92 :: nat) \<or>
   (\<exists>x. json_escape a c = [CHR 0x5C, x] \<and> x \<noteq> CHR ''u'') \<or>
   json_escape a c = [CHR 0x5C, CHR ''u'', CHR ''0'', CHR ''0''] @ hex_byte (of_char c)"
proof -
  have "c \<noteq> CHR ''u''" if "of_char c = (34 :: nat) \<or> of_char c = (92 :: nat)" using that by auto
  then show ?thesis by (simp add: json_escape_def Let_def)
qed

lemma json_escape_cases:
  obtains (plain) "json_escape a c = [c]" "of_char c \<noteq> (34 :: nat)" "of_char c \<noteq> (92 :: nat)"
  | (short) x where "json_escape a c = [CHR 0x5C, x]" "x \<noteq> CHR ''u''"
  | (hex) "json_escape a c = [CHR 0x5C, CHR ''u'', CHR ''0'', CHR ''0''] @ hex_byte (of_char c)"
  using json_escape_shape [of a c] by blast

lemma json_escape_short:
  assumes "json_escape a c = [CHR 0x5C, x]"
  shows "c = (if x = CHR ''b'' then CHR 0x08 else if x = CHR ''t'' then CHR 0x09
              else if x = CHR ''n'' then CHR 0x0A else if x = CHR ''f'' then CHR 0x0C
              else if x = CHR ''r'' then CHR 0x0D else x)"
  using assms by (auto simp: json_escape_def Let_def hex_byte_def split: if_splits dest: char_codes)

lemma json_escape_prefix:
  assumes "json_escape a c @ xs = json_escape a d @ ys"
  shows "c = d \<and> xs = ys"
proof (cases a c rule: json_escape_cases)
  case plain
  then show ?thesis using assms
    by (cases a d rule: json_escape_cases) auto
next
  case (short x)
  note s = this
  show ?thesis
  proof (cases a d rule: json_escape_cases)
    case (short y)
    with s assms have "x = y" "xs = ys" by simp_all
    with json_escape_short [OF s(1)] json_escape_short [OF short(1)] show ?thesis by simp
  qed (use s assms in auto)
next
  case hex
  note h = this
  show ?thesis
  proof (cases a d rule: json_escape_cases)
    case hex
    have "hex_byte (of_char c) = hex_byte (of_char d)" "xs = ys"
      using h hex assms by (simp_all add: hex_byte_def)
    moreover have "(of_char c :: nat) < 256" "(of_char d :: nat) < 256"
      by (metis mod_less_divisor of_char_mod_256 zero_less_numeral)+
    ultimately show ?thesis using hex_byte_inject of_char_inject by blast
  qed (use h assms in auto)
qed

lemma json_escape_hd: "\<exists>e es. json_escape a c = e # es \<and> e \<noteq> CHR 0x22"
proof (cases a c rule: json_escape_cases)
  case plain
  then show ?thesis by auto
next
  case (short x)
  then show ?thesis by simp
next
  case hex
  then show ?thesis by simp
qed

lemma json_quote_prefix:
  assumes "json_quote a s @ r = json_quote a t @ r'"
  shows "s = t \<and> r = r'"
proof -
  have "concat (map (json_escape a) s) @ CHR 0x22 # r = concat (map (json_escape a) t) @ CHR 0x22 # r' \<Longrightarrow>
        s = t \<and> r = r'"
  proof (induction s arbitrary: t)
    case Nil
    then show ?case using json_escape_hd [of a "hd t"] by (cases t) auto
  next
    case (Cons c s)
    then obtain d t' where t: "t = d # t'"
      using json_escape_hd [of a c] by (cases t) auto
    with Cons.prems have "json_escape a c @ concat (map (json_escape a) s) @ CHR 0x22 # r =
        json_escape a d @ concat (map (json_escape a) t') @ CHR 0x22 # r'" by simp
    from json_escape_prefix [OF this] Cons.IH t show ?case by blast
  qed
  with assms show ?thesis by (simp add: json_quote_def)
qed

lemma join_items_Cons: "join_items f (x # xs) = f x @ (if xs = [] then [] else CHR '','' # join_items f xs)"
  by (cases xs) simp_all

lemma join_items_prefix:
  assumes hd: "\<And>x. \<exists>e es. f x = e # es \<and> e \<noteq> CHR '']'' \<and> e \<noteq> CHR ''}''"
    and c: "c = CHR '']'' \<or> c = CHR ''}''"
    and elem: "\<And>x y s s'. x \<in> set xs \<Longrightarrow> closed_after s \<Longrightarrow> closed_after s' \<Longrightarrow> f x @ s = f y @ s' \<Longrightarrow> x = y \<and> s = s'"
    and eq: "join_items f xs @ c # s = join_items f ys @ c # s'"
  shows "xs = ys \<and> s = s'"
  using elem eq
proof (induction xs arbitrary: ys)
  case Nil
  then show ?case using hd [of "hd ys"] c
    by (cases ys) (auto simp: join_items_Cons)
next
  case (Cons x xs)
  let ?rest = "\<lambda>zs t. (if zs = [] then [] else CHR '','' # join_items f zs) @ c # t"
  obtain y ys' where ys: "ys = y # ys'"
    using Cons.prems(2) hd [of x] c by (cases ys) (auto simp: join_items_Cons)
  have "f x @ ?rest xs s = f y @ ?rest ys' s'" using Cons.prems(2) ys by (simp add: join_items_Cons)
  moreover have "closed_after (?rest zs t)" for zs t using c by auto
  ultimately have xy: "x = y" and r: "?rest xs s = ?rest ys' s'"
    using Cons.prems(1) [of x "?rest xs s" "?rest ys' s'" y] by auto
  show ?case
  proof (cases "xs = [] \<or> ys' = []")
    case True
    with r c xy ys show ?thesis by (auto split: if_splits)
  next
    case False
    with r have "join_items f xs @ c # s = join_items f ys' @ c # s'" by simp
    moreover have "z = y \<and> t = t'" if "z \<in> set xs" "closed_after t" "closed_after t'" "f z @ t = f y @ t'" for z y t t'
      using Cons.prems(1) [of z t t' y] that by simp
    ultimately have "xs = ys' \<and> s = s'" using Cons.IH by blast
    with xy ys show ?thesis by simp
  qed
qed

definition json_token :: "json \<Rightarrow> bool" where
  "json_token v = (case v of JStr _ \<Rightarrow> False | JArr _ \<Rightarrow> False | JObj _ \<Rightarrow> False | _ \<Rightarrow> True)"

lemma digit_not_structural: "digit_val c \<noteq> None \<Longrightarrow> \<not> structural c"
  by (auto simp: structural_def digit_val_def Let_def split: if_splits)

lemma str_int_plain: "list_all (\<lambda>c. \<not> structural c) (str_int i)" "str_int i \<noteq> []"
  using str_nat_digits digit_not_structural
  by (auto simp: str_int_def list_all_iff structural_def)

lemma str_int_inject: "str_int i = str_int j \<Longrightarrow> i = j"
proof -
  have "CHR ''-'' \<notin> set (str_nat n)" for n
    using str_nat_digits [of "CHR ''-''" n] by (auto simp: digit_val_def)
  then have "str_nat n \<noteq> CHR ''-'' # t" "CHR ''-'' # t \<noteq> str_nat n" for n t by (metis list.set_intros(1))+
  then show "str_int i = str_int j \<Longrightarrow> i = j"
    by (auto simp: str_int_def str_nat_inject split: if_splits)
qed

lemma str_int_first: "hd (str_int i) = CHR ''-'' \<or> digit_val (hd (str_int i)) \<noteq> None"
  using str_nat_digits [OF hd_in_set [OF str_nat_not_Nil]] by (simp add: str_int_def)

lemma str_int_not_word: "str_int i \<noteq> ''null''" "str_int i \<noteq> ''true''" "str_int i \<noteq> ''false''"
  using str_int_first [of i] by (auto simp: digit_val_def)

lemma token_plain:
  assumes "float_text_ok fr" "json_token v"
  shows "list_all (\<lambda>c. \<not> structural c) (dumps fr a v) \<and> dumps fr a v \<noteq> []"
  using assms str_int_plain by (cases v) (auto simp: float_text_ok_def json_token_def structural_def)

lemma token_inject:
  assumes fr: "float_text_ok fr" and t: "json_token v" "json_token w" and eq: "dumps fr a v = dumps fr a w"
  shows "v = w"
proof -
  have r: "fr x \<notin> range str_int" for x using fr by (simp add: float_text_ok_def)
  then have "fr x \<noteq> str_int i" "str_int i \<noteq> fr x" for x i by (metis rangeI)+
  moreover have "fr x = fr y \<Longrightarrow> x = y" "fr x \<noteq> ''null''" "fr x \<noteq> ''true''" "fr x \<noteq> ''false''" for x y
    using fr unfolding float_text_ok_def by (auto dest: injD)
  ultimately have f: "fr x = fr y \<Longrightarrow> x = y" "fr x \<noteq> ''null''" "fr x \<noteq> ''true''" "fr x \<noteq> ''false''"
    "fr x \<noteq> str_int i" "str_int i \<noteq> fr x" for x y i by blast+
  show ?thesis
    using t eq
    by (cases v; cases w)
       (simp_all add: json_token_def f f(2-4) [symmetric] str_int_not_word str_int_not_word [symmetric]
          split: if_splits, auto dest: f(1) str_int_inject)
qed

lemma dumps_first:
  assumes "float_text_ok fr"
  shows "\<exists>e es. dumps fr a v = e # es \<and> e \<noteq> CHR '']'' \<and> e \<noteq> CHR ''}''"
proof (cases "json_token v")
  case True
  from token_plain [OF assms this, of a] show ?thesis by (cases "dumps fr a v") (auto simp: structural_def)
qed (auto simp: json_token_def json_quote_def split: json.splits)

abbreviation dump_pair :: "(pyfloat \<Rightarrow> string) \<Rightarrow> bool \<Rightarrow> string \<times> json \<Rightarrow> string" where
  "dump_pair fr a \<equiv> (\<lambda>(k, v). json_quote a k @ CHR '':'' # dumps fr a v)"

lemma dumps_shape:
  assumes "float_text_ok fr"
  shows "json_token v \<longleftrightarrow> \<not> structural (hd (dumps fr a v))"
    and "(\<exists>s. v = JStr s) \<longleftrightarrow> hd (dumps fr a v) = CHR 0x22"
    and "(\<exists>xs. v = JArr xs) \<longleftrightarrow> hd (dumps fr a v) = CHR ''[''"
    and "(\<exists>kvs. v = JObj kvs) \<longleftrightarrow> hd (dumps fr a v) = CHR ''{''"
proof -
  have "\<not> structural (hd (dumps fr a v))" if "json_token v"
    using token_plain [OF assms that, of a] by (cases "dumps fr a v") auto
  then show "json_token v \<longleftrightarrow> \<not> structural (hd (dumps fr a v))"
    and "(\<exists>s. v = JStr s) \<longleftrightarrow> hd (dumps fr a v) = CHR 0x22"
    and "(\<exists>xs. v = JArr xs) \<longleftrightarrow> hd (dumps fr a v) = CHR ''[''"
    and "(\<exists>kvs. v = JObj kvs) \<longleftrightarrow> hd (dumps fr a v) = CHR ''{''"
    by (cases v; force simp: json_token_def structural_def json_quote_def)+
qed

lemma dumps_same_first:
  assumes "float_text_ok fr" "dumps fr a v @ s = dumps fr a w @ s'"
  shows "hd (dumps fr a v) = hd (dumps fr a w)"
  using dumps_first [OF assms(1), of a v] dumps_first [OF assms(1), of a w] assms(2) by auto

lemma dumps_token_prefix:
  assumes fr: "float_text_ok fr" and v: "json_token v" and c: "closed_after s" "closed_after s'"
    and eq: "dumps fr a v @ s = dumps fr a w @ s'"
  shows "v = w \<and> s = s'"
proof -
  have w: "json_token w" using dumps_shape(1) [OF fr] v dumps_same_first [OF fr eq] by metis
  from token_prefix [OF _ _ c eq] token_plain [OF fr v] token_plain [OF fr w]
  have "dumps fr a v = dumps fr a w" "s = s'" by auto
  with token_inject [OF fr v w] show ?thesis by blast
qed

lemma dumps_prefix:
  assumes fr: "float_text_ok fr"
  shows "closed_after s \<Longrightarrow> closed_after s' \<Longrightarrow> dumps fr a v @ s = dumps fr a w @ s' \<Longrightarrow> v = w \<and> s = s'"
proof (induction v arbitrary: w s s')
  case (JStr t)
  then obtain t' where "w = JStr t'" using dumps_shape(2) [OF fr] dumps_same_first [OF fr] by metis
  with JStr.prems(3) json_quote_prefix [of a t s t' s'] show ?case by simp
next
  case (JArr xs)
  then obtain ys where w: "w = JArr ys" using dumps_shape(3) [OF fr] dumps_same_first [OF fr] by metis
  have "join_items (dumps fr a) xs @ CHR '']'' # s = join_items (dumps fr a) ys @ CHR '']'' # s'"
    using JArr.prems(3) w by simp
  then have "xs = ys \<and> s = s'"
    by (rule join_items_prefix [of "dumps fr a", rotated 3]) (use dumps_first [OF fr] JArr.IH in auto)
  with w show ?case by simp
next
  case (JObj kvs)
  then obtain ys where w: "w = JObj ys" using dumps_shape(4) [OF fr] dumps_same_first [OF fr] by metis
  have eq: "join_items (dump_pair fr a) kvs @ CHR ''}'' # s = join_items (dump_pair fr a) ys @ CHR ''}'' # s'"
    using JObj.prems(3) w by simp
  have pair: "x = y \<and> t = t'" if "x \<in> set kvs" "closed_after t" "closed_after t'"
    "dump_pair fr a x @ t = dump_pair fr a y @ t'" for x y t t'
  proof -
    obtain k v l u where xy: "x = (k, v)" "y = (l, u)" by (cases x, cases y) blast
    with that(4) have "json_quote a k @ CHR '':'' # dumps fr a v @ t = json_quote a l @ CHR '':'' # dumps fr a u @ t'"
      by simp
    from json_quote_prefix [OF this] have k: "k = l" and d: "dumps fr a v @ t = dumps fr a u @ t'" by simp_all
    have "v \<in> Basic_BNFs.snds x" using xy by simp
    from JObj.IH [OF that(1) this that(2,3) d] k xy show ?thesis by simp
  qed
  have first: "\<exists>e es. dump_pair fr a x = e # es \<and> e \<noteq> CHR '']'' \<and> e \<noteq> CHR ''}''" for x
    by (cases x) (simp add: json_quote_def)
  have "kvs = ys \<and> s = s'"
    by (rule join_items_prefix [of "dump_pair fr a", OF first _ _ eq]) (use pair in auto)
  with w show ?case by simp
qed (erule dumps_token_prefix [OF fr, rotated]; simp add: json_token_def)+

lemma dumps_inject: "float_text_ok fr \<Longrightarrow> dumps fr a v = dumps fr a w \<Longrightarrow> v = w"
  using dumps_prefix [of fr "[]" "[]" a v w] by simp

lemma canonical_json_inject:
  "float_text_ok fr \<Longrightarrow> canonical_json fr v = canonical_json fr w \<Longrightarrow> sort_json v = sort_json w"
  unfolding canonical_json_def by (rule dumps_inject)

text \<open>One way to print floats that satisfies the contract.\<close>

definition example_fr :: "pyfloat \<Rightarrow> string" where
  "example_fr x =
     (case x of
        Fin r \<Rightarrow> str_int (fst (quotient_of r)) @ ''/'' @ str_int (snd (quotient_of r))
      | PosInf \<Rightarrow> ''Infinity''
      | NegInf \<Rightarrow> ''-Infinity''
      | NotANumber \<Rightarrow> ''NaN'')"

lemma str_int_chars: "c \<in> set (str_int i) \<Longrightarrow> c = CHR ''-'' \<or> digit_val c \<noteq> None"
  using str_nat_digits by (auto simp: str_int_def split: if_splits)

lemma str_int_no: "CHR ''/'' \<notin> set (str_int i)" "CHR ''N'' \<notin> set (str_int i)" "CHR ''I'' \<notin> set (str_int i)"
  using str_int_chars by (fastforce simp: digit_val_def)+

lemma example_fr_slash: "CHR ''/'' \<in> set (example_fr x) \<longleftrightarrow> (\<exists>r. x = Fin r)"
  by (cases x) (simp_all add: example_fr_def)

lemma example_fr_inj: "example_fr x = example_fr y \<Longrightarrow> x = y"
proof (cases "\<exists>r. x = Fin r")
  case True
  assume eq: "example_fr x = example_fr y"
  with True obtain r q where [simp]: "x = Fin r" "y = Fin q" using example_fr_slash by metis
  from eq have "str_int (fst (quotient_of r)) @ CHR ''/'' # str_int (snd (quotient_of r)) =
      str_int (fst (quotient_of q)) @ CHR ''/'' # str_int (snd (quotient_of q))"
    by (simp add: example_fr_def)
  then have "quotient_of r = quotient_of q"
    using str_int_no by (auto simp: append_Cons_eq_iff prod_eq_iff dest: str_int_inject)
  then show "x = y" by (simp add: quotient_of_inject)
next
  case False
  assume eq: "example_fr x = example_fr y"
  with False have "\<not> (\<exists>r. y = Fin r)" using example_fr_slash by metis
  with eq False show "x = y" by (cases x; cases y) (simp_all add: example_fr_def)
qed

lemma example_fr_ok: "float_text_ok example_fr"
proof -
  have "\<exists>c \<in> {CHR ''/'', CHR ''N'', CHR ''I''}. c \<in> set (example_fr x)" for x
    by (cases x) (simp_all add: example_fr_def)
  then have "example_fr x \<notin> range str_int" for x using str_int_no by (metis emptyE imageE insertE)
  moreover have "\<not> structural (CHR ''/'')" "list_all (\<lambda>c. \<not> structural c) ''-Infinity''" "list_all (\<lambda>c. \<not> structural c) ''NaN''"
    by (simp_all add: structural_def)
  then have "list_all (\<lambda>c. \<not> structural c) (example_fr x)" for x
    using str_int_plain by (cases x) (simp_all add: example_fr_def)
  moreover have "example_fr x \<noteq> [] \<and> example_fr x \<notin> {''null'', ''true'', ''false''}" for x
  proof (cases "CHR ''/'' \<in> set (example_fr x)")
    case True
    then show ?thesis by auto
  next
    case False
    then show ?thesis by (cases x) (simp_all add: example_fr_def)
  qed
  ultimately show ?thesis using example_fr_inj by (auto simp: float_text_ok_def inj_def)
qed

end
