(* ===== verification/Bundle_Group.thy ===== *)
theory Bundle_Group
  imports Durability Canonical_Json
begin

text \<open>
  The identity of bundle groups (\<^verbatim>\<open>src/sutradhara/bundle_group.py\<close>): the canonical basis of a class, its
  fingerprint, the witness document of a bundle, and the effective thresholds of a group.
\<close>

section \<open>Model\<close>

type_synonym basis = "jobj list"

datatype group_error = BundleGroupError string | EmptyBundleGroupError string

text \<open>Pool ids are compared by code point; \<open>pool.representation\<close> is never null.\<close>

definition group_rows :: "catalog_db \<Rightarrow> string \<Rightarrow> (string \<times> string) list" where
  "group_rows c artifactclass =
     [(ap_pool_id m, po_representation p). m \<leftarrow> class_pools c, ap_artifactclass m = artifactclass \<and> ap_active m,
        p \<leftarrow> pools c, po_id p = ap_pool_id m]"

definition basis_entry :: "string \<times> string \<Rightarrow> jobj" where
  "basis_entry row = [(''pool'', JStr (fst row)), (''representation'', JStr (snd row))]"

definition compute_group_basis :: "catalog_db \<Rightarrow> string \<Rightarrow> basis" where
  "compute_group_basis c artifactclass = map basis_entry (sort_key fst (group_rows c artifactclass))"

text \<open>No value of a basis is a float, so the text does not depend on how one is printed.\<close>

definition canonical_basis_json :: "basis \<Rightarrow> string" where
  "canonical_basis_json b = dumps (\<lambda>_. []) True (sort_json (JArr (map (\<lambda>e. JObj (filter (\<lambda>(k, v). v \<noteq> JNull) e)) b)))"

definition fingerprint_basis :: "basis \<Rightarrow> string" where
  "fingerprint_basis b = sha256_hex (utf8 (canonical_basis_json b))"

definition compute_bundle_group :: "catalog_db \<Rightarrow> string \<Rightarrow> string \<times> basis" where
  "compute_bundle_group c artifactclass =
     (let b = compute_group_basis c artifactclass in (fingerprint_basis b, b))"

definition group_basis_document :: "basis \<Rightarrow> string \<Rightarrow> int \<Rightarrow> int \<Rightarrow> group_error + jobj" where
  "group_basis_document b basis_source target_bytes max_age_seconds =
     (if basis_source \<notin> set [''derived'', ''backfilled'']
      then Inl (BundleGroupError (''unknown basis_source '' @ py_repr basis_source))
      else Inr [(''basis'', JArr (map JObj b)), (''basis_source'', JStr basis_source), (''writer_version'', JInt 1),
                (''effective'', JObj [(''target_bytes'', JInt target_bytes), (''max_age_seconds'', JInt max_age_seconds)])])"

subsection \<open>Thresholds\<close>

record group_thresholds =
  gt_declared :: "(string \<times> int \<times> int) list"
  gt_declared_target_bytes :: int
  gt_max_age_seconds :: int
  gt_pool_floors :: "(string \<times> int option) list"
  gt_target_bytes :: int

definition clamp_active :: "group_thresholds \<Rightarrow> bool" where
  "clamp_active t = (gt_target_bytes t > gt_declared_target_bytes t)"

definition clamping_pools :: "group_thresholds \<Rightarrow> string list" where
  "clamping_pools t =
     sort [p. (p, Some n) \<leftarrow> gt_pool_floors t, n > gt_declared_target_bytes t]"

definition floorless_pools :: "group_thresholds \<Rightarrow> string list" where
  "floorless_pools t = sort [p. (p, None) \<leftarrow> gt_pool_floors t]"

text \<open>\<open>max\<close> and \<open>min\<close> of a non-empty sequence.\<close>

fun max_of :: "int list \<Rightarrow> int" where
  "max_of [] = 0"
| "max_of [x] = x"
| "max_of (x # y # xs) = max x (max_of (y # xs))"

fun min_of :: "int list \<Rightarrow> int" where
  "min_of [] = 0"
| "min_of [x] = x"
| "min_of (x # y # xs) = min x (min_of (y # xs))"

text \<open>\<open>str(entry["pool"])\<close>.\<close>

definition entry_pool :: "jobj \<Rightarrow> string" where
  "entry_pool e = (case map_of e ''pool'' of Some (JStr s) \<Rightarrow> s | _ \<Rightarrow> [])"

definition declared_thresholds :: "catalog_db \<Rightarrow> policy_row \<Rightarrow> string \<Rightarrow> string \<Rightarrow> (string \<times> int \<times> int) list" where
  "declared_thresholds c policy artifactclass fingerprint =
     dict_set artifactclass (pr_target_bytes policy, pr_max_age_seconds policy)
       (foldl (\<lambda>d r. dict_set (pr_artifactclass r) (pr_target_bytes r, pr_max_age_seconds r) d) []
          (filter (\<lambda>r. pr_bundle_group r = Some fingerprint) (policies c)))"

definition pool_floors :: "catalog_db \<Rightarrow> basis \<Rightarrow> (string \<times> int option) list" where
  "pool_floors c b =
     (let ids = map entry_pool b
      in foldl (\<lambda>d p. dict_set (po_id p) (po_min_object_bytes p) d) (foldl (\<lambda>d i. dict_set i None d) [] ids)
           (filter (\<lambda>p. po_id p \<in> set ids) (pools c)))"

definition group_thresholds_of :: "catalog_db \<Rightarrow> string \<Rightarrow> policy_row \<Rightarrow> string \<Rightarrow> basis \<Rightarrow> group_thresholds" where
  "group_thresholds_of c artifactclass policy fingerprint b =
     (let declared = declared_thresholds c policy artifactclass fingerprint;
          declared_target = max_of (map (fst \<circ> snd) declared);
          floors = [f. Some f \<leftarrow> map snd (pool_floors c b)]
      in \<lparr>gt_declared = declared, gt_declared_target_bytes = declared_target,
          gt_max_age_seconds = min_of (map (snd \<circ> snd) declared), gt_pool_floors = pool_floors c b,
          gt_target_bytes = (if floors \<noteq> [] then max declared_target (max_of floors) else declared_target)\<rparr>)"

definition effective_group_thresholds ::
  "catalog_db \<Rightarrow> string \<Rightarrow> policy_row \<Rightarrow> string \<Rightarrow> basis \<Rightarrow> group_error + int \<times> int" where
  "effective_group_thresholds c artifactclass policy fingerprint b =
     (if b = [] then Inl (EmptyBundleGroupError artifactclass)
      else let t = group_thresholds_of c artifactclass policy fingerprint b
           in if gt_target_bytes t \<le> 0 \<or> gt_max_age_seconds t \<le> 0
              then Inl (BundleGroupError (''bundle group '' @ py_repr fingerprint @ '' derived zero thresholds''))
              else Inr (gt_target_bytes t, gt_max_age_seconds t))"

subsection \<open>Frozen witnesses and projections\<close>

definition basis_entries :: "jobj \<Rightarrow> basis" where
  "basis_entries group_basis =
     (case map_of group_basis ''basis'' of
        Some (JArr es) \<Rightarrow> [e. JObj e \<leftarrow> es, map_of e ''pool'' \<noteq> None]
      | _ \<Rightarrow> [])"

definition basis_pool_ids :: "jobj \<Rightarrow> string list" where
  "basis_pool_ids group_basis = map entry_pool (basis_entries group_basis)"

definition refresh_bundle_group_projections :: "string list \<Rightarrow> catalog_db \<Rightarrow> catalog_db" where
  "refresh_bundle_group_projections classes c =
     foldl (\<lambda>c a. c\<lparr>policies := update_where (\<lambda>r. pr_artifactclass r = a)
                     (\<lambda>r. r\<lparr>pr_bundle_group := Some (fingerprint_basis (compute_group_basis c a))\<rparr>) (policies c)\<rparr>) c classes"

section \<open>Identity\<close>

text \<open>What a fingerprint stands for: the active pools of a class with their representations.\<close>

definition placement :: "catalog_db \<Rightarrow> string \<Rightarrow> (string \<times> string) set" where
  "placement c artifactclass = set (group_rows c artifactclass)"

lemma placement_iff:
  "(i, r) \<in> placement c a \<longleftrightarrow>
   (\<exists>m \<in> set (class_pools c). ap_artifactclass m = a \<and> ap_active m \<and> ap_pool_id m = i \<and>
      (\<exists>p \<in> set (pools c). po_id p = i \<and> po_representation p = r))"
  by (auto simp: placement_def group_rows_def)

lemma group_rows_distinct_aux:
  "distinct (map ap_pool_id (filter P ms)) \<Longrightarrow> distinct (map po_id ps) \<Longrightarrow>
   distinct (map fst [(ap_pool_id m, po_representation p). m \<leftarrow> ms, P m, p \<leftarrow> ps, po_id p = ap_pool_id m])"
proof (induction ms)
  case (Cons m ms)
  have one: "length (filter (\<lambda>p. po_id p = i) xs) \<le> 1" if "distinct (map po_id xs)" for i xs
    using that
  proof (induction xs)
    case (Cons x xs)
    then have "filter (\<lambda>p. po_id p = po_id x) xs = []" by (auto simp: filter_empty_conv) (metis imageI)
    with Cons show ?case by auto
  qed simp
  let ?here = "[(ap_pool_id m, po_representation p). p \<leftarrow> ps, po_id p = ap_pool_id m]"
  have eq: "?here = map (\<lambda>p. (ap_pool_id m, po_representation p)) (filter (\<lambda>p. po_id p = ap_pool_id m) ps)"
    by (induction ps) auto
  have "distinct (map fst ?here)" unfolding eq using one [OF Cons.prems(2), of "ap_pool_id m"]
    by (cases "filter (\<lambda>p. po_id p = ap_pool_id m) ps") auto
  with Cons show ?case by auto
qed simp

lemma group_rows_distinct:
  assumes "catalog_ok c"
  shows "distinct (map fst (group_rows c a))"
proof -
  have "inj_on (\<lambda>m. (ap_artifactclass m, ap_pool_id m)) (set (class_pools c))" "distinct (class_pools c)"
    using assms by (simp_all add: catalog_ok_def distinct_map)
  then have "distinct (map ap_pool_id (filter (\<lambda>m. ap_artifactclass m = a \<and> ap_active m) (class_pools c)))"
    by (auto simp: distinct_map inj_on_def)
  then show ?thesis unfolding group_rows_def by (rule group_rows_distinct_aux) (use assms in \<open>simp add: catalog_ok_def\<close>)
qed

lemma sorted_rows_unique:
  assumes "distinct (map fst xs)" "distinct (map fst ys)" "set xs = set ys"
  shows "sort_key fst xs = sort_key fst (ys :: ('a :: linorder \<times> 'b) list)"
proof (rule map_sorted_distinct_set_unique [of fst])
  show "inj_on fst (set (sort_key fst xs) \<union> set (sort_key fst ys))" using assms by (simp add: distinct_map)
  show "distinct (map fst (sort_key fst xs))" "distinct (map fst (sort_key fst ys))"
    using assms by (simp_all add: distinct_map)
qed (use assms in simp_all)

definition basis_text :: "(string \<times> string) list \<Rightarrow> nat list" where
  "basis_text rows = utf8 (canonical_basis_json (map basis_entry rows))"

lemma fingerprint_text: "fingerprint_basis (compute_group_basis c a) = sha256_hex (basis_text (sort_key fst (group_rows c a)))"
  by (simp add: fingerprint_basis_def compute_group_basis_def basis_text_def)

lemma canonical_basis_entries:
  "canonical_basis_json (map basis_entry rows) = dumps example_fr True (JArr (map (\<lambda>r. JObj (basis_entry r)) rows))"
proof -
  have "sort_json (JObj (filter (\<lambda>(k, v). v \<noteq> JNull) (basis_entry r))) = JObj (basis_entry r)" for r
    by (simp add: basis_entry_def)
  moreover have "dumps (\<lambda>_. []) True (JObj (basis_entry r)) = dumps example_fr True (JObj (basis_entry r))" for r
    by (simp add: basis_entry_def)
  then have "join_items (dumps (\<lambda>_. []) True) (map (\<lambda>r. JObj (basis_entry r)) rows) =
      join_items (dumps example_fr True) (map (\<lambda>r. JObj (basis_entry r)) rows)"
    by (intro join_items_cong) auto
  ultimately show ?thesis by (simp add: canonical_basis_json_def comp_def)
qed

lemma basis_text_inject: "basis_text xs = basis_text ys \<longleftrightarrow> xs = ys"
proof
  assume "basis_text xs = basis_text ys"
  then have "canonical_basis_json (map basis_entry xs) = canonical_basis_json (map basis_entry ys)"
    unfolding basis_text_def by (rule utf8_inject)
  then have "map (\<lambda>r. JObj (basis_entry r)) xs = map (\<lambda>r. JObj (basis_entry r)) ys"
    unfolding canonical_basis_entries using dumps_inject [OF example_fr_ok] by fastforce
  moreover have "inj (\<lambda>r. JObj (basis_entry r))" by (auto simp: inj_def basis_entry_def prod_eq_iff)
  ultimately show "xs = ys" by (simp add: inj_map_eq_map)
qed simp

text \<open>
  C27: Two classes, of one catalog or of two states of it, belong to the same bundle group exactly when their
  active pools with their representations are the same, unless SHA-256 collides on the two canonical
  texts.  Nothing else of the catalog enters the group.
\<close>

theorem bundle_group_identity:
  assumes "catalog_ok c" "catalog_ok d"
  shows "fst (compute_bundle_group c a) = fst (compute_bundle_group d b) \<longleftrightarrow>
    placement c a = placement d b \<or>
    sha256_collision {basis_text (sort_key fst (group_rows c a)), basis_text (sort_key fst (group_rows d b))}"
proof -
  let ?r = "sort_key fst (group_rows c a)" and ?s = "sort_key fst (group_rows d b)"
  have pl: "placement c a = placement d b \<longleftrightarrow> ?r = ?s"
  proof
    assume "placement c a = placement d b"
    then show "?r = ?s" unfolding placement_def
      by (rule sorted_rows_unique [OF group_rows_distinct [OF assms(1)] group_rows_distinct [OF assms(2)]])
  next
    assume "?r = ?s"
    then have "set ?r = set ?s" by (rule arg_cong)
    then show "placement c a = placement d b" by (simp only: set_sort placement_def)
  qed
  have "fst (compute_bundle_group c a) = sha256_hex (basis_text ?r)" "fst (compute_bundle_group d b) = sha256_hex (basis_text ?s)"
    by (simp_all add: compute_bundle_group_def fingerprint_text)
  moreover have "sha256_collision {basis_text ?r, basis_text ?s} \<longleftrightarrow>
      ?r \<noteq> ?s \<and> sha256_hex (basis_text ?r) = sha256_hex (basis_text ?s)"
    using basis_text_inject [of ?r ?s] by (auto simp: sha256_collision_def)
  ultimately show ?thesis using pl by metis
qed

lemma catalog_ok_example: "catalog_ok example_catalog"
  by (simp add: catalog_ok_def example_catalog_def get_pool_def get_backend_def example_pool_def example_copy_def)

lemma group_rows_example:
  "group_rows (example_catalog\<lparr>copies := cs\<rparr>) ''vid'' = [(''A'', ''raw-bytes''), (''B'', ''raw-bytes'')]"
  "group_rows example_catalog ''vid'' = [(''A'', ''raw-bytes''), (''B'', ''raw-bytes'')]"
  by (simp_all add: group_rows_def example_catalog_def example_pool_def)

theorem bundle_group_identity_witness:
  "placement example_catalog ''vid'' = {(''A'', ''raw-bytes''), (''B'', ''raw-bytes'')} \<and>
   fst (compute_bundle_group example_catalog ''vid'') =
     fst (compute_bundle_group (example_catalog\<lparr>copies := []\<rparr>) ''vid'')"
proof -
  have "catalog_ok (example_catalog\<lparr>copies := []\<rparr>)" using catalog_ok_example
    by (simp add: catalog_ok_def get_pool_def get_backend_def)
  from bundle_group_identity [OF catalog_ok_example this, of "''vid''" "''vid''"] show ?thesis
    by (simp add: placement_def group_rows_example)
qed

section \<open>Thresholds\<close>

lemma max_of_ge: "x \<in> set xs \<Longrightarrow> x \<le> max_of xs" and max_of_in: "xs \<noteq> [] \<Longrightarrow> max_of xs \<in> set xs"
  by (induction xs rule: max_of.induct) (auto simp: max_def)

lemma min_of_le: "x \<in> set xs \<Longrightarrow> min_of xs \<le> x" and min_of_in: "xs \<noteq> [] \<Longrightarrow> min_of xs \<in> set xs"
  by (induction xs rule: min_of.induct) (auto simp: min_def)

end
