(* ===== verification/Member_Name.thy ===== *)
theory Member_Name
  imports Py_Text
begin

text \<open>
  Reversible escaping of archive member names
  (\<^verbatim>\<open>packages/sutradhara-receive/src/sutradhara_receive/member_name.py\<close>, the Python code that runs without the
  native module).  A path is bytes, a member name is text: the list of its code points.  The strict UTF-8 codec
  of the Python library comes first.
\<close>

type_synonym utext = "nat list"

section \<open>UTF-8\<close>

definition continuation :: "nat \<Rightarrow> bool" where
  "continuation b \<longleftrightarrow> 0x80 \<le> b \<and> b \<le> 0xBF"

definition surrogate :: "nat \<Rightarrow> bool" where
  "surrogate cp \<longleftrightarrow> 0xD800 \<le> cp \<and> cp \<le> 0xDFFF"

text \<open>\<open>chr(cp).encode("utf-8")\<close>; a surrogate has no encoding.\<close>

definition encode_point :: "nat \<Rightarrow> nat list option" where
  "encode_point cp =
     (if cp < 0x80 then Some [cp]
      else if cp < 0x800 then Some [0xC0 + cp div 64, 0x80 + cp mod 64]
      else if surrogate cp then None
      else if cp < 0x10000 then Some [0xE0 + cp div 4096, 0x80 + cp div 64 mod 64, 0x80 + cp mod 64]
      else if cp < 0x110000 then
        Some [0xF0 + cp div 262144, 0x80 + cp div 4096 mod 64, 0x80 + cp div 64 mod 64, 0x80 + cp mod 64]
      else None)"

fun utf8_encode :: "utext \<Rightarrow> nat list option" where
  "utf8_encode [] = Some []"
| "utf8_encode (cp # t) =
     (case encode_point cp of
        None \<Rightarrow> None
      | Some b \<Rightarrow> (case utf8_encode t of None \<Rightarrow> None | Some bs \<Rightarrow> Some (b @ bs)))"

text \<open>\<open>bytes.decode("utf-8")\<close>: no overlong forms, no surrogates, nothing above U+10FFFF.\<close>

fun utf8_decode :: "nat list \<Rightarrow> utext option" where
  "utf8_decode [] = Some []"
| "utf8_decode (a # s) =
     (if a < 0x80 then map_option ((#) a) (utf8_decode s)
      else if 0xC2 \<le> a \<and> a \<le> 0xDF then
        (case s of
           b # s' \<Rightarrow>
             if continuation b then map_option ((#) ((a - 0xC0) * 64 + (b - 0x80))) (utf8_decode s') else None
         | _ \<Rightarrow> None)
      else if 0xE0 \<le> a \<and> a \<le> 0xEF then
        (case s of
           b # c # s' \<Rightarrow>
             if continuation b \<and> continuation c \<and> (a = 0xE0 \<longrightarrow> 0xA0 \<le> b) \<and> (a = 0xED \<longrightarrow> b \<le> 0x9F)
             then map_option ((#) ((a - 0xE0) * 4096 + (b - 0x80) * 64 + (c - 0x80))) (utf8_decode s') else None
         | _ \<Rightarrow> None)
      else if 0xF0 \<le> a \<and> a \<le> 0xF4 then
        (case s of
           b # c # d # s' \<Rightarrow>
             if continuation b \<and> continuation c \<and> continuation d \<and> (a = 0xF0 \<longrightarrow> 0x90 \<le> b) \<and> (a = 0xF4 \<longrightarrow> b \<le> 0x8F)
             then map_option ((#) ((a - 0xF0) * 262144 + (b - 0x80) * 4096 + (c - 0x80) * 64 + (d - 0x80))) (utf8_decode s')
             else None
         | _ \<Rightarrow> None)
      else None)"

section \<open>Escaping\<close>

abbreviation backslash :: nat where "backslash \<equiv> 0x5C"

definition must_escape_byte :: "nat \<Rightarrow> bool" where
  "must_escape_byte b \<longleftrightarrow> b < 0x20 \<or> b = 0x7F"

definition hex_digit :: "nat \<Rightarrow> nat" where
  "hex_digit d = (if d < 10 then 48 + d else 87 + d)"

definition hex_escape :: "nat \<Rightarrow> utext" where
  "hex_escape b = [backslash, 120, hex_digit (b div 16), hex_digit (b mod 16)]"

definition utf8_sequence_len :: "nat \<Rightarrow> nat" where
  "utf8_sequence_len b =
     (if b < 0x80 then 1
      else if 0xC2 \<le> b \<and> b \<le> 0xDF then 2
      else if 0xE0 \<le> b \<and> b \<le> 0xEF then 3
      else if 0xF0 \<le> b \<and> b \<le> 0xF4 then 4
      else 0)"

text \<open>The candidate sequence at the front, when it is complete and valid.\<close>

definition decoded_candidate :: "nat list \<Rightarrow> utext option" where
  "decoded_candidate raw =
     (let n = utf8_sequence_len (hd raw) in if length (take n raw) = n then utf8_decode (take n raw) else None)"

function escape_bytes :: "nat list \<Rightarrow> utext" where
  "escape_bytes [] = []"
| "escape_bytes (b # bs) =
     (if b = backslash then [backslash, backslash] @ escape_bytes bs
      else if must_escape_byte b \<or> utf8_sequence_len b = 0 then hex_escape b @ escape_bytes bs
      else if utf8_sequence_len b = 1 then b # escape_bytes bs
      else (case decoded_candidate (b # bs) of
              Some t \<Rightarrow> t @ escape_bytes (drop (utf8_sequence_len b - 1) bs)
            | None \<Rightarrow> hex_escape b @ escape_bytes bs))"
  by pat_completeness auto
termination by (relation "measure length") auto

definition escape_member_name :: "string \<Rightarrow> utext" where
  "escape_member_name raw = escape_bytes (map of_char raw)"

section \<open>Unescaping\<close>

datatype name_error = BareBackslash | InvalidEscape nat | UnescapedControl | UnencodableCharacter

definition hex_point :: "nat \<Rightarrow> nat option" where
  "hex_point c = (if 48 \<le> c \<and> c \<le> 57 then Some (c - 48) else if 97 \<le> c \<and> c \<le> 102 then Some (c - 87) else None)"

text \<open>\<open>int(raw_hex, 16)\<close> when the two characters are lower-case hexadecimal digits.\<close>

fun lower_hex_pair :: "utext \<Rightarrow> nat option" where
  "lower_hex_pair (h # l # _) =
     (case (hex_point h, hex_point l) of (Some x, Some y) \<Rightarrow> Some (16 * x + y) | _ \<Rightarrow> None)"
| "lower_hex_pair _ = None"

function unescape_from :: "nat \<Rightarrow> utext \<Rightarrow> name_error + nat list" where
  "unescape_from i [] = Inr []"
| "unescape_from i (c # t) =
     (if c = backslash then
        (case t of
           [] \<Rightarrow> Inl BareBackslash
         | m # t' \<Rightarrow>
             if m = backslash then res_bind (unescape_from (i + 2) t') (\<lambda>bs. Inr (0x5C # bs))
             else (case (if m = 120 then lower_hex_pair t' else None) of
                     Some b \<Rightarrow> res_bind (unescape_from (i + 4) (drop 2 t')) (\<lambda>bs. Inr (b # bs))
                   | None \<Rightarrow> Inl (InvalidEscape i)))
      else if c < 0x20 \<or> c = 0x7F then Inl UnescapedControl
      else (case encode_point c of
              None \<Rightarrow> Inl UnencodableCharacter
            | Some b \<Rightarrow> res_bind (unescape_from (i + 1) t) (\<lambda>bs. Inr (b @ bs))))"
  by pat_completeness auto
termination by (relation "measure (length \<circ> snd)") auto

definition unescape_member_name :: "utext \<Rightarrow> name_error + string" where
  "unescape_member_name t = res_bind (unescape_from 0 t) (\<lambda>bs. Inr (map char_of bs))"

section \<open>Paths\<close>

text \<open>\<open>os.fsencode(Path(path).name)\<close> of a path given by its bytes.\<close>

definition posix_name :: "string \<Rightarrow> string" where
  "posix_name p =
     (let parts = filter (\<lambda>x. x \<noteq> [] \<and> x \<noteq> ''.'') (split_at (CHR ''/'') p) in if parts = [] then [] else last parts)"

definition escape_path_name :: "string \<Rightarrow> utext" where
  "escape_path_name p = escape_member_name (posix_name p)"

text \<open>\<open>path.encode("utf-8", "surrogateescape")\<close>; \<open>None\<close>: it raises.\<close>

fun surrogateescape_encode :: "utext \<Rightarrow> nat list option" where
  "surrogateescape_encode [] = Some []"
| "surrogateescape_encode (cp # t) =
     (case (if 0xDC80 \<le> cp \<and> cp \<le> 0xDCFF then Some [cp - 0xDC00] else encode_point cp) of
        None \<Rightarrow> None
      | Some b \<Rightarrow> (case surrogateescape_encode t of None \<Rightarrow> None | Some bs \<Rightarrow> Some (b @ bs)))"

definition escape_path_text :: "utext \<Rightarrow> utext option" where
  "escape_path_text t = map_option escape_bytes (surrogateescape_encode t)"

section \<open>Round trips\<close>

lemma continuation_split: "continuation b \<Longrightarrow> \<exists>x. b = 0x80 + x \<and> x < 64"
  by (rule exI [of _ "b - 0x80"]) (auto simp: continuation_def)

lemma div_mod_64: "x < (64 :: nat) \<Longrightarrow> (n * 64 + x) div 64 = n \<and> (n * 64 + x) mod 64 = x"
  by simp

lemma div_64_steps: "(n :: nat) div 4096 = n div 64 div 64" "n div 262144 = n div 64 div 64 div 64"
  by (simp_all add: div_mult2_eq [symmetric])

lemma encode_decoded2:
  assumes "0xC2 \<le> a" "a \<le> 0xDF" "continuation b" "cp = (a - 0xC0) * 64 + (b - 0x80)"
  shows "encode_point cp = Some [a, b] \<and> 0x80 \<le> cp"
proof -
  obtain x where x: "b = 0x80 + x" "x < 64" using continuation_split [OF assms(3)] by blast
  obtain y where y: "a = 0xC0 + y" by (rule that [of "a - 0xC0"]) (use assms(1) in simp)
  have cp: "cp = y * 64 + x" using assms(4) x y by simp
  have "0x80 \<le> cp" "cp < 0x800" using assms(1,2) x y cp by auto
  then show ?thesis using div_mod_64 [OF x(2), of y] x y unfolding cp by (simp add: encode_point_def)
qed

lemma encode_decoded3:
  assumes "0xE0 \<le> a" "a \<le> 0xEF" "continuation b" "continuation c" "a = 0xE0 \<longrightarrow> 0xA0 \<le> b" "a = 0xED \<longrightarrow> b \<le> 0x9F"
    and "cp = (a - 0xE0) * 4096 + (b - 0x80) * 64 + (c - 0x80)"
  shows "encode_point cp = Some [a, b, c] \<and> 0x80 \<le> cp"
proof -
  obtain x where x: "b = 0x80 + x" "x < 64" using continuation_split [OF assms(3)] by blast
  obtain z where z: "c = 0x80 + z" "z < 64" using continuation_split [OF assms(4)] by blast
  obtain y where y: "a = 0xE0 + y" by (rule that [of "a - 0xE0"]) (use assms(1) in simp)
  have cp: "cp = (y * 64 + x) * 64 + z" using assms(7) x y z by (simp add: algebra_simps)
  have r: "0x800 \<le> cp" "cp < 0x10000" "\<not> surrogate cp"
    using assms(2,5,6) x y z cp by (cases y rule: linorder_cases [of _ 13]; cases "y = 0"; auto simp: surrogate_def)+
  have "cp div 64 = y * 64 + x" "cp mod 64 = z" "cp div 64 mod 64 = x" "cp div 4096 = y"
    using div_mod_64 [OF z(2), of "y * 64 + x"] div_mod_64 [OF x(2), of y] unfolding cp div_64_steps by simp_all
  then show ?thesis using r x y z by (simp add: encode_point_def)
qed

lemma encode_decoded4:
  assumes "0xF0 \<le> a" "a \<le> 0xF4" "continuation b" "continuation c" "continuation d"
    and "a = 0xF0 \<longrightarrow> 0x90 \<le> b" "a = 0xF4 \<longrightarrow> b \<le> 0x8F"
    and "cp = (a - 0xF0) * 262144 + (b - 0x80) * 4096 + (c - 0x80) * 64 + (d - 0x80)"
  shows "encode_point cp = Some [a, b, c, d] \<and> 0x80 \<le> cp"
proof -
  obtain x where x: "b = 0x80 + x" "x < 64" using continuation_split [OF assms(3)] by blast
  obtain z where z: "c = 0x80 + z" "z < 64" using continuation_split [OF assms(4)] by blast
  obtain u where u: "d = 0x80 + u" "u < 64" using continuation_split [OF assms(5)] by blast
  obtain y where y: "a = 0xF0 + y" by (rule that [of "a - 0xF0"]) (use assms(1) in simp)
  have cp: "cp = ((y * 64 + x) * 64 + z) * 64 + u" using assms(8) x y z u by (simp add: algebra_simps)
  have r: "0x10000 \<le> cp" "cp < 0x110000"
    using assms(2,6,7) x y z u cp by (cases "y = 0"; cases "y = 4"; auto)+
  have "cp div 64 mod 64 = z" "cp mod 64 = u" "cp div 4096 mod 64 = x" "cp div 262144 = y"
    using div_mod_64 [OF u(2), of "(y * 64 + x) * 64 + z"] div_mod_64 [OF z(2), of "y * 64 + x"] div_mod_64 [OF x(2), of y]
    unfolding cp div_64_steps by simp_all
  then show ?thesis using r x y z u by (simp add: encode_point_def surrogate_def)
qed

text \<open>A complete candidate is one sequence, and encodes back to itself.\<close>

lemma decoded_candidate_single:
  assumes "decoded_candidate (b # bs) = Some t" "2 \<le> utf8_sequence_len b"
  shows "\<exists>cp. t = [cp] \<and> 0x80 \<le> cp \<and> encode_point cp = Some (take (utf8_sequence_len b) (b # bs))"
proof -
  let ?n = "utf8_sequence_len b"
  from assms(2) consider (two) "0xC2 \<le> b" "b \<le> 0xDF" "?n = 2" | (three) "0xE0 \<le> b" "b \<le> 0xEF" "?n = 3"
    | (four) "0xF0 \<le> b" "b \<le> 0xF4" "?n = 4" by (auto simp: utf8_sequence_len_def split: if_splits)
  then show ?thesis
  proof cases
    case two
    with assms(1) obtain c r where "bs = c # r" "continuation c" "t = [(b - 0xC0) * 64 + (c - 0x80)]"
      by (cases bs) (auto simp: decoded_candidate_def Let_def split: if_splits)
    with two encode_decoded2 [of b c] show ?thesis by auto
  next
    case three
    with assms(1) obtain c d r where "bs = c # d # r" "continuation c" "continuation d"
      "b = 0xE0 \<longrightarrow> 0xA0 \<le> c" "b = 0xED \<longrightarrow> c \<le> 0x9F" "t = [(b - 0xE0) * 4096 + (c - 0x80) * 64 + (d - 0x80)]"
      by (cases bs; cases "tl bs") (auto simp: decoded_candidate_def Let_def split: if_splits)
    with three encode_decoded3 [of b c d] show ?thesis by simp
  next
    case four
    with assms(1) obtain c d e r where "bs = c # d # e # r" "continuation c" "continuation d" "continuation e"
      "b = 0xF0 \<longrightarrow> 0x90 \<le> c" "b = 0xF4 \<longrightarrow> c \<le> 0x8F"
      "t = [(b - 0xF0) * 262144 + (c - 0x80) * 4096 + (d - 0x80) * 64 + (e - 0x80)]"
      by (cases bs; cases "tl bs"; cases "tl (tl bs)") (auto simp: decoded_candidate_def Let_def split: if_splits)
    with four encode_decoded4 [of b c d e] show ?thesis by simp
  qed
qed

lemma lower_hex_pair_digits: "b < 256 \<Longrightarrow> lower_hex_pair (hex_digit (b div 16) # hex_digit (b mod 16) # t) = Some b"
proof -
  assume "b < 256"
  have "hex_point (hex_digit d) = Some d" if "d < 16" for d using that by (auto simp: hex_point_def hex_digit_def)
  with \<open>b < 256\<close> show ?thesis by (simp add: div_less_iff_less_mult)
qed

lemma unescape_hex:
  "b < 256 \<Longrightarrow> unescape_from i (hex_escape b @ t) = res_bind (unescape_from (i + 4) t) (\<lambda>bs. Inr (b # bs))"
  by (simp add: hex_escape_def lower_hex_pair_digits del: lower_hex_pair.simps)

lemma unescape_point:
  "encode_point cp = Some b \<Longrightarrow> 0x80 \<le> cp \<Longrightarrow>
   unescape_from i (cp # t) = res_bind (unescape_from (i + 1) t) (\<lambda>bs. Inr (b @ bs))"
  by simp

lemma unescape_escape_bytes: "list_all (\<lambda>b. b < 256) bs \<Longrightarrow> unescape_from i (escape_bytes bs) = Inr bs"
proof (induction bs arbitrary: i rule: escape_bytes.induct)
  case (2 b bs)
  let ?n = "utf8_sequence_len b"
  have b: "b < 256" "list_all (\<lambda>b. b < 256) bs" using 2(6) by simp_all
  have rest: "unescape_from i (escape_bytes bs) = Inr bs" if "b = backslash \<or> must_escape_byte b \<or> ?n = 0 \<or> ?n = 1 \<or> decoded_candidate (b # bs) = None" for i
    using that 2 b(2) by blast
  consider (slash) "b = backslash" | (hex) "b \<noteq> backslash" "must_escape_byte b \<or> ?n = 0"
    | (plain) "b \<noteq> backslash" "\<not> must_escape_byte b" "?n = 1"
    | (bad) "b \<noteq> backslash" "\<not> must_escape_byte b" "?n \<noteq> 0" "?n \<noteq> 1" "decoded_candidate (b # bs) = None"
    | (seq) t where "b \<noteq> backslash" "\<not> must_escape_byte b" "2 \<le> ?n" "decoded_candidate (b # bs) = Some t"
    by (cases "decoded_candidate (b # bs)"; cases "?n = 0"; cases "?n = 1"; cases "b = backslash") force+
  then show ?case
  proof cases
    case slash
    have "unescape_from j (escape_bytes bs) = Inr bs" for j using slash by (intro rest) simp
    then show ?thesis using slash by simp
  next
    case hex
    have "unescape_from j (escape_bytes bs) = Inr bs" for j using hex by (intro rest) blast
    then show ?thesis using hex unescape_hex [OF b(1)] by simp
  next
    case plain
    then have "encode_point b = Some [b]" "\<not> (b < 0x20 \<or> b = 0x7F)"
      by (auto simp: encode_point_def utf8_sequence_len_def must_escape_byte_def split: if_splits)
    moreover have "unescape_from j (escape_bytes bs) = Inr bs" for j using plain by (intro rest) simp
    ultimately show ?thesis using plain by simp
  next
    case bad
    have "unescape_from j (escape_bytes bs) = Inr bs" for j using bad by (intro rest) simp
    then show ?thesis using bad unescape_hex [OF b(1)] by simp
  next
    case seq
    from decoded_candidate_single [OF seq(4,3)] obtain cp where
      cp: "t = [cp]" "0x80 \<le> cp" "encode_point cp = Some (take ?n (b # bs))" by blast
    have "list_all (\<lambda>b. b < 256) (drop (?n - 1) bs)" using b(2) by (auto simp: list_all_iff dest: in_set_dropD)
    with seq 2(5) have IH: "unescape_from i (escape_bytes (drop (?n - 1) bs)) = Inr (drop (?n - 1) bs)" for i by auto
    have "take ?n (b # bs) @ drop (?n - 1) bs = b # bs" using seq(3) by (cases ?n) auto
    then show ?thesis using seq cp IH unescape_point [OF cp(3,2)] by simp
  qed
qed simp

section \<open>Printable text passes through\<close>

lemma decoded_candidate_append:
  "utf8_sequence_len a = Suc (length s) \<Longrightarrow> decoded_candidate (a # s @ r) = utf8_decode (a # s)"
  by (simp add: decoded_candidate_def)

lemma decoded_two:
  assumes "2 \<le> x" "x < 32" "y < 64"
  shows "decoded_candidate ([0xC0 + x, 0x80 + y] @ r) = Some [x * 64 + y] \<and> utf8_sequence_len (0xC0 + x) = 2"
  using assms decoded_candidate_append [of "0xC0 + x" "[0x80 + y]" r]
  by (simp add: utf8_sequence_len_def continuation_def)

lemma decoded_three:
  assumes "x < 16" "y < 64" "z < 64" "x = 0 \<longrightarrow> 32 \<le> y" "x = 13 \<longrightarrow> y \<le> 31"
  shows "decoded_candidate ([0xE0 + x, 0x80 + y, 0x80 + z] @ r) = Some [(x * 64 + y) * 64 + z] \<and> utf8_sequence_len (0xE0 + x) = 3"
  using assms decoded_candidate_append [of "0xE0 + x" "[0x80 + y, 0x80 + z]" r]
  by (simp add: utf8_sequence_len_def continuation_def)

lemma decoded_four:
  assumes "w < 5" "x < 64" "y < 64" "z < 64" "w = 0 \<longrightarrow> 16 \<le> x" "w = 4 \<longrightarrow> x \<le> 15"
  shows "decoded_candidate ([0xF0 + w, 0x80 + x, 0x80 + y, 0x80 + z] @ r) = Some [((w * 64 + x) * 64 + y) * 64 + z] \<and>
    utf8_sequence_len (0xF0 + w) = 4"
  using assms decoded_candidate_append [of "0xF0 + w" "[0x80 + x, 0x80 + y, 0x80 + z]" r]
  by (simp add: utf8_sequence_len_def continuation_def)

lemma decoded_encoded:
  assumes "encode_point cp = Some b" "0x80 \<le> cp"
  shows "decoded_candidate (b @ r) = Some [cp] \<and> length b = utf8_sequence_len (hd b) \<and> b \<noteq> [] \<and> 0xC2 \<le> hd b"
proof -
  obtain x y where xy: "cp = x * 64 + y" "y < 64" "x = cp div 64" "y = cp mod 64" by simp
  consider (two) "cp < 0x800" | (three) "0x800 \<le> cp" "cp < 0x10000" "\<not> surrogate cp" | (four) "0x10000 \<le> cp" "cp < 0x110000"
    using assms by (auto simp: encode_point_def split: if_splits)
  then show ?thesis
  proof cases
    case two
    have "2 \<le> x" "x < 32" using two assms(2) xy(1,2) by auto
    moreover have "b = [0xC0 + x, 0x80 + y]" using two assms xy(3,4) by (simp add: encode_point_def)
    ultimately show ?thesis using decoded_two [of x y r] xy(1,2) by simp
  next
    case three
    obtain u v where uv: "x = u * 64 + v" "v < 64" "u = x div 64" "v = x mod 64" by simp
    have "u < 16" "u = 0 \<longrightarrow> 32 \<le> v" "u = 13 \<longrightarrow> v \<le> 31" using three xy(1,2) uv(1,2) by (auto simp: surrogate_def)
    moreover have "b = [0xE0 + u, 0x80 + v, 0x80 + y]"
      using three assms uv(3,4) xy(3,4) by (simp add: encode_point_def div_64_steps)
    ultimately show ?thesis using decoded_three [of u v y r] xy(1,2) uv(1,2) by simp
  next
    case four
    obtain u v where uv: "x = u * 64 + v" "v < 64" "u = x div 64" "v = x mod 64" by simp
    obtain s t where st: "u = s * 64 + t" "t < 64" "s = u div 64" "t = u mod 64" by simp
    have "s < 5" "s = 0 \<longrightarrow> 16 \<le> t" "s = 4 \<longrightarrow> t \<le> 15" using four xy(1,2) uv(1,2) st(1,2) by auto
    moreover have "b = [0xF0 + s, 0x80 + t, 0x80 + v, 0x80 + y]"
      using four assms uv(3,4) xy(3,4) st(3,4) by (simp add: encode_point_def div_64_steps surrogate_def)
    ultimately show ?thesis using decoded_four [of s t v y r] xy(1,2) uv(1,2) st(1,2) by simp
  qed
qed

lemma escape_encoded_point:
  assumes "encode_point cp = Some b" "cp \<noteq> backslash" "\<not> must_escape_byte cp"
  shows "escape_bytes (b @ r) = cp # escape_bytes r"
proof (cases "cp < 0x80")
  case True
  then have "b = [cp]" using assms by (simp add: encode_point_def)
  then show ?thesis using True assms(2,3) by (simp add: utf8_sequence_len_def)
next
  case False
  from decoded_encoded [OF assms(1)] False have d: "decoded_candidate (b @ r) = Some [cp]" "length b = utf8_sequence_len (hd b)"
    "b \<noteq> []" "0xC2 \<le> hd b" by (simp_all add: not_less)
  obtain h bs where b: "b = h # bs" using d(3) by (cases b) auto
  have "2 \<le> utf8_sequence_len h" "\<not> must_escape_byte h" "h \<noteq> backslash"
    using d b by (auto simp: utf8_sequence_len_def must_escape_byte_def split: if_splits)
  then show ?thesis using d b by simp
qed

lemma escape_printable:
  "utf8_encode t = Some bs \<Longrightarrow> \<forall>cp \<in> set t. cp \<noteq> backslash \<and> \<not> must_escape_byte cp \<Longrightarrow> escape_bytes bs = t"
proof (induction t arbitrary: bs)
  case (Cons cp t)
  then obtain b r where "encode_point cp = Some b" "utf8_encode t = Some r" "bs = b @ r" by (auto split: option.splits)
  with Cons escape_encoded_point [of cp b r] show ?case by simp
qed simp

text \<open>
  C28: Escaping a member name loses nothing: unescaping gives back the raw bytes, whatever they are, so no two
  raw names share an escaped one.  The bytes of a printable text without backslashes are shown as that text.
\<close>

theorem member_name_round_trip:
  "unescape_member_name (escape_member_name raw) = Inr raw \<and>
   (utf8_encode t = Some (map of_char raw) \<and> (\<forall>cp \<in> set t. cp \<noteq> backslash \<and> \<not> must_escape_byte cp) \<longrightarrow>
      escape_member_name raw = t)"
proof -
  have "list_all (\<lambda>b. b < 256) (map of_char raw :: nat list)" by (simp add: list_all_iff)
  then have "unescape_from 0 (escape_member_name raw) = Inr (map of_char raw)"
    unfolding escape_member_name_def by (rule unescape_escape_bytes)
  then show ?thesis using escape_printable by (simp add: unescape_member_name_def escape_member_name_def comp_def)
qed

theorem member_name_round_trip_witness:
  "unescape_member_name (escape_member_name [CHR 0x5C, CHR 0x0A, CHR 0xFF, CHR ''a'']) = Inr [CHR 0x5C, CHR 0x0A, CHR 0xFF, CHR ''a''] \<and>
   escape_member_name [CHR ''a'', CHR 0xC3, CHR 0xA9] = [97, 233]"
  using member_name_round_trip [of "[CHR 0x5C, CHR 0x0A, CHR 0xFF, CHR ''a'']" "[]"]
    member_name_round_trip [of "[CHR ''a'', CHR 0xC3, CHR 0xA9]" "[97, 233]"]
  by (simp add: encode_point_def must_escape_byte_def)

end
