(* ===== verification/Archive_Bundle.thy ===== *)
theory Archive_Bundle
  imports Bundle_Group Member_Name Py_Hex Job_Models
begin

text \<open>
  Archive bundles (\<^verbatim>\<open>src/sutradhara/archive_bundle.py\<close>): the open accumulator of a group, the naming ladder,
  enqueueing, the claim and the seal of a flush, and the rows recorded beside a bundle.  A session is a state
  of the catalog; what other processes commit while it runs is a function applied where the code reads first
  and writes later.  A member path is held as the UTF-8 bytes of its text, which keeps its order and its
  ASCII separators.  Exceptions carry the object that their message names.
\<close>

section \<open>Vocabulary\<close>

datatype archive_error =
    ArchiveValueError string
  | UnknownBundleAsset bytes
  | UnknownBundlePool string
  | UnknownBundleCopy nat
  | AssetLocatorError string
  | BundleStateError string
  | StagingTransformError string
  | BundleClaimLost string
  | MemberNamingError string
  | GroupFailed group_error
  | ArchiveIntegrityError

definition lift_group :: "group_error + 'a \<Rightarrow> archive_error + 'a" where
  "lift_group r = (case r of Inl e \<Rightarrow> Inl (GroupFailed e) | Inr x \<Rightarrow> Inr x)"

definition set_bundle :: "string \<Rightarrow> (bundle_row \<Rightarrow> bundle_row) \<Rightarrow> catalog_db \<Rightarrow> catalog_db" where
  "set_bundle i f c = c\<lparr>bundles := update_where (\<lambda>b. bu_id b = i) f (bundles c)\<rparr>"

definition copy_by_id :: "catalog_db \<Rightarrow> nat \<Rightarrow> copy_row option" where
  "copy_by_id c i = find (\<lambda>r. cp_id r = i) (copies c)"

definition require_asset :: "catalog_db \<Rightarrow> bytes \<Rightarrow> archive_error + unit" where
  "require_asset c h =
     (if length h \<noteq> 32 then Inl (ArchiveValueError ''logical_asset_hash must be a 32-byte SHA-256 hash'')
      else if h \<notin> set (logical_assets c) then Inl (UnknownBundleAsset h)
      else Inr ())"

section \<open>Submission links\<close>

definition SUBMISSION_LINKS_KEY :: string where
  "SUBMISSION_LINKS_KEY = ''submission_links''"

text \<open>A Python \<open>bool\<close> is an \<open>int\<close>.\<close>

definition submission_link_of :: "json \<Rightarrow> (string \<times> int) list" where
  "submission_link_of e =
     (case e of
        JObj d \<Rightarrow>
          (case (map_of d ''submission_id'', map_of d ''submission_member_id'') of
             (Some (JStr s), Some (JInt i)) \<Rightarrow> [(s, i)]
           | (Some (JStr s), Some (JBool b)) \<Rightarrow> [(s, if b then 1 else 0)]
           | _ \<Rightarrow> [])
      | _ \<Rightarrow> [])"

definition submission_links :: "jobj option \<Rightarrow> (string \<times> int) list" where
  "submission_links metadata =
     (case map_of (case metadata of None \<Rightarrow> [] | Some d \<Rightarrow> d) SUBMISSION_LINKS_KEY of
        Some (JArr es) \<Rightarrow> concat (map submission_link_of es)
      | _ \<Rightarrow> [])"

definition link_json :: "string \<times> int \<Rightarrow> json" where
  "link_json l = JObj [(''submission_id'', JStr (fst l)), (''submission_member_id'', JInt (snd l))]"

definition submission_link_metadata :: "string \<Rightarrow> int \<Rightarrow> jobj" where
  "submission_link_metadata submission_id submission_member_id =
     [(SUBMISSION_LINKS_KEY, JArr [link_json (submission_id, submission_member_id)])]"

definition merge_entry :: "jobj \<times> bool \<Rightarrow> string \<times> json \<Rightarrow> jobj \<times> bool" where
  "merge_entry acc entry =
     (case (acc, entry) of
        ((merged, changed), (key, v)) \<Rightarrow>
          if key = SUBMISSION_LINKS_KEY
          then let existing = submission_links (Some merged);
                   added = filter (\<lambda>l. l \<notin> set existing) (submission_links (Some [(SUBMISSION_LINKS_KEY, v)]))
               in if added = [] then (merged, changed)
                  else (dict_set key (JArr (map link_json (existing @ added))) merged, True)
          else if map_of merged key = None then (dict_set key v merged, True)
          else (merged, changed))"

definition merge_metadata :: "jobj option \<Rightarrow> jobj option \<Rightarrow> jobj option \<times> bool" where
  "merge_metadata stored incoming =
     (let d = (case incoming of None \<Rightarrow> [] | Some d \<Rightarrow> d);
          (merged, changed) = foldl merge_entry (case stored of None \<Rightarrow> [] | Some s \<Rightarrow> s, False) d
      in if changed then (Some merged, True) else (stored, False))"

definition merge_member_source_metadata :: "bundle_member \<Rightarrow> jobj option \<Rightarrow> catalog_db \<Rightarrow> catalog_db \<times> bundle_member" where
  "merge_member_source_metadata m incoming c =
     (let merged = fst (merge_metadata (bm_source_metadata m) incoming)
      in (c\<lparr>bundle_members := update_where (\<lambda>r. bm_id r = bm_id m) (\<lambda>r. r\<lparr>bm_source_metadata := merged\<rparr>) (bundle_members c)\<rparr>,
          m\<lparr>bm_source_metadata := merged\<rparr>))"

section \<open>Accumulators\<close>

definition open_accumulator :: "bundle_row \<Rightarrow> bool" where
  "open_accumulator b = (bu_status b = ''open'' \<and> bu_archive_id b = None)"

definition first_opened :: "bundle_row list \<Rightarrow> bundle_row option" where
  "first_opened bs = (case sort_key (\<lambda>b. (bu_opened_at b, bu_id b)) bs of [] \<Rightarrow> None | b # _ \<Rightarrow> Some b)"

definition find_open_accumulator :: "catalog_db \<Rightarrow> string \<Rightarrow> bundle_row option" where
  "find_open_accumulator c fingerprint =
     first_opened (filter (\<lambda>b. bu_group b = fingerprint \<and> open_accumulator b) (bundles c))"

text \<open>The insert of a bundle row: the primary key and the partial index on open accumulators.\<close>

definition insert_bundle :: "bundle_row \<Rightarrow> catalog_db \<Rightarrow> catalog_db option" where
  "insert_bundle b c =
     (if bu_id b \<in> set (map bu_id (bundles c)) \<or>
         (open_accumulator b \<and> (\<exists>r \<in> set (bundles c). open_accumulator r \<and> bu_group r = bu_group b))
      then None else Some (c\<lparr>bundles := bundles c @ [b]\<rparr>))"

definition witness_threshold :: "bundle_row \<Rightarrow> string \<Rightarrow> json option" where
  "witness_threshold b key =
     (case map_of (bu_group_basis b) ''effective'' of Some (JObj e) \<Rightarrow> map_of e key | _ \<Rightarrow> None)"

definition assert_open_witness :: "bundle_row \<Rightarrow> archive_error + unit" where
  "assert_open_witness b =
     (if witness_threshold b ''target_bytes'' \<noteq> Some (JInt (bu_target_bytes b)) \<or>
         witness_threshold b ''max_age_seconds'' \<noteq> Some (JInt (bu_max_age_seconds b))
      then Inl (BundleStateError (bu_id b)) else Inr ())"

definition new_bundle :: "string \<Rightarrow> basis \<Rightarrow> int \<Rightarrow> int \<Rightarrow> string \<Rightarrow> time \<Rightarrow> archive_error + bundle_row" where
  "new_bundle fingerprint b target_bytes max_age_seconds resolved_id now =
     res_bind (lift_group (group_basis_document b ''derived'' target_bytes max_age_seconds)) (\<lambda>document.
       let r = \<lparr>bu_id = resolved_id, bu_group = fingerprint, bu_group_basis = document, bu_status = ''open'',
                bu_total_bytes = 0, bu_member_count = 0, bu_target_bytes = target_bytes,
                bu_max_age_seconds = max_age_seconds, bu_archive_id = None, bu_scan_summary = None,
                bu_review_summary = None, bu_customer_manifest_path = None, bu_claimed_by = None,
                bu_opened_at = now, bu_flushed_at = None, bu_sealed_at = None, bu_held_at = None\<rparr>
       in res_bind (assert_open_witness r) (\<lambda>_. Inr r))"

text \<open>\<open>bundle_id or f"bundle-{uuid4().hex}"\<close>; the random text is an argument.\<close>

definition resolved_bundle_id :: "string option \<Rightarrow> string \<Rightarrow> string" where
  "resolved_bundle_id bundle_id uuid =
     (case bundle_id of None \<Rightarrow> ''bundle-'' @ uuid | Some i \<Rightarrow> if i = [] then ''bundle-'' @ uuid else i)"

definition get_or_create_open_bundle ::
  "(catalog_db \<Rightarrow> catalog_db) \<Rightarrow> string \<Rightarrow> policy_row \<Rightarrow> string \<Rightarrow> time \<Rightarrow> catalog_db \<Rightarrow>
   archive_error + catalog_db \<times> bundle_row \<times> bool" where
  "get_or_create_open_bundle others artifactclass policy resolved_id now c =
     (let (fingerprint, b) = compute_bundle_group c artifactclass in
      case find_open_accumulator c fingerprint of
        Some existing \<Rightarrow> res_bind (assert_open_witness existing) (\<lambda>_. Inr (c, existing, False))
      | None \<Rightarrow>
          res_bind (lift_group (effective_group_thresholds c artifactclass policy fingerprint b)) (\<lambda>(target_bytes, max_age).
          res_bind (new_bundle fingerprint b target_bytes max_age resolved_id now) (\<lambda>bundle.
            let c = others c in
            case insert_bundle bundle c of
              Some c' \<Rightarrow> Inr (c', bundle, True)
            | None \<Rightarrow> (case find_open_accumulator c fingerprint of
                         None \<Rightarrow> Inl (BundleStateError fingerprint)
                       | Some winner \<Rightarrow> Inr (c, winner, False)))))"

section \<open>Member names\<close>

text \<open>\<open>str.rpartition("/")\<close>: the head, the separator found, and the base.\<close>

definition base_name :: "string \<Rightarrow> string" where
  "base_name p = rev (takeWhile (\<lambda>x. x \<noteq> CHR ''/'') (rev p))"

definition head_slash :: "string \<Rightarrow> string" where
  "head_slash p = rev (dropWhile (\<lambda>x. x \<noteq> CHR ''/'') (rev p))"

definition tag_member_path :: "string \<Rightarrow> string \<Rightarrow> string" where
  "tag_member_path member_path tag =
     (case partition_at (CHR ''.'') (base_name member_path) of
        (stem, dot, rest) \<Rightarrow>
          head_slash member_path @ (if dot then stem @ ''.'' @ tag @ ''.'' @ rest else stem @ ''.'' @ tag))"

definition ends_with :: "string \<Rightarrow> string \<Rightarrow> bool" where
  "ends_with p s = (length p \<le> length s \<and> drop (length s - length p) s = p)"

definition extract_member_tag :: "string \<Rightarrow> string \<Rightarrow> string option" where
  "extract_member_tag requested actual =
     (if actual = requested then None
      else if butlast (head_slash requested) \<noteq> butlast (head_slash actual) then None
      else case partition_at (CHR ''.'') (base_name requested) of
        (stem, dot, rest) \<Rightarrow>
          let prefix = stem @ ''.''; a_base = base_name actual in
          if \<not> starts_with prefix a_base then None
          else let remainder = drop (length prefix) a_base in
            if dot
            then let suffix = ''.'' @ rest in
              if \<not> ends_with suffix remainder \<or> length remainder \<le> length suffix then None
              else Some (take (length remainder - length suffix) remainder)
            else if remainder = [] then None else Some remainder)"

definition slug_char :: "char \<Rightarrow> bool" where
  "slug_char x =
     (let k = of_char x :: nat in
      (48 \<le> k \<and> k \<le> 57) \<or> (65 \<le> k \<and> k \<le> 90) \<or> (97 \<le> k \<and> k \<le> 122) \<or> x = CHR ''_'' \<or> x = CHR ''-'')"

text \<open>\<open>re.sub("[^A-Za-z0-9_-]+", "-", s)\<close>; the flag says that a run of other characters is open.\<close>

fun slug_from :: "bool \<Rightarrow> string \<Rightarrow> string" where
  "slug_from run [] = []"
| "slug_from run (x # xs) =
     (if slug_char x then x # slug_from False xs
      else if run then slug_from True xs else CHR ''-'' # slug_from True xs)"

definition class_slug :: "string \<Rightarrow> string" where
  "class_slug artifactclass = (let s = slug_from False artifactclass in if s = [] then ''class'' else s)"

definition class_seed :: "string \<Rightarrow> string" where
  "class_seed artifactclass = take 12 (sha256_hex (utf8 artifactclass))"

definition NAME_LADDER_PREFIXES :: "nat list" where
  "NAME_LADDER_PREFIXES = [10, 20, 32, 48, 64]"

definition name_ladder :: "string \<Rightarrow> bytes \<Rightarrow> string \<Rightarrow> string list" where
  "name_ladder requested file_sha256 artifactclass =
     (let digest = hex_of file_sha256 in
      requested # map (\<lambda>n. tag_member_path requested (take n digest)) NAME_LADDER_PREFIXES @
      [tag_member_path requested (digest @ ''.'' @ class_slug artifactclass @ ''-'' @ class_seed artifactclass)])"

text \<open>\<open>one_or_none\<close> of the unique pair of bundle and path.\<close>

definition member_at :: "catalog_db \<Rightarrow> string \<Rightarrow> string \<Rightarrow> bundle_member option" where
  "member_at c bundle_id path = find (\<lambda>m. bm_bundle_id m = bundle_id \<and> bm_member_path m = path) (bundle_members c)"

fun climb :: "catalog_db \<Rightarrow> string \<Rightarrow> string \<Rightarrow> bytes \<Rightarrow> bundle_member option \<Rightarrow> string list \<Rightarrow>
    (string \<times> bundle_member option \<times> bundle_member option) option" where
  "climb c bundle_id artifactclass h first_occupant [] = None"
| "climb c bundle_id artifactclass h first_occupant (candidate # rungs) =
     (case member_at c bundle_id candidate of
        None \<Rightarrow> Some (candidate, None, first_occupant)
      | Some row \<Rightarrow>
          if bm_artifactclass row = artifactclass \<and> bm_asset_hash row = h then Some (candidate, Some row, first_occupant)
          else climb c bundle_id artifactclass h (case first_occupant of None \<Rightarrow> Some row | o' \<Rightarrow> o') rungs)"

definition resolve_member_name ::
  "catalog_db \<Rightarrow> string \<Rightarrow> string \<Rightarrow> string \<Rightarrow> bytes \<Rightarrow> bytes \<Rightarrow>
   archive_error + string \<times> bundle_member option \<times> bundle_member option" where
  "resolve_member_name c bundle_id artifactclass requested file_sha256 h =
     (case climb c bundle_id artifactclass h None (name_ladder requested file_sha256 artifactclass) of
        None \<Rightarrow> Inl (MemberNamingError requested)
      | Some r \<Rightarrow> Inr r)"

section \<open>Members\<close>

record member_request =
  mr_artifactclass :: string
  mr_asset_hash :: bytes
  mr_member_path :: string
  mr_source_path :: "string option"
  mr_size_bytes :: int
  mr_file_sha256 :: bytes
  mr_source_metadata :: "jobj option"

definition new_member :: "time \<Rightarrow> string \<Rightarrow> string \<Rightarrow> member_request \<Rightarrow> nat \<Rightarrow> bundle_member" where
  "new_member now bundle_id final_path q i =
     \<lparr>bm_id = i, bm_bundle_id = bundle_id, bm_asset_hash = mr_asset_hash q, bm_artifactclass = mr_artifactclass q,
      bm_member_path = final_path, bm_source_path = mr_source_path q, bm_size_bytes = mr_size_bytes q,
      bm_file_sha256 = mr_file_sha256 q, bm_source_metadata = mr_source_metadata q, bm_added_at = now\<rparr>"

text \<open>The insert of a member row: the foreign keys and the unique pair of bundle and path.\<close>

definition insert_member :: "bundle_member \<Rightarrow> catalog_db \<Rightarrow> catalog_db option" where
  "insert_member m c =
     (if get_bundle c (bm_bundle_id m) = None \<or> bm_asset_hash m \<notin> set (logical_assets c) \<or>
         member_at c (bm_bundle_id m) (bm_member_path m) \<noteq> None
      then None else Some (c\<lparr>bundle_members := bundle_members c @ [m]\<rparr>))"

definition count_member :: "int \<Rightarrow> bundle_row \<Rightarrow> bundle_row" where
  "count_member n b = b\<lparr>bu_total_bytes := bu_total_bytes b + n, bu_member_count := bu_member_count b + 1\<rparr>"

text \<open>One round of the ladder and the insert.  No row in the answer: the insert lost a race.\<close>

definition member_attempt ::
  "(catalog_db \<Rightarrow> catalog_db) \<Rightarrow> time \<Rightarrow> string \<Rightarrow> member_request \<Rightarrow> catalog_db \<Rightarrow>
   archive_error + catalog_db \<times> (bundle_member \<times> bool) option" where
  "member_attempt others now bundle_id q c =
     res_bind (resolve_member_name c bundle_id (mr_artifactclass q) (mr_member_path q) (mr_file_sha256 q) (mr_asset_hash q))
       (\<lambda>(final_path, existing, first_occupant).
         case existing of
           Some row \<Rightarrow> (case merge_member_source_metadata row (mr_source_metadata q) c of
                          (c', row') \<Rightarrow> Inr (c', Some (row', False)))
         | None \<Rightarrow>
             let c = others c; m = new_member now bundle_id final_path q (fresh_id (map bm_id (bundle_members c))) in
             case insert_member m c of
               None \<Rightarrow> Inr (c, None)
             | Some c' \<Rightarrow> Inr (set_bundle bundle_id (count_member (mr_size_bytes q)) c', Some (m, True)))"

definition add_bundle_member ::
  "(nat \<Rightarrow> catalog_db \<Rightarrow> catalog_db) \<Rightarrow> time \<Rightarrow> bundle_row \<Rightarrow> member_request \<Rightarrow> catalog_db \<Rightarrow>
   archive_error + catalog_db \<times> bundle_member \<times> bool" where
  "add_bundle_member others now bundle q c =
     (if bu_status bundle \<noteq> ''open'' then Inl (BundleStateError (bu_id bundle))
      else res_bind (require_asset c (mr_asset_hash q)) (\<lambda>_.
        res_bind (member_attempt (others 0) now (bu_id bundle) q c) (\<lambda>(c, r).
          case r of
            Some (m, created) \<Rightarrow> Inr (c, m, created)
          | None \<Rightarrow> res_bind (member_attempt (others 1) now (bu_id bundle) q c) (\<lambda>(c, r).
              case r of
                Some (m, created) \<Rightarrow> Inr (c, m, created)
              | None \<Rightarrow> Inl (BundleStateError (bu_id bundle))))))"

section \<open>Enqueueing\<close>

text \<open>
  The arguments of \<open>enqueue_artifact\<close>.  The source is the bytes of its path; a path inside the bundle is
  text that may hold escaped bytes.  Size and digest are those given or measured.
\<close>

record enqueue_request =
  eq_artifactclass :: string
  eq_policy :: policy_row
  eq_asset_hash :: bytes
  eq_source :: string
  eq_member_path :: "utext option"
  eq_is_escaped :: bool
  eq_bundle_id :: "string option"
  eq_now :: time
  eq_source_metadata :: jobj
  eq_size_bytes :: int
  eq_file_sha256 :: bytes
  eq_added_at :: time

definition path_in_bundle :: "enqueue_request \<Rightarrow> utext option" where
  "path_in_bundle q =
     (case eq_member_path q of
        None \<Rightarrow> Some (escape_path_name (eq_source q))
      | Some p \<Rightarrow> if eq_is_escaped q then Some p else escape_path_text p)"

definition utf8_text :: "string \<Rightarrow> bool" where
  "utf8_text s = (utf8_decode (map of_char s) \<noteq> None)"

definition member_request_of :: "enqueue_request \<Rightarrow> string \<Rightarrow> member_request" where
  "member_request_of q path =
     (let metadata = (if utf8_text (eq_source q) then eq_source_metadata q
                      else dict_set ''source_path_bytes_hex'' (JStr (hex_of (eq_source q))) (eq_source_metadata q))
      in \<lparr>mr_artifactclass = eq_artifactclass q, mr_asset_hash = eq_asset_hash q, mr_member_path = path,
          mr_source_path = (if utf8_text (eq_source q) then Some (eq_source q) else None),
          mr_size_bytes = eq_size_bytes q, mr_file_sha256 = eq_file_sha256 q,
          mr_source_metadata = (if metadata = [] then None else Some metadata)\<rparr>)"

definition open_funnels :: "catalog_db \<Rightarrow> string \<Rightarrow> member_request \<Rightarrow> bundle_row option" where
  "open_funnels c fingerprint q =
     first_opened (filter (\<lambda>b. bu_group b = fingerprint \<and> bu_status b = ''open'' \<and> bu_archive_id b \<noteq> None \<and>
        (\<exists>m \<in> set (bundle_members c). bm_bundle_id m = bu_id b \<and> bm_member_path m = mr_member_path q \<and>
           bm_artifactclass m = mr_artifactclass q \<and> bm_asset_hash m = mr_asset_hash q)) (bundles c))"

text \<open>The bundle of an oversized member: its own open funnel, a fresh one, or one adopted by its id.\<close>

definition include_alone ::
  "(catalog_db \<Rightarrow> catalog_db) \<Rightarrow> string \<Rightarrow> basis \<Rightarrow> int \<Rightarrow> int \<Rightarrow> string \<Rightarrow> time \<Rightarrow> member_request \<Rightarrow> catalog_db \<Rightarrow>
   archive_error + catalog_db \<times> bundle_row" where
  "include_alone others fingerprint b target_bytes max_age resolved_id now q c =
     (case open_funnels c fingerprint q of
        Some existing \<Rightarrow> Inr (c, existing)
      | None \<Rightarrow>
          res_bind (new_bundle fingerprint b target_bytes max_age resolved_id now) (\<lambda>bundle.
            let bundle = bundle\<lparr>bu_archive_id := Some (''archive-'' @ bu_id bundle)\<rparr>; c = others c in
            case insert_bundle bundle c of
              Some c' \<Rightarrow> Inr (c', bundle)
            | None \<Rightarrow> (case get_bundle c resolved_id of
                         None \<Rightarrow> Inl (BundleStateError resolved_id)
                       | Some winner \<Rightarrow>
                           if bu_status winner \<noteq> ''open'' \<or> bu_group winner \<noteq> fingerprint \<or> bu_archive_id winner = None
                           then Inl (BundleStateError resolved_id) else Inr (c, winner))))"

definition choose_bundle ::
  "(catalog_db \<Rightarrow> catalog_db) \<Rightarrow> string \<Rightarrow> enqueue_request \<Rightarrow> member_request \<Rightarrow> catalog_db \<Rightarrow>
   archive_error + catalog_db \<times> bundle_row" where
  "choose_bundle others uuid q mq c =
     (let (fingerprint, b) = compute_bundle_group c (eq_artifactclass q); i = resolved_bundle_id (eq_bundle_id q) uuid in
      res_bind (lift_group (effective_group_thresholds c (eq_artifactclass q) (eq_policy q) fingerprint b)) (\<lambda>(target_bytes, max_age).
        if eq_size_bytes q \<ge> target_bytes
        then include_alone others fingerprint b target_bytes max_age i (eq_now q) mq c
        else res_bind (get_or_create_open_bundle others (eq_artifactclass q) (eq_policy q) i (eq_now q) c)
               (\<lambda>(c, bundle, created). Inr (c, bundle))))"

text \<open>
  Others may act before the bundle is inserted (0), while the source is hashed (1), and before each insert
  of the member (2 and 3).
\<close>

definition enqueue_artifact ::
  "(nat \<Rightarrow> catalog_db \<Rightarrow> catalog_db) \<Rightarrow> string \<Rightarrow> enqueue_request \<Rightarrow> catalog_db \<Rightarrow>
   archive_error + catalog_db \<times> bundle_row \<times> bundle_member \<times> bool" where
  "enqueue_artifact others uuid q c =
     res_bind (require_asset c (eq_asset_hash q)) (\<lambda>_.
       case Option.bind (path_in_bundle q) utf8_encode of
         None \<Rightarrow> Inl (ArchiveValueError ''member path cannot be encoded'')
       | Some bs \<Rightarrow>
           let mq = member_request_of q (map char_of bs) in
           res_bind (choose_bundle (others 0) uuid q mq c) (\<lambda>(c, bundle).
           res_bind (add_bundle_member (\<lambda>k. others (k + 2)) (eq_added_at q) bundle mq (others 1 c)) (\<lambda>(c, m, created).
             Inr (c, bundle, m, created))))"

section \<open>Flushing and sealing\<close>

definition bundle_due :: "bundle_row \<Rightarrow> time \<Rightarrow> bool \<Rightarrow> bool" where
  "bundle_due b now force =
     (if bu_status b \<noteq> ''open'' then False
      else if force then bu_member_count b > 0
      else if bu_member_count b = 0 then False
      else if bu_target_bytes b \<noteq> 0 \<and> bu_total_bytes b \<ge> bu_target_bytes b then True
      else if bu_max_age_seconds b = 0 then False
      else now - bu_opened_at b \<ge> seconds (bu_max_age_seconds b))"

definition claimed_row :: "string \<Rightarrow> time \<Rightarrow> bundle_row \<Rightarrow> bundle_row" where
  "claimed_row token stamp b = b\<lparr>bu_status := ''flushing'', bu_claimed_by := Some token, bu_flushed_at := Some stamp\<rparr>"

definition sealed_row :: "time \<Rightarrow> bundle_row \<Rightarrow> bundle_row" where
  "sealed_row sealed_at b = b\<lparr>bu_status := ''sealed'', bu_sealed_at := Some sealed_at\<rparr>"

definition held_row :: "jobj \<Rightarrow> time \<Rightarrow> bundle_row \<Rightarrow> bundle_row" where
  "held_row summary now b = b\<lparr>bu_status := ''held'', bu_held_at := Some now, bu_review_summary := Some summary\<rparr>"

definition claim_bundle_for_flush :: "string \<Rightarrow> string \<Rightarrow> time \<Rightarrow> catalog_db \<Rightarrow> archive_error + catalog_db" where
  "claim_bundle_for_flush i token stamp c =
     (if length (filter (\<lambda>b. bu_id b = i \<and> bu_status b = ''open'') (bundles c)) \<noteq> 1 then Inl (BundleClaimLost i)
      else Inr (c\<lparr>bundles := update_where (\<lambda>b. bu_id b = i \<and> bu_status b = ''open'')
        (claimed_row token stamp) (bundles c)\<rparr>))"

definition close_bundle :: "string \<Rightarrow> string \<Rightarrow> time \<Rightarrow> catalog_db \<Rightarrow> archive_error + catalog_db" where
  "close_bundle i claim_token sealed_at c =
     (let mine = (\<lambda>b. bu_id b = i \<and> bu_status b = ''flushing'' \<and> bu_claimed_by b = Some claim_token) in
      if length (filter mine (bundles c)) \<noteq> 1 then Inl (BundleClaimLost i)
      else Inr (c\<lparr>bundles := update_where mine (sealed_row sealed_at) (bundles c)\<rparr>))"

definition hold_bundle :: "string \<Rightarrow> jobj \<Rightarrow> time \<Rightarrow> catalog_db \<Rightarrow> catalog_db" where
  "hold_bundle i summary now c = set_bundle i (held_row summary now) c"

section \<open>Rows beside a bundle\<close>

text \<open>A row whose unique columns are taken, or whose bundle is missing, fails at the flush of the session.\<close>

definition record_asset_locator ::
  "bytes \<Rightarrow> string \<Rightarrow> jobj \<Rightarrow> string \<Rightarrow> nat \<Rightarrow> string \<Rightarrow> string option \<Rightarrow> catalog_db \<Rightarrow> archive_error + catalog_db" where
  "record_asset_locator h pool_id native_locator repr copy_id bundle_id member_path c =
     res_bind (require_asset c h) (\<lambda>_.
       if get_pool c pool_id = None then Inl (UnknownBundlePool pool_id)
       else if copy_by_id c copy_id = None then Inl (UnknownBundleCopy copy_id)
       else case (case member_path of Some (x # xs) \<Rightarrow> Some (JStr (x # xs)) | _ \<Rightarrow> map_of native_locator ''member_path'') of
         Some (JStr (x # xs)) \<Rightarrow>
           if get_bundle c bundle_id = None \<or>
              (\<exists>l \<in> set (asset_locators c). al_copy_id l = Some copy_id \<and> al_asset_hash l = h \<and> al_member_path l = x # xs)
           then Inl ArchiveIntegrityError
           else Inr (c\<lparr>asset_locators := asset_locators c @
             [\<lparr>al_asset_hash = h, al_pool_id = pool_id, al_copy_id = Some copy_id, al_bundle_id = Some bundle_id,
               al_member_path = x # xs, al_native_locator = native_locator, al_representation = repr\<rparr>]\<rparr>)
       | _ \<Rightarrow> Inl (AssetLocatorError ''asset locator requires a non-empty member_path''))"

definition record_blob_root ::
  "string \<Rightarrow> nat \<Rightarrow> string \<Rightarrow> string \<Rightarrow> jobj \<Rightarrow> string option \<Rightarrow> catalog_db \<Rightarrow> archive_error + catalog_db" where
  "record_blob_root bundle_id copy_id pool_id root_path native_locator archive_id c =
     (if get_bundle c bundle_id = None then Inl (BundleStateError bundle_id)
      else if copy_by_id c copy_id = None then Inl (UnknownBundleCopy copy_id)
      else if get_pool c pool_id = None then Inl (UnknownBundlePool pool_id)
      else if \<exists>r \<in> set (blob_roots c). br_copy_id r = copy_id \<and> br_root_path r = root_path then Inl ArchiveIntegrityError
      else Inr (c\<lparr>blob_roots := blob_roots c @
        [\<lparr>br_bundle_id = bundle_id, br_copy_id = copy_id, br_pool_id = pool_id, br_root_path = root_path,
          br_native_locator = native_locator, br_archive_id = archive_id\<rparr>]\<rparr>))"

text \<open>The row to record, with the class, step and paths that the caller gives; the rest comes from the member.\<close>

definition record_staging_transform ::
  "bundle_member \<Rightarrow> bool \<Rightarrow> staging_transform \<Rightarrow> catalog_db \<Rightarrow> archive_error + catalog_db" where
  "record_staging_transform m is_final t c =
     (if is_final \<and> tf_stored_member_path t \<noteq> bm_member_path m then Inl (StagingTransformError (tf_stored_member_path t))
      else if tf_step_order t = 0 \<and> tf_original_sha256 t \<noteq> bm_asset_hash m
      then Inl (StagingTransformError ''first transform original_sha256 must match the member logical asset hash'')
      else if is_final \<and> tf_stored_sha256 t \<noteq> bm_file_sha256 m then Inl (StagingTransformError (tf_stored_member_path t))
      else let t = t\<lparr>tf_id := fresh_id (map tf_id (staging_transforms c)), tf_member_id := bm_id m,
                     tf_bundle_id := bm_bundle_id m, tf_asset_hash := bm_asset_hash m\<rparr> in
        if (\<exists>r \<in> set (staging_transforms c). tf_step_order r = tf_step_order t \<and>
              (tf_member_id r = tf_member_id t \<or>
               (tf_bundle_id r = tf_bundle_id t \<and> tf_stored_member_path r = tf_stored_member_path t)))
        then Inl ArchiveIntegrityError
        else Inr (c\<lparr>staging_transforms := staging_transforms c @ [t]\<rparr>))"

definition record_exclusion :: "exclusion_record \<Rightarrow> catalog_db \<Rightarrow> archive_error + catalog_db" where
  "record_exclusion e c =
     res_bind (case ex_asset_hash e of None \<Rightarrow> Inr () | Some h \<Rightarrow> require_asset c h) (\<lambda>_.
       if ex_bundle_id e \<noteq> None \<and> get_bundle c (the (ex_bundle_id e)) = None then Inl ArchiveIntegrityError
       else Inr (c\<lparr>exclusion_records := exclusion_records c @ [e]\<rparr>))"

definition record_review_decision :: "review_decision \<Rightarrow> catalog_db \<Rightarrow> archive_error + catalog_db" where
  "record_review_decision d c =
     (if get_bundle c (rd_bundle_id d) = None then Inl (BundleStateError (rd_bundle_id d))
      else Inr (c\<lparr>review_decisions := review_decisions c @ [d]\<rparr>))"

end
