(* ===== verification/Copy_Evidence.thy ===== *)
theory Copy_Evidence
  imports Bundle_Group Job_Engine Py_Hex
begin

text \<open>
  Copy rows of bundles and the evidence about them (\<^verbatim>\<open>src/sutradhara/catalog/copies.py\<close> and
  \<^verbatim>\<open>evidence_recorder.py\<close>): recording a copy once per backend locator, a measured read-back with its receipt,
  and a promotion without a measurement, which queues one.  How a float is printed is an argument.
\<close>

type_synonym archive_db = "catalog_db engine_db"

definition set_copy :: "nat \<Rightarrow> (copy_row \<Rightarrow> copy_row) \<Rightarrow> catalog_db \<Rightarrow> catalog_db" where
  "set_copy i f c = c\<lparr>copies := update_where (\<lambda>r. cp_id r = i) f (copies c)\<rparr>"

text \<open>A trigger of the schema stamps a change of health.\<close>

definition set_health :: "copy_health \<Rightarrow> time \<Rightarrow> copy_row \<Rightarrow> copy_row" where
  "set_health h now r = (if cp_health r = h then r else r\<lparr>cp_health := h, cp_health_changed_at := now\<rparr>)"

section \<open>Copy rows\<close>

datatype catalog_error = UnknownBundle string | CopyPoolMismatch nat

definition locator_key :: "(pyfloat \<Rightarrow> string) \<Rightarrow> jobj \<Rightarrow> string" where
  "locator_key fr native_locator = dumps fr True (sort_json (JObj native_locator))"

definition new_bundle_copy ::
  "string \<Rightarrow> nat \<Rightarrow> string \<Rightarrow> jobj \<Rightarrow> bytes \<Rightarrow> copy_health \<Rightarrow> jobj \<Rightarrow> time \<Rightarrow> nat \<Rightarrow> copy_row" where
  "new_bundle_copy bundle_id backend_id pool_id native_locator integrity_hash health storage_metadata now i =
     \<lparr>cp_id = i, cp_asset_hash = None, cp_bundle_id = Some bundle_id, cp_backend_id = backend_id,
      cp_pool_id = Some pool_id, cp_native_locator = native_locator, cp_storage_metadata = storage_metadata,
      cp_source = ''ingest'', cp_integrity_hash = integrity_hash, cp_hash_provenance = ''locally_computed'',
      cp_health = health, cp_health_changed_at = now, cp_last_checked_at = None, cp_last_measured_digest = None,
      cp_last_measured_at = None, cp_deleted_at = None\<rparr>"

definition add_bundle_copy ::
  "(pyfloat \<Rightarrow> string) \<Rightarrow> string \<Rightarrow> nat \<Rightarrow> string \<Rightarrow> jobj \<Rightarrow> bytes \<Rightarrow> copy_health \<Rightarrow> jobj \<Rightarrow> time \<Rightarrow> catalog_db \<Rightarrow>
   catalog_error + catalog_db \<times> copy_row \<times> bool" where
  "add_bundle_copy fr bundle_id backend_id pool_id native_locator integrity_hash health storage_metadata now c =
     (if get_bundle c bundle_id = None then Inl (UnknownBundle bundle_id)
      else case find (\<lambda>r. cp_backend_id r = backend_id \<and> locator_key fr (cp_native_locator r) = locator_key fr native_locator) (copies c) of
        Some existing \<Rightarrow>
          if cp_bundle_id existing \<noteq> Some bundle_id \<or> cp_pool_id existing \<noteq> Some pool_id
          then Inl (CopyPoolMismatch (cp_id existing)) else Inr (c, existing, False)
      | None \<Rightarrow>
          let r = new_bundle_copy bundle_id backend_id pool_id native_locator integrity_hash health storage_metadata now
                    (fresh_id (map cp_id (copies c)))
          in Inr (c\<lparr>copies := copies c @ [r]\<rparr>, r, True))"

section \<open>Receipts\<close>

record verify_result =
  vf_ok :: bool
  vf_measured :: bool
  vf_actual_hash :: "bytes option"
  vf_detail :: string

datatype evidence_error = EvidenceValueError string | EvidenceRuntimeError string | EvidenceEngineError engine_error

definition MEASUREMENT_SOURCES :: "string list" where
  "MEASUREMENT_SOURCES = [''fanout'', ''verify-job'', ''restore'']"

definition RECEIPT_SOURCES :: "string list" where
  "RECEIPT_SOURCES = MEASUREMENT_SOURCES @ [''scrub'']"

definition receipt_for_execution :: "catalog_db \<Rightarrow> nat \<Rightarrow> string \<Rightarrow> string \<Rightarrow> verify_receipt option" where
  "receipt_for_execution c copy_id source execution_id =
     find (\<lambda>r. vr_copy_id r = copy_id \<and> vr_source r = source \<and> vr_execution_id r = execution_id) (verify_receipts c)"

definition new_receipt ::
  "copy_row \<Rightarrow> bytes option \<Rightarrow> bool \<Rightarrow> string option \<Rightarrow> string \<Rightarrow> string \<Rightarrow> string \<Rightarrow> string \<Rightarrow> string option \<Rightarrow> time \<Rightarrow> nat \<Rightarrow> verify_receipt" where
  "new_receipt r measured ok failure_kind detail source execution_id process actor at' i =
     \<lparr>vr_event_id = i, vr_copy_id = cp_id r, vr_backend_id = cp_backend_id r, vr_expected_digest = cp_integrity_hash r,
      vr_measured_digest = measured, vr_backend_ok = ok, vr_failure_kind = failure_kind,
      vr_failure_detail = (if detail = [] then None else Some detail), vr_source = source,
      vr_execution_id = execution_id, vr_producer_process = process, vr_actor = actor, vr_at = at'\<rparr>"

text \<open>The health of a copy after a read-back, and what the receipt calls the failure.\<close>

definition measured_verdict :: "copy_row \<Rightarrow> bytes \<Rightarrow> bool \<Rightarrow> copy_health \<times> string option" where
  "measured_verdict r measured ok =
     (if measured \<noteq> cp_integrity_hash r then (HealthCorrupt, Some ''digest-mismatch'')
      else if \<not> ok then (HealthSuspect, Some ''backend-failure'')
      else if cp_asset_hash r \<noteq> None \<and> cp_asset_hash r \<noteq> Some (cp_integrity_hash r) \<and>
              cp_hash_provenance r \<noteq> ''locally_computed''
      then (HealthSuspect, Some ''identity-unproven'')
      else (HealthOk, None))"

definition record_measured ::
  "string \<Rightarrow> copy_row \<Rightarrow> verify_result \<Rightarrow> string \<Rightarrow> string \<Rightarrow> string option \<Rightarrow> time \<Rightarrow> archive_db \<Rightarrow>
   evidence_error + archive_db \<times> verify_receipt" where
  "record_measured process r res source execution_id actor at' db =
     (if source \<notin> set MEASUREMENT_SOURCES then Inl (EvidenceValueError ''measurement source'')
      else if execution_id = [] then Inl (EvidenceValueError ''execution_id must be non-empty'')
      else if \<not> vf_measured res then Inl (EvidenceValueError ''record_measured requires measured=True and an actual_hash'')
      else case vf_actual_hash res of
        None \<Rightarrow> Inl (EvidenceValueError ''record_measured requires measured=True and an actual_hash'')
      | Some measured \<Rightarrow>
          if length measured \<noteq> 32 then Inl (EvidenceValueError ''measured digest must be a 32-byte SHA-256 hash'')
          else case receipt_for_execution (catalog db) (cp_id r) source execution_id of
            Some receipt \<Rightarrow> Inr (db, receipt)
          | None \<Rightarrow>
              let c = catalog db; v = measured_verdict r measured (vf_ok res);
                  receipt = new_receipt r (Some measured) (vf_ok res) (snd v) (vf_detail res) source execution_id process
                    actor at' (fresh_id (map vr_event_id (verify_receipts c)));
                  c = set_copy (cp_id r) (\<lambda>x. set_health (fst v) at'
                        (x\<lparr>cp_last_checked_at := Some at', cp_last_measured_digest := Some measured,
                           cp_last_measured_at := Some at'\<rparr>)) c
              in Inr (db\<lparr>catalog := c\<lparr>verify_receipts := verify_receipts c @ [receipt]\<rparr>\<rparr>, receipt))"

definition verify_dedupe_key :: "nat \<Rightarrow> string" where
  "verify_dedupe_key copy_id = ''verify:remeasure:'' @ str_nat copy_id"

definition verify_submission :: "nat \<Rightarrow> submission" where
  "verify_submission copy_id =
     \<lparr>s_kind = ''verify'', s_params = [(''copy_id'', JInt (int copy_id))], s_required_resources = [], s_prerequisites = [],
      s_not_before = None, s_priority = 0, s_dedupe_key = Some (verify_dedupe_key copy_id), s_recon_domain = None,
      s_recon_target_key = None\<rparr>"

definition enqueue_verify :: "time \<Rightarrow> nat \<Rightarrow> archive_db \<Rightarrow> evidence_error + archive_db \<times> job" where
  "enqueue_verify now copy_id db =
     (case submit now (verify_submission copy_id) (jobs db) (jobs db) of
        Inl e \<Rightarrow> Inl (EvidenceEngineError e)
      | Inr (js, j) \<Rightarrow> Inr (db\<lparr>jobs := js\<rparr>, j))"

definition verify_job_for_copy :: "archive_db \<Rightarrow> nat \<Rightarrow> job option" where
  "verify_job_for_copy db copy_id =
     (case rev (sort_key j_id (filter (\<lambda>j. j_dedupe_key j = Some (verify_dedupe_key copy_id)) (jobs db))) of
        [] \<Rightarrow> None | j # _ \<Rightarrow> Some j)"

definition record_unmeasured_promotion ::
  "string \<Rightarrow> copy_row \<Rightarrow> verify_result \<Rightarrow> string \<Rightarrow> string \<Rightarrow> string option \<Rightarrow> time \<Rightarrow> archive_db \<Rightarrow>
   evidence_error + archive_db \<times> verify_receipt \<times> job" where
  "record_unmeasured_promotion process r res source execution_id actor at' db =
     (if source \<notin> set RECEIPT_SOURCES then Inl (EvidenceValueError ''receipt source'')
      else if execution_id = [] then Inl (EvidenceValueError ''execution_id must be non-empty'')
      else if vf_measured res then Inl (EvidenceValueError ''unmeasured promotion requires measured=False'')
      else if \<not> vf_ok res then Inl (EvidenceValueError ''unmeasured promotion requires a successful backend check'')
      else case receipt_for_execution (catalog db) (cp_id r) source execution_id of
        Some receipt \<Rightarrow>
          (case verify_job_for_copy db (cp_id r) of
             None \<Rightarrow> Inl (EvidenceRuntimeError ''an invalidation receipt exists without its verify job'')
           | Some j \<Rightarrow> Inr (db, receipt, j))
      | None \<Rightarrow>
          let c = catalog db;
              receipt = new_receipt r None True (Some ''measurement-invalidated'') (vf_detail res) source execution_id process
                actor at' (fresh_id (map vr_event_id (verify_receipts c)));
              c = set_copy (cp_id r) (\<lambda>x. set_health HealthOk at'
                    (x\<lparr>cp_last_checked_at := Some at', cp_last_measured_digest := None, cp_last_measured_at := None\<rparr>)) c
          in res_bind (enqueue_verify at' (cp_id r) (db\<lparr>catalog := c\<lparr>verify_receipts := verify_receipts c @ [receipt]\<rparr>\<rparr>))
               (\<lambda>(db, j). Inr (db, receipt, j)))"

end
