(* ===== verification/Hdcache_Targets.thy ===== *)
theory Hdcache_Targets
  imports Copy_Evidence Conditions
begin

text \<open>
  Which archived assets the hard-disk cache wants and how a flush asks for them
  (\<^verbatim>\<open>src/sutradhara/hdcache/fill.py\<close>, with the cache section of \<^verbatim>\<open>artifactclass_policy.py\<close>): the desired
  targets of a bundle, the cap on live fill jobs, and the condition rows of targets that must wait.  The
  summary of sizes that the callers print is left out.
\<close>

section \<open>Policy\<close>

datatype hdcache_error = HdcachePolicyError string | HdcacheValueError string | HdcacheEngineError engine_error

record hdcache_policy =
  hp_enabled :: bool
  hp_privacy_level :: string

text \<open>\<open>re.fullmatch("p[1-9][0-9]*", level)\<close>\<close>

definition is_privacy_level :: "string \<Rightarrow> bool" where
  "is_privacy_level s =
     (case s of
        p # d # ds \<Rightarrow> p = CHR ''p'' \<and> d \<noteq> CHR ''0'' \<and> list_all (\<lambda>x. digit_val x \<noteq> None) (d # ds)
      | _ \<Rightarrow> False)"

definition parse_hdcache :: "jobj option \<Rightarrow> hdcache_error + hdcache_policy" where
  "parse_hdcache raw =
     (case raw of
        None \<Rightarrow> Inr \<lparr>hp_enabled = False, hp_privacy_level = ''none''\<rparr>
      | Some table \<Rightarrow>
          if \<not> set (map fst table) \<subseteq> {''enabled'', ''privacy_level''}
          then Inl (HdcachePolicyError ''unknown keys'')
          else case dict_get table ''enabled'' (JBool False) of
            JBool enabled \<Rightarrow>
              (case map_of table ''privacy_level'' of
                 None \<Rightarrow> Inr \<lparr>hp_enabled = enabled, hp_privacy_level = ''none''\<rparr>
               | Some JNull \<Rightarrow> Inr \<lparr>hp_enabled = enabled, hp_privacy_level = ''none''\<rparr>
               | Some (JStr level) \<Rightarrow>
                   if level = [] then Inl (HdcachePolicyError ''privacy_level must be a non-empty string'')
                   else if level \<noteq> ''none'' \<and> \<not> is_privacy_level level
                   then Inl (HdcachePolicyError ''privacy_level must be none or a p<N> level'')
                   else Inr \<lparr>hp_enabled = enabled, hp_privacy_level = level\<rparr>
               | Some _ \<Rightarrow> Inl (HdcachePolicyError ''privacy_level must be a string''))
          | _ \<Rightarrow> Inl (HdcachePolicyError ''enabled must be a boolean''))"

definition privacy_rank :: "string \<Rightarrow> nat" where
  "privacy_rank level =
     (if level = ''none'' then 0
      else case level of
        p # ds \<Rightarrow> if p = CHR ''p'' \<and> ds \<noteq> [] then (case nat_of_digits 0 ds of None \<Rightarrow> 0 | Some n \<Rightarrow> n) else 0
      | _ \<Rightarrow> 0)"

section \<open>Desired targets\<close>

record fill_target =
  ft_content_sha256 :: bytes
  ft_artifactclass :: string
  ft_bundle_key :: "string option"
  ft_group_key :: "string option"
  ft_source_path :: "string option"

definition has_archival_copy :: "catalog_db \<Rightarrow> bytes \<Rightarrow> bool" where
  "has_archival_copy c h =
     ((\<exists>l \<in> set (asset_locators c). al_asset_hash l = h \<and>
         (\<exists>r \<in> set (copies c). al_copy_id l = Some (cp_id r) \<and> cp_health r = HealthOk \<and> cp_deleted_at r = None)) \<or>
      (\<exists>r \<in> set (copies c). cp_asset_hash r = Some h \<and> cp_health r = HealthOk \<and> cp_deleted_at r = None))"

definition fallback_group_key :: "bundle_row \<Rightarrow> string \<Rightarrow> string" where
  "fallback_group_key b artifactclass =
     artifactclass @ '':'' @
     iso_date (case bu_sealed_at b of Some t \<Rightarrow> t | None \<Rightarrow> (case bu_flushed_at b of Some t \<Rightarrow> t | None \<Rightarrow> bu_opened_at b))"

text \<open>One joined row of member, bundle and policy: no candidate, or its rank with the target.\<close>

definition fill_candidate ::
  "catalog_db \<Rightarrow> bytes \<Rightarrow> bundle_member \<times> bundle_row \<times> policy_row \<Rightarrow>
   hdcache_error + ((nat \<times> string \<times> int) \<times> fill_target) option" where
  "fill_candidate c h row =
     (case row of (m, b, p) \<Rightarrow>
        if bu_status b \<noteq> ''sealed'' then Inr None
        else res_bind (parse_hdcache (Some (pr_hdcache_config p))) (\<lambda>hp.
          if \<not> hp_enabled hp \<or> \<not> has_archival_copy c h then Inr None
          else Inr (Some ((privacy_rank (hp_privacy_level hp), bm_artifactclass m, - int (bm_id m)),
                 \<lparr>ft_content_sha256 = h, ft_artifactclass = bm_artifactclass m, ft_bundle_key = Some (bu_id b),
                  ft_group_key = Some (fallback_group_key b (bm_artifactclass m)), ft_source_path = bm_source_path m\<rparr>))))"

definition best_candidate :: "((nat \<times> string \<times> int) \<times> fill_target) list \<Rightarrow> fill_target option" where
  "best_candidate cs =
     (case cs of [] \<Rightarrow> None
      | x # xs \<Rightarrow> Some (snd (foldl (\<lambda>best y. if fst y > fst best then y else best) x xs)))"

definition desired_target_for_asset :: "catalog_db \<Rightarrow> bytes \<Rightarrow> hdcache_error + fill_target option" where
  "desired_target_for_asset c h =
     (if length h \<noteq> 32 then Inl (HdcacheValueError ''content_sha256 must be a 32-byte SHA-256 hash'')
      else if h \<notin> set (logical_assets c) then Inr None
      else res_bind (res_map (fill_candidate c h)
             [(m, b, p). m \<leftarrow> sort_key bm_id (filter (\<lambda>m. bm_asset_hash m = h) (bundle_members c)),
                b \<leftarrow> bundles c, bu_id b = bm_bundle_id m, p \<leftarrow> policies c, pr_artifactclass p = bm_artifactclass m])
             (\<lambda>cs. Inr (best_candidate [x. Some x \<leftarrow> cs])))"

definition desired_targets_for_bundle :: "catalog_db \<Rightarrow> bundle_row \<Rightarrow> hdcache_error + fill_target list" where
  "desired_targets_for_bundle c b =
     res_bind (res_map (\<lambda>m. desired_target_for_asset c (bm_asset_hash m))
                 (filter (\<lambda>m. bm_bundle_id m = bu_id b) (bundle_members c)))
       (\<lambda>ts. Inr (dedup_on ft_content_sha256 [] [t. Some t \<leftarrow> ts, ft_bundle_key t = Some (bu_id b)]))"

section \<open>Jobs\<close>

definition HDCACHE_DOMAIN :: string where "HDCACHE_DOMAIN = ''hdcache''"

record fill_config =
  fc_live_job_cap :: int
  fc_priority :: int

definition count_live_hdcache_jobs :: "archive_db \<Rightarrow> int" where
  "count_live_hdcache_jobs db = int (length (filter (\<lambda>j. j_kind j = ''hdcache_fill'' \<and> is_live j) (jobs db)))"

definition target_is_held :: "time \<Rightarrow> string \<Rightarrow> archive_db \<Rightarrow> bool" where
  "target_is_held now key db =
     (case get_condition (conditions db) HDCACHE_DOMAIN key of
        None \<Rightarrow> False
      | Some row \<Rightarrow>
          if c_condition row = CONDITION_BLOCKED then True
          else if c_condition row \<noteq> CONDITION_BACKOFF then False
          else (case c_next_eligible_at row of None \<Rightarrow> True | Some t \<Rightarrow> t > now))"

definition fill_submission :: "fill_config \<Rightarrow> fill_target \<Rightarrow> submission" where
  "fill_submission cfg t =
     \<lparr>s_kind = ''hdcache_fill'',
      s_params = [(''content_sha256'', JStr (hex_of (ft_content_sha256 t))), (''artifactclass'', JStr (ft_artifactclass t)),
                  (''bundle_key'', opt_str (ft_bundle_key t)), (''group_key'', opt_str (ft_group_key t)),
                  (''source_path'', opt_str (ft_source_path t))],
      s_required_resources = [JObj [(''pool'', JStr ''io''), (''count'', JInt 1)]], s_prerequisites = [],
      s_not_before = None, s_priority = fc_priority cfg,
      s_dedupe_key = Some (''hdcache:'' @ hex_of (ft_content_sha256 t)),
      s_recon_domain = Some HDCACHE_DOMAIN, s_recon_target_key = Some (hex_of (ft_content_sha256 t))\<rparr>"

text \<open>No job in the answer: the cap is reached or the target is held.\<close>

definition submit_hdcache_fill :: "time \<Rightarrow> fill_config \<Rightarrow> fill_target \<Rightarrow> archive_db \<Rightarrow> hdcache_error + archive_db \<times> job option" where
  "submit_hdcache_fill now cfg t db =
     (if count_live_hdcache_jobs db \<ge> fc_live_job_cap cfg \<or> target_is_held now (hex_of (ft_content_sha256 t)) db
      then Inr (db, None)
      else case submit now (fill_submission cfg t) (jobs db) (jobs db) of
        Inl e \<Rightarrow> Inl (HdcacheEngineError e)
      | Inr (js, j) \<Rightarrow> Inr (db\<lparr>jobs := js\<rparr>, Some j))"

definition fill_wait_row :: "string \<Rightarrow> string \<Rightarrow> time \<Rightarrow> recon_condition \<Rightarrow> recon_condition" where
  "fill_wait_row reason message now row =
     row\<lparr>c_condition := CONDITION_BACKOFF, c_reason := Some reason, c_message := Some message,
         c_next_eligible_at := Some (now + seconds 60), c_updated_at := now\<rparr>"

definition record_fill_backoff_condition :: "time \<Rightarrow> fill_target \<Rightarrow> string \<Rightarrow> string \<Rightarrow> archive_db \<Rightarrow> archive_db" where
  "record_fill_backoff_condition now t reason message db =
     (case record_observation now HDCACHE_DOMAIN (hex_of (ft_content_sha256 t)) True OBSERVED_MISSING None None db of
        (db, row) \<Rightarrow>
          if reason = ''held'' \<or> c_condition row = CONDITION_BLOCKED then db
          else db\<lparr>conditions := put_condition (fill_wait_row reason message now row) (conditions db)\<rparr>)"

fun enqueue_targets :: "time \<Rightarrow> fill_config \<Rightarrow> fill_target list \<Rightarrow> archive_db \<Rightarrow> hdcache_error + archive_db \<times> nat" where
  "enqueue_targets now cfg [] db = Inr (db, 0)"
| "enqueue_targets now cfg (t # ts) db =
     res_bind (submit_hdcache_fill now cfg t db) (\<lambda>(db, j).
       case j of
         Some _ \<Rightarrow> res_bind (enqueue_targets now cfg ts db) (\<lambda>(db, n). Inr (db, n + 1))
       | None \<Rightarrow>
           if count_live_hdcache_jobs db \<ge> fc_live_job_cap cfg
           then Inr (record_fill_backoff_condition now t ''live-cap''
                       ''hdcache live job cap is full; fill will retry from the condition worklist'' db, 0)
           else enqueue_targets now cfg ts (record_fill_backoff_condition now t ''held''
                  ''hdcache fill target is currently held by backoff or blocked condition'' db))"

definition enqueue_post_flush_hdcache_fills :: "time \<Rightarrow> fill_config \<Rightarrow> string \<Rightarrow> archive_db \<Rightarrow> hdcache_error + archive_db \<times> nat" where
  "enqueue_post_flush_hdcache_fills now cfg bundle_id db =
     (case get_bundle (catalog db) bundle_id of
        None \<Rightarrow> Inr (db, 0)
      | Some b \<Rightarrow> res_bind (desired_targets_for_bundle (catalog db) b) (\<lambda>ts. enqueue_targets now cfg ts db))"

text \<open>Asking for fills touches the job and condition tables only.\<close>

lemma submit_fill_catalog: "submit_hdcache_fill now cfg t db = Inr (db', j) \<Longrightarrow> catalog db' = catalog db"
  by (auto simp: submit_hdcache_fill_def split: if_splits sum.splits)

lemma fill_backoff_catalog: "catalog (record_fill_backoff_condition now t r m db) = catalog db"
  by (auto simp: record_fill_backoff_condition_def record_observation_def Let_def split: option.splits prod.splits)

lemma enqueue_targets_catalog: "enqueue_targets now cfg ts db = Inr (db', n) \<Longrightarrow> catalog db' = catalog db"
proof (induction now cfg ts db arbitrary: n rule: enqueue_targets.induct)
  case (2 now cfg t ts db)
  then obtain d j where one: "submit_hdcache_fill now cfg t db = Inr (d, j)" by (auto simp: res_bind_Inr_iff)
  with 2 submit_fill_catalog [OF one] show ?case
    by (auto simp: res_bind_Inr_iff fill_backoff_catalog split: option.splits if_splits)
qed simp

lemma post_flush_fills_catalog:
  "enqueue_post_flush_hdcache_fills now cfg i db = Inr (db', n) \<Longrightarrow> catalog db' = catalog db"
  by (auto simp: enqueue_post_flush_hdcache_fills_def res_bind_Inr_iff enqueue_targets_catalog split: option.splits)

end
