(* ===== verification/Archive_Flush.thy ===== *)
theory Archive_Flush
  imports Archive_Bundle Hdcache_Targets
begin

text \<open>
  Flushing a bundle (\<^verbatim>\<open>src/sutradhara/archive_fanout.py\<close>, with the fan-out targets of \<^verbatim>\<open>replication.py\<close> and the
  map rendering of \<^verbatim>\<open>arrangement.py\<close>).  The archive builder, the tar library, the backends and the readback of
  stored members are devices: their answers are fields of the environment.  Objects on media are a list of
  their own, because no rollback takes an object off a tape.
\<close>

section \<open>Vocabulary\<close>

record member_input =
  mi_asset_hash :: bytes
  mi_member_path :: string
  mi_source_path :: string
  mi_size_bytes :: int
  mi_file_sha256 :: bytes
  mi_ingest_item_id :: "nat option"

record built_member =
  bt_asset_hash :: bytes
  bt_member_path :: string
  bt_size_bytes :: int
  bt_file_sha256 :: bytes
  bt_native_locator :: jobj
  bt_ingest_item_id :: "string option"

record built_blob_root =
  bl_root_path :: string
  bl_native_locator :: jobj

record built_exclusion =
  bx_path :: string
  bx_reason :: string
  bx_count :: int
  bx_bytes_total :: int
  bx_detail :: "jobj option"

record build_artifact =
  ba_stored_digest :: bytes
  ba_members :: "built_member list"
  ba_has_manifest :: bool
  ba_blob_roots :: "built_blob_root list"
  ba_exclusions :: "built_exclusion list"
  ba_recipient_epochs :: "string list"

record media_object =
  mo_bundle_id :: string
  mo_pool_id :: string
  mo_locator :: jobj
  mo_digest :: bytes

type_synonym media = "media_object list"

text \<open>What the devices answer.  A \<open>RuntimeError\<close> of the builder may name a member.\<close>

datatype build_answer = Built build_artifact | BuildRuntimeError string | BuildRaised string

datatype tar_answer = Tarred "(int \<times> int) list" bytes | TarRaised string

datatype write_answer = Committed jobj int | WriteTransport string | WriteRaised string

datatype verify_answer = Verified verify_result | VerifyTransport string | VerifyRaised string

datatype read_answer = ReadDigest bytes | ReadRefused string | ReadTransport string | ReadRaised string

datatype flush_error =
    ArchiveFanoutError string
  | FlushPreflightShort string
  | BundleOversize string
  | ManifestSigningError string
  | ReplicationFailed replication_error
  | BundleFailed archive_error
  | CatalogFailed catalog_error
  | EvidenceFailed evidence_error
  | HdcacheFailed hdcache_error
  | ConditionFailed condition_error
  | DeviceRaised string
  | NoResultFound string

record flush_env =
  fv_float :: "pyfloat \<Rightarrow> string"
  fv_token :: string
  fv_claim_at :: time
  fv_sealed_at :: time
  fv_now :: time
  fv_jitter :: rat
  fv_uuid :: string
  fv_free_bytes :: int
  fv_backends :: "nat list"
  fv_key_epoch :: "string option"
  fv_deliverables :: "string option"
  fv_signer :: bool
  fv_manifest_ok :: bool
  fv_tape_capacity :: "int option"
  fv_build :: "nat \<Rightarrow> pool_target \<Rightarrow> member_input list \<Rightarrow> build_answer"
  fv_tar :: "nat \<Rightarrow> pool_target \<Rightarrow> member_input list \<Rightarrow> tar_answer"
  fv_write :: "pool_target \<Rightarrow> build_artifact \<Rightarrow> write_answer"
  fv_verify :: "pool_target \<Rightarrow> jobj \<Rightarrow> verify_answer"
  fv_read :: "pool_target \<Rightarrow> built_member \<Rightarrow> read_answer"
  fv_fill :: fill_config
  fv_others :: "archive_db \<Rightarrow> archive_db"

record fanout_result =
  fr_bundle_id :: string
  fr_copy_ids :: "nat list"
  fr_manifest_path :: "string option"
  fr_partial :: bool
  fr_failed_pools :: "string list"
  fr_condition_reason :: "string option"
  fr_condition_message :: "string option"

section \<open>Targets\<close>

fun basis_targets ::
  "catalog_db \<Rightarrow> string \<Rightarrow> nat list \<Rightarrow> string option \<Rightarrow> bool \<Rightarrow> int \<Rightarrow> basis \<Rightarrow> replication_error + pool_target list" where
  "basis_targets c bundle_id available key_epoch eligible_only n [] = Inr []"
| "basis_targets c bundle_id available key_epoch eligible_only n (e # es) =
     (case get_pool c (entry_pool e) of
        None \<Rightarrow> Inl (DanglingPool (entry_pool e))
      | Some pool \<Rightarrow>
          if map_of e ''representation'' \<notin> {None, Some JNull, Some (JStr (po_representation pool))}
          then Inl (RepresentationDrift (po_id pool))
          else if eligible_only \<and> \<not> po_accepts_writes pool
          then basis_targets c bundle_id available key_epoch eligible_only (n + 1) es
          else res_bind (pool_target_entry c pool available [] key_epoch n) (\<lambda>t.
               res_bind (basis_targets c bundle_id available key_epoch eligible_only (n + 1) es) (\<lambda>ts. Inr (t # ts))))"

definition bundle_group_targets ::
  "catalog_db \<Rightarrow> bundle_row \<Rightarrow> nat list \<Rightarrow> string option \<Rightarrow> bool \<Rightarrow> replication_error + pool_target list" where
  "bundle_group_targets c b available key_epoch eligible_only =
     (let entries = basis_entries (bu_group_basis b) in
      if entries = [] then Inl (PolicyMissing (bu_id b))
      else res_bind (basis_targets c (bu_id b) available key_epoch eligible_only 0 entries) (\<lambda>ts.
        if ts = [] then Inl (PolicyMissing (bu_id b)) else Inr ts))"

definition require_key_epoch :: "pool_target list \<Rightarrow> flush_error + unit" where
  "require_key_epoch ts =
     (case find (\<lambda>t. pt_representation t = ''rem-encrypt-v1'' \<and> pt_key_epoch t = None) ts of
        Some t \<Rightarrow> Inl (ArchiveFanoutError (''encrypted pool '' @ py_repr (pt_pool_id t) @ '' requires key_epoch''))
      | None \<Rightarrow> Inr ())"

section \<open>Members of a flush\<close>

definition member_rows_for_flush :: "catalog_db \<Rightarrow> string \<Rightarrow> bundle_member list" where
  "member_rows_for_flush c i = sort_key bm_member_path (filter (\<lambda>m. bm_bundle_id m = i) (bundle_members c))"

definition linked_members :: "bundle_member list \<Rightarrow> (int \<times> bundle_member) list" where
  "linked_members rows =
     foldl (\<lambda>d (i, r). dict_set i r d) [] [(i, r). r \<leftarrow> rows, (s, i) \<leftarrow> submission_links (bm_source_metadata r)]"

definition find_submission :: "catalog_db \<Rightarrow> int \<Rightarrow> submission_member option" where
  "find_submission c i = find (\<lambda>s. int (sm_id s) = i) (submission_members c)"

definition identity_defect :: "catalog_db \<Rightarrow> int \<times> bundle_member \<Rightarrow> string option" where
  "identity_defect c entry =
     (case entry of (i, r) \<Rightarrow>
        case find_submission c i of
          None \<Rightarrow> Some ''is not in the catalog''
        | Some s \<Rightarrow>
            if bm_asset_hash r \<noteq> sm_sha256 s then Some ''logical hash''
            else if bm_file_sha256 r \<noteq> sm_sha256 s then Some ''staged digest''
            else if bm_size_bytes r \<noteq> sm_size_bytes s then Some ''size''
            else if sm_ingest_item_id s = None then Some ''has no ingest_item_id to cross-check''
            else None)"

definition validate_submission_member_identity :: "catalog_db \<Rightarrow> bundle_member list \<Rightarrow> flush_error + unit" where
  "validate_submission_member_identity c rows =
     (case [(r, what). (i, r) \<leftarrow> sort_key fst (linked_members rows), Some what \<leftarrow> [identity_defect c (i, r)]] of
        [] \<Rightarrow> Inr ()
      | (r, what) # _ \<Rightarrow> Inl (ArchiveFanoutError (''bundle member '' @ py_repr (bm_member_path r) @ '': '' @ what)))"

text \<open>\<open>_member_source_path\<close>: the text of the row, else the bytes kept in the metadata.\<close>

definition member_source_path :: "bundle_member \<Rightarrow> flush_error + string option" where
  "member_source_path m =
     (case bm_source_path m of
        Some p \<Rightarrow> Inr (Some p)
      | None \<Rightarrow>
          (case map_of (case bm_source_metadata m of None \<Rightarrow> [] | Some d \<Rightarrow> d) ''source_path_bytes_hex'' of
             Some (JStr (x # xs)) \<Rightarrow>
               (case fromhex (x # xs) of
                  None \<Rightarrow> Inl (ArchiveFanoutError (''bundle member '' @ str_nat (bm_id m) @ '' has invalid source_path_bytes_hex''))
                | Some p \<Rightarrow> Inr (Some p))
           | _ \<Rightarrow> Inr None))"

definition member_input_of :: "(nat \<times> nat) list \<Rightarrow> bundle_member \<Rightarrow> flush_error + member_input" where
  "member_input_of resolved m =
     res_bind (member_source_path m) (\<lambda>p.
       case p of
         None \<Rightarrow> Inl (ArchiveFanoutError (''bundle member '' @ str_nat (bm_id m) @ '' has no source_path; cannot materialize''))
       | Some src \<Rightarrow> Inr \<lparr>mi_asset_hash = bm_asset_hash m, mi_member_path = bm_member_path m, mi_source_path = src,
                         mi_size_bytes = bm_size_bytes m, mi_file_sha256 = bm_file_sha256 m,
                         mi_ingest_item_id = map_of resolved (bm_id m)\<rparr>)"

definition resolved_lineage :: "catalog_db \<Rightarrow> bundle_member list \<Rightarrow> (nat \<times> nat) list" where
  "resolved_lineage c rows =
     foldl (\<lambda>d (k, v). dict_set k v d) []
       [(bm_id r, item). (i, r) \<leftarrow> linked_members rows, Some s \<leftarrow> [find_submission c i], Some item \<leftarrow> [sm_ingest_item_id s]]"

definition member_inputs_for_flush :: "catalog_db \<Rightarrow> bundle_member list \<Rightarrow> flush_error + member_input list" where
  "member_inputs_for_flush c rows = res_map (member_input_of (resolved_lineage c rows)) rows"

subsection \<open>The catalog map\<close>

definition submission_ingest_item_ids :: "catalog_db \<Rightarrow> member_input list \<Rightarrow> ((string \<times> bytes) \<times> nat) list" where
  "submission_ingest_item_ids c members =
     foldl (\<lambda>d (k, v). dict_set k v d) []
       [((sm_archive_path s, sm_sha256 s), item). s \<leftarrow> sort_key sm_id (submission_members c),
          (sm_archive_path s, sm_sha256 s) \<in> set (map (\<lambda>m. (mi_member_path m, mi_file_sha256 m)) members),
          Some item \<leftarrow> [sm_ingest_item_id s]]"

definition tab :: char where "tab = char_of (9 :: nat)"
definition newline :: char where "newline = char_of (10 :: nat)"

fun join_with :: "char \<Rightarrow> string list \<Rightarrow> string" where
  "join_with sep [] = []"
| "join_with sep [s] = s"
| "join_with sep (s # t # ss) = s @ sep # join_with sep (t # ss)"

definition map_row :: "((string \<times> bytes) \<times> nat) list \<Rightarrow> member_input \<Rightarrow> string" where
  "map_row ids m =
     join_with tab [mi_member_path m, mi_source_path m, hex_of (mi_file_sha256 m), str_int (mi_size_bytes m),
       (case (case mi_ingest_item_id m of Some n \<Rightarrow> Some n | None \<Rightarrow> map_of ids (mi_member_path m, mi_file_sha256 m)) of
          None \<Rightarrow> [] | Some n \<Rightarrow> str_nat n)]"

definition render_source_map :: "((string \<times> bytes) \<times> nat) list \<Rightarrow> member_input list \<Rightarrow> string" where
  "render_source_map ids members =
     join_with newline
       (join_with tab [''archive_path'', ''source_path'', ''sha256'', ''size'', ''ingest_item_id''] # map (map_row ids) members) @ [newline]"

text \<open>The first member whose source path is not UTF-8, or the text of the map.\<close>

definition render_flush_map ::
  "catalog_db \<Rightarrow> member_input list \<Rightarrow> bundle_member list \<Rightarrow> (bundle_member \<times> string) + string" where
  "render_flush_map c members rows =
     (case find (\<lambda>(m, r). \<not> utf8_text (mi_source_path m)) (zip members rows) of
        Some (m, r) \<Rightarrow> Inl (r, ''member '' @ py_repr (mi_member_path m) @ '' has a source_path that is not UTF-8 encodable'')
      | None \<Rightarrow> Inr (render_source_map (submission_ingest_item_ids c (filter (\<lambda>m. mi_ingest_item_id m = None) members)) members))"

section \<open>Building\<close>

definition strip_prefix :: "string \<Rightarrow> string \<Rightarrow> string option" where
  "strip_prefix p s = (if starts_with p s then Some (drop (length p) s) else None)"

text \<open>\<open>re.search("source map line ([0-9]+)", message)\<close>\<close>

fun map_line_of :: "string \<Rightarrow> nat option" where
  "map_line_of [] = None"
| "map_line_of (x # xs) =
     (case strip_prefix ''source map line '' (x # xs) of
        None \<Rightarrow> map_line_of xs
      | Some rest \<Rightarrow>
          (case takeWhile (\<lambda>d. digit_val d \<noteq> None) rest of [] \<Rightarrow> map_line_of xs | ds \<Rightarrow> nat_of_digits 0 ds))"

text \<open>\<open>re.search("streamed data hash for (.+?) does not match spec", message)\<close>\<close>

fun shortest_until :: "string \<Rightarrow> string \<Rightarrow> string option" where
  "shortest_until marker [] = None"
| "shortest_until marker (x # xs) =
     (if x = newline then None
      else if starts_with marker xs then Some [x]
      else map_option (Cons x) (shortest_until marker xs))"

fun digest_path_of :: "string \<Rightarrow> string option" where
  "digest_path_of [] = None"
| "digest_path_of (x # xs) =
     (case Option.bind (strip_prefix ''streamed data hash for '' (x # xs)) (shortest_until '' does not match spec'') of
        None \<Rightarrow> digest_path_of xs
      | Some p \<Rightarrow> Some p)"

definition identify_member_failure :: "string \<Rightarrow> bundle_member list \<Rightarrow> bundle_member option" where
  "identify_member_failure message rows =
     (case map_line_of message of
        Some n \<Rightarrow> if 2 \<le> n \<and> n - 2 < length rows then Some (rows ! (n - 2)) else None
      | None \<Rightarrow>
          (case digest_path_of message of
             None \<Rightarrow> None
           | Some p \<Rightarrow> find (\<lambda>r. bm_member_path r = p) rows))"

definition tar_member :: "member_input \<times> int \<times> int \<Rightarrow> built_member" where
  "tar_member x =
     (case x of (m, off, n) \<Rightarrow>
        \<lparr>bt_asset_hash = mi_asset_hash m, bt_member_path = mi_member_path m, bt_size_bytes = mi_size_bytes m,
         bt_file_sha256 = mi_file_sha256 m,
         bt_native_locator = [(''member_path'', JStr (mi_member_path m)),
           (''block_range'', JArr [JInt off, JInt (off + n)]), (''size_bytes'', JInt n)],
         bt_ingest_item_id = map_option str_nat (mi_ingest_item_id m)\<rparr>)"

definition build_d2_tar :: "tar_answer \<Rightarrow> member_input list \<Rightarrow> build_answer" where
  "build_d2_tar answer members =
     (case answer of
        TarRaised msg \<Rightarrow> BuildRaised msg
      | Tarred infos digest \<Rightarrow>
          Built \<lparr>ba_stored_digest = digest, ba_members = map tar_member (zip members infos), ba_has_manifest = True,
                 ba_blob_roots = [], ba_exclusions = [], ba_recipient_epochs = []\<rparr>)"

definition build_for_target :: "flush_env \<Rightarrow> nat \<Rightarrow> member_input list \<Rightarrow> pool_target \<Rightarrow> build_answer" where
  "build_for_target e attempt members t =
     (if pt_representation t = ''d2tar-raw'' then build_d2_tar (fv_tar e attempt t members) members
      else fv_build e attempt t members)"

definition built_defect :: "member_input list \<Rightarrow> built_member \<Rightarrow> string option" where
  "built_defect members b =
     (case map_of (rev (map (\<lambda>m. (mi_member_path m, m)) members)) (bt_member_path b) of
        None \<Rightarrow> Some ''unexpected member''
      | Some m \<Rightarrow>
          if bt_asset_hash b \<noteq> mi_asset_hash m then Some ''logical hash''
          else if bt_file_sha256 b \<noteq> mi_file_sha256 m then Some ''sha256''
          else if bt_size_bytes b \<noteq> mi_size_bytes m then Some ''size''
          else if mi_ingest_item_id m \<noteq> None \<and>
                  bt_ingest_item_id b \<notin> {None, map_option str_nat (mi_ingest_item_id m)} then Some ''ingest_item_id''
          else None)"

definition validate_built_members :: "pool_target \<Rightarrow> build_artifact \<Rightarrow> member_input list \<Rightarrow> flush_error + unit" where
  "validate_built_members t a members =
     (case [what. b \<leftarrow> ba_members a, Some what \<leftarrow> [built_defect members b]] of
        what # _ \<Rightarrow> Inl (ArchiveFanoutError (''archive build for pool '' @ py_repr (pt_pool_id t) @ '': '' @ what))
      | [] \<Rightarrow>
          if set (map mi_member_path members) \<subseteq> set (map bt_member_path (ba_members a)) then Inr ()
          else Inl (ArchiveFanoutError (''archive build for pool '' @ py_repr (pt_pool_id t) @ '' omitted members'')))"

text \<open>A build phase stops at a member that the quarantine can set aside, or for good.\<close>

datatype build_stop = MemberFailed bundle_member string | FlushStopped flush_error

fun build_targets ::
  "flush_env \<Rightarrow> nat \<Rightarrow> member_input list \<Rightarrow> bundle_member list \<Rightarrow> pool_target list \<Rightarrow>
   build_stop + (pool_target \<times> build_artifact) list" where
  "build_targets e attempt members rows [] = Inr []"
| "build_targets e attempt members rows (t # ts) =
     (case build_for_target e attempt members t of
        BuildRuntimeError msg \<Rightarrow>
          (case identify_member_failure msg rows of
             Some r \<Rightarrow> Inl (MemberFailed r msg)
           | None \<Rightarrow> Inl (FlushStopped (DeviceRaised msg)))
      | BuildRaised msg \<Rightarrow> Inl (FlushStopped (DeviceRaised msg))
      | Built a \<Rightarrow>
          (case validate_built_members t a members of
             Inl x \<Rightarrow> Inl (FlushStopped x)
           | Inr _ \<Rightarrow> res_bind (build_targets e attempt members rows ts) (\<lambda>ps. Inr ((t, a) # ps))))"

section \<open>Writing one target\<close>

definition REM_OBJECT_CHUNK_SIZE :: int where "REM_OBJECT_CHUNK_SIZE = 262144"

definition copy_storage_metadata :: "string \<Rightarrow> string list \<Rightarrow> int \<Rightarrow> string + jobj" where
  "copy_storage_metadata repr epochs stored_size_bytes =
     (let base = [(''representation'', JStr repr), (''stored_size_bytes'', JInt stored_size_bytes)] @
                 (if repr \<in> {''rem-object-v1'', ''rem-encrypt-v1''} then [(''chunk_size'', JInt REM_OBJECT_CHUNK_SIZE)] else [])
      in if repr = ''rem-encrypt-v1''
         then if epochs = [] then Inl ''encrypted archive artifact is missing recipient epochs''
              else Inr (base @ [(''recipient_epochs'', JArr (map JStr epochs))])
         else Inr base)"

fun record_locators :: "string \<Rightarrow> pool_target \<Rightarrow> nat \<Rightarrow> built_member list \<Rightarrow> catalog_db \<Rightarrow> archive_error + catalog_db" where
  "record_locators bundle_id t copy_id [] c = Inr c"
| "record_locators bundle_id t copy_id (m # ms) c =
     res_bind (record_asset_locator (bt_asset_hash m) (pt_pool_id t) (bt_native_locator m) (pt_representation t) copy_id
                 bundle_id (Some (bt_member_path m)) c)
       (record_locators bundle_id t copy_id ms)"

fun record_roots :: "string \<Rightarrow> pool_target \<Rightarrow> nat \<Rightarrow> string option \<Rightarrow> built_blob_root list \<Rightarrow> catalog_db \<Rightarrow> archive_error + catalog_db" where
  "record_roots bundle_id t copy_id archive_id [] c = Inr c"
| "record_roots bundle_id t copy_id archive_id (r # rs) c =
     res_bind (record_blob_root bundle_id copy_id (pt_pool_id t) (bl_root_path r) (bl_native_locator r) archive_id c)
       (record_roots bundle_id t copy_id archive_id rs)"

text \<open>
  How writing a target ends: with its copy, with a transport failure (its rows are rolled back), with a
  failure after the bytes were committed (its rows stay), or with an exception that leaves the fan-out.
\<close>

datatype write_end = Placed archive_db nat | Transient string | PostWrite archive_db string | Escaped flush_error

fun read_failure :: "flush_env \<Rightarrow> pool_target \<Rightarrow> built_member list \<Rightarrow> read_answer option" where
  "read_failure e t [] = None"
| "read_failure e t (m # ms) =
     (case fv_read e t m of
        ReadDigest d \<Rightarrow>
          if d \<noteq> bt_file_sha256 m
          then Some (ReadRefused (''member verification failed for '' @ py_repr (bt_member_path m)))
          else read_failure e t ms
      | failure \<Rightarrow> Some failure)"

definition suspect_copy :: "flush_env \<Rightarrow> nat \<Rightarrow> archive_db \<Rightarrow> archive_db" where
  "suspect_copy e i db = db\<lparr>catalog := set_copy i (set_health HealthSuspect (fv_now e)) (catalog db)\<rparr>"

definition conclude_verify ::
  "flush_env \<Rightarrow> string \<Rightarrow> pool_target \<Rightarrow> copy_row \<Rightarrow> verify_result \<Rightarrow> archive_db \<Rightarrow> write_end" where
  "conclude_verify e bundle_id t r res db =
     (let execution_id = bundle_id @ '':'' @ pt_pool_id t @ '':'' @ locator_key (fv_float e) (cp_native_locator r);
          recorded =
            (if vf_measured res \<and> vf_actual_hash res \<noteq> None
             then res_bind (record_measured (fv_token e) r res ''fanout'' execution_id None (fv_now e) db) (\<lambda>(db, _). Inr db)
             else if vf_ok res
             then res_bind (record_unmeasured_promotion (fv_token e) r res ''fanout'' execution_id None (fv_now e) db) (\<lambda>(db, _). Inr db)
             else Inr (suspect_copy e (cp_id r) db))
      in case recorded of
           Inl x \<Rightarrow> Escaped (EvidenceFailed x)
         | Inr db \<Rightarrow> if \<not> vf_ok res then PostWrite db (''backend verify failed: '' @ vf_detail res) else Placed db (cp_id r))"

definition verify_placement ::
  "flush_env \<Rightarrow> string \<Rightarrow> pool_target \<Rightarrow> build_artifact \<Rightarrow> copy_row \<Rightarrow> archive_db \<Rightarrow> write_end" where
  "verify_placement e bundle_id t a r db =
     (case fv_verify e t (cp_native_locator r) of
        VerifyTransport msg \<Rightarrow> Transient msg
      | VerifyRaised msg \<Rightarrow> Escaped (DeviceRaised msg)
      | Verified res \<Rightarrow>
          (case (if vf_ok res then read_failure e t (ba_members a) else None) of
             Some (ReadTransport msg) \<Rightarrow> Transient msg
           | Some (ReadRefused msg) \<Rightarrow> PostWrite (suspect_copy e (cp_id r) db) msg
           | Some (ReadRaised msg) \<Rightarrow> Escaped (DeviceRaised msg)
           | _ \<Rightarrow> conclude_verify e bundle_id t r res db))"

text \<open>Everything after the object is on media.\<close>

definition record_placement ::
  "flush_env \<Rightarrow> string \<Rightarrow> pool_target \<Rightarrow> build_artifact \<Rightarrow> jobj \<Rightarrow> int \<Rightarrow> archive_db \<Rightarrow> write_end" where
  "record_placement e bundle_id t a locator stored_size db =
     (case copy_storage_metadata (pt_representation t) (ba_recipient_epochs a) stored_size of
        Inl msg \<Rightarrow> PostWrite db msg
      | Inr metadata \<Rightarrow>
          (case add_bundle_copy (fv_float e) bundle_id (pt_backend_id t) (pt_pool_id t) locator (ba_stored_digest a) HealthOk
                  metadata (fv_now e) (catalog db) of
             Inl x \<Rightarrow> Escaped (CatalogFailed x)
           | Inr (c, r, created) \<Rightarrow>
               (case res_bind (record_locators bundle_id t (cp_id r) (ba_members a) c)
                       (record_roots bundle_id t (cp_id r) (Option.bind (get_bundle c bundle_id) bu_archive_id) (ba_blob_roots a)) of
                  Inl x \<Rightarrow> Escaped (BundleFailed x)
                | Inr c \<Rightarrow> verify_placement e bundle_id t a r (db\<lparr>catalog := c\<rparr>))))"

definition write_bundle_copy_for_pool ::
  "flush_env \<Rightarrow> string \<Rightarrow> pool_target \<Rightarrow> build_artifact \<Rightarrow> archive_db \<Rightarrow> media \<Rightarrow> media \<times> write_end" where
  "write_bundle_copy_for_pool e bundle_id t a db md =
     (case fv_write e t a of
        WriteTransport msg \<Rightarrow> (md, Transient msg)
      | WriteRaised msg \<Rightarrow> (md, Escaped (DeviceRaised msg))
      | Committed locator stored_size \<Rightarrow>
          (md @ [\<lparr>mo_bundle_id = bundle_id, mo_pool_id = pt_pool_id t, mo_locator = locator, mo_digest = ba_stored_digest a\<rparr>],
           record_placement e bundle_id t a locator stored_size db))"

section \<open>The fan-out\<close>

definition ruleset_for :: "catalog_db \<Rightarrow> string option \<Rightarrow> string option" where
  "ruleset_for c artifactclass =
     (case artifactclass of
        None \<Rightarrow> None
      | Some a \<Rightarrow>
          (case find (\<lambda>p. pr_artifactclass p = a) (policies c) of
             None \<Rightarrow> None
           | Some p \<Rightarrow> if a = [] \<or> pr_ruleset p = [] then None else Some (pr_ruleset p)))"

definition exclusion_row :: "catalog_db \<Rightarrow> string \<Rightarrow> built_exclusion \<Rightarrow> exclusion_record" where
  "exclusion_row c bundle_id x =
     (let members = filter (\<lambda>m. bm_bundle_id m = bundle_id) (bundle_members c);
          classes = remdups (map bm_artifactclass members);
          m = (if bx_count x \<le> 1 then find (\<lambda>m. bm_member_path m = bx_path x) members else None);
          artifactclass = (case m of Some m \<Rightarrow> Some (bm_artifactclass m)
                           | None \<Rightarrow> (case classes of [a] \<Rightarrow> Some a | _ \<Rightarrow> None))
      in \<lparr>ex_bundle_id = Some bundle_id, ex_artifactclass = (case artifactclass of None \<Rightarrow> [] | Some a \<Rightarrow> a),
          ex_asset_hash = map_option bm_asset_hash m, ex_path = Some (bx_path x), ex_reason = bx_reason x,
          ex_count = bx_count x, ex_bytes_total = bx_bytes_total x, ex_ruleset_name = ruleset_for c artifactclass,
          ex_ruleset_hash = None, ex_detail = bx_detail x\<rparr>)"

fun record_build_exclusions :: "string \<Rightarrow> built_exclusion list \<Rightarrow> catalog_db \<Rightarrow> archive_error + catalog_db" where
  "record_build_exclusions bundle_id [] c = Inr c"
| "record_build_exclusions bundle_id (x # xs) c =
     res_bind (record_exclusion (exclusion_row c bundle_id x) c) (record_build_exclusions bundle_id xs)"

record fan_state =
  fs_db :: archive_db
  fs_media :: media
  fs_copy_ids :: "nat list"
  fs_transient :: "(string \<times> string) list"
  fs_failures :: "(string \<times> string) list"
  fs_manifest :: "string option"

text \<open>The signed receipt of the first REM object, when deliverables are asked for.\<close>

definition emit_customer_manifest ::
  "flush_env \<Rightarrow> string \<Rightarrow> pool_target \<Rightarrow> build_artifact \<Rightarrow> fan_state \<Rightarrow> flush_error + fan_state" where
  "emit_customer_manifest e bundle_id t a st =
     (case fv_deliverables e of
        None \<Rightarrow> Inr st
      | Some dir \<Rightarrow>
          if \<not> ba_has_manifest a \<or> fs_manifest st \<noteq> None \<or> pt_representation t \<notin> {''rem-object-v1'', ''rem-encrypt-v1''}
          then Inr st
          else if \<not> fv_manifest_ok e then Inl (DeviceRaised ''customer manifest'')
          else let c = catalog (fs_db st);
                   archive_id = (case Option.bind (get_bundle c bundle_id) bu_archive_id of
                                   None \<Rightarrow> ''archive-'' @ bundle_id | Some x \<Rightarrow> x);
                   path = dir @ ''/'' @ archive_id @ ''.manifest.json''
               in Inr (st\<lparr>fs_manifest := Some path,
                         fs_db := (fs_db st)\<lparr>catalog := set_bundle bundle_id
                           (\<lambda>b. b\<lparr>bu_customer_manifest_path := Some path\<rparr>) c\<rparr>\<rparr>))"

definition write_target ::
  "flush_env \<Rightarrow> string \<Rightarrow> pool_target \<times> build_artifact \<Rightarrow> fan_state \<Rightarrow> (flush_error \<times> media) + fan_state" where
  "write_target e bundle_id prepared st =
     (case prepared of (t, a) \<Rightarrow>
        (case write_bundle_copy_for_pool e bundle_id t a (fs_db st) (fs_media st) of (md, w) \<Rightarrow>
           let st = st\<lparr>fs_media := md\<rparr> in
           (case w of
              Escaped x \<Rightarrow> Inl (x, md)
            | Transient msg \<Rightarrow> Inr (st\<lparr>fs_transient := fs_transient st @ [(pt_pool_id t, msg)]\<rparr>)
            | PostWrite db msg \<Rightarrow> Inr (st\<lparr>fs_db := db, fs_failures := fs_failures st @ [(pt_pool_id t, msg)]\<rparr>)
            | Placed db i \<Rightarrow>
                (case record_build_exclusions bundle_id (ba_exclusions a) (catalog db) of
                   Inl x \<Rightarrow> Inl (BundleFailed x, md)
                 | Inr c \<Rightarrow>
                     (case emit_customer_manifest e bundle_id t a
                             (st\<lparr>fs_db := db\<lparr>catalog := c\<rparr>, fs_copy_ids := fs_copy_ids st @ [i]\<rparr>) of
                        Inl x \<Rightarrow> Inl (x, md)
                      | Inr st \<Rightarrow> Inr st)))))"

fun write_targets ::
  "flush_env \<Rightarrow> string \<Rightarrow> (pool_target \<times> build_artifact) list \<Rightarrow> fan_state \<Rightarrow> (flush_error \<times> media) + fan_state" where
  "write_targets e bundle_id [] st = Inr st"
| "write_targets e bundle_id (p # ps) st = res_bind (write_target e bundle_id p st) (write_targets e bundle_id ps)"

section \<open>Quarantine\<close>

definition quarantine_bundle :: "flush_env \<Rightarrow> bundle_row \<Rightarrow> bundle_row" where
  "quarantine_bundle e b =
     (let i = ''bundle-'' @ fv_uuid e in
      \<lparr>bu_id = i, bu_group = bu_group b, bu_group_basis = bu_group_basis b, bu_status = ''held'', bu_total_bytes = 0,
       bu_member_count = 0, bu_target_bytes = bu_target_bytes b, bu_max_age_seconds = bu_max_age_seconds b,
       bu_archive_id = Some (''archive-'' @ i), bu_scan_summary = None,
       bu_review_summary = Some [(''quarantined_members'', JArr [])], bu_customer_manifest_path = None,
       bu_claimed_by = None, bu_opened_at = fv_now e, bu_flushed_at = None, bu_sealed_at = None,
       bu_held_at = Some (fv_now e)\<rparr>)"

definition uncount_member :: "int \<Rightarrow> bundle_row \<Rightarrow> bundle_row" where
  "uncount_member n b = b\<lparr>bu_total_bytes := bu_total_bytes b - n, bu_member_count := bu_member_count b - 1\<rparr>"

definition note_quarantined :: "bundle_member \<Rightarrow> string \<Rightarrow> bundle_row \<Rightarrow> bundle_row" where
  "note_quarantined m message b =
     (let summary = (case bu_review_summary b of None \<Rightarrow> [] | Some s \<Rightarrow> s);
          old = (case map_of summary ''quarantined_members'' of Some (JArr xs) \<Rightarrow> xs | _ \<Rightarrow> []);
          entry = JObj [(''member_path'', JStr (bm_member_path m)), (''artifactclass'', JStr (bm_artifactclass m)),
                        (''reason'', JStr (take 500 message))]
      in b\<lparr>bu_review_summary := Some (dict_set ''quarantined_members'' (JArr (old @ [entry])) summary)\<rparr>)"

definition move_member :: "bundle_member \<Rightarrow> string \<Rightarrow> string \<Rightarrow> string \<Rightarrow> catalog_db \<Rightarrow> catalog_db" where
  "move_member m i q message c =
     (let c = c\<lparr>bundle_members := update_where (\<lambda>r. bm_id r = bm_id m) (\<lambda>r. r\<lparr>bm_bundle_id := q\<rparr>) (bundle_members c),
               staging_transforms := update_where (\<lambda>t. tf_member_id t = bm_id m) (\<lambda>t. t\<lparr>tf_bundle_id := q\<rparr>) (staging_transforms c)\<rparr>
      in set_bundle q (note_quarantined m message \<circ> count_member (bm_size_bytes m))
           (set_bundle i (uncount_member (bm_size_bytes m)) c))"

definition quarantine_member ::
  "flush_env \<Rightarrow> string \<Rightarrow> bundle_member \<Rightarrow> string option \<Rightarrow> string \<Rightarrow> catalog_db \<Rightarrow> archive_error + catalog_db \<times> string" where
  "quarantine_member e i m quarantine message c =
     (case quarantine of
        Some q \<Rightarrow> Inr (move_member m i q message c, q)
      | None \<Rightarrow>
          (case get_bundle c i of
             None \<Rightarrow> Inl (BundleStateError i)
           | Some b \<Rightarrow>
               (case insert_bundle (quarantine_bundle e b) c of
                  None \<Rightarrow> Inl ArchiveIntegrityError
                | Some c' \<Rightarrow> Inr (move_member m i (''bundle-'' @ fv_uuid e) message c', ''bundle-'' @ fv_uuid e))))"

section \<open>The flush\<close>

definition scan_summary :: "string \<Rightarrow> nat \<Rightarrow> jobj" where
  "scan_summary map_text n =
     [(''mode'', JStr ''map''), (''map_sha256'', JStr (sha256_hex (map of_char map_text))), (''member_count'', JInt (int n))]"

text \<open>One round over the members as they are now: checks, map, all builds, then all writes.\<close>

definition flush_attempt ::
  "flush_env \<Rightarrow> string \<Rightarrow> pool_target list \<Rightarrow> nat \<Rightarrow> bundle_member list \<Rightarrow> archive_db \<Rightarrow> media \<Rightarrow>
   (build_stop \<times> archive_db \<times> media) + fan_state" where
  "flush_attempt e i targets attempt rows db md =
     (let stop = (\<lambda>x. Inl (FlushStopped x, db, md)) in
      case Option.bind (fv_tape_capacity e) (\<lambda>cap. find (\<lambda>r. bm_size_bytes r > cap) rows) of
        Some r \<Rightarrow> stop (BundleOversize (bm_member_path r))
      | None \<Rightarrow>
        (case res_bind (validate_submission_member_identity (catalog db) rows) (\<lambda>_. member_inputs_for_flush (catalog db) rows) of
           Inl x \<Rightarrow> stop x
         | Inr members \<Rightarrow>
           (case render_flush_map (catalog db) members rows of
              Inl (r, msg) \<Rightarrow> Inl (MemberFailed r msg, db, md)
            | Inr text \<Rightarrow>
              let db = db\<lparr>catalog := set_bundle i (\<lambda>b. b\<lparr>bu_scan_summary := Some (scan_summary text (length rows))\<rparr>) (catalog db)\<rparr> in
              (case build_targets e attempt members rows targets of
                 Inl failure \<Rightarrow> Inl (failure, db, md)
               | Inr prepared \<Rightarrow>
                   (case write_targets e i prepared \<lparr>fs_db = db, fs_media = md, fs_copy_ids = [], fs_transient = [],
                           fs_failures = [], fs_manifest = None\<rparr> of
                      Inl (x, md) \<Rightarrow> Inl (FlushStopped x, db, md)
                    | Inr st \<Rightarrow> Inr st)))))"

text \<open>The quarantine loop; the first argument counts the retries that the code's bound still allows.\<close>

fun flush_attempts ::
  "nat \<Rightarrow> flush_env \<Rightarrow> string \<Rightarrow> pool_target list \<Rightarrow> nat \<Rightarrow> string option \<Rightarrow> archive_db \<Rightarrow> media \<Rightarrow>
   (flush_error \<times> media) + fan_state" where
  "flush_attempts left e i targets attempt quarantine db md =
     (let rows = member_rows_for_flush (catalog db) i in
      if rows = [] then Inl (ArchiveFanoutError (''bundle '' @ py_repr i @ '' has no members left to flush; all were quarantined''), md)
      else case flush_attempt e i targets attempt rows db md of
        Inr st \<Rightarrow> Inr st
      | Inl (FlushStopped x, db, md) \<Rightarrow> Inl (x, md)
      | Inl (MemberFailed r msg, db, md) \<Rightarrow>
          (case left of
             0 \<Rightarrow> Inl (ArchiveFanoutError (''bundle '' @ py_repr i @ '' flush exceeded its quarantine bound''), md)
           | Suc n \<Rightarrow>
               (case quarantine_member e i r quarantine msg (catalog db) of
                  Inl x \<Rightarrow> Inl (BundleFailed x, md)
                | Inr (c, q) \<Rightarrow> flush_attempts n e i targets (attempt + 1) (Some q) (db\<lparr>catalog := c\<rparr>) md)))"

declare flush_attempts.simps [simp del]

section \<open>Conditions of the copies\<close>

definition BUNDLE_COPY_DOMAIN :: string where "BUNDLE_COPY_DOMAIN = ''bundle_copy''"

definition record_bundle_copy_outbox :: "flush_env \<Rightarrow> string \<Rightarrow> archive_db \<Rightarrow> archive_db" where
  "record_bundle_copy_outbox e i db =
     fst (record_observation (fv_now e) BUNDLE_COPY_DOMAIN i True OBSERVED_MISSING (Some ''durability-unverified'')
            (Some ''bundle fan-out committed copies; post-commit durability check pending'') db)"

definition failure_detail :: "(string \<times> string) list \<Rightarrow> string" where
  "failure_detail fs = concat (case map (\<lambda>(p, m). ''pool '' @ p @ '': '' @ m) fs of [] \<Rightarrow> [] | x # xs \<Rightarrow> x # map (\<lambda>y. ''; '' @ y) xs)"

definition record_bundle_copy_failure ::
  "flush_env \<Rightarrow> string \<Rightarrow> string \<Rightarrow> string \<Rightarrow> string \<Rightarrow> archive_db \<Rightarrow> condition_error + archive_db" where
  "record_bundle_copy_failure e i condition reason message db =
     (case record_observation (fv_now e) BUNDLE_COPY_DOMAIN i True OBSERVED_MISSING (Some reason) (Some message) db of
        (db, _) \<Rightarrow> res_bind (record_condition (fv_jitter e) (fv_now e) BUNDLE_COPY_DOMAIN i
          (plain_projection (Some condition) (Some reason) (Some message)) None db) (\<lambda>(db, _). Inr db))"

definition transient_message :: "string \<Rightarrow> (string \<times> string) list \<Rightarrow> string" where
  "transient_message i fs =
     ''bundle '' @ i @ '' sealed with partial fan-out; transient backend failure for '' @ failure_detail fs"

definition write_failure_message :: "string \<Rightarrow> (string \<times> string) list \<Rightarrow> string" where
  "write_failure_message i fs = ''bundle '' @ i @ '' sealed with partial fan-out; post-write failure for '' @ failure_detail fs"

definition record_bundle_copy_transient_backoff ::
  "flush_env \<Rightarrow> string \<Rightarrow> (string \<times> string) list \<Rightarrow> archive_db \<Rightarrow> condition_error + archive_db" where
  "record_bundle_copy_transient_backoff e i fs db =
     record_bundle_copy_failure e i CONDITION_BACKOFF ''transient-backend-failure'' (transient_message i fs) db"

definition record_bundle_copy_write_failure ::
  "flush_env \<Rightarrow> string \<Rightarrow> (string \<times> string) list \<Rightarrow> archive_db \<Rightarrow> condition_error + archive_db" where
  "record_bundle_copy_write_failure e i fs db =
     record_bundle_copy_failure e i CONDITION_BLOCKED ''post-write-pool-failure'' (write_failure_message i fs) db"

definition record_copy_conditions ::
  "flush_env \<Rightarrow> string \<Rightarrow> fan_state \<Rightarrow> archive_db \<Rightarrow> condition_error + archive_db" where
  "record_copy_conditions e i st db =
     (if fs_transient st = [] \<and> fs_failures st = [] then Inr (record_bundle_copy_outbox e i db)
      else res_bind (if fs_transient st = [] then Inr db
                     else record_bundle_copy_transient_backoff e i (fs_transient st) db) (\<lambda>db.
           if fs_failures st = [] then Inr db
           else record_bundle_copy_write_failure e i (fs_failures st) db))"

definition fanout_result_of :: "string \<Rightarrow> fan_state \<Rightarrow> fanout_result" where
  "fanout_result_of i st =
     \<lparr>fr_bundle_id = i, fr_copy_ids = fs_copy_ids st, fr_manifest_path = fs_manifest st,
      fr_partial = (fs_transient st \<noteq> [] \<or> fs_failures st \<noteq> []),
      fr_failed_pools = map fst (fs_transient st @ fs_failures st),
      fr_condition_reason = (if fs_failures st \<noteq> [] then Some ''post-write-pool-failure''
        else if fs_transient st \<noteq> [] then Some ''transient-backend-failure'' else None),
      fr_condition_message = (if fs_failures st \<noteq> [] then Some (write_failure_message i (fs_failures st))
        else if fs_transient st \<noteq> [] then Some (transient_message i (fs_transient st)) else None)\<rparr>"

section \<open>The whole operation\<close>

text \<open>The checks before anything is changed: the loaded row and its targets.\<close>

definition flush_targets :: "flush_env \<Rightarrow> string \<Rightarrow> catalog_db \<Rightarrow> flush_error + bundle_row \<times> pool_target list" where
  "flush_targets e i c =
     (if fv_deliverables e \<noteq> None \<and> \<not> fv_signer e then Inl (ManifestSigningError ''deliverables_dir requires a manifest_signer'')
      else case get_bundle c i of
        None \<Rightarrow> Inl (NoResultFound i)
      | Some b \<Rightarrow>
          if bu_status b \<noteq> ''open'' then Inl (ArchiveFanoutError (''bundle '' @ py_repr i @ '' is not open''))
          else if bu_member_count b = 0 then Inl (ArchiveFanoutError (''bundle '' @ py_repr i @ '' has no members''))
          else case bundle_group_targets c b (fv_backends e) (fv_key_epoch e) True of
            Inl x \<Rightarrow> Inl (ReplicationFailed x)
          | Inr ts \<Rightarrow> res_bind (require_key_epoch ts) (\<lambda>_.
              if fv_free_bytes e < bu_total_bytes b * max (int (length ts)) 1 then Inl (FlushPreflightShort i)
              else Inr (b, ts)))"

definition mint_archive_id :: "bundle_row \<Rightarrow> catalog_db \<Rightarrow> catalog_db" where
  "mint_archive_id loaded c =
     (if bu_archive_id loaded \<noteq> None then c
      else set_bundle (bu_id loaded) (\<lambda>b. b\<lparr>bu_archive_id := Some (''archive-'' @ bu_id loaded)\<rparr>) c)"

definition finish_flush ::
  "flush_env \<Rightarrow> string \<Rightarrow> fan_state \<Rightarrow> flush_error + archive_db \<times> fanout_result" where
  "finish_flush e i st =
     (case close_bundle i (fv_token e) (fv_sealed_at e) (catalog (fs_db st)) of
        Inl x \<Rightarrow> Inl (BundleFailed x)
      | Inr c \<Rightarrow>
          (case record_copy_conditions e i st ((fs_db st)\<lparr>catalog := c\<rparr>) of
             Inl x \<Rightarrow> Inl (ConditionFailed x)
           | Inr db \<Rightarrow>
               (case enqueue_post_flush_hdcache_fills (fv_now e) (fv_fill e) i db of
                  Inl x \<Rightarrow> Inl (HdcacheFailed x)
                | Inr (db, _) \<Rightarrow> Inr (db, fanout_result_of i st))))"

definition flush_bundle ::
  "flush_env \<Rightarrow> string \<Rightarrow> archive_db \<Rightarrow> media \<Rightarrow> (flush_error \<times> media) + archive_db \<times> media \<times> fanout_result" where
  "flush_bundle e i db md =
     (case flush_targets e i (catalog db) of
        Inl x \<Rightarrow> Inl (x, md)
      | Inr (b, ts) \<Rightarrow>
          let db = fv_others e db in
          (case claim_bundle_for_flush i (fv_token e) (fv_claim_at e) (catalog db) of
             Inl x \<Rightarrow> Inl (BundleFailed x, md)
           | Inr c \<Rightarrow>
               let db = db\<lparr>catalog := mint_archive_id b c\<rparr> in
               (case flush_attempts (length (member_rows_for_flush (catalog db) i)) e i ts 0 None db md of
                  Inl x \<Rightarrow> Inl x
                | Inr st \<Rightarrow>
                    (case finish_flush e i st of
                       Inl x \<Rightarrow> Inl (x, fs_media st)
                     | Inr (db, r) \<Rightarrow> Inr (db, fs_media st, r)))))"

end
