(* ===== verification/Archive_Bundle_Facts.thy ===== *)
theory Archive_Bundle_Facts
  imports Archive_Bundle
begin

text \<open>
  The invariant of the bundle tables: unique ids and names, at most one accumulator of a group, and counters
  that agree with the members.  Every operation keeps it, whatever other sessions do in between.
\<close>

section \<open>The invariant of the bundle tables\<close>

definition members_of :: "catalog_db \<Rightarrow> string \<Rightarrow> bundle_member list" where
  "members_of c i = filter (\<lambda>m. bm_bundle_id m = i) (bundle_members c)"

definition one_accumulator :: "catalog_db \<Rightarrow> bool" where
  "one_accumulator c \<longleftrightarrow>
     (\<forall>a \<in> set (bundles c). \<forall>b \<in> set (bundles c).
        open_accumulator a \<and> open_accumulator b \<and> bu_group a = bu_group b \<longrightarrow> bu_id a = bu_id b)"

definition counted :: "catalog_db \<Rightarrow> bundle_row \<Rightarrow> bool" where
  "counted c b \<longleftrightarrow>
     bu_member_count b = int (length (members_of c (bu_id b))) \<and>
     bu_total_bytes b = sum_list (map bm_size_bytes (members_of c (bu_id b)))"

definition archive_ok :: "catalog_db \<Rightarrow> bool" where
  "archive_ok c \<longleftrightarrow>
     distinct (map bu_id (bundles c)) \<and> one_accumulator c \<and>
     distinct (map bm_id (bundle_members c)) \<and>
     distinct (map (\<lambda>m. (bm_bundle_id m, bm_member_path m)) (bundle_members c)) \<and>
     (\<forall>m \<in> set (bundle_members c). bm_bundle_id m \<in> bu_id ` set (bundles c)) \<and>
     (\<forall>b \<in> set (bundles c). counted c b)"

lemma image_map_eq: "map g xs = map g ys \<Longrightarrow> g ` set xs = g ` set ys"
  by (metis set_map)

lemma all_image_iff: "(\<forall>x \<in> A. g x \<in> S) = (g ` A \<subseteq> S)"
  by auto

lemma members_of_eq: "bundle_members c = bundle_members d \<Longrightarrow> members_of c i = members_of d i"
  by (simp add: members_of_def)

lemma counted_eq: "bundle_members c = bundle_members d \<Longrightarrow> counted c b = counted d b"
  by (simp add: counted_def members_of_def)

lemma archive_ok_eq:
  "bundles c = bundles d \<Longrightarrow> bundle_members c = bundle_members d \<Longrightarrow> archive_ok c = archive_ok d"
  by (simp add: archive_ok_def one_accumulator_def counted_def members_of_def)

text \<open>What an update of a bundle row leaves alone.\<close>

locale bundle_update =
  fixes f :: "bundle_row \<Rightarrow> bundle_row"
  assumes keeps_id: "bu_id (f b) = bu_id b"
    and keeps_group: "bu_group (f b) = bu_group b"
    and keeps_counts: "bu_member_count (f b) = bu_member_count b" "bu_total_bytes (f b) = bu_total_bytes b"
    and opens_nothing: "open_accumulator (f b) \<Longrightarrow> open_accumulator b"
begin

lemma update_ids: "map bu_id (update_where P f bs) = map bu_id bs"
  by (rule map_update_where) (rule keeps_id)

lemma updated: "b \<in> set (update_where P f bs) \<Longrightarrow>
    \<exists>a \<in> set bs. bu_id a = bu_id b \<and> bu_group a = bu_group b \<and> bu_member_count a = bu_member_count b \<and>
      bu_total_bytes a = bu_total_bytes b \<and> (open_accumulator b \<longrightarrow> open_accumulator a)"
  using keeps_id keeps_group keeps_counts opens_nothing by (fastforce simp: set_update_where)

lemma update_ok:
  assumes ok: "archive_ok c"
  shows "archive_ok (c\<lparr>bundles := update_where P f (bundles c)\<rparr>)"
proof -
  let ?bs = "update_where P f (bundles c)"
  have "bu_id ` set ?bs = bu_id ` set (bundles c)" by (rule image_map_eq) (rule update_ids)
  moreover have "counted (c\<lparr>bundles := ?bs\<rparr>) b" if "b \<in> set ?bs" for b
    using updated [OF that] ok by (auto simp: archive_ok_def counted_def members_of_def)
  moreover have "one_accumulator (c\<lparr>bundles := ?bs\<rparr>)"
    unfolding one_accumulator_def
  proof (intro ballI impI, simp)
    fix a b assume "a \<in> set ?bs" "b \<in> set ?bs" and both: "open_accumulator a \<and> open_accumulator b \<and> bu_group a = bu_group b"
    with updated obtain a' b' where "a' \<in> set (bundles c)" "b' \<in> set (bundles c)" "bu_id a' = bu_id a" "bu_id b' = bu_id b"
      "bu_group a' = bu_group b'" "open_accumulator a'" "open_accumulator b'" by metis
    with ok show "bu_id a = bu_id b" unfolding archive_ok_def one_accumulator_def by metis
  qed
  ultimately show ?thesis using ok update_ids [of P "bundles c"] by (simp add: archive_ok_def)
qed

end

interpretation claimed: bundle_update "claimed_row token stamp" for token stamp
  by unfold_locales (auto simp: claimed_row_def open_accumulator_def)

interpretation sealed: bundle_update "sealed_row at'" for at'
  by unfold_locales (auto simp: sealed_row_def open_accumulator_def)

interpretation held: bundle_update "held_row summary now" for summary now
  by unfold_locales (auto simp: held_row_def open_accumulator_def)

lemma claim_ok: "archive_ok c \<Longrightarrow> claim_bundle_for_flush i token stamp c = Inr c' \<Longrightarrow> archive_ok c'"
  by (auto simp: claim_bundle_for_flush_def claimed.update_ok split: if_splits)

lemma close_ok: "archive_ok c \<Longrightarrow> close_bundle i token at' c = Inr c' \<Longrightarrow> archive_ok c'"
  by (auto simp: close_bundle_def Let_def sealed.update_ok split: if_splits)

lemma hold_ok: "archive_ok c \<Longrightarrow> archive_ok (hold_bundle i summary now c)"
  by (simp add: hold_bundle_def set_bundle_def held.update_ok)

subsection \<open>Inserts\<close>

lemma insert_bundle_ok:
  assumes ok: "archive_ok c" and ins: "insert_bundle b c = Some c'" and zero: "bu_member_count b = 0" "bu_total_bytes b = 0"
  shows "archive_ok c'"
proof -
  from ins have c': "c' = c\<lparr>bundles := bundles c @ [b]\<rparr>" and new: "bu_id b \<notin> bu_id ` set (bundles c)"
    and alone: "\<And>r. open_accumulator b \<Longrightarrow> r \<in> set (bundles c) \<Longrightarrow> open_accumulator r \<Longrightarrow> bu_group r \<noteq> bu_group b"
    by (auto simp: insert_bundle_def split: if_splits)
  have "members_of c (bu_id b) = []" using ok new unfolding members_of_def filter_empty_conv archive_ok_def by metis
  then have "counted c' b" using zero by (simp add: counted_def members_of_def c')
  moreover have "\<forall>x \<in> set (bundles c). counted c' x" using ok counted_eq [of c' c] by (simp add: archive_ok_def c')
  moreover have "one_accumulator c'"
    unfolding one_accumulator_def
  proof (intro ballI impI)
    fix x y assume "x \<in> set (bundles c')" "y \<in> set (bundles c')"
      and both: "open_accumulator x \<and> open_accumulator y \<and> bu_group x = bu_group y"
    then consider "x = b" "y = b" | "x = b" "y \<in> set (bundles c)" | "x \<in> set (bundles c)" "y = b"
      | "x \<in> set (bundles c)" "y \<in> set (bundles c)" by (auto simp: c')
    then show "bu_id x = bu_id y"
    proof cases
      case 4
      with ok both show ?thesis unfolding archive_ok_def one_accumulator_def by metis
    qed (use alone both in auto)
  qed
  ultimately show ?thesis using ok new by (auto simp: archive_ok_def c')
qed

lemma new_bundle_row:
  assumes "new_bundle fp b t a i now = Inr r"
  shows "bu_id r = i \<and> bu_group r = fp \<and> bu_status r = ''open'' \<and> bu_archive_id r = None \<and>
         bu_member_count r = 0 \<and> bu_total_bytes r = 0 \<and> bu_target_bytes r = t \<and> bu_max_age_seconds r = a \<and>
         bu_opened_at r = now \<and> assert_open_witness r = Inr ()"
  using assms by (auto simp: new_bundle_def res_bind_Inr_iff Let_def)

lemma new_bundle_total: "\<exists>r. new_bundle fp b t a i now = Inr r"
  by (simp add: new_bundle_def lift_group_def group_basis_document_def assert_open_witness_def witness_threshold_def Let_def)

lemma get_bundle_Some: "get_bundle c i = Some b \<Longrightarrow> b \<in> set (bundles c) \<and> bu_id b = i"
  by (auto simp: get_bundle_def dest: find_SomeD)

lemma get_bundle_None: "get_bundle c i = None \<longleftrightarrow> i \<notin> bu_id ` set (bundles c)"
  by (auto simp: get_bundle_def find_None_set)

lemma member_at_Some:
  "member_at c i p = Some m \<Longrightarrow> m \<in> set (bundle_members c) \<and> bm_bundle_id m = i \<and> bm_member_path m = p"
  by (auto simp: member_at_def dest: find_SomeD)

lemma member_at_None: "member_at c i p = None \<longleftrightarrow> (i, p) \<notin> (\<lambda>m. (bm_bundle_id m, bm_member_path m)) ` set (bundle_members c)"
  by (auto simp: member_at_def find_None_set)

text \<open>A member row and its count arrive together.\<close>

lemma add_row_ok:
  assumes ok: "archive_ok c" and ins: "insert_member m c = Some c'" and fresh: "bm_id m \<notin> bm_id ` set (bundle_members c)"
  shows "archive_ok (set_bundle (bm_bundle_id m) (count_member (bm_size_bytes m)) c')"
proof -
  from ins have c': "c' = c\<lparr>bundle_members := bundle_members c @ [m]\<rparr>"
    and owner: "bm_bundle_id m \<in> bu_id ` set (bundles c)"
    and path: "(bm_bundle_id m, bm_member_path m) \<notin> (\<lambda>m. (bm_bundle_id m, bm_member_path m)) ` set (bundle_members c)"
    by (simp_all add: insert_member_def get_bundle_None member_at_None split: if_splits)
  let ?f = "count_member (bm_size_bytes m)" and ?bs = "update_where (\<lambda>b. bu_id b = bm_bundle_id m) (count_member (bm_size_bytes m)) (bundles c)"
  let ?d = "c\<lparr>bundles := ?bs, bundle_members := bundle_members c @ [m]\<rparr>"
  have d: "set_bundle (bm_bundle_id m) ?f c' = ?d" by (simp add: set_bundle_def c')
  have ids: "map bu_id ?bs = map bu_id (bundles c)" by (rule map_update_where) (simp add: count_member_def)
  then have idset: "bu_id ` set ?bs = bu_id ` set (bundles c)" by (rule image_map_eq)
  have origin: "\<exists>a \<in> set (bundles c). b = (if bu_id a = bm_bundle_id m then ?f a else a)" if "b \<in> set ?bs" for b
    using that by (auto simp: update_where_def)
  have count: "counted ?d (if bu_id a = bm_bundle_id m then ?f a else a)" if "a \<in> set (bundles c)" for a
  proof -
    have "counted c a" using that ok unfolding archive_ok_def by blast
    then show ?thesis
      by (cases "bu_id a = bm_bundle_id m") (simp_all add: counted_def members_of_def count_member_def)
  qed
  have "\<forall>b \<in> set ?bs. counted ?d b" 
  proof
    fix b assume "b \<in> set ?bs"
    with origin obtain a where "a \<in> set (bundles c)" "b = (if bu_id a = bm_bundle_id m then ?f a else a)" by blast
    with count show "counted ?d b" by blast
  qed
  moreover have "one_accumulator ?d"
    unfolding one_accumulator_def
  proof (intro ballI impI, simp)
    fix a b assume "a \<in> set ?bs" "b \<in> set ?bs" and both: "open_accumulator a \<and> open_accumulator b \<and> bu_group a = bu_group b"
    with origin [of a] origin [of b] obtain a' b' where ab: "a' \<in> set (bundles c)" "b' \<in> set (bundles c)"
      "a = (if bu_id a' = bm_bundle_id m then ?f a' else a')" "b = (if bu_id b' = bm_bundle_id m then ?f b' else b')" by blast
    then have "bu_id a' = bu_id a" "bu_id b' = bu_id b" "bu_group a' = bu_group a" "bu_group b' = bu_group b"
      "open_accumulator a' = open_accumulator a" "open_accumulator b' = open_accumulator b"
      by (auto simp: count_member_def open_accumulator_def)
    with ab ok both show "bu_id a = bu_id b" unfolding archive_ok_def one_accumulator_def by metis
  qed
  ultimately show ?thesis unfolding d using ok ids idset owner path fresh by (simp add: archive_ok_def)
qed

lemma filter_update_where:
  "(\<And>r. Q (f r) = Q r) \<Longrightarrow> filter Q (update_where P f rows) = update_where P f (filter Q rows)"
  by (induction rows) auto

lemma merge_ok:
  assumes ok: "archive_ok c"
  shows "archive_ok (fst (merge_member_source_metadata m x c))"
proof -
  let ?f = "\<lambda>r. r\<lparr>bm_source_metadata := fst (merge_metadata (bm_source_metadata m) x)\<rparr>"
  let ?ms = "update_where (\<lambda>r. bm_id r = bm_id m) ?f (bundle_members c)"
  let ?d = "c\<lparr>bundle_members := ?ms\<rparr>"
  have "members_of ?d i = update_where (\<lambda>r. bm_id r = bm_id m) ?f (members_of c i)" for i
    by (simp add: members_of_def filter_update_where)
  then have counts: "counted ?d b = counted c b" for b
    by (simp add: counted_def map_update_where)
  have maps: "map bm_bundle_id ?ms = map bm_bundle_id (bundle_members c)"
    "map bm_id ?ms = map bm_id (bundle_members c)"
    "map (\<lambda>m. (bm_bundle_id m, bm_member_path m)) ?ms = map (\<lambda>m. (bm_bundle_id m, bm_member_path m)) (bundle_members c)"
    by (rule map_update_where, simp)+
  have rows: "bundles ?d = bundles c" "bundle_members ?d = ?ms" by simp_all
  have "archive_ok ?d"
    using ok unfolding archive_ok_def one_accumulator_def rows counts maps all_image_iff image_map_eq [OF maps(1)] .
  then show ?thesis by (simp add: merge_member_source_metadata_def Let_def)
qed

subsection \<open>Enqueueing\<close>

definition keeps_ok :: "(catalog_db \<Rightarrow> catalog_db) \<Rightarrow> bool" where
  "keeps_ok f \<longleftrightarrow> (\<forall>c. archive_ok c \<longrightarrow> archive_ok (f c))"

lemma first_opened_sorted:
  obtains "first_opened bs = None" "bs = []" | b where "first_opened bs = Some b" "b \<in> set bs"
proof -
  have same: "set (sort_key (\<lambda>b. (bu_opened_at b, bu_id b)) bs) = set bs" by simp
  show ?thesis
  proof (cases "sort_key (\<lambda>b. (bu_opened_at b, bu_id b)) bs")
    case Nil
    with same have "bs = []" by (cases bs) simp_all
    with that(1) Nil show ?thesis by (simp add: first_opened_def)
  next
    case (Cons b xs)
    from same have "b \<in> set bs" unfolding Cons by auto
    with that(2) Cons show ?thesis by (simp add: first_opened_def)
  qed
qed

lemma first_opened_Some: "first_opened bs = Some b \<Longrightarrow> b \<in> set bs"
  by (rule first_opened_sorted [of bs]) auto

lemma first_opened_None: "first_opened bs = None \<longleftrightarrow> bs = []"
  by (rule first_opened_sorted [of bs]) auto

lemma find_open_accumulator_Some:
  "find_open_accumulator c fp = Some b \<Longrightarrow> b \<in> set (bundles c) \<and> bu_group b = fp \<and> open_accumulator b"
  unfolding find_open_accumulator_def by (drule first_opened_Some) simp

lemma get_or_create_found:
  assumes "get_or_create_open_bundle others a p i now c = Inr (c', b, created)"
  shows "b \<in> set (bundles c') \<and> open_accumulator b \<and> bu_group b = fst (compute_bundle_group c a)"
proof -
  obtain fp bs where g: "compute_bundle_group c a = (fp, bs)" by (cases "compute_bundle_group c a")
  show ?thesis
  proof (cases "find_open_accumulator c fp")
    case (Some r)
    with assms g find_open_accumulator_Some [OF Some] show ?thesis
      by (auto simp: get_or_create_open_bundle_def res_bind_Inr_iff)
  next
    case None
    with assms g obtain t m r where new: "new_bundle fp bs t m i now = Inr r"
      and rest: "(case insert_bundle r (others c) of Some d \<Rightarrow> Inr (d, r, True)
        | None \<Rightarrow> (case find_open_accumulator (others c) fp of None \<Rightarrow> Inl (BundleStateError fp)
            | Some w \<Rightarrow> Inr (others c, w, False))) = Inr (c', b, created)"
      by (auto simp: get_or_create_open_bundle_def res_bind_Inr_iff Let_def)
    from rest new_bundle_row [OF new] g show ?thesis
      by (auto split: option.splits if_splits simp: insert_bundle_def open_accumulator_def
          dest: find_open_accumulator_Some)
  qed
qed

lemma get_or_create_ok:
  assumes ok: "archive_ok c" and others: "keeps_ok others"
    and res: "get_or_create_open_bundle others a p i now c = Inr (c', b, created)"
  shows "archive_ok c'"
proof -
  obtain fp bs where g: "compute_bundle_group c a = (fp, bs)" by (cases "compute_bundle_group c a")
  show ?thesis
  proof (cases "find_open_accumulator c fp")
    case (Some r)
    with assms g show ?thesis by (auto simp: get_or_create_open_bundle_def res_bind_Inr_iff)
  next
    case None
    with res g obtain t m r where new: "new_bundle fp bs t m i now = Inr r"
      and rest: "(case insert_bundle r (others c) of Some d \<Rightarrow> Inr (d, r, True)
        | None \<Rightarrow> (case find_open_accumulator (others c) fp of None \<Rightarrow> Inl (BundleStateError fp)
            | Some w \<Rightarrow> Inr (others c, w, False))) = Inr (c', b, created)"
      by (auto simp: get_or_create_open_bundle_def res_bind_Inr_iff Let_def)
    have "archive_ok (others c)" using ok others by (simp add: keeps_ok_def)
    with rest new_bundle_row [OF new] insert_bundle_ok [of "others c" r] show ?thesis
      by (auto split: option.splits)
  qed
qed

lemma include_alone_ok:
  assumes ok: "archive_ok c" and others: "keeps_ok others"
    and res: "include_alone others fp bs t m i now q c = Inr (c', b)"
  shows "archive_ok c' \<and> b \<in> set (bundles c') \<and> bu_group b = fp \<and> bu_status b = ''open'' \<and> bu_archive_id b \<noteq> None"
proof (cases "open_funnels c fp q")
  case (Some r)
  with res ok first_opened_Some [OF Some [unfolded open_funnels_def]] show ?thesis
    by (simp add: include_alone_def)
next
  case None
  obtain r where new: "new_bundle fp bs t m i now = Inr r" using new_bundle_total by blast
  let ?r = "r\<lparr>bu_archive_id := Some (''archive-'' @ bu_id r)\<rparr>"
  note row = new_bundle_row [OF new]
  have ok1: "archive_ok (others c)" using ok others by (simp add: keeps_ok_def)
  show ?thesis
  proof (cases "insert_bundle ?r (others c)")
    case (Some d)
    with res None new have "c' = d" "b = ?r" by (simp_all add: include_alone_def Let_def)
    with Some ok1 row insert_bundle_ok [OF ok1 Some] show ?thesis by (auto simp: insert_bundle_def split: if_splits)
  next
    case noins: None
    with res None new ok1 show ?thesis
      by (auto simp: include_alone_def Let_def split: option.splits if_splits dest: get_bundle_Some)
  qed
qed

lemma choose_bundle_ok:
  assumes ok: "archive_ok c" and others: "keeps_ok others" and res: "choose_bundle others u q mq c = Inr (c', b)"
  shows "archive_ok c' \<and> b \<in> set (bundles c') \<and> bu_status b = ''open'' \<and>
         bu_group b = fst (compute_bundle_group c (eq_artifactclass q))"
proof -
  obtain fp bs where g: "compute_bundle_group c (eq_artifactclass q) = (fp, bs)"
    by (cases "compute_bundle_group c (eq_artifactclass q)")
  let ?i = "resolved_bundle_id (eq_bundle_id q) u"
  from res g obtain t m where
    rest: "(if eq_size_bytes q \<ge> t then include_alone others fp bs t m ?i (eq_now q) mq c
        else res_bind (get_or_create_open_bundle others (eq_artifactclass q) (eq_policy q) ?i (eq_now q) c)
               (\<lambda>(c, b, created). Inr (c, b))) = Inr (c', b)"
    by (auto simp: choose_bundle_def Let_def dest!: res_bind_InrD)
  show ?thesis
  proof (cases "eq_size_bytes q \<ge> t")
    case True
    with rest include_alone_ok [OF ok others, of fp bs t m ?i "eq_now q" mq c' b] g show ?thesis by simp
  next
    case False
    with rest obtain created where
      "get_or_create_open_bundle others (eq_artifactclass q) (eq_policy q) ?i (eq_now q) c = Inr (c', b, created)"
      by (auto simp: res_bind_Inr_iff)
    from get_or_create_ok [OF ok others this] get_or_create_found [OF this] show ?thesis
      by (simp add: open_accumulator_def)
  qed
qed

lemma member_attempt_ok:
  assumes ok: "archive_ok c" and others: "keeps_ok others" and res: "member_attempt others now i q c = Inr (c', r)"
  shows "archive_ok c'"
proof -
  from res obtain path existing occ where
    "resolve_member_name c i (mr_artifactclass q) (mr_member_path q) (mr_file_sha256 q) (mr_asset_hash q) = Inr (path, existing, occ)"
    by (auto simp: member_attempt_def res_bind_Inr_iff)
  note name = this
  show ?thesis
  proof (cases existing)
    case (Some row)
    with res name merge_ok [OF ok, of row "mr_source_metadata q"] show ?thesis
      by (auto simp: member_attempt_def split: prod.splits)
  next
    case None
    let ?c = "others c"
    let ?m = "new_member now i path q (fresh_id (map bm_id (bundle_members ?c)))"
    have ok1: "archive_ok ?c" using ok others by (simp add: keeps_ok_def)
    have m: "bm_bundle_id ?m = i" "bm_size_bytes ?m = mr_size_bytes q" "bm_id ?m \<notin> bm_id ` set (bundle_members ?c)"
      using fresh_id_notin [of "map bm_id (bundle_members ?c)"] by (simp_all add: new_member_def)
    show ?thesis
    proof (cases "insert_member ?m ?c")
      case None
      with res name \<open>existing = None\<close> ok1 show ?thesis by (simp add: member_attempt_def Let_def)
    next
      case (Some d)
      with res name \<open>existing = None\<close> have "c' = set_bundle i (count_member (mr_size_bytes q)) d"
        by (simp add: member_attempt_def Let_def)
      with add_row_ok [OF ok1 Some m(3)] m show ?thesis by simp
    qed
  qed
qed

lemma add_bundle_member_ok:
  assumes "archive_ok c" "\<And>k. keeps_ok (others k)" "add_bundle_member others now b q c = Inr (c', m, created)"
  shows "archive_ok c'"
proof -
  from assms(3) obtain d r where one: "member_attempt (others 0) now (bu_id b) q c = Inr (d, r)"
    and rest: "(case r of Some (m, created) \<Rightarrow> Inr (d, m, created)
          | None \<Rightarrow> res_bind (member_attempt (others 1) now (bu_id b) q d) (\<lambda>(c, r).
              case r of Some (m, created) \<Rightarrow> Inr (c, m, created) | None \<Rightarrow> Inl (BundleStateError (bu_id b)))) = Inr (c', m, created)"
    by (auto simp: add_bundle_member_def res_bind_Inr_iff simp del: One_nat_def split: if_splits)
  have ok1: "archive_ok d" by (rule member_attempt_ok [OF assms(1,2) one])
  show ?thesis
  proof (cases r)
    case None
    with rest obtain r' where "member_attempt (others 1) now (bu_id b) q d = Inr (c', r')"
      by (auto simp: res_bind_Inr_iff split: option.splits)
    with ok1 assms(2) show ?thesis by (blast intro: member_attempt_ok)
  qed (use rest ok1 in auto)
qed

lemma enqueue_ok:
  assumes ok: "archive_ok c" and others: "\<And>k. keeps_ok (others k)"
    and res: "enqueue_artifact others u q c = Inr (c', b, m, created)"
  shows "archive_ok c'"
proof -
  from res obtain mq d created' where one: "choose_bundle (others 0) u q mq c = Inr (d, b)"
    and two: "add_bundle_member (\<lambda>k. others (k + 2)) (eq_added_at q) b mq (others 1 d) = Inr (c', m, created')"
    by (auto simp: enqueue_artifact_def res_bind_Inr_iff Let_def simp del: One_nat_def split: option.splits)
  have "archive_ok (others 1 d)" using choose_bundle_ok [OF ok others one] others by (simp add: keeps_ok_def)
  then show ?thesis by (rule add_bundle_member_ok [OF _ others two])
qed

end
