(* ===== verification/Archive_Flush_Facts.thy ===== *)
theory Archive_Flush_Facts
  imports Archive_Flush Archive_Bundle_Facts
begin

text \<open>
  What the phases of a flush leave alone: writing copies only adds rows beside the bundle, and the conditions
  and cache fills recorded at the end do not touch the catalog.
\<close>

section \<open>Rows only arrive\<close>

text \<open>
  The bundle and its members stay, and the copies and locators of the bundle stay readable by their keys.
\<close>

definition kept_copy :: "copy_row \<Rightarrow> copy_row \<Rightarrow> bool" where
  "kept_copy r r' \<longleftrightarrow> cp_id r' = cp_id r \<and> cp_bundle_id r' = cp_bundle_id r \<and> cp_pool_id r' = cp_pool_id r"

definition grows :: "catalog_db \<Rightarrow> catalog_db \<Rightarrow> bool" where
  "grows c c' \<longleftrightarrow>
     bundle_members c' = bundle_members c \<and>
     (\<forall>r \<in> set (copies c). \<exists>r' \<in> set (copies c'). kept_copy r r') \<and>
     set (asset_locators c) \<subseteq> set (asset_locators c')"

lemma grows_refl [simp]: "grows c c"
  by (auto simp: grows_def kept_copy_def)

lemma grows_trans: "grows a b \<Longrightarrow> grows b c \<Longrightarrow> grows a c"
  unfolding grows_def kept_copy_def by (metis subset_trans)

lemma grows_bundles: "grows c (c\<lparr>bundles := bs\<rparr>)"
  by (auto simp: grows_def kept_copy_def)

lemma grows_set_copy:
  assumes "\<And>r. kept_copy r (f r)"
  shows "grows c (set_copy i f c)"
  using assms unfolding grows_def set_copy_def
  by (auto simp: set_update_where kept_copy_def)

lemma kept_health [simp]: "kept_copy r (set_health h t r)" "cp_id (set_health h t r) = cp_id r"
  "cp_bundle_id (set_health h t r) = cp_bundle_id r" "cp_pool_id (set_health h t r) = cp_pool_id r"
  by (simp_all add: kept_copy_def set_health_def)

lemma set_copy_bundles [simp]: "bundles (set_copy i f c) = bundles c"
  by (simp add: set_copy_def)

definition beside :: "catalog_db \<Rightarrow> catalog_db \<Rightarrow> bool" where
  "beside c c' \<longleftrightarrow> grows c c' \<and> bundles c' = bundles c"

lemma beside_refl [simp]: "beside c c"
  by (simp add: beside_def)

lemma beside_trans: "beside a b \<Longrightarrow> beside b c \<Longrightarrow> beside a c"
  by (auto simp: beside_def intro: grows_trans)

lemma record_locator_beside: "record_asset_locator h p n r k i m c = Inr c' \<Longrightarrow> beside c c'"
  by (auto simp: record_asset_locator_def beside_def grows_def kept_copy_def res_bind_Inr_iff
      split: if_splits option.splits json.splits list.splits)

lemma record_locators_beside: "record_locators i t k ms c = Inr c' \<Longrightarrow> beside c c'"
proof (induction ms arbitrary: c)
  case (Cons m ms)
  then obtain c1 where "record_asset_locator (bt_asset_hash m) (pt_pool_id t) (bt_native_locator m) (pt_representation t) k i
      (Some (bt_member_path m)) c = Inr c1" "record_locators i t k ms c1 = Inr c'"
    by (auto simp: res_bind_Inr_iff)
  with Cons.IH record_locator_beside beside_trans show ?case by blast
qed simp

lemma record_roots_beside: "record_roots i t k a rs c = Inr c' \<Longrightarrow> beside c c'"
proof (induction rs arbitrary: c)
  case (Cons r rs)
  then obtain c1 where one: "record_blob_root i k (pt_pool_id t) (bl_root_path r) (bl_native_locator r) a c = Inr c1"
    and rest: "record_roots i t k a rs c1 = Inr c'" by (auto simp: res_bind_Inr_iff)
  from one have "beside c c1"
    by (auto simp: record_blob_root_def beside_def grows_def kept_copy_def split: if_splits)
  with Cons.IH [OF rest] beside_trans show ?case by blast
qed simp

lemma record_exclusions_beside: "record_build_exclusions i xs c = Inr c' \<Longrightarrow> beside c c'"
proof (induction xs arbitrary: c)
  case (Cons x xs)
  then obtain c1 where one: "record_exclusion (exclusion_row c i x) c = Inr c1"
    and rest: "record_build_exclusions i xs c1 = Inr c'" by (auto simp: res_bind_Inr_iff)
  from one have "beside c c1"
    by (auto simp: record_exclusion_def beside_def grows_def kept_copy_def res_bind_Inr_iff split: if_splits)
  with Cons.IH [OF rest] beside_trans show ?case by blast
qed simp

lemma add_copy_beside: "add_bundle_copy fr i b p n h hl sm now c = Inr (c', r, new) \<Longrightarrow>
    beside c c' \<and> r \<in> set (copies c') \<and> cp_bundle_id r = Some i \<and> cp_pool_id r = Some p"
  by (auto simp: add_bundle_copy_def beside_def grows_def kept_copy_def Let_def new_bundle_copy_def
      split: if_splits option.splits dest: find_SomeD)

lemma suspect_beside: "beside (catalog db) (catalog (suspect_copy e i db))"
  by (simp add: suspect_copy_def beside_def grows_set_copy)

lemma receipt_beside:
  assumes "\<And>r. kept_copy r (f r)"
  shows "beside c ((set_copy i f c)\<lparr>verify_receipts := receipts\<rparr>)"
  using grows_set_copy [OF assms] by (simp add: beside_def grows_def)

lemma measured_beside: "record_measured p r res s x a t db = Inr (db', v) \<Longrightarrow> beside (catalog db) (catalog db')"
  by (auto simp: record_measured_def Let_def kept_copy_def intro!: receipt_beside split: if_splits option.splits)

lemma promotion_beside: "record_unmeasured_promotion p r res s x a t db = Inr (db', v) \<Longrightarrow> beside (catalog db) (catalog db')"
  by (auto simp: record_unmeasured_promotion_def enqueue_verify_def Let_def kept_copy_def res_bind_Inr_iff
      intro!: receipt_beside split: if_splits option.splits sum.splits)

section \<open>One target\<close>

text \<open>The database that a target leaves behind when its rows are kept.\<close>

fun kept_db :: "write_end \<Rightarrow> archive_db option" where
  "kept_db (Placed db i) = Some db"
| "kept_db (PostWrite db m) = Some db"
| "kept_db _ = None"

lemma conclude_verify_beside:
  "kept_db (conclude_verify e i t r res db) = Some db' \<Longrightarrow> beside (catalog db) (catalog db')"
  by (auto simp: conclude_verify_def Let_def res_bind_Inr_iff suspect_beside split: sum.splits if_splits
      dest: measured_beside promotion_beside)

lemma conclude_verify_Placed: "conclude_verify e i t r res db = Placed db' k \<Longrightarrow> k = cp_id r"
  by (auto simp: conclude_verify_def Let_def split: sum.splits if_splits)

lemma verify_placement_beside:
  "kept_db (verify_placement e i t a r db) = Some db' \<Longrightarrow> beside (catalog db) (catalog db')"
  by (auto simp: verify_placement_def suspect_beside conclude_verify_beside
      split: verify_answer.splits option.splits read_answer.splits if_splits)

lemma verify_placement_Placed: "verify_placement e i t a r db = Placed db' k \<Longrightarrow> k = cp_id r"
  by (auto simp: verify_placement_def conclude_verify_Placed
      split: verify_answer.splits option.splits read_answer.splits if_splits)

text \<open>A copy of the bundle on the pool, with a locator for every named member.\<close>

definition holds_members :: "catalog_db \<Rightarrow> string \<Rightarrow> string \<Rightarrow> (string \<times> bytes) set \<Rightarrow> bool" where
  "holds_members c i p M \<longleftrightarrow>
     (\<exists>r \<in> set (copies c). cp_bundle_id r = Some i \<and> cp_pool_id r = Some p \<and>
        (\<forall>(path, h) \<in> M. path \<noteq> [] \<longrightarrow>
           (\<exists>l \<in> set (asset_locators c). al_copy_id l = Some (cp_id r) \<and> al_asset_hash l = h \<and> al_member_path l = path)))"

lemma holds_mono: "holds_members c i p M \<Longrightarrow> grows c c' \<Longrightarrow> N \<subseteq> M \<Longrightarrow> holds_members c' i p N"
proof -
  assume "holds_members c i p M" and g: "grows c c'" and N: "N \<subseteq> M"
  then obtain r where r: "r \<in> set (copies c)" "cp_bundle_id r = Some i" "cp_pool_id r = Some p"
    and loc: "\<forall>(path, h) \<in> M. path \<noteq> [] \<longrightarrow>
      (\<exists>l \<in> set (asset_locators c). al_copy_id l = Some (cp_id r) \<and> al_asset_hash l = h \<and> al_member_path l = path)"
    unfolding holds_members_def by (elim bexE conjE) (rule that)
  from g have "\<forall>r \<in> set (copies c). \<exists>r' \<in> set (copies c'). kept_copy r r'" by (simp add: grows_def)
  with r(1) obtain r' where "r' \<in> set (copies c')" "kept_copy r r'" by (elim ballE) auto
  with r have r': "r' \<in> set (copies c')" "cp_id r' = cp_id r" "cp_bundle_id r' = Some i" "cp_pool_id r' = Some p"
    by (simp_all add: kept_copy_def)
  have sub: "set (asset_locators c) \<subseteq> set (asset_locators c')" using g by (simp add: grows_def)
  have "\<exists>l \<in> set (asset_locators c'). al_copy_id l = Some (cp_id r') \<and> al_asset_hash l = h \<and> al_member_path l = path"
    if "(path, h) \<in> N" "path \<noteq> []" for path h
  proof -
    from N that(1) have "(path, h) \<in> M" by (rule subsetD)
    with loc that(2) have "\<exists>l \<in> set (asset_locators c). al_copy_id l = Some (cp_id r) \<and> al_asset_hash l = h \<and> al_member_path l = path"
      by (elim ballE [of _ _ "(path, h)"]) simp_all
    then show ?thesis using sub r'(2) by (elim bexE) (rule bexI, simp, erule subsetD)
  qed
  then show ?thesis unfolding holds_members_def using r' by (intro bexI [of _ r']) auto
qed

lemma record_locator_row:
  assumes "record_asset_locator h p n r k i (Some path) c = Inr c'" "path \<noteq> []"
  shows "\<exists>l \<in> set (asset_locators c'). al_copy_id l = Some k \<and> al_asset_hash l = h \<and> al_member_path l = path"
  using assms by (cases path) (auto simp: record_asset_locator_def res_bind_Inr_iff split: if_splits)

lemma record_locators_rows:
  "record_locators i t k ms c = Inr c' \<Longrightarrow> m \<in> set ms \<Longrightarrow> bt_member_path m \<noteq> [] \<Longrightarrow>
   \<exists>l \<in> set (asset_locators c'). al_copy_id l = Some k \<and> al_asset_hash l = bt_asset_hash m \<and> al_member_path l = bt_member_path m"
proof (induction ms arbitrary: c)
  case (Cons x ms)
  then obtain c1 where one: "record_asset_locator (bt_asset_hash x) (pt_pool_id t) (bt_native_locator x) (pt_representation t) k i
      (Some (bt_member_path x)) c = Inr c1" and rest: "record_locators i t k ms c1 = Inr c'"
    by (auto simp: res_bind_Inr_iff)
  show ?case
  proof (cases "m = x")
    case True
    with record_locator_row [OF one] Cons.prems(3) have
      "\<exists>l \<in> set (asset_locators c1). al_copy_id l = Some k \<and> al_asset_hash l = bt_asset_hash m \<and> al_member_path l = bt_member_path m"
      by simp
    moreover have "set (asset_locators c1) \<subseteq> set (asset_locators c')"
      using record_locators_beside [OF rest] by (simp add: beside_def grows_def)
    ultimately show ?thesis by blast
  qed (use Cons.IH [OF rest] Cons.prems in simp)
qed simp

definition built_names :: "build_artifact \<Rightarrow> (string \<times> bytes) set" where
  "built_names a = (\<lambda>m. (bt_member_path m, bt_asset_hash m)) ` set (ba_members a)"

lemma record_placement_kept:
  assumes "kept_db (record_placement e i t a loc n db) = Some db'"
  shows "beside (catalog db) (catalog db')"
  using assms
  by (auto simp: record_placement_def res_bind_Inr_iff split: sum.splits prod.splits
      dest!: add_copy_beside verify_placement_beside record_locators_beside record_roots_beside)
    (meson beside_trans)

lemma record_placement_Placed:
  assumes "record_placement e i t a loc n db = Placed db' k"
  shows "holds_members (catalog db') i (pt_pool_id t) (built_names a)"
proof -
  from assms obtain sm c1 r new c2 c3 where add: "add_bundle_copy (fv_float e) i (pt_backend_id t) (pt_pool_id t) loc
        (ba_stored_digest a) HealthOk sm (fv_now e) (catalog db) = Inr (c1, r, new)"
    and loc: "record_locators i t (cp_id r) (ba_members a) c1 = Inr c2"
    and roots: "record_roots i t (cp_id r) (Option.bind (get_bundle c1 i) bu_archive_id) (ba_blob_roots a) c2 = Inr c3"
    and ver: "verify_placement e i t a r (db\<lparr>catalog := c3\<rparr>) = Placed db' k"
    by (auto simp: record_placement_def res_bind_Inr_iff split: sum.splits prod.splits)
  have r: "r \<in> set (copies c1)" "cp_bundle_id r = Some i" "cp_pool_id r = Some (pt_pool_id t)"
    using add_copy_beside [OF add] by auto
  from record_locators_beside [OF loc] r obtain r' where "r' \<in> set (copies c2)" "kept_copy r r'"
    unfolding beside_def grows_def by blast
  with r record_locators_rows [OF loc] have "holds_members c2 i (pt_pool_id t) (built_names a)"
    unfolding holds_members_def built_names_def kept_copy_def by (intro bexI [of _ r']) auto
  moreover have "grows c2 (catalog db')"
    using record_roots_beside [OF roots] verify_placement_beside [of e i t a r "db\<lparr>catalog := c3\<rparr>" db'] ver
    by (auto simp: beside_def intro: grows_trans)
  ultimately show ?thesis by (rule holds_mono) simp
qed

section \<open>All targets\<close>

text \<open>The columns of a bundle that the write phase does not touch.\<close>

definition core :: "bundle_row \<Rightarrow> string \<times> string \<times> string \<times> string option \<times> string option \<times> int \<times> int" where
  "core b = (bu_id b, bu_group b, bu_status b, bu_claimed_by b, bu_archive_id b, bu_member_count b, bu_total_bytes b)"

definition steady :: "catalog_db \<Rightarrow> catalog_db \<Rightarrow> bool" where
  "steady c c' \<longleftrightarrow> grows c c' \<and> map core (bundles c') = map core (bundles c)"

lemma steady_refl [simp]: "steady c c"
  by (simp add: steady_def)

lemma steady_trans: "steady a b \<Longrightarrow> steady b c \<Longrightarrow> steady a c"
  by (auto simp: steady_def intro: grows_trans)

lemma beside_steady: "beside c c' \<Longrightarrow> steady c c'"
  by (simp add: beside_def steady_def)

lemma set_bundle_steady: "(\<And>b. core (f b) = core b) \<Longrightarrow> steady c (set_bundle i f c)"
  by (simp add: steady_def set_bundle_def grows_bundles map_update_where)

lemma emit_steady:
  "emit_customer_manifest e i t a st = Inr st' \<Longrightarrow>
   steady (catalog (fs_db st)) (catalog (fs_db st')) \<and> fs_media st' = fs_media st \<and> fs_copy_ids st' = fs_copy_ids st \<and>
   fs_transient st' = fs_transient st \<and> fs_failures st' = fs_failures st"
  by (auto simp: emit_customer_manifest_def Let_def core_def intro!: set_bundle_steady split: option.splits if_splits)

text \<open>What one target does to the state of the fan-out: an object at most, and its verdict.\<close>

definition wrote :: "string \<Rightarrow> pool_target \<Rightarrow> build_artifact \<Rightarrow> media \<Rightarrow> media \<Rightarrow> bool" where
  "wrote i t a md md' \<longleftrightarrow>
     md' = md \<or> (\<exists>x. md' = md @ [x] \<and> mo_bundle_id x = i \<and> mo_pool_id x = pt_pool_id t \<and> mo_digest x = ba_stored_digest a)"

definition verdict :: "string \<Rightarrow> pool_target \<Rightarrow> build_artifact \<Rightarrow> fan_state \<Rightarrow> bool" where
  "verdict i t a st \<longleftrightarrow>
     pt_pool_id t \<in> fst ` set (fs_transient st @ fs_failures st) \<or>
     holds_members (catalog (fs_db st)) i (pt_pool_id t) (built_names a)"

definition fan_later :: "fan_state \<Rightarrow> fan_state \<Rightarrow> bool" where
  "fan_later st st' \<longleftrightarrow>
     steady (catalog (fs_db st)) (catalog (fs_db st')) \<and>
     set (fs_transient st) \<subseteq> set (fs_transient st') \<and> set (fs_failures st) \<subseteq> set (fs_failures st')"

lemma fan_later_trans: "fan_later a b \<Longrightarrow> fan_later b c \<Longrightarrow> fan_later a c"
  by (auto simp: fan_later_def intro: steady_trans)

lemma verdict_fan_later: "verdict i t a st \<Longrightarrow> fan_later st st' \<Longrightarrow> verdict i t a st'"
  by (auto simp: verdict_def fan_later_def steady_def intro: holds_mono)

lemma write_copy_wrote: "write_bundle_copy_for_pool e i t a db md = (md', w) \<Longrightarrow> wrote i t a md md'"
  by (auto simp: write_bundle_copy_for_pool_def wrote_def split: write_answer.splits)

lemma write_copy_kept:
  "write_bundle_copy_for_pool e i t a db md = (md', w) \<Longrightarrow> kept_db w = Some db' \<Longrightarrow> beside (catalog db) (catalog db')"
  by (auto simp: write_bundle_copy_for_pool_def record_placement_kept split: write_answer.splits)

lemma write_copy_Placed:
  "write_bundle_copy_for_pool e i t a db md = (md', Placed db' k) \<Longrightarrow>
   holds_members (catalog db') i (pt_pool_id t) (built_names a)"
  by (auto simp: write_bundle_copy_for_pool_def record_placement_Placed split: write_answer.splits)

lemma write_target_Inl:
  assumes "write_target e i (t, a) st = Inl (x, md')"
  shows "wrote i t a (fs_media st) md'"
  using assms
  by (auto simp: write_target_def Let_def dest: write_copy_wrote split: prod.splits write_end.splits sum.splits)

lemma write_target_Inr:
  assumes "write_target e i (t, a) st = Inr st'"
  shows "wrote i t a (fs_media st) (fs_media st')" "fan_later st st'" "verdict i t a st'"
proof -
  obtain md w where w: "write_bundle_copy_for_pool e i t a (fs_db st) (fs_media st) = (md, w)" by fastforce
  have "wrote i t a (fs_media st) (fs_media st') \<and> fan_later st st' \<and> verdict i t a st'"
  proof (cases w)
    case (Placed db k)
    with assms w obtain c where ex: "record_build_exclusions i (ba_exclusions a) (catalog db) = Inr c"
      and emit: "emit_customer_manifest e i t a
        (st\<lparr>fs_media := md, fs_db := db\<lparr>catalog := c\<rparr>, fs_copy_ids := fs_copy_ids st @ [k]\<rparr>) = Inr st'"
      by (auto simp: write_target_def Let_def split: sum.splits)
    note out = emit_steady [OF emit, simplified]
    have "beside (catalog (fs_db st)) (catalog db)" using write_copy_kept [OF w] Placed by simp
    moreover have "beside (catalog db) c" using record_exclusions_beside [OF ex] .
    ultimately have "steady (catalog (fs_db st)) (catalog (fs_db st'))"
      using out by (meson beside_steady steady_trans)
    moreover have "holds_members (catalog (fs_db st')) i (pt_pool_id t) (built_names a)"
    proof (rule holds_mono)
      show "holds_members (catalog db) i (pt_pool_id t) (built_names a)" using write_copy_Placed w Placed by simp
      show "grows (catalog db) (catalog (fs_db st'))"
        using record_exclusions_beside [OF ex] out by (auto simp: beside_def steady_def intro: grows_trans)
    qed simp
    ultimately show ?thesis using out write_copy_wrote [OF w] by (simp add: fan_later_def verdict_def)
  next
    case (PostWrite db msg)
    with w have "beside (catalog (fs_db st)) (catalog db)" by (simp add: write_copy_kept)
    with assms w PostWrite show ?thesis
      using write_copy_wrote [OF w] beside_steady by (auto simp: write_target_def fan_later_def verdict_def)
  qed (use assms w write_copy_wrote [OF w] in \<open>auto simp: write_target_def fan_later_def verdict_def\<close>)
  then show "wrote i t a (fs_media st) (fs_media st')" "fan_later st st'" "verdict i t a st'" by auto
qed

text \<open>The objects of a fan-out: those of the bundle, one per target at most.\<close>

definition object_for :: "string \<Rightarrow> pool_target \<Rightarrow> build_artifact \<Rightarrow> media_object \<Rightarrow> bool" where
  "object_for i t a x \<longleftrightarrow> mo_bundle_id x = i \<and> mo_pool_id x = pt_pool_id t \<and> mo_digest x = ba_stored_digest a"

fun objects_of :: "string \<Rightarrow> (pool_target \<times> build_artifact) list \<Rightarrow> media \<Rightarrow> bool" where
  "objects_of i [] new = (new = [])"
| "objects_of i ((t, a) # ps) new =
     (objects_of i ps new \<or> (case new of [] \<Rightarrow> False | x # xs \<Rightarrow> object_for i t a x \<and> objects_of i ps xs))"

lemma objects_of_Nil [simp]: "objects_of i ps []"
  by (induction ps) auto

lemma wrote_objects:
  assumes "wrote i t a md md'" "objects_of i ps new"
  shows "\<exists>more. md' @ new = md @ more \<and> objects_of i ((t, a) # ps) more"
proof (cases "md' = md")
  case True
  with assms show ?thesis by (intro exI [of _ new]) simp
next
  case False
  with assms obtain x where "md' = md @ [x]" "object_for i t a x" by (auto simp: wrote_def object_for_def)
  with assms show ?thesis by (intro exI [of _ "x # new"]) simp
qed

lemma write_targets_Inl:
  "write_targets e i ps st = Inl (x, md') \<Longrightarrow> \<exists>new. md' = fs_media st @ new \<and> objects_of i ps new"
proof (induction ps arbitrary: st)
  case (Cons p ps)
  obtain t a where p: "p = (t, a)" by (cases p)
  show ?case
  proof (cases "write_target e i p st")
    case (Inl y)
    with Cons.prems p have "wrote i t a (fs_media st) md'" by (auto dest: write_target_Inl)
    from wrote_objects [OF this, of ps "[]"] show ?thesis by (simp add: p)
  next
    case (Inr st')
    with Cons p obtain new where new: "md' = fs_media st' @ new" "objects_of i ps new" by auto
    from Inr p have "wrote i t a (fs_media st) (fs_media st')" by (auto dest: write_target_Inr)
    from wrote_objects [OF this new(2)] new(1) show ?thesis by (simp add: p)
  qed
qed simp

lemma write_targets_Inr:
  "write_targets e i ps st = Inr st' \<Longrightarrow>
   (\<exists>new. fs_media st' = fs_media st @ new \<and> objects_of i ps new) \<and> fan_later st st' \<and> (\<forall>(t, a) \<in> set ps. verdict i t a st')"
proof (induction ps arbitrary: st)
  case Nil
  then show ?case by (simp add: fan_later_def)
next
  case (Cons p ps)
  obtain t a where p: "p = (t, a)" by (cases p)
  from Cons.prems obtain st1 where one: "write_target e i (t, a) st = Inr st1" and rest: "write_targets e i ps st1 = Inr st'"
    by (auto simp: res_bind_Inr_iff p)
  note w = write_target_Inr [OF one] and ih = Cons.IH [OF rest]
  from ih obtain new where new: "fs_media st' = fs_media st1 @ new" "objects_of i ps new" by auto
  have "\<exists>more. fs_media st' = fs_media st @ more \<and> objects_of i ((t, a) # ps) more"
    using wrote_objects [OF w(1) new(2)] new(1) by simp
  moreover have "fan_later st st'" using w(2) ih by (meson fan_later_trans)
  moreover have "verdict i t a st'" using w(3) ih by (meson verdict_fan_later)
  ultimately show ?case using ih by (simp add: p)
qed

section \<open>The build phase\<close>

lemma identify_member_in: "identify_member_failure msg rows = Some r \<Longrightarrow> r \<in> set rows"
  by (auto simp: identify_member_failure_def split: option.splits if_splits dest: find_SomeD)

lemma build_targets_Inr:
  "build_targets e n members rows ts = Inr ps \<Longrightarrow>
   map fst ps = ts \<and> (\<forall>(t, a) \<in> set ps. build_for_target e n members t = Built a \<and> validate_built_members t a members = Inr ())"
  by (induction ts arbitrary: ps)
    (auto simp: res_bind_Inr_iff split: build_answer.splits option.splits sum.splits)

lemma build_targets_member: "build_targets e n members rows ts = Inl (MemberFailed r msg) \<Longrightarrow> r \<in> set rows"
  by (induction ts) (auto simp: res_bind_def split: build_answer.splits option.splits sum.splits dest: identify_member_in)

lemma built_defect_None:
  assumes "built_defect members b = None"
  shows "\<exists>m \<in> set members. mi_member_path m = bt_member_path b \<and> mi_asset_hash m = bt_asset_hash b \<and>
           mi_file_sha256 m = bt_file_sha256 b \<and> mi_size_bytes m = bt_size_bytes b"
proof -
  from assms obtain m where m: "map_of (rev (map (\<lambda>m. (mi_member_path m, m)) members)) (bt_member_path b) = Some m"
    and eq: "mi_asset_hash m = bt_asset_hash b" "mi_file_sha256 m = bt_file_sha256 b" "mi_size_bytes m = bt_size_bytes b"
    by (auto simp: built_defect_def split: option.splits if_splits)
  from map_of_SomeD [OF m] eq show ?thesis by auto
qed

lemma validate_built_exact:
  assumes "validate_built_members t a members = Inr ()" and dist: "distinct (map mi_member_path members)"
  shows "(\<lambda>b. (bt_member_path b, bt_asset_hash b, bt_file_sha256 b, bt_size_bytes b)) ` set (ba_members a) =
         (\<lambda>m. (mi_member_path m, mi_asset_hash m, mi_file_sha256 m, mi_size_bytes m)) ` set members" (is "?B = ?M")
proof
  from assms(1) have none: "\<And>b. b \<in> set (ba_members a) \<Longrightarrow> built_defect members b = None"
    and all: "set (map mi_member_path members) \<subseteq> set (map bt_member_path (ba_members a))"
    by (auto simp: validate_built_members_def split: list.splits if_splits option.splits)
  show sub: "?B \<subseteq> ?M"
  proof
    fix x assume "x \<in> ?B"
    then obtain b where b: "b \<in> set (ba_members a)" "x = (bt_member_path b, bt_asset_hash b, bt_file_sha256 b, bt_size_bytes b)"
      by auto
    from built_defect_None [OF none [OF b(1)]] b(2) show "x \<in> ?M" by force
  qed
  show "?M \<subseteq> ?B"
  proof
    fix x assume "x \<in> ?M"
    then obtain m where m: "m \<in> set members" "x = (mi_member_path m, mi_asset_hash m, mi_file_sha256 m, mi_size_bytes m)"
      by auto
    with all obtain b where b: "b \<in> set (ba_members a)" "bt_member_path b = mi_member_path m" by force
    from built_defect_None [OF none [OF b(1)]] obtain m' where "m' \<in> set members" "mi_member_path m' = bt_member_path b"
      "mi_asset_hash m' = bt_asset_hash b" "mi_file_sha256 m' = bt_file_sha256 b" "mi_size_bytes m' = bt_size_bytes b" by auto
    moreover from this b m dist have "m' = m" by (metis distinct_map inj_on_eq_iff)
    ultimately show "x \<in> ?B" using b m by force
  qed
qed

end
