(* ===== verification/Archive_Quarantine.thy ===== *)
theory Archive_Quarantine
  imports Archive_Flush_Facts
begin

text \<open>
  The rounds of a flush.  A round stops before any write when a member fails, the member moves to the held
  bundle of the flush with its bytes and its count, and the next round has one member less, so the bound on
  the rounds is never reached.
\<close>

section \<open>One round\<close>

lemma res_map_shape:
  assumes "res_map f xs = Inr ys" and shape: "\<And>x y. f x = Inr y \<Longrightarrow> g y = h x"
  shows "map g ys = map h xs"
proof -
  have "list_all2 (\<lambda>x y. f x = Inr y) xs ys" using assms(1) by (simp only: res_map_Inr_iff)
  then have "list_all2 (\<lambda>x y. h x = g y) xs ys" by (rule list_all2_mono) (erule shape [symmetric])
  then show ?thesis by (induction rule: list_all2_induct) simp_all
qed

lemma member_input_shape:
  "member_input_of resolved m = Inr x \<Longrightarrow>
   (mi_member_path x, mi_asset_hash x, mi_file_sha256 x, mi_size_bytes x) =
   (bm_member_path m, bm_asset_hash m, bm_file_sha256 m, bm_size_bytes m)"
  unfolding member_input_of_def by (cases "member_source_path m") (auto split: option.splits)

lemma member_inputs_shape:
  assumes "member_inputs_for_flush c rows = Inr ms"
  shows "map (\<lambda>x. (mi_member_path x, mi_asset_hash x, mi_file_sha256 x, mi_size_bytes x)) ms =
         map (\<lambda>m. (bm_member_path m, bm_asset_hash m, bm_file_sha256 m, bm_size_bytes m)) rows"
  using assms unfolding member_inputs_for_flush_def by (rule res_map_shape) (rule member_input_shape)

text \<open>All targets are built and checked for the members of the round.\<close>

definition prepared :: "flush_env \<Rightarrow> nat \<Rightarrow> bundle_member list \<Rightarrow> pool_target list \<Rightarrow> catalog_db \<Rightarrow>
    (pool_target \<times> build_artifact) list \<Rightarrow> bool" where
  "prepared e n rows ts c ps \<longleftrightarrow>
     validate_submission_member_identity c rows = Inr () \<and>
     (\<exists>members. member_inputs_for_flush c rows = Inr members \<and> build_targets e n members rows ts = Inr ps)"

lemma flush_attempt_Inr:
  assumes "flush_attempt e i ts n rows db md = Inr st"
  shows "\<exists>ps. prepared e n rows ts (catalog db) ps \<and> (\<exists>new. fs_media st = md @ new \<and> objects_of i ps new) \<and>
           steady (catalog db) (catalog (fs_db st)) \<and> (\<forall>(t, a) \<in> set ps. verdict i t a st)"
proof -
  from assms obtain members mt ps db1 where
      ident: "validate_submission_member_identity (catalog db) rows = Inr ()"
    and inputs: "member_inputs_for_flush (catalog db) rows = Inr members"
    and db1: "db1 = db\<lparr>catalog := set_bundle i (\<lambda>b. b\<lparr>bu_scan_summary := Some (scan_summary mt (length rows))\<rparr>) (catalog db)\<rparr>"
    and built: "build_targets e n members rows ts = Inr ps"
    and out: "write_targets e i ps \<lparr>fs_db = db1, fs_media = md, fs_copy_ids = [], fs_transient = [], fs_failures = [],
        fs_manifest = None\<rparr> = Inr st"
    by (auto simp: flush_attempt_def Let_def res_bind_Inr_iff split: option.splits sum.splits)
  have "steady (catalog db) (catalog db1)" unfolding db1 by (simp add: set_bundle_steady core_def)
  with write_targets_Inr [OF out] ident inputs built show ?thesis
    unfolding prepared_def by (intro exI [of _ ps]) (auto simp: fan_later_def intro: steady_trans)
qed

lemma flush_attempt_MemberFailed:
  assumes "flush_attempt e i ts n rows db md = Inl (MemberFailed r msg, db', md')"
  shows "r \<in> set rows \<and> md' = md \<and> steady (catalog db) (catalog db')"
proof -
  have scan: "steady c (set_bundle i (\<lambda>b. b\<lparr>bu_scan_summary := s\<rparr>) c)" for c s
    by (simp add: set_bundle_steady core_def)
  have unmapped: "r \<in> set rows" if "render_flush_map c ms rows = Inl (r, msg)" for c ms
    using that by (auto simp: render_flush_map_def split: option.splits dest!: find_SomeD set_zip_rightD)
  from assms show ?thesis
    by (auto simp: flush_attempt_def Let_def scan dest: unmapped build_targets_member split: option.splits sum.splits)
qed

lemma flush_attempt_Stopped:
  assumes "flush_attempt e i ts n rows db md = Inl (FlushStopped x, db', md')"
  shows "md' = md \<or> (\<exists>ps new. prepared e n rows ts (catalog db) ps \<and> md' = md @ new \<and> objects_of i ps new)"
proof (cases "md' = md")
  case False
  with assms obtain members ps st where "validate_submission_member_identity (catalog db) rows = Inr ()"
    "member_inputs_for_flush (catalog db) rows = Inr members" "build_targets e n members rows ts = Inr ps"
    "write_targets e i ps st = Inl (x, md')" "fs_media st = md"
    by (fastforce simp: flush_attempt_def Let_def res_bind_Inr_iff split: option.splits sum.splits)
  then show ?thesis unfolding prepared_def by (metis write_targets_Inl)
qed simp

section \<open>Moving a member\<close>

definition moved :: "nat set \<Rightarrow> string \<Rightarrow> bundle_member \<Rightarrow> bundle_member" where
  "moved Q q m = (if bm_id m \<in> Q then m\<lparr>bm_bundle_id := q\<rparr> else m)"

lemma moved_empty [simp]: "moved {} q = id"
  by (rule ext) (simp add: moved_def)

lemma moved_moved: "moved Q q (moved R q m) = moved (Q \<union> R) q m"
  by (simp add: moved_def)

lemma moved_simps [simp]: "bm_id (moved Q q m) = bm_id m" "bm_member_path (moved Q q m) = bm_member_path m"
  "bm_size_bytes (moved Q q m) = bm_size_bytes m" "bm_asset_hash (moved Q q m) = bm_asset_hash m"
  by (simp_all add: moved_def)

lemma update_moved: "update_where (\<lambda>r. bm_id r = k) (\<lambda>r. r\<lparr>bm_bundle_id := q\<rparr>) ms = map (moved {k} q) ms"
  by (simp add: update_where_def moved_def)

text \<open>A measure of the members of a bundle, before and after one of them moves.\<close>

lemma moved_sum:
  fixes g :: "bundle_member \<Rightarrow> int"
  assumes "distinct (map bm_id ms)" "m \<in> set ms" "bm_bundle_id m = i" "q \<noteq> i" and g: "\<And>r. g (moved {bm_id m} q r) = g r"
  shows "sum_list (map g (filter (\<lambda>x. bm_bundle_id x = j) (map (moved {bm_id m} q) ms))) =
         sum_list (map g (filter (\<lambda>x. bm_bundle_id x = j) ms)) + (if j = q then g m else if j = i then - g m else 0)"
  using assms(1, 2)
proof (induction ms)
  case (Cons x ms)
  show ?case
  proof (cases "x = m")
    case True
    with Cons.prems have "\<And>y. y \<in> set ms \<Longrightarrow> bm_id y \<noteq> bm_id m" by (auto simp: image_iff)
    then have "map (moved {bm_id m} q) ms = ms" by (intro map_idI) (simp add: moved_def)
    moreover have "bm_bundle_id (moved {bm_id m} q m) = q" by (simp add: moved_def)
    ultimately show ?thesis using True assms(3, 4) g [of m] by auto
  next
    case False
    with Cons.prems have "bm_id x \<noteq> bm_id m" by (auto simp: image_iff)
    then have "moved {bm_id m} q x = x" by (simp add: moved_def)
    with Cons False show ?thesis by auto
  qed
qed simp

lemma moved_length:
  assumes "distinct (map bm_id ms)" "m \<in> set ms" "bm_bundle_id m = i" "q \<noteq> i"
  shows "int (length (filter (\<lambda>x. bm_bundle_id x = j) (map (moved {bm_id m} q) ms))) =
         int (length (filter (\<lambda>x. bm_bundle_id x = j) ms)) + (if j = q then 1 else if j = i then - 1 else 0)"
  using moved_sum [OF assms, of "\<lambda>_. 1" j] by (simp add: sum_list_triv)

definition shift :: "string \<Rightarrow> string \<Rightarrow> string \<Rightarrow> int \<Rightarrow> int" where
  "shift i q j n = (if j = q then n else if j = i then - n else 0)"

definition moved_row :: "bundle_member \<Rightarrow> string \<Rightarrow> string \<Rightarrow> string \<Rightarrow> bundle_row \<Rightarrow> bundle_row" where
  "moved_row m i q message b =
     (if bu_id b = q then note_quarantined m message (count_member (bm_size_bytes m) b)
      else if bu_id b = i then uncount_member (bm_size_bytes m) b else b)"

lemma moved_row_simps [simp]:
  "bu_id (moved_row m i q msg b) = bu_id b" "bu_group (moved_row m i q msg b) = bu_group b"
  "bu_status (moved_row m i q msg b) = bu_status b" "bu_claimed_by (moved_row m i q msg b) = bu_claimed_by b"
  "bu_archive_id (moved_row m i q msg b) = bu_archive_id b"
  "open_accumulator (moved_row m i q msg b) = open_accumulator b"
  "bu_member_count (moved_row m i q msg b) = bu_member_count b + shift i q (bu_id b) 1"
  "bu_total_bytes (moved_row m i q msg b) = bu_total_bytes b + shift i q (bu_id b) (bm_size_bytes m)"
  by (simp_all add: moved_row_def note_quarantined_def count_member_def uncount_member_def open_accumulator_def shift_def Let_def)

lemma move_member_tables:
  assumes "q \<noteq> i"
  shows "bundles (move_member m i q msg c) = map (moved_row m i q msg) (bundles c)"
    "bundle_members (move_member m i q msg c) = map (moved {bm_id m} q) (bundle_members c)"
    "copies (move_member m i q msg c) = copies c" "asset_locators (move_member m i q msg c) = asset_locators c"
proof -
  show "bundles (move_member m i q msg c) = map (moved_row m i q msg) (bundles c)"
    using assms
    by (auto simp: move_member_def set_bundle_def Let_def update_where_def moved_row_def uncount_member_def)
  show "bundle_members (move_member m i q msg c) = map (moved {bm_id m} q) (bundle_members c)"
    by (simp add: move_member_def set_bundle_def Let_def update_moved)
qed (simp_all add: move_member_def set_bundle_def Let_def)

lemma moved_keys:
  assumes dist: "distinct (map (\<lambda>m. (bm_bundle_id m, bm_member_path m)) ms)" and ids: "distinct (map bm_id ms)"
    and m: "m \<in> set ms" and free: "(q, bm_member_path m) \<notin> (\<lambda>m. (bm_bundle_id m, bm_member_path m)) ` set ms"
  shows "distinct (map (\<lambda>m. (bm_bundle_id m, bm_member_path m)) (map (moved {bm_id m} q) ms))"
  unfolding map_map distinct_map
proof
  show "distinct ms" using ids by (simp add: distinct_map)
  have inj: "inj_on bm_id (set ms)" "inj_on (\<lambda>m. (bm_bundle_id m, bm_member_path m)) (set ms)"
    using ids dist by (simp_all add: distinct_map)
  have own: "x = m" if "x \<in> set ms" "bm_id x = bm_id m" for x by (rule inj_onD [OF inj(1) that(2) that(1) m])
  have key: "x = y" if "x \<in> set ms" "y \<in> set ms" "bm_bundle_id x = bm_bundle_id y" "bm_member_path x = bm_member_path y" for x y
    by (rule inj_onD [OF inj(2) _ that(1, 2)]) (simp add: that)
  have notq: "bm_bundle_id x \<noteq> q" if "x \<in> set ms" "bm_member_path x = bm_member_path m" for x
  proof
    assume "bm_bundle_id x = q"
    with that have "(q, bm_member_path m) = (bm_bundle_id x, bm_member_path x)" by simp
    then have "(q, bm_member_path m) \<in> (\<lambda>m. (bm_bundle_id m, bm_member_path m)) ` set ms"
      by (rule image_eqI [where f = "\<lambda>m. (bm_bundle_id m, bm_member_path m)"]) (rule that(1))
    with free show False by contradiction
  qed
  show "inj_on ((\<lambda>m. (bm_bundle_id m, bm_member_path m)) \<circ> moved {bm_id m} q) (set ms)"
  proof (rule inj_onI, simp, elim conjE)
    fix x y assume x: "x \<in> set ms" and y: "y \<in> set ms" and b: "bm_bundle_id (moved {bm_id m} q x) = bm_bundle_id (moved {bm_id m} q y)"
      and p: "bm_member_path x = bm_member_path y"
    consider "bm_id x = bm_id m" "bm_id y = bm_id m" | "bm_id x = bm_id m" "bm_id y \<noteq> bm_id m"
      | "bm_id x \<noteq> bm_id m" "bm_id y = bm_id m" | "bm_id x \<noteq> bm_id m" "bm_id y \<noteq> bm_id m" by blast
    then show "x = y"
    proof cases
      case 1 then show ?thesis using own [OF x] own [OF y] by simp
    next
      case 2 then show ?thesis using own [OF x] notq [OF y] b p by (simp add: moved_def)
    next
      case 3 then show ?thesis using own [OF y] notq [OF x] b p by (simp add: moved_def)
    next
      case 4 then show ?thesis using key [OF x y] b p by (simp add: moved_def)
    qed
  qed
qed

lemma ball_set_map: "(\<forall>x \<in> set (map f xs). P x) = (\<forall>x \<in> set xs. P (f x))"
  by simp

lemma move_ok:
  assumes ok: "archive_ok c" and m: "m \<in> set (bundle_members c)" "bm_bundle_id m = i" and q: "q \<noteq> i" "q \<in> bu_id ` set (bundles c)"
    and free: "(q, bm_member_path m) \<notin> (\<lambda>m. (bm_bundle_id m, bm_member_path m)) ` set (bundle_members c)"
  shows "archive_ok (move_member m i q msg c)"
proof -
  note t = move_member_tables [OF q(1), of m msg c]
  have dist: "distinct (map bm_id (bundle_members c))"
    "distinct (map (\<lambda>m. (bm_bundle_id m, bm_member_path m)) (bundle_members c))"
    and owners: "\<And>x. x \<in> set (bundle_members c) \<Longrightarrow> bm_bundle_id x \<in> bu_id ` set (bundles c)"
    and cnt: "\<And>b. b \<in> set (bundles c) \<Longrightarrow> counted c b" and one: "one_accumulator c"
    using ok by (simp_all add: archive_ok_def)
  have ids: "map bu_id (map (moved_row m i q msg) (bundles c)) = map bu_id (bundles c)" by simp
  have "one_accumulator (move_member m i q msg c)"
    unfolding one_accumulator_def t(1) ball_set_map moved_row_simps by (rule one [unfolded one_accumulator_def])
  moreover have "counted (move_member m i q msg c) b'" if "b' \<in> set (bundles (move_member m i q msg c))" for b'
  proof -
    from that obtain b where b: "b \<in> set (bundles c)" "b' = moved_row m i q msg b" by (auto simp: t(1))
    show ?thesis
      using cnt [OF b(1)] moved_length [OF dist(1) m q(1), of "bu_id b"]
        moved_sum [OF dist(1) m q(1), of bm_size_bytes "bu_id b"]
      unfolding counted_def members_of_def t(2) by (simp add: b(2) shift_def)
  qed
  moreover have "bm_bundle_id x \<in> bu_id ` set (bundles c)" if "x \<in> set (map (moved {bm_id m} q) (bundle_members c))" for x
    using that owners q(2) by (auto simp: moved_def)
  moreover have "bu_id ` set (bundles (move_member m i q msg c)) = bu_id ` set (bundles c)"
    unfolding t(1) by (rule image_map_eq) (rule ids)
  ultimately show ?thesis
    using ok moved_keys [OF dist(2, 1) m(1) free] ids by (simp add: archive_ok_def t o_def)
qed

section \<open>The rounds\<close>

definition apart :: "catalog_db \<Rightarrow> string \<Rightarrow> string \<Rightarrow> bool" where
  "apart c i q \<longleftrightarrow>
     (\<forall>x \<in> set (bundle_members c). \<forall>y \<in> set (bundle_members c).
        bm_bundle_id x = i \<longrightarrow> bm_bundle_id y = q \<longrightarrow> bm_member_path x \<noteq> bm_member_path y)"

definition held_funnel :: "catalog_db \<Rightarrow> string \<Rightarrow> bool" where
  "held_funnel c q \<longleftrightarrow> (\<exists>b \<in> set (bundles c). bu_id b = q \<and> bu_status b = ''held'' \<and> bu_archive_id b \<noteq> None)"

text \<open>What holds before each round: the tables are in order and the names of the two bundles are apart.\<close>

definition flush_inv :: "string \<Rightarrow> string option \<Rightarrow> catalog_db \<Rightarrow> bool" where
  "flush_inv i quarantine c \<longleftrightarrow>
     archive_ok c \<and> i \<in> bu_id ` set (bundles c) \<and>
     (case quarantine of None \<Rightarrow> True | Some q \<Rightarrow> q \<noteq> i \<and> held_funnel c q \<and> apart c i q)"

definition claim_cols :: "string \<Rightarrow> catalog_db \<Rightarrow> (string \<times> string option \<times> string option) option" where
  "claim_cols i c = map_option (\<lambda>b. (bu_status b, bu_claimed_by b, bu_archive_id b)) (get_bundle c i)"

lemma moved_apart:
  assumes ok: "archive_ok c" and m: "m \<in> set (bundle_members c)" "bm_bundle_id m = i" and q: "q \<noteq> i" and old: "apart c i q"
    and c': "bundle_members c' = map (moved {bm_id m} q) (bundle_members c)"
  shows "apart c' i q"
  unfolding apart_def
proof (intro ballI impI)
  fix x' y' assume mem: "x' \<in> set (bundle_members c')" "y' \<in> set (bundle_members c')" and b: "bm_bundle_id x' = i" "bm_bundle_id y' = q"
  from mem obtain x y where x: "x \<in> set (bundle_members c)" "x' = moved {bm_id m} q x"
    and y: "y \<in> set (bundle_members c)" "y' = moved {bm_id m} q y" by (auto simp: c')
  have inj: "inj_on bm_id (set (bundle_members c))" "inj_on (\<lambda>m. (bm_bundle_id m, bm_member_path m)) (set (bundle_members c))"
    using ok by (simp_all add: archive_ok_def distinct_map)
  from b(1) x(2) q have xi: "bm_bundle_id x = i" "bm_id x \<noteq> bm_id m" by (auto simp: moved_def split: if_splits)
  show "bm_member_path x' \<noteq> bm_member_path y'"
  proof (cases "bm_id y = bm_id m")
    case True
    then have "y = m" by (rule inj_onD [OF inj(1) _ y(1) m(1)])
    moreover have "bm_member_path x \<noteq> bm_member_path m"
    proof
      assume "bm_member_path x = bm_member_path m"
      then have "x = m" by (intro inj_onD [OF inj(2) _ x(1) m(1)]) (simp add: xi m)
      with xi show False by simp
    qed
    ultimately show ?thesis by (simp add: x y)
  next
    case False
    with b(2) y(2) have "bm_bundle_id y = q" by (simp add: moved_def)
    with old x(1) y(1) xi(1) have "bm_member_path x \<noteq> bm_member_path y" unfolding apart_def by blast
    then show ?thesis by (simp add: x y)
  qed
qed

lemma find_map: "find P (map f xs) = map_option f (find (P \<circ> f) xs)"
  by (induction xs) simp_all

lemma get_bundle_map:
  assumes "\<And>b. bu_id (f b) = bu_id b" "bundles c' = map f (bundles c)"
  shows "get_bundle c' i = map_option f (get_bundle c i)"
  using assms by (simp add: get_bundle_def find_map o_def)

lemma find_append: "find P (xs @ ys) = (case find P xs of None \<Rightarrow> find P ys | Some x \<Rightarrow> Some x)"
  by (induction xs) auto

lemma get_bundle_append: "bu_id b \<noteq> i \<Longrightarrow> get_bundle (c\<lparr>bundles := bundles c @ [b]\<rparr>) i = get_bundle c i"
  by (simp add: get_bundle_def find_append split: option.splits)

lemma move_inv:
  assumes inv: "flush_inv i (Some q) c" and m: "m \<in> set (bundle_members c)" "bm_bundle_id m = i"
  shows "flush_inv i (Some q) (move_member m i q msg c)" "claim_cols i (move_member m i q msg c) = claim_cols i c"
proof -
  from inv have q: "q \<noteq> i" and ok: "archive_ok c" and i: "i \<in> bu_id ` set (bundles c)" and h: "held_funnel c q" and ap: "apart c i q"
    by (auto simp: flush_inv_def)
  note t = move_member_tables [OF q, of m msg c]
  have "q \<in> bu_id ` set (bundles c)" using h by (auto simp: held_funnel_def)
  moreover have "(q, bm_member_path m) \<notin> (\<lambda>m. (bm_bundle_id m, bm_member_path m)) ` set (bundle_members c)"
    using ap m unfolding apart_def by auto
  ultimately have "archive_ok (move_member m i q msg c)" using move_ok [OF ok m q] by blast
  moreover have "bu_id ` set (bundles (move_member m i q msg c)) = bu_id ` set (bundles c)"
    unfolding t(1) by (rule image_map_eq) simp
  moreover have "held_funnel (move_member m i q msg c) q"
    using h unfolding held_funnel_def t(1) by (auto simp: Bex_def)
  moreover have "apart (move_member m i q msg c) i q" by (rule moved_apart [OF ok m q ap t(2)])
  ultimately show "flush_inv i (Some q) (move_member m i q msg c)" using q i by (simp add: flush_inv_def)
  have "get_bundle (move_member m i q msg c) i = map_option (moved_row m i q msg) (get_bundle c i)"
    by (rule get_bundle_map [OF _ t(1)]) simp
  then show "claim_cols i (move_member m i q msg c) = claim_cols i c"
    by (simp add: claim_cols_def option.map_comp o_def)
qed

lemma quarantine_step:
  assumes inv: "flush_inv i quarantine c" and m: "m \<in> set (bundle_members c)" "bm_bundle_id m = i"
    and step: "quarantine_member e i m quarantine msg c = Inr (c', q)"
  shows "flush_inv i (Some q) c'" "q = (case quarantine of None \<Rightarrow> ''bundle-'' @ fv_uuid e | Some x \<Rightarrow> x)"
    "bundle_members c' = map (moved {bm_id m} q) (bundle_members c)" "claim_cols i c' = claim_cols i c"
proof -
  have "flush_inv i (Some q) c' \<and> q = (case quarantine of None \<Rightarrow> ''bundle-'' @ fv_uuid e | Some x \<Rightarrow> x) \<and>
    bundle_members c' = map (moved {bm_id m} q) (bundle_members c) \<and> claim_cols i c' = claim_cols i c"
  proof (cases quarantine)
    case (Some x)
    with step have out: "q = x" "c' = move_member m i x msg c" by (auto simp: quarantine_member_def)
    from inv Some have inv: "flush_inv i (Some x) c" by simp
    then have "x \<noteq> i" by (simp add: flush_inv_def)
    from move_member_tables [OF this] move_inv [OF inv m] Some show ?thesis by (simp add: out)
  next
    case None
    let ?q = "''bundle-'' @ fv_uuid e"
    from inv have ok: "archive_ok c" and i: "i \<in> bu_id ` set (bundles c)" by (simp_all add: flush_inv_def)
    from step None obtain b c1 where ins: "insert_bundle (quarantine_bundle e b) c = Some c1"
      and out: "q = ?q" "c' = move_member m i ?q msg c1"
      by (auto simp: quarantine_member_def split: option.splits)
    have qid: "bu_id (quarantine_bundle e b) = ?q" by (simp add: quarantine_bundle_def Let_def)
    from ins have c1: "c1 = c\<lparr>bundles := bundles c @ [quarantine_bundle e b]\<rparr>" and new: "?q \<notin> bu_id ` set (bundles c)"
      by (auto simp: insert_bundle_def qid split: if_splits)
    have ne: "?q \<noteq> i" using new i by metis
    have "archive_ok c1" by (rule insert_bundle_ok [OF ok ins]) (simp_all add: quarantine_bundle_def Let_def)
    moreover have "held_funnel c1 ?q"
      by (auto simp: held_funnel_def c1 quarantine_bundle_def Let_def)
    moreover have "\<forall>y \<in> set (bundle_members c). bm_bundle_id y \<in> bu_id ` set (bundles c)" using ok by (simp add: archive_ok_def)
    then have "\<forall>y \<in> set (bundle_members c). bm_bundle_id y \<noteq> ?q" using new by metis
    then have "apart c1 i ?q" by (simp add: apart_def c1)
    ultimately have inv1: "flush_inv i (Some ?q) c1" using ne i by (simp add: flush_inv_def c1)
    have m1: "m \<in> set (bundle_members c1)" using m by (simp add: c1)
    have "claim_cols i c1 = claim_cols i c" using get_bundle_append ne by (simp add: claim_cols_def c1 qid)
    with move_member_tables [OF ne] move_inv [OF inv1 m1 m(2)] None show ?thesis by (simp add: out c1)
  qed
  then show "flush_inv i (Some q) c'" "q = (case quarantine of None \<Rightarrow> ''bundle-'' @ fv_uuid e | Some x \<Rightarrow> x)"
    "bundle_members c' = map (moved {bm_id m} q) (bundle_members c)" "claim_cols i c' = claim_cols i c" by auto
qed

lemma core_row:
  assumes "map core xs = map core ys" "x \<in> set xs"
  shows "\<exists>y \<in> set ys. core y = core x"
proof -
  have "core x \<in> core ` set ys" using image_map_eq [OF assms(1)] assms(2) by blast
  then show ?thesis by (elim imageE) (rule bexI, rule sym)
qed

lemma core_open: "core x = core y \<Longrightarrow> open_accumulator x = open_accumulator y"
  by (simp add: core_def open_accumulator_def)

lemma steady_archive_ok:
  assumes st: "steady c c'" and ok: "archive_ok c"
  shows "archive_ok c'"
proof -
  from st have ms: "bundle_members c' = bundle_members c" and cores: "map core (bundles c') = map core (bundles c)"
    by (simp_all add: steady_def grows_def)
  have ids: "map bu_id (bundles c') = map bu_id (bundles c)"
    using arg_cong [OF cores, of "map fst"] by (simp add: core_def o_def)
  have "one_accumulator c'"
    unfolding one_accumulator_def
  proof (intro ballI impI)
    fix a b assume "a \<in> set (bundles c')" "b \<in> set (bundles c')" and both: "open_accumulator a \<and> open_accumulator b \<and> bu_group a = bu_group b"
    with core_row [OF cores] obtain a0 b0 where a0: "a0 \<in> set (bundles c)" "core a0 = core a"
      and b0: "b0 \<in> set (bundles c)" "core b0 = core b" by metis
    have "open_accumulator a0" "open_accumulator b0" "bu_group a0 = bu_group b0"
      using both core_open [OF a0(2)] core_open [OF b0(2)] a0(2) b0(2) by (simp_all add: core_def)
    moreover have "one_accumulator c" using ok by (simp add: archive_ok_def)
    ultimately have "bu_id a0 = bu_id b0" using a0(1) b0(1) unfolding one_accumulator_def by metis
    then show "bu_id a = bu_id b" using a0(2) b0(2) by (simp add: core_def)
  qed
  moreover have "counted c' b" if "b \<in> set (bundles c')" for b
  proof -
    from core_row [OF cores that] obtain b0 where "b0 \<in> set (bundles c)" "core b0 = core b" by auto
    moreover from this(1) ok have "counted c b0" by (simp add: archive_ok_def)
    ultimately show ?thesis by (simp add: counted_def members_of_def ms core_def)
  qed
  moreover have "bu_id ` set (bundles c') = bu_id ` set (bundles c)" by (rule image_map_eq) (rule ids)
  ultimately show ?thesis using ok ids ms by (simp add: archive_ok_def)
qed

lemma core_find:
  "map core xs = map core ys \<Longrightarrow>
   map_option core (find (\<lambda>b. bu_id b = i) xs) = map_option core (find (\<lambda>b. bu_id b = i) ys)"
proof (induction xs arbitrary: ys)
  case (Cons x xs)
  then obtain y zs where ys: "ys = y # zs" "core x = core y" "map core xs = map core zs" by auto
  then have "bu_id x = bu_id y" by (simp add: core_def)
  with Cons.IH ys show ?case by simp
qed simp

lemma steady_claim: "steady c c' \<Longrightarrow> claim_cols i c' = claim_cols i c"
proof -
  assume "steady c c'"
  then have "map_option core (get_bundle c' i) = map_option core (get_bundle c i)"
    using core_find unfolding steady_def get_bundle_def by blast
  moreover have "claim_cols i d = map_option (\<lambda>(_, _, s, b, a, _). (s, b, a)) (map_option core (get_bundle d i))" for d
    by (simp add: claim_cols_def core_def option.map_comp o_def)
  ultimately show ?thesis by simp
qed

lemma steady_inv:
  assumes st: "steady c c'" and inv: "flush_inv i q c"
  shows "flush_inv i q c'"
proof -
  from st have ms: "bundle_members c' = bundle_members c" and cores: "map core (bundles c) = map core (bundles c')"
    by (simp_all add: steady_def grows_def)
  have row: "\<exists>b' \<in> set (bundles c'). bu_id b' = bu_id b \<and> bu_status b' = bu_status b \<and> bu_archive_id b' = bu_archive_id b"
    if "b \<in> set (bundles c)" for b
    using core_row [OF cores that] by (auto simp: core_def)
  have held: "held_funnel c' x" if "held_funnel c x" for x
  proof -
    from that obtain b where b: "b \<in> set (bundles c)" "bu_id b = x" "bu_status b = ''held''" "bu_archive_id b \<noteq> None"
      unfolding held_funnel_def by auto
    from row [OF b(1)] b(2-4) show ?thesis unfolding held_funnel_def by (elim bexE) (rule bexI, simp_all)
  qed
  from inv obtain b where b: "b \<in> set (bundles c)" "bu_id b = i" unfolding flush_inv_def by auto
  from row [OF b(1)] b(2) obtain b' where "b' \<in> set (bundles c')" "bu_id b' = i" by auto
  then have "i \<in> bu_id ` set (bundles c')" by (intro image_eqI [of i bu_id b']) simp_all
  moreover have "apart c' i x = apart c i x" for x by (simp only: apart_def ms)
  ultimately show ?thesis
    using inv steady_archive_ok [OF st] held by (cases q) (simp_all add: flush_inv_def)
qed

lemma rows_in: "r \<in> set (member_rows_for_flush c i) \<longleftrightarrow> r \<in> set (bundle_members c) \<and> bm_bundle_id r = i"
  by (auto simp: member_rows_for_flush_def)

lemma rows_length: "length (member_rows_for_flush c i) = length (members_of c i)"
  by (simp add: member_rows_for_flush_def members_of_def)

text \<open>The round after a failed one starts with one member less.\<close>

lemma next_round:
  assumes inv: "flush_inv i quarantine (catalog db)"
    and fail: "flush_attempt e i ts n (member_rows_for_flush (catalog db) i) db md = Inl (MemberFailed r msg, db1, md1)"
    and step: "quarantine_member e i r quarantine msg (catalog db1) = Inr (c, q)"
  shows "flush_inv i (Some q) c" "q = (case quarantine of None \<Rightarrow> ''bundle-'' @ fv_uuid e | Some x \<Rightarrow> x)"
    "r \<in> set (members_of (catalog db) i)" "bundle_members c = map (moved {bm_id r} q) (bundle_members (catalog db))"
    "claim_cols i c = claim_cols i (catalog db)" "md1 = md"
    "Suc (length (member_rows_for_flush c i)) = length (member_rows_for_flush (catalog db) i)"
proof -
  note f = flush_attempt_MemberFailed [OF fail]
  then have r: "r \<in> set (bundle_members (catalog db))" "bm_bundle_id r = i" and st: "steady (catalog db) (catalog db1)"
    by (simp_all add: rows_in)
  have same: "bundle_members (catalog db1) = bundle_members (catalog db)" using st by (simp add: steady_def grows_def)
  note s = quarantine_step [OF steady_inv [OF st inv] _ r(2) step, unfolded same, OF r(1)]
  show "flush_inv i (Some q) c" "q = (case quarantine of None \<Rightarrow> ''bundle-'' @ fv_uuid e | Some x \<Rightarrow> x)"
    "bundle_members c = map (moved {bm_id r} q) (bundle_members (catalog db))" by (rule s)+
  show "claim_cols i c = claim_cols i (catalog db)" using s(4) steady_claim [OF st] by simp
  show "r \<in> set (members_of (catalog db) i)" using r by (simp add: members_of_def)
  show "md1 = md" using f by simp
  have "q \<noteq> i" using s(1) by (simp add: flush_inv_def)
  moreover have "distinct (map bm_id (bundle_members (catalog db)))" using inv by (simp add: flush_inv_def archive_ok_def)
  ultimately show "Suc (length (member_rows_for_flush c i)) = length (member_rows_for_flush (catalog db) i)"
    using moved_length [OF _ r, of q i] by (simp add: rows_length members_of_def s(3))
qed

lemma moved_pair: "map (moved Q q) (map (moved R q) ms) = map (moved (Q \<union> R) q) ms"
  by (simp add: moved_moved)

end
