(* ===== verification/Archive_Append.thy ===== *)
theory Archive_Append
  imports Archive_Bundle_Facts
begin

text \<open>
  Appending to a bundle: tags in member names can be read back, a repeated enqueue lands on its own row and
  changes nothing, and a seal while the source is being hashed does not stop the append.
\<close>

section \<open>Tags\<close>

lemma head_base: "head_slash p @ base_name p = p"
proof -
  have "rev (head_slash p @ base_name p) = takeWhile (\<lambda>x. x \<noteq> CHR ''/'') (rev p) @ dropWhile (\<lambda>x. x \<noteq> CHR ''/'') (rev p)"
    by (simp add: head_slash_def base_name_def)
  then have "rev (head_slash p @ base_name p) = rev p" by simp
  then show ?thesis by (simp only: rev_is_rev_conv)
qed

lemma head_slash_shape: "head_slash p = [] \<or> (\<exists>d. head_slash p = d @ ''/'')"
proof (cases "dropWhile (\<lambda>x. x \<noteq> CHR ''/'') (rev p)")
  case (Cons y ys)
  then have "y = CHR ''/''" using hd_dropWhile [of "\<lambda>x. x \<noteq> CHR ''/''" "rev p"] by simp
  with Cons show ?thesis by (simp add: head_slash_def)
qed (simp add: head_slash_def)

lemma base_of_join:
  assumes "CHR ''/'' \<notin> set s" "h = [] \<or> (\<exists>d. h = d @ ''/'')"
  shows "base_name (h @ s) = s" "head_slash (h @ s) = h"
proof -
  have "\<forall>x \<in> set (rev s). x \<noteq> CHR ''/''" using assms(1) by auto
  then have "takeWhile (\<lambda>x. x \<noteq> CHR ''/'') (rev s @ r) = rev s @ takeWhile (\<lambda>x. x \<noteq> CHR ''/'') r"
    "dropWhile (\<lambda>x. x \<noteq> CHR ''/'') (rev s @ r) = dropWhile (\<lambda>x. x \<noteq> CHR ''/'') r" for r
    by (auto simp: takeWhile_append dropWhile_append)
  moreover from assms(2) have "takeWhile (\<lambda>x. x \<noteq> CHR ''/'') (rev h) = []" "dropWhile (\<lambda>x. x \<noteq> CHR ''/'') (rev h) = rev h"
    by auto
  ultimately show "base_name (h @ s) = s" "head_slash (h @ s) = h"
    by (simp_all add: base_name_def head_slash_def)
qed

lemma base_name_no_slash: "CHR ''/'' \<notin> set (base_name p)"
  using set_takeWhileD [of "CHR ''/''" "\<lambda>x. x \<noteq> CHR ''/''" "rev p"] by (auto simp: base_name_def)

lemma tagged_base:
  assumes "CHR ''/'' \<notin> set t" "partition_at (CHR ''.'') (base_name p) = (stem, dot, rest)"
  shows "base_name (tag_member_path p t) = (if dot then stem @ ''.'' @ t @ ''.'' @ rest else stem @ ''.'' @ t)"
    "head_slash (tag_member_path p t) = head_slash p"
proof -
  let ?s = "if dot then stem @ ''.'' @ t @ ''.'' @ rest else stem @ ''.'' @ t"
  have "set stem \<union> set rest \<subseteq> set (base_name p)"
    using assms(2) partition_at_found [of "CHR ''.''" "base_name p" stem rest]
      partition_at_notfound [of "CHR ''.''" "base_name p" stem rest] by (cases dot) auto
  then have "CHR ''/'' \<notin> set ?s" using base_name_no_slash [of p] assms(1) by auto
  from base_of_join [OF this head_slash_shape [of p]]
  show "base_name (tag_member_path p t) = ?s" "head_slash (tag_member_path p t) = head_slash p"
    using assms(2) by (simp_all add: tag_member_path_def)
qed

text \<open>
  C29: The tag that the naming ladder puts into a member name can be read back from the two names: for every
  requested path and every non-empty tag without a slash, the tag extracted from the tagged path is that tag.
\<close>

theorem member_tag_round_trip:
  assumes "t \<noteq> []" "CHR ''/'' \<notin> set t"
  shows "extract_member_tag p (tag_member_path p t) = Some t"
proof -
  obtain stem dot rest where part: "partition_at (CHR ''.'') (base_name p) = (stem, dot, rest)"
    by (cases "partition_at (CHR ''.'') (base_name p)") auto
  note tagged = tagged_base [OF assms(2) part]
  have whole: "base_name p = (if dot then stem @ ''.'' @ rest else stem)"
    using part partition_at_found [of "CHR ''.''" "base_name p" stem rest]
      partition_at_notfound [of "CHR ''.''" "base_name p" stem rest] by (cases dot) auto
  have "length (base_name p) < length (base_name (tag_member_path p t))"
    unfolding tagged whole by simp
  then have "tag_member_path p t \<noteq> p" by (metis less_irrefl)
  then show ?thesis
    using assms(1) part tagged
    by (cases dot) (simp_all add: extract_member_tag_def starts_with_def ends_with_def Let_def)
qed

theorem member_tag_round_trip_witness:
  "extract_member_tag ''d/a.mov'' (tag_member_path ''d/a.mov'' ''9f'') = Some ''9f'' \<and>
   tag_member_path ''d/a.mov'' ''9f'' = ''d/a.9f.mov''"
proof
  show "extract_member_tag ''d/a.mov'' (tag_member_path ''d/a.mov'' ''9f'') = Some ''9f''"
    by (rule member_tag_round_trip) simp_all
  show "tag_member_path ''d/a.mov'' ''9f'' = ''d/a.9f.mov''"
    by (simp add: tag_member_path_def base_name_def head_slash_def)
qed

section \<open>Metadata\<close>

lemma link_of_json [simp]: "submission_link_of (link_json l) = [l]"
  by (simp add: submission_link_of_def link_json_def)

lemma submission_links_set [simp]:
  "submission_links (Some (dict_set SUBMISSION_LINKS_KEY (JArr (map link_json ls)) d)) = ls"
proof -
  have "concat (map submission_link_of (map link_json ls)) = ls" by (induction ls) simp_all
  then show ?thesis by (simp add: submission_links_def)
qed

lemma submission_links_other: "k \<noteq> SUBMISSION_LINKS_KEY \<Longrightarrow> submission_links (Some (dict_set k v d)) = submission_links (Some d)"
  by (simp add: submission_links_def)

text \<open>An entry is absorbed when merging it again would change nothing.\<close>

definition absorbed :: "jobj \<Rightarrow> string \<times> json \<Rightarrow> bool" where
  "absorbed d e \<longleftrightarrow>
     (if fst e = SUBMISSION_LINKS_KEY
      then set (submission_links (Some [(SUBMISSION_LINKS_KEY, snd e)])) \<subseteq> set (submission_links (Some d))
      else map_of d (fst e) \<noteq> None)"

lemma merge_entry_absorbed: "absorbed d e \<Longrightarrow> merge_entry (d, b) e = (d, b)"
proof (cases e)
  case (Pair k v)
  assume "absorbed d e"
  with Pair show ?thesis
  proof (cases "k = SUBMISSION_LINKS_KEY")
    case True
    with Pair \<open>absorbed d e\<close> have "filter (\<lambda>l. l \<notin> set (submission_links (Some d))) (submission_links (Some [(SUBMISSION_LINKS_KEY, v)])) = []"
      by (auto simp: absorbed_def filter_empty_conv)
    with True Pair show ?thesis by (simp add: merge_entry_def Let_def)
  qed (auto simp: merge_entry_def absorbed_def)
qed

lemma merge_entry_absorbs: "absorbed (fst (merge_entry a e)) e"
proof (cases a; cases e)
  fix d b k v assume ae: "a = (d, b)" "e = (k, v)"
  let ?new = "filter (\<lambda>l. l \<notin> set (submission_links (Some d))) (submission_links (Some [(SUBMISSION_LINKS_KEY, v)]))"
  show ?thesis
  proof (cases "k = SUBMISSION_LINKS_KEY \<and> ?new \<noteq> []")
    case True
    then have "fst (merge_entry a e) = dict_set k (JArr (map link_json (submission_links (Some d) @ ?new))) d"
      unfolding ae by (simp add: merge_entry_def Let_def)
    with True have "submission_links (Some (fst (merge_entry a e))) = submission_links (Some d) @ ?new"
      by (simp only: submission_links_set)
    with True ae show ?thesis by (auto simp: absorbed_def)
  next
    case False
    then show ?thesis unfolding ae
      by (auto simp: merge_entry_def absorbed_def Let_def filter_empty_conv)
  qed
qed

lemma merge_entry_keeps: "absorbed (fst a) x \<Longrightarrow> absorbed (fst (merge_entry a e)) x"
proof (cases a; cases e)
  fix d b k v assume abs: "absorbed (fst a) x" and ae: "a = (d, b)" "e = (k, v)"
  let ?new = "filter (\<lambda>l. l \<notin> set (submission_links (Some d))) (submission_links (Some [(SUBMISSION_LINKS_KEY, v)]))"
  consider "k = SUBMISSION_LINKS_KEY" "?new \<noteq> []" | "k \<noteq> SUBMISSION_LINKS_KEY" "map_of d k = None"
    | "fst (merge_entry a e) = d" unfolding ae
    by (cases "k = SUBMISSION_LINKS_KEY"; cases "?new = []"; cases "map_of d k") (simp_all add: merge_entry_def Let_def)
  then show ?thesis
  proof cases
    case 1
    then have m: "fst (merge_entry a e) = dict_set k (JArr (map link_json (submission_links (Some d) @ ?new))) d"
      unfolding ae by (simp add: merge_entry_def Let_def)
    with 1 have links: "set (submission_links (Some d)) \<subseteq> set (submission_links (Some (fst (merge_entry a e))))"
      by (simp only: submission_links_set set_append Un_upper1)
    have keys: "map_of d y \<noteq> None \<Longrightarrow> map_of (fst (merge_entry a e)) y \<noteq> None" for y unfolding m by auto
    have abs': "absorbed d x" using abs ae by simp
    show ?thesis
    proof (cases "fst x = SUBMISSION_LINKS_KEY")
      case True
      show ?thesis using abs' links unfolding absorbed_def if_P [OF True] by (rule subset_trans)
    next
      case False
      with abs' keys show ?thesis unfolding absorbed_def if_not_P [OF False] by blast
    qed
  next
    case 2
    then have "fst (merge_entry a e) = dict_set k v d" unfolding ae by (simp add: merge_entry_def)
    with abs ae 2 show ?thesis by (auto simp: absorbed_def submission_links_other)
  qed (use abs ae in simp)
qed

lemma merge_fold_keeps: "absorbed (fst a) x \<Longrightarrow> absorbed (fst (foldl merge_entry a es)) x"
  by (induction es arbitrary: a) (simp_all add: merge_entry_keeps)

lemma merge_fold_absorbs: "e \<in> set es \<Longrightarrow> absorbed (fst (foldl merge_entry a es)) e"
proof (induction es arbitrary: a)
  case (Cons x es)
  show ?case
  proof (cases "e \<in> set es")
    case True
    with Cons.IH [of "merge_entry a x"] show ?thesis by simp
  next
    case False
    with Cons.prems merge_fold_keeps [OF merge_entry_absorbs, of a e es] show ?thesis by simp
  qed
qed simp

lemma merge_fold_absorbed: "(\<And>e. e \<in> set es \<Longrightarrow> absorbed d e) \<Longrightarrow> foldl merge_entry (d, b) es = (d, b)"
  by (induction es) (simp_all add: merge_entry_absorbed)

lemma merge_entry_unchanged: "merge_entry (d, b) e = (d', False) \<Longrightarrow> d' = d \<and> \<not> b"
  by (auto simp: merge_entry_def Let_def split: prod.splits if_splits)

lemma merge_fold_unchanged: "foldl merge_entry (d, b) es = (d', False) \<Longrightarrow> d' = d \<and> \<not> b"
proof (induction es arbitrary: d b)
  case (Cons e es)
  obtain d1 b1 where "merge_entry (d, b) e = (d1, b1)" by (cases "merge_entry (d, b) e")
  with Cons merge_entry_unchanged [of d b e] show ?case by fastforce
qed simp

abbreviation dict_or_empty :: "jobj option \<Rightarrow> jobj" where
  "dict_or_empty x \<equiv> (case x of None \<Rightarrow> [] | Some d \<Rightarrow> d)"

lemma merge_again:
  assumes "\<And>e. e \<in> set (dict_or_empty x) \<Longrightarrow> absorbed (dict_or_empty s) e"
  shows "merge_metadata s x = (s, False)"
  using merge_fold_absorbed [of "dict_or_empty x" "dict_or_empty s" False] assms by (simp add: merge_metadata_def)

lemma merge_metadata_idem: "merge_metadata (fst (merge_metadata s x)) x = (fst (merge_metadata s x), False)"
proof (rule merge_again)
  fix e assume e: "e \<in> set (dict_or_empty x)"
  obtain d b where f: "foldl merge_entry (dict_or_empty s, False) (dict_or_empty x) = (d, b)"
    by (cases "foldl merge_entry (dict_or_empty s, False) (dict_or_empty x)")
  have "dict_or_empty (fst (merge_metadata s x)) = d"
    using f merge_fold_unchanged [of "dict_or_empty s" False "dict_or_empty x" d] by (auto simp: merge_metadata_def)
  with merge_fold_absorbs [OF e, of "(dict_or_empty s, False)"] f
  show "absorbed (dict_or_empty (fst (merge_metadata s x))) e" by simp
qed

lemma merge_metadata_self:
  assumes "distinct (map fst (dict_or_empty x))"
  shows "merge_metadata x x = (x, False)"
proof (rule merge_again)
  fix e assume e: "e \<in> set (dict_or_empty x)"
  then have "map_of (dict_or_empty x) (fst e) = Some (snd e)"
    using assms by (simp add: map_of_eq_Some_iff)
  then show "absorbed (dict_or_empty x) e" by (auto simp: absorbed_def submission_links_def)
qed

section \<open>Climbing the ladder again\<close>

lemma climb_again:
  assumes "climb c i a h occ rungs = Some (p, ex, occ')"
    and "\<And>x. x \<noteq> p \<Longrightarrow> member_at d i x = member_at c i x"
    and "member_at d i p = Some m" "bm_artifactclass m = a" "bm_asset_hash m = h"
  shows "climb d i a h occ rungs = Some (p, Some m, occ')"
  using assms(1)
proof (induction rungs arbitrary: occ)
  case (Cons x rungs)
  show ?case
  proof (cases "x = p")
    case True
    with Cons.prems assms(3-5) show ?thesis
    proof (cases "member_at c i x")
      case (Some r)
      show ?thesis
      proof (cases "bm_artifactclass r = a \<and> bm_asset_hash r = h")
        case False
        with Some Cons.prems have up: "climb c i a h (case occ of None \<Rightarrow> Some r | o' \<Rightarrow> o') rungs = Some (p, ex, occ')" by simp
        have "member_at c i p \<noteq> Some r'" if "bm_artifactclass r' = a" "bm_asset_hash r' = h" for r'
          using that False Some True by auto
        then have "climb c i a h o' rs \<noteq> Some (p, ex, occ')" for o' rs
          using True Some False by (induction rs arbitrary: o') (auto split: option.splits if_splits)
        with up show ?thesis by simp
      qed (use Cons.prems Some True assms(3-5) in simp)
    qed simp
  next
    case False
    with assms(2) have same: "member_at d i x = member_at c i x" by simp
    show ?thesis
    proof (cases "member_at c i x")
      case None
      with Cons.prems False show ?thesis by simp
    next
      case (Some r)
      with Cons.prems False Cons.IH same show ?thesis by (auto split: if_splits)
    qed
  qed
qed simp

lemma climb_Some:
  assumes "climb c i a h occ rungs = Some (p, ex, occ')"
  shows "p \<in> set rungs \<and> ex = member_at c i p \<and> (\<forall>m. ex = Some m \<longrightarrow> bm_artifactclass m = a \<and> bm_asset_hash m = h)"
  using assms by (induction rungs arbitrary: occ) (auto split: option.splits if_splits)

lemma member_at_append:
  "bundle_members d = bundle_members c @ [m] \<Longrightarrow>
   member_at d i x = (case member_at c i x of Some r \<Rightarrow> Some r
     | None \<Rightarrow> if bm_bundle_id m = i \<and> bm_member_path m = x then Some m else None)"
proof -
  have "find P (xs @ [m]) = (case find P xs of Some r \<Rightarrow> Some r | None \<Rightarrow> if P m then Some m else None)" for P and xs :: "bundle_member list"
    by (induction xs) auto
  then show "bundle_members d = bundle_members c @ [m] \<Longrightarrow> ?thesis" by (simp add: member_at_def)
qed

lemma member_at_update:
  assumes "bundle_members d = update_where P f (bundle_members c)" "\<And>r. bm_bundle_id (f r) = bm_bundle_id r"
    "\<And>r. bm_member_path (f r) = bm_member_path r"
  shows "member_at d i x = map_option (\<lambda>r. if P r then f r else r) (member_at c i x)"
proof -
  have "find Q (update_where P f xs) = map_option (\<lambda>r. if P r then f r else r) (find Q xs)" if "\<And>r. Q (f r) = Q r" for Q xs
    using that by (induction xs) auto
  then show ?thesis unfolding member_at_def assms(1) using assms(2,3) by simp
qed

end
