(* ===== verification/Archive_Retry.thy ===== *)
theory Archive_Retry
  imports Archive_Append
begin

text \<open>
  One append without interference, and why a second one finds its row: the ladder stops at the same rung, the
  metadata is already merged, and the same bundle is chosen.
\<close>

section \<open>One append without interference\<close>

definition identity :: "bundle_member \<Rightarrow> string \<times> string \<times> string \<times> bytes" where
  "identity m = (bm_bundle_id m, bm_member_path m, bm_artifactclass m, bm_asset_hash m)"

lemma member_attempt_cases:
  assumes ok: "archive_ok c" and res: "member_attempt id now i q c = Inr (c', Some (m, created))"
  obtains (created) p occ where "created" "c' = set_bundle i (count_member (mr_size_bytes q)) (c\<lparr>bundle_members := bundle_members c @ [m]\<rparr>)"
      "climb c i (mr_artifactclass q) (mr_asset_hash q) None (name_ladder (mr_member_path q) (mr_file_sha256 q) (mr_artifactclass q)) = Some (p, None, occ)"
      "identity m = (i, p, mr_artifactclass q, mr_asset_hash q)" "bm_source_metadata m = mr_source_metadata q"
      "bm_id m \<notin> bm_id ` set (bundle_members c)" "i \<in> bu_id ` set (bundles c)"
    | (found) p r occ where "\<not> created"
      "c' = c\<lparr>bundle_members := update_where (\<lambda>x. bm_id x = bm_id r) (\<lambda>x. x\<lparr>bm_source_metadata := bm_source_metadata m\<rparr>) (bundle_members c)\<rparr>"
      "climb c i (mr_artifactclass q) (mr_asset_hash q) None (name_ladder (mr_member_path q) (mr_file_sha256 q) (mr_artifactclass q)) = Some (p, Some r, occ)"
      "m = r\<lparr>bm_source_metadata := fst (merge_metadata (bm_source_metadata r) (mr_source_metadata q))\<rparr>"
proof -
  from res obtain p ex occ where
    name: "resolve_member_name c i (mr_artifactclass q) (mr_member_path q) (mr_file_sha256 q) (mr_asset_hash q) = Inr (p, ex, occ)"
    by (auto simp: member_attempt_def res_bind_Inr_iff)
  then have climb: "climb c i (mr_artifactclass q) (mr_asset_hash q) None
      (name_ladder (mr_member_path q) (mr_file_sha256 q) (mr_artifactclass q)) = Some (p, ex, occ)"
    by (auto simp: resolve_member_name_def split: option.splits)
  show thesis
  proof (cases ex)
    case (Some r)
    from res name Some show thesis
      by (intro found [of r p occ]) (use climb Some in \<open>auto simp: member_attempt_def merge_member_source_metadata_def Let_def\<close>)
  next
    case None
    let ?m = "new_member now i p q (fresh_id (map bm_id (bundle_members c)))"
    from res name None obtain d where ins: "insert_member ?m c = Some d"
      and c': "c' = set_bundle i (count_member (mr_size_bytes q)) d" and m: "m = ?m" "created"
      by (auto simp: member_attempt_def Let_def split: option.splits)
    from ins have "d = c\<lparr>bundle_members := bundle_members c @ [?m]\<rparr>" "i \<in> bu_id ` set (bundles c)"
      by (auto simp: insert_member_def get_bundle_None new_member_def split: if_splits)
    moreover have "fresh_id (map bm_id (bundle_members c)) \<notin> bm_id ` set (bundle_members c)"
      using fresh_id_notin [of "map bm_id (bundle_members c)"] by simp
    ultimately show thesis
      by (intro created [of p occ]) (use climb None c' m in \<open>simp_all add: identity_def new_member_def\<close>)
  qed
qed

text \<open>A second attempt stops at the row of the first.\<close>

lemma member_attempt_again:
  assumes ok: "archive_ok c" and res: "member_attempt id now i q c = Inr (c', Some (m, created))"
    and keys: "distinct (map fst (dict_or_empty (mr_source_metadata q)))"
  shows "member_attempt id now' i q c' = Inr (c', Some (m, False))"
proof -
  let ?rungs = "name_ladder (mr_member_path q) (mr_file_sha256 q) (mr_artifactclass q)"
  let ?a = "mr_artifactclass q" and ?h = "mr_asset_hash q"
  have ok': "archive_ok c'" by (rule member_attempt_ok [OF ok _ res]) (simp add: keeps_ok_def)
  obtain p occ where up: "climb c' i ?a ?h None ?rungs = Some (p, Some m, occ)"
    and idem: "merge_metadata (bm_source_metadata m) (mr_source_metadata q) = (bm_source_metadata m, False)"
    and m: "m \<in> set (bundle_members c')"
    using ok res
  proof (cases rule: member_attempt_cases)
    case (created p occ)
    have rows: "bundle_members c' = bundle_members c @ [m]" using created(2) by (simp add: set_bundle_def)
    have free: "member_at c i p = None" using climb_Some [OF created(3)] by simp
    have "climb c' i ?a ?h None ?rungs = Some (p, Some m, occ)"
      using created(4) free by (intro climb_again [OF created(3)]) (auto simp: member_at_append [OF rows] identity_def split: option.splits)
    then show thesis using that created(5) merge_metadata_self [OF keys] rows by simp
  next
    case (found p r occ)
    have r: "member_at c i p = Some r" "bm_artifactclass r = ?a" "bm_asset_hash r = ?h" using climb_Some [OF found(3)] by auto
    have uniq: "x = r" if "x \<in> set (bundle_members c)" "bm_id x = bm_id r" for x
      using ok that member_at_Some [OF r(1)] by (auto simp: archive_ok_def distinct_map inj_on_def)
    have at': "member_at c' i x = map_option (\<lambda>y. if bm_id y = bm_id r then y\<lparr>bm_source_metadata := bm_source_metadata m\<rparr> else y) (member_at c i x)" for x
      by (rule member_at_update) (simp_all add: found(2))
    have "member_at c' i x = member_at c i x" if "x \<noteq> p" for x
      using uniq member_at_Some [of c i x] member_at_Some [OF r(1)] that
      unfolding at' by (cases "member_at c i x") auto
    moreover have "member_at c' i p = Some m" using r(1) found(4) by (simp add: at')
    ultimately have "climb c' i ?a ?h None ?rungs = Some (p, Some m, occ)"
      using r(2,3) found(4) by (intro climb_again [OF found(3)]) simp_all
    then show thesis
      using that found(4) merge_metadata_idem [of "bm_source_metadata r" "mr_source_metadata q"]
        member_at_Some [OF \<open>member_at c' i p = Some m\<close>] by simp
  qed
  have same: "x = m" if "x \<in> set (bundle_members c')" "bm_id x = bm_id m" for x
    using ok' m that unfolding archive_ok_def distinct_map inj_on_def by blast
  have "update_where (\<lambda>r. bm_id r = bm_id m) (\<lambda>r. r\<lparr>bm_source_metadata := bm_source_metadata m\<rparr>) (bundle_members c') = bundle_members c'"
    unfolding update_where_def by (rule map_idI) (auto dest: same)
  with up idem show ?thesis
    by (simp add: member_attempt_def resolve_member_name_def merge_member_source_metadata_def)
qed

subsection \<open>What an append leaves alone\<close>

definition row_kept :: "(bundle_row \<Rightarrow> bundle_row) \<Rightarrow> bool" where
  "row_kept g \<longleftrightarrow> (\<forall>b. bu_id (g b) = bu_id b \<and> bu_group (g b) = bu_group b \<and> bu_status (g b) = bu_status b \<and>
     bu_archive_id (g b) = bu_archive_id b \<and> assert_open_witness (g b) = assert_open_witness b)"

definition appended :: "string \<Rightarrow> catalog_db \<Rightarrow> catalog_db \<Rightarrow> bool" where
  "appended i c d \<longleftrightarrow>
     (\<exists>g. row_kept g \<and> bundles d = update_where (\<lambda>b. bu_id b = i) g (bundles c)) \<and>
     (\<forall>r \<in> set (bundle_members d). bm_bundle_id r = i \<or> identity r \<in> identity ` set (bundle_members c)) \<and>
     class_pools d = class_pools c \<and> pools d = pools c \<and> policies d = policies c \<and> logical_assets d = logical_assets c"

lemma row_kept_count: "row_kept (count_member n)"
  by (simp add: row_kept_def count_member_def assert_open_witness_def witness_threshold_def)

lemma update_where_id: "update_where P (\<lambda>x. x) xs = xs"
  by (induction xs) simp_all

lemma member_attempt_appended:
  assumes ok: "archive_ok c" and res: "member_attempt id now i q c = Inr (c', Some (m, created))"
  shows "appended i c c'"
  using ok res
proof (cases rule: member_attempt_cases)
  case (created p occ)
  have "\<exists>g. row_kept g \<and> bundles c' = update_where (\<lambda>b. bu_id b = i) g (bundles c)"
    using row_kept_count created(2) by (auto simp: set_bundle_def)
  moreover have "bundle_members c' = bundle_members c @ [m]" using created(2) by (simp add: set_bundle_def)
  moreover have "bm_bundle_id m = i" using created(4) by (simp add: identity_def)
  ultimately show ?thesis unfolding appended_def using created(2) by (auto simp: set_bundle_def)
next
  case (found p r occ)
  let ?f = "\<lambda>x. x\<lparr>bm_source_metadata := bm_source_metadata m\<rparr>"
  have "bundles c' = update_where (\<lambda>b. bu_id b = i) (\<lambda>b. b) (bundles c)"
    unfolding update_where_id by (simp add: found(2))
  then have "\<exists>g. row_kept g \<and> bundles c' = update_where (\<lambda>b. bu_id b = i) g (bundles c)"
    by (intro exI [of _ "\<lambda>b. b"]) (simp add: row_kept_def)
  moreover have "identity x \<in> identity ` set (bundle_members c)" if "x \<in> set (bundle_members c')" for x
  proof -
    from that obtain y where "y \<in> set (bundle_members c)" "x = y \<or> x = ?f y"
      unfolding found(2) by (auto simp: set_update_where)
    moreover have "identity (?f y) = identity y" by (simp add: identity_def)
    ultimately show ?thesis by (metis imageI)
  qed
  moreover have "class_pools c' = class_pools c \<and> pools c' = pools c \<and> policies c' = policies c \<and> logical_assets c' = logical_assets c"
    by (simp add: found(2))
  ultimately show ?thesis unfolding appended_def by blast
qed

lemma appended_ids:
  assumes "appended i c d"
  shows "bu_id ` set (bundles d) = bu_id ` set (bundles c)"
proof -
  from assms obtain g where g: "row_kept g" "bundles d = update_where (\<lambda>b. bu_id b = i) g (bundles c)"
    unfolding appended_def by blast
  have "map bu_id (bundles d) = map bu_id (bundles c)"
    unfolding g(2) by (rule map_update_where) (use g(1) in \<open>simp add: row_kept_def\<close>)
  then show ?thesis by (rule image_map_eq)
qed

lemma appended_row:
  assumes "appended i c d" "b \<in> set (bundles c)"
  obtains b' where "b' \<in> set (bundles d)" "bu_id b' = bu_id b" "bu_group b' = bu_group b" "bu_status b' = bu_status b"
    "bu_archive_id b' = bu_archive_id b" "assert_open_witness b' = assert_open_witness b"
proof -
  from assms(1) obtain g where g: "row_kept g" "bundles d = update_where (\<lambda>b. bu_id b = i) g (bundles c)"
    unfolding appended_def by blast
  let ?b = "if bu_id b = i then g b else b"
  have "?b \<in> set (bundles d)" using assms(2) g(2) by (simp add: update_where_def)
  with g(1) show thesis by (intro that [of ?b]) (simp_all add: row_kept_def)
qed

lemma appended_origin:
  assumes "appended i c d" "b \<in> set (bundles d)"
  obtains b' where "b' \<in> set (bundles c)" "bu_id b' = bu_id b" "bu_group b' = bu_group b" "bu_status b' = bu_status b"
    "bu_archive_id b' = bu_archive_id b"
proof -
  from assms(1) obtain g where g: "row_kept g" "bundles d = update_where (\<lambda>b. bu_id b = i) g (bundles c)"
    unfolding appended_def by blast
  from assms(2) obtain b' where "b' \<in> set (bundles c)" "b = b' \<or> b = g b'"
    unfolding g(2) by (auto simp: set_update_where)
  with g(1) show thesis by (intro that [of b']) (auto simp: row_kept_def)
qed

lemma group_frame:
  assumes "pools d = pools c" "class_pools d = class_pools c" "policies d = policies c"
  shows "compute_bundle_group d a = compute_bundle_group c a"
    "effective_group_thresholds d a p fp bs = effective_group_thresholds c a p fp bs"
  unfolding compute_bundle_group_def compute_group_basis_def group_rows_def effective_group_thresholds_def
    group_thresholds_of_def declared_thresholds_def pool_floors_def assms by (rule refl)+

lemma appended_group:
  assumes "appended i c d"
  shows "compute_bundle_group d a = compute_bundle_group c a"
    "effective_group_thresholds d a p fp bs = effective_group_thresholds c a p fp bs"
    "require_asset d h = require_asset c h"
proof -
  have eqs: "pools d = pools c" "class_pools d = class_pools c" "policies d = policies c" "logical_assets d = logical_assets c"
    using assms unfolding appended_def by blast+
  show "compute_bundle_group d a = compute_bundle_group c a"
    "effective_group_thresholds d a p fp bs = effective_group_thresholds c a p fp bs"
    by (rule group_frame [OF eqs(1-3)])+
  show "require_asset d h = require_asset c h" by (simp add: require_asset_def eqs)
qed

lemma insert_bundle_frame:
  "insert_bundle b c = Some d \<Longrightarrow> pools d = pools c \<and> class_pools d = class_pools c \<and> policies d = policies c \<and>
     logical_assets d = logical_assets c \<and> bundle_members d = bundle_members c"
  by (auto simp: insert_bundle_def split: if_splits)

lemma choose_bundle_frame:
  assumes "choose_bundle id u q mq c = Inr (d, b)"
  shows "pools d = pools c \<and> class_pools d = class_pools c \<and> policies d = policies c \<and>
     logical_assets d = logical_assets c \<and> bundle_members d = bundle_members c"
  using assms
  by (auto simp: choose_bundle_def include_alone_def get_or_create_open_bundle_def Let_def res_bind_Inr_iff
      split: prod.splits if_splits option.splits dest: insert_bundle_frame)

subsection \<open>Choosing the bundle again\<close>

lemma accumulator_again:
  assumes ok: "archive_ok d" and b: "b \<in> set (bundles d)" "open_accumulator b" "bu_group b = fp" "assert_open_witness b = Inr ()"
    and g: "fst (compute_bundle_group d a) = fp"
  shows "get_or_create_open_bundle id a p i now d = Inr (d, b, False)"
proof -
  have "find_open_accumulator d fp \<noteq> None"
    unfolding find_open_accumulator_def first_opened_None filter_empty_conv using b by blast
  then obtain x where x: "find_open_accumulator d fp = Some x" by blast
  from find_open_accumulator_Some [OF x] b ok have "bu_id x = bu_id b" "x \<in> set (bundles d)"
    unfolding archive_ok_def one_accumulator_def by metis+
  with ok b(1) have "x = b" unfolding archive_ok_def distinct_map inj_on_def by blast
  with x b(4) g show ?thesis by (cases "compute_bundle_group d a") (simp add: get_or_create_open_bundle_def)
qed

lemma get_or_create_witness:
  assumes "get_or_create_open_bundle id a p i now c = Inr (d, b, created)"
  shows "assert_open_witness b = Inr ()"
proof -
  obtain fp bs where g: "compute_bundle_group c a = (fp, bs)" by (cases "compute_bundle_group c a")
  show ?thesis
  proof (cases "find_open_accumulator c fp")
    case (Some r)
    with assms g show ?thesis by (auto simp: get_or_create_open_bundle_def res_bind_Inr_iff)
  next
    case None
    with assms g obtain t m r where new: "new_bundle fp bs t m i now = Inr r"
      and rest: "(case insert_bundle r c of Some d \<Rightarrow> Inr (d, r, True)
        | None \<Rightarrow> (case find_open_accumulator c fp of None \<Rightarrow> Inl (BundleStateError fp)
            | Some w \<Rightarrow> Inr (c, w, False))) = Inr (d, b, created)"
      by (auto simp: get_or_create_open_bundle_def res_bind_Inr_iff Let_def)
    from rest None new_bundle_row [OF new] show ?thesis by (auto split: option.splits)
  qed
qed

text \<open>The probe for an open funnel finds at most the bundle that was appended to.\<close>

abbreviation (input) funnel :: "string \<Rightarrow> bundle_row \<Rightarrow> bool" where
  "funnel fp b \<equiv> bu_group b = fp \<and> bu_status b = ''open'' \<and> bu_archive_id b \<noteq> None"

lemma identity_in:
  "(i, p, a, h) \<in> identity ` S \<longleftrightarrow>
   (\<exists>m \<in> S. bm_bundle_id m = i \<and> bm_member_path m = p \<and> bm_artifactclass m = a \<and> bm_asset_hash m = h)"
  unfolding identity_def image_iff prod.inject by (auto dest: sym)

lemma open_funnels_None:
  "open_funnels c fp q = None \<longleftrightarrow>
   (\<forall>b \<in> set (bundles c). funnel fp b \<longrightarrow> (bu_id b, mr_member_path q, mr_artifactclass q, mr_asset_hash q) \<notin> identity ` set (bundle_members c))"
  unfolding open_funnels_def first_opened_None filter_empty_conv identity_in by blast

lemma open_funnels_Some:
  "open_funnels c fp q = Some b \<Longrightarrow>
   b \<in> set (bundles c) \<and> funnel fp b \<and> (bu_id b, mr_member_path q, mr_artifactclass q, mr_asset_hash q) \<in> identity ` set (bundle_members c)"
  unfolding open_funnels_def identity_in by (drule first_opened_Some) simp

lemma probe_after:
  assumes none: "open_funnels c fp q = None" and app: "appended i c d" and some: "open_funnels d fp q = Some x"
  shows "bu_id x = i"
proof (rule ccontr)
  assume ne: "bu_id x \<noteq> i"
  note x = open_funnels_Some [OF some]
  then obtain r where r: "r \<in> set (bundle_members d)" "identity r = (bu_id x, mr_member_path q, mr_artifactclass q, mr_asset_hash q)"
    by (metis imageE)
  have "bm_bundle_id r \<noteq> i" using r(2) ne by (simp add: identity_def)
  with app r have old: "identity r \<in> identity ` set (bundle_members c)" unfolding appended_def by blast
  obtain y where "y \<in> set (bundles c)" "bu_id y = bu_id x" "funnel fp y"
    using appended_origin [OF app] x by metis
  with none old r(2) show False unfolding open_funnels_None by metis
qed

lemma found_same_rows:
  assumes "archive_ok c" "member_attempt id now i q c = Inr (c', Some (m, created))" "\<not> created"
  shows "bundles c' = bundles c" "identity ` set (bundle_members c') = identity ` set (bundle_members c)"
proof -
  obtain r :: bundle_member where c': "c' = c\<lparr>bundle_members := update_where (\<lambda>x. bm_id x = bm_id r)
      (\<lambda>x. x\<lparr>bm_source_metadata := bm_source_metadata m\<rparr>) (bundle_members c)\<rparr>"
    using assms(1,2)
  proof (cases rule: member_attempt_cases)
    case (found p r occ)
    show thesis by (rule that [OF found(2)])
  qed (use assms(3) in simp)
  have rows: "bundle_members c' = update_where (\<lambda>x. bm_id x = bm_id r)
      (\<lambda>x. x\<lparr>bm_source_metadata := bm_source_metadata m\<rparr>) (bundle_members c)" by (simp add: c')
  have "map identity (bundle_members c') = map identity (bundle_members c)"
    unfolding rows by (rule map_update_where) (simp add: identity_def)
  then show "identity ` set (bundle_members c') = identity ` set (bundle_members c)" by (rule image_map_eq)
  show "bundles c' = bundles c" by (simp add: c')
qed

lemma open_funnels_same:
  assumes "bundles c' = bundles c" "identity ` set (bundle_members c') = identity ` set (bundle_members c)"
  shows "open_funnels c' fp q = open_funnels c fp q"
  unfolding open_funnels_def identity_in [symmetric] assms ..

lemma attempt_rung_zero:
  assumes ok: "archive_ok c" and res: "member_attempt id now i q c = Inr (c', Some (m, created))"
  shows "(\<forall>p. member_at c i p = None) \<Longrightarrow> created \<and> identity m = (i, mr_member_path q, mr_artifactclass q, mr_asset_hash q)"
    and "(i, mr_member_path q, mr_artifactclass q, mr_asset_hash q) \<in> identity ` set (bundle_members c) \<Longrightarrow> \<not> created"
proof -
  assume free: "\<forall>p. member_at c i p = None"
  show "created \<and> identity m = (i, mr_member_path q, mr_artifactclass q, mr_asset_hash q)"
    using ok res by (cases rule: member_attempt_cases) (use free in \<open>auto simp: name_ladder_def Let_def\<close>)
next
  assume "(i, mr_member_path q, mr_artifactclass q, mr_asset_hash q) \<in> identity ` set (bundle_members c)"
  then obtain r where r: "r \<in> set (bundle_members c)" "bm_bundle_id r = i" "bm_member_path r = mr_member_path q"
    "bm_artifactclass r = mr_artifactclass q" "bm_asset_hash r = mr_asset_hash q" unfolding identity_in by blast
  have "member_at c i (mr_member_path q) \<noteq> None" using r(1-3) unfolding member_at_def find_None_set by blast
  then obtain x where x: "member_at c i (mr_member_path q) = Some x" by blast
  have "(bm_bundle_id x, bm_member_path x) = (bm_bundle_id r, bm_member_path r)" using member_at_Some [OF x] r(2,3) by simp
  then have "x = r" using ok r(1) member_at_Some [OF x] unfolding archive_ok_def distinct_map inj_on_def by blast
  show "\<not> created"
    using ok res by (cases rule: member_attempt_cases) (use x r \<open>x = r\<close> in \<open>auto simp: name_ladder_def Let_def\<close>)
qed

lemma minted_again:
  assumes ok: "archive_ok c" and none: "open_funnels c fp q = None" and ins: "insert_bundle b c = Some d" "archive_ok d"
    and b: "funnel fp b" and att: "member_attempt id now (bu_id b) q d = Inr (c', Some (m, created))"
  shows "\<exists>x. open_funnels c' fp q = Some x \<and> bu_id x = bu_id b"
proof -
  note app = member_attempt_appended [OF ins(2) att]
  from ins(1) have d: "d = c\<lparr>bundles := bundles c @ [b]\<rparr>" "bu_id b \<notin> bu_id ` set (bundles c)"
    by (auto simp: insert_bundle_def split: if_splits)
  then have inb: "b \<in> set (bundles d)" by simp
  have empty: "\<forall>x \<in> set (bundle_members d). bm_bundle_id x \<noteq> bu_id b"
  proof
    fix x assume "x \<in> set (bundle_members d)"
    then have "bm_bundle_id x \<in> bu_id ` set (bundles c)" using ok unfolding d(1) archive_ok_def by simp
    with d(2) show "bm_bundle_id x \<noteq> bu_id b" by metis
  qed
  then have "\<forall>p. member_at d (bu_id b) p = None" by (simp add: member_at_def find_None_set)
  with attempt_rung_zero(1) [OF ins(2) att]
  have m: "created" "identity m = (bu_id b, mr_member_path q, mr_artifactclass q, mr_asset_hash q)" by simp_all
  have "(bu_id b, x) \<notin> identity ` set (bundle_members d)" for x using empty by (auto simp: identity_def)
  then have probe: "open_funnels d fp q = None" using none d unfolding open_funnels_None by auto
  have "m \<in> set (bundle_members c')"
    using ins(2) att by (cases rule: member_attempt_cases) (use m(1) in \<open>simp_all add: set_bundle_def\<close>)
  then have "open_funnels c' fp q \<noteq> None"
    using appended_row [OF app, of b] b m(2) inb unfolding open_funnels_None by (metis imageI)
  then obtain x where x: "open_funnels c' fp q = Some x" by blast
  with probe_after [OF probe app x] show ?thesis by blast
qed

lemma adopted_again:
  assumes ok: "archive_ok c" "archive_ok c'" and app: "appended i c c'" and gb: "get_bundle c i = Some b" and b: "funnel fp b"
    and probe: "open_funnels c' fp q = None"
  shows "\<exists>b'. include_alone id fp bs t a i now q c' = Inr (c', b') \<and> bu_id b' = i \<and> bu_status b' = ''open''"
proof -
  obtain b' where b': "b' \<in> set (bundles c')" "bu_id b' = i" "funnel fp b'"
    using appended_row [OF app] get_bundle_Some [OF gb] b by metis
  then have "get_bundle c' i \<noteq> None" unfolding get_bundle_None by blast
  then obtain z where z: "get_bundle c' i = Some z" by blast
  with get_bundle_Some [OF z] b' ok(2) have "z = b'" unfolding archive_ok_def distinct_map inj_on_def by metis
  obtain r where new: "new_bundle fp bs t a i now = Inr r" using new_bundle_total by blast
  have "insert_bundle (r\<lparr>bu_archive_id := Some (''archive-'' @ bu_id r)\<rparr>) c' = None"
    using new_bundle_row [OF new] b' by (auto simp: insert_bundle_def)
  with probe new z \<open>z = b'\<close> b' show ?thesis by (simp add: include_alone_def Let_def)
qed

lemma include_alone_again:
  assumes ok: "archive_ok c" and res: "include_alone id fp bs t a i now q c = Inr (d, b)"
    and att: "member_attempt id now' (bu_id b) q d = Inr (c', Some (m, created))"
    and ids: "i' = i \<or> i \<notin> bu_id ` set (bundles c)"
  shows "\<exists>b'. include_alone id fp bs t a i' now2 q c' = Inr (c', b') \<and> bu_id b' = bu_id b \<and> bu_status b' = ''open''"
proof -
  have "keeps_ok id" by (simp add: keeps_ok_def)
  from include_alone_ok [OF ok this res] have okd: "archive_ok d" and b: "b \<in> set (bundles d)" "funnel fp b" by auto
  have ok': "archive_ok c'" by (rule member_attempt_ok [OF okd \<open>keeps_ok id\<close> att])
  note app = member_attempt_appended [OF okd att]
  have hit: ?thesis if "open_funnels c' fp q = Some x" "bu_id x = bu_id b" for x
    using that open_funnels_Some [OF that(1)] by (auto simp: include_alone_def)
  show ?thesis
  proof (cases "open_funnels c fp q")
    case (Some x)
    with res have "d = c" "b = x" by (simp_all add: include_alone_def)
    with open_funnels_Some [OF Some] attempt_rung_zero(2) [OF okd att] have "\<not> created" by blast
    from open_funnels_same [OF found_same_rows [OF okd att this]] Some \<open>d = c\<close> \<open>b = x\<close> show ?thesis by (intro hit) auto
  next
    case None
    obtain r where new: "new_bundle fp bs t a i now = Inr r" using new_bundle_total by blast
    let ?r = "r\<lparr>bu_archive_id := Some (''archive-'' @ bu_id r)\<rparr>"
    show ?thesis
    proof (cases "insert_bundle ?r c")
      case (Some e)
      with res None new have "d = e" "b = ?r" by (simp_all add: include_alone_def Let_def)
      with minted_again [OF ok None _ okd b(2) att] Some hit show ?thesis by blast
    next
      case noins: None
      with res None new have d: "d = c" and gb: "get_bundle c i = Some b"
        by (auto simp: include_alone_def Let_def split: option.splits if_splits)
      from get_bundle_Some [OF gb] ids have i: "i' = i" "bu_id b = i" by auto
      show ?thesis
      proof (cases "open_funnels c' fp q")
        case (Some x)
        show ?thesis by (rule hit [OF Some]) (use probe_after [OF None _ Some] app d in simp)
      next
        case probe: None
        from adopted_again [OF ok ok' _ gb b(2) probe, of bs t a now2] app d i show ?thesis by simp
      qed
    qed
  qed
qed

lemma choose_again:
  assumes ok: "archive_ok c" and res: "choose_bundle id u q mq c = Inr (d, b)"
    and att: "member_attempt id now (bu_id b) mq d = Inr (c', Some (m, created))"
    and ids: "eq_bundle_id q \<in> {None, Some []} \<Longrightarrow> ''bundle-'' @ u \<notin> bu_id ` set (bundles c)"
  shows "\<exists>b'. choose_bundle id u' q mq c' = Inr (c', b') \<and> bu_id b' = bu_id b \<and> bu_status b' = ''open''"
proof -
  let ?a = "eq_artifactclass q" and ?i = "resolved_bundle_id (eq_bundle_id q) u" and ?i' = "resolved_bundle_id (eq_bundle_id q) u'"
  have keep: "keeps_ok id" by (simp add: keeps_ok_def)
  note d = choose_bundle_ok [OF ok keep res]
  have okd: "archive_ok d" using d by simp
  have ok': "archive_ok c'" by (rule member_attempt_ok [OF okd keep att])
  note app = member_attempt_appended [OF okd att]
  obtain fp bs where g: "compute_bundle_group c ?a = (fp, bs)" by (cases "compute_bundle_group c ?a")
  from res g obtain t a where th: "lift_group (effective_group_thresholds c ?a (eq_policy q) fp bs) = Inr (t, a)"
    and rest: "(if eq_size_bytes q \<ge> t then include_alone id fp bs t a ?i (eq_now q) mq c
        else res_bind (get_or_create_open_bundle id ?a (eq_policy q) ?i (eq_now q) c) (\<lambda>(c, b, created). Inr (c, b))) = Inr (d, b)"
    by (auto simp: choose_bundle_def Let_def dest!: res_bind_InrD)
  have same: "pools d = pools c" "class_pools d = class_pools c" "policies d = policies c"
    using choose_bundle_frame [OF res] by simp_all
  have g': "compute_bundle_group c' ?a = (fp, bs)"
    "lift_group (effective_group_thresholds c' ?a (eq_policy q) fp bs) = Inr (t, a)"
    using appended_group [OF app] group_frame [OF same] g th by simp_all
  show ?thesis
  proof (cases "eq_size_bytes q \<ge> t")
    case True
    have "?i' = ?i \<or> ?i \<notin> bu_id ` set (bundles c)"
      using ids by (auto simp: resolved_bundle_id_def split: option.splits)
    with include_alone_again [OF ok _ att, of fp bs t a ?i "eq_now q" ?i' "eq_now q"] rest True g' show ?thesis
      by (simp add: choose_bundle_def Let_def)
  next
    case False
    with rest obtain cr where gc: "get_or_create_open_bundle id ?a (eq_policy q) ?i (eq_now q) c = Inr (d, b, cr)"
      by (auto simp: res_bind_Inr_iff)
    note b = get_or_create_found [OF gc] get_or_create_witness [OF gc]
    obtain b' where "b' \<in> set (bundles c')" "bu_id b' = bu_id b" "open_accumulator b'" "bu_group b' = fp" "assert_open_witness b' = Inr ()"
      using appended_row [OF app] b g unfolding open_accumulator_def by (metis fst_conv)
    with accumulator_again [OF ok', of b' fp ?a "eq_policy q" ?i' "eq_now q"] g' False show ?thesis
      by (auto simp: choose_bundle_def Let_def open_accumulator_def)
  qed
qed

section \<open>Enqueueing\<close>

lemma add_member_alone:
  assumes "add_bundle_member (\<lambda>_. id) now b q c = Inr (c', m, created)"
  shows "member_attempt id now (bu_id b) q c = Inr (c', Some (m, created))"
proof -
  from assms obtain d r where one: "member_attempt id now (bu_id b) q c = Inr (d, r)"
    and rest: "(case r of Some (m, created) \<Rightarrow> Inr (d, m, created)
          | None \<Rightarrow> res_bind (member_attempt id now (bu_id b) q d) (\<lambda>(c, r).
              case r of Some (m, created) \<Rightarrow> Inr (c, m, created) | None \<Rightarrow> Inl (BundleStateError (bu_id b)))) = Inr (c', m, created)"
    by (auto simp: add_bundle_member_def res_bind_Inr_iff split: if_splits)
  have "d = c" if "r = None" using one that
    by (auto simp: member_attempt_def res_bind_Inr_iff Let_def split: option.splits prod.splits)
  with one rest show ?thesis by (cases r) auto
qed

lemma add_member_attempt:
  assumes "bu_status b = ''open''" "require_asset c (mr_asset_hash q) = Inr ()"
    "member_attempt (others 0) now (bu_id b) q c = Inr (c', Some (m, created))"
  shows "add_bundle_member others now b q c = Inr (c', m, created)"
  using assms by (simp add: add_bundle_member_def)

lemma attempt_creates:
  assumes i: "i \<in> bu_id ` set (bundles c)" and h: "mr_asset_hash q \<in> set (logical_assets c)"
    and free: "member_at c i (mr_member_path q) = None"
  shows "\<exists>m. member_attempt id now i q c =
           Inr (set_bundle i (count_member (mr_size_bytes q)) (c\<lparr>bundle_members := bundle_members c @ [m]\<rparr>), Some (m, True)) \<and>
         identity m = (i, mr_member_path q, mr_artifactclass q, mr_asset_hash q) \<and>
         bm_id m \<notin> bm_id ` set (bundle_members c)"
proof -
  let ?m = "new_member now i (mr_member_path q) q (fresh_id (map bm_id (bundle_members c)))"
  have "resolve_member_name c i (mr_artifactclass q) (mr_member_path q) (mr_file_sha256 q) (mr_asset_hash q) =
      Inr (mr_member_path q, None, None)"
    using free by (simp add: resolve_member_name_def name_ladder_def Let_def)
  moreover have "insert_member ?m c = Some (c\<lparr>bundle_members := bundle_members c @ [?m]\<rparr>)"
    using i h free by (simp add: insert_member_def new_member_def get_bundle_None)
  moreover have "bm_id ?m \<notin> bm_id ` set (bundle_members c)"
    using fresh_id_notin [of "map bm_id (bundle_members c)"] by (simp add: new_member_def)
  ultimately show ?thesis
    by (intro exI [of _ ?m]) (simp add: member_attempt_def Let_def identity_def new_member_def)
qed

end
