(* ===== verification/Archive_Late.thy ===== *)
theory Archive_Late
  imports Archive_Retry
begin

text \<open>
  When an enqueue adds a member, that a second one changes nothing, and what becomes of a member whose bundle is
  claimed and sealed between the moment the enqueue loads the bundle and the moment it inserts the row.
\<close>

section \<open>The seal of a flush\<close>

text \<open>What every flush does to the row of its bundle: the claim, and the seal with the same token.\<close>

definition claim_and_seal :: "string \<Rightarrow> string \<Rightarrow> time \<Rightarrow> time \<Rightarrow> catalog_db \<Rightarrow> catalog_db" where
  "claim_and_seal i token stamp sealed_at c =
     (case res_bind (claim_bundle_for_flush i token stamp c) (close_bundle i token sealed_at) of
        Inl _ \<Rightarrow> c | Inr d \<Rightarrow> d)"

lemma filter_unique:
  assumes "distinct (map f xs)" "x \<in> set xs" "P x"
  shows "filter (\<lambda>y. f y = f x \<and> P y) xs = [x]"
  using assms
proof (induction xs)
  case (Cons y ys)
  show ?case
  proof (cases "x = y")
    case True
    with Cons.prems have "filter (\<lambda>z. f z = f x \<and> P z) ys = []" by (auto simp: filter_empty_conv image_iff)
    with True Cons.prems show ?thesis by simp
  next
    case False
    with Cons.prems have "f y \<noteq> f x" by force
    with False Cons show ?thesis by simp
  qed
qed simp

lemma find_updated:
  "find (\<lambda>x. k x = i) xs = Some b \<Longrightarrow> P b \<Longrightarrow> (\<And>x. k (f x) = k x) \<Longrightarrow>
   find (\<lambda>x. k x = i) (update_where (\<lambda>x. k x = i \<and> P x) f xs) = Some (f b)"
  by (induction xs) auto

lemma get_bundle_unique:
  assumes "archive_ok c" "b \<in> set (bundles c)"
  shows "get_bundle c (bu_id b) = Some b"
proof -
  have "get_bundle c (bu_id b) \<noteq> None" using assms(2) unfolding get_bundle_None by blast
  then obtain x where x: "get_bundle c (bu_id b) = Some x" by blast
  with get_bundle_Some [OF x] assms show ?thesis unfolding archive_ok_def distinct_map inj_on_def by metis
qed

lemma claim_seal_row:
  assumes ok: "archive_ok c" and b: "b \<in> set (bundles c)" "bu_status b = ''open''"
  obtains d where "claim_and_seal (bu_id b) token s t c = d" "archive_ok d" "bundle_members d = bundle_members c"
    "logical_assets d = logical_assets c" "get_bundle d (bu_id b) = Some (sealed_row t (claimed_row token s b))"
proof -
  let ?i = "bu_id b" and ?b = "claimed_row token s b"
  let ?open = "\<lambda>x. bu_id x = bu_id b \<and> bu_status x = ''open''"
  let ?c = "c\<lparr>bundles := update_where ?open (claimed_row token s) (bundles c)\<rparr>"
  let ?mine = "\<lambda>x. bu_id x = ?i \<and> bu_status x = ''flushing'' \<and> bu_claimed_by x = Some token"
  let ?d = "?c\<lparr>bundles := update_where ?mine (sealed_row t) (bundles ?c)\<rparr>"
  have "filter ?open (bundles c) = [b]" using ok b by (intro filter_unique) (simp_all add: archive_ok_def)
  then have claim: "claim_bundle_for_flush ?i token s c = Inr ?c" by (simp add: claim_bundle_for_flush_def)
  note ok1 = claim_ok [OF ok claim]
  have get1: "get_bundle ?c ?i = Some ?b"
    using get_bundle_unique [OF ok b(1)] b(2) unfolding get_bundle_def
    by (simp add: find_updated claimed.keeps_id)
  have in1: "?b \<in> set (bundles ?c)" "bu_id ?b = ?i" using get_bundle_Some [OF get1] by simp_all
  have mine: "bu_status ?b = ''flushing'' \<and> bu_claimed_by ?b = Some token" by (simp add: claimed_row_def)
  have "filter ?mine (bundles ?c) = [?b]"
    using filter_unique [of bu_id "bundles ?c" ?b "\<lambda>x. bu_status x = ''flushing'' \<and> bu_claimed_by x = Some token"]
      ok1 in1 mine unfolding archive_ok_def by simp
  then have close: "close_bundle ?i token t ?c = Inr ?d" unfolding close_bundle_def Let_def by simp
  have "get_bundle ?d ?i = Some (sealed_row t ?b)"
    using get1 mine unfolding get_bundle_def by (simp add: find_updated sealed.keeps_id)
  moreover have "claim_and_seal ?i token s t c = ?d" using claim close by (simp add: claim_and_seal_def)
  ultimately show thesis using that [of ?d] close_ok [OF ok1 close] by simp
qed

section \<open>Enqueueing twice\<close>

text \<open>
  C25: Enqueueing is idempotent.  When an enqueue without interference returns, running it again on the resulting
  catalog, with the same request and whatever fresh id is drawn for a new bundle, returns the same member
  row of the same bundle as already present and leaves the whole catalog unchanged, for ordinary members and
  for oversized ones in their own bundle.  The first run must not draw the id of an existing bundle.
\<close>

theorem enqueue_idempotent:
  assumes ok: "archive_ok c" and keys: "distinct (map fst (eq_source_metadata q))"
    and ids: "eq_bundle_id q \<in> {None, Some []} \<Longrightarrow> ''bundle-'' @ u \<notin> bu_id ` set (bundles c)"
    and res: "enqueue_artifact (\<lambda>_. id) u q c = Inr (c', b, m, created)"
  shows "\<exists>b'. enqueue_artifact (\<lambda>_. id) u' q c' = Inr (c', b', m, False) \<and> bu_id b' = bu_id b"
proof -
  from res obtain bs d where asset: "require_asset c (eq_asset_hash q) = Inr ()"
    and path: "Option.bind (path_in_bundle q) utf8_encode = Some bs"
    and choose: "choose_bundle id u q (member_request_of q (map char_of bs)) c = Inr (d, b)"
    and add: "add_bundle_member (\<lambda>_. id) (eq_added_at q) b (member_request_of q (map char_of bs)) d = Inr (c', m, created)"
    by (auto simp: enqueue_artifact_def res_bind_Inr_iff Let_def split: option.splits)
  let ?mq = "member_request_of q (map char_of bs)"
  note att = add_member_alone [OF add]
  have okd: "archive_ok d" using choose_bundle_ok [OF ok _ choose] by (simp add: keeps_ok_def)
  note app = member_attempt_appended [OF okd att]
  from choose_again [OF ok choose att ids] obtain b' where
    b': "choose_bundle id u' q ?mq c' = Inr (c', b')" "bu_id b' = bu_id b" "bu_status b' = ''open''" by blast
  have asset': "require_asset c' (eq_asset_hash q) = Inr ()"
    unfolding appended_group(3) [OF app] using asset choose_bundle_frame [OF choose] by (simp add: require_asset_def split: if_splits)
  have "distinct (map fst (dict_or_empty (mr_source_metadata ?mq)))"
    using keys by (simp add: member_request_of_def Let_def)
  from member_attempt_again [OF okd att this, of "eq_added_at q"]
  have "add_bundle_member (\<lambda>_. id) (eq_added_at q) b' ?mq c' = Inr (c', m, False)"
    using asset' b' by (intro add_member_attempt) (simp_all add: member_request_of_def Let_def)
  with asset' path b' show ?thesis by (auto simp: enqueue_artifact_def Let_def)
qed

section \<open>Appending to the accumulator of the group\<close>

lemma no_member_at:
  assumes "archive_ok c" "i \<notin> bu_id ` set (bundles c)"
  shows "member_at c i p = None"
  using assms unfolding archive_ok_def member_at_def find_None_set by metis

lemma choose_existing:
  assumes g: "compute_bundle_group c (eq_artifactclass q) = (fp, bs)"
    and th: "effective_group_thresholds c (eq_artifactclass q) (eq_policy q) fp bs = Inr (t, a)" "eq_size_bytes q < t"
    and acc: "find_open_accumulator c fp = Some b" "assert_open_witness b = Inr ()"
  shows "choose_bundle f u q mq c = Inr (c, b)"
  using assms by (simp add: choose_bundle_def get_or_create_open_bundle_def lift_group_def Let_def)

lemma choose_fresh:
  assumes g: "compute_bundle_group c (eq_artifactclass q) = (fp, bs)"
    and th: "effective_group_thresholds c (eq_artifactclass q) (eq_policy q) fp bs = Inr (t, a)" "eq_size_bytes q < t"
    and acc: "find_open_accumulator c fp = None" "resolved_bundle_id (eq_bundle_id q) u \<notin> bu_id ` set (bundles c)"
  shows "\<exists>b. choose_bundle id u q mq c = Inr (c\<lparr>bundles := bundles c @ [b]\<rparr>, b) \<and> bu_status b = ''open'' \<and> bu_group b = fp \<and>
    bu_id b = resolved_bundle_id (eq_bundle_id q) u"
proof -
  let ?i = "resolved_bundle_id (eq_bundle_id q) u"
  obtain r where new: "new_bundle fp bs t a ?i (eq_now q) = Inr r" using new_bundle_total by blast
  note row = new_bundle_row [OF new]
  have "\<not> (\<exists>x \<in> set (bundles c). open_accumulator x \<and> bu_group x = fp)"
    using acc(1) unfolding find_open_accumulator_def first_opened_None filter_empty_conv by blast
  then have "insert_bundle r c = Some (c\<lparr>bundles := bundles c @ [r]\<rparr>)"
    using row acc(2) by (simp add: insert_bundle_def)
  with g th acc(1) new row show ?thesis
    by (simp add: choose_bundle_def get_or_create_open_bundle_def lift_group_def Let_def)
qed

text \<open>
  An enqueue below the group's target adds its member.  If the asset is known, the path can be encoded and the
  group has thresholds, then the member row is created at the requested path, in the group's open
  accumulator when there is one (and the path is free there), else in a new bundle of the group; the other
  member rows stay, and the bundle tables keep their invariant, counters included.
\<close>

lemma enqueue_appends:
  assumes ok: "archive_ok c" and asset: "require_asset c (eq_asset_hash q) = Inr ()"
    and path: "Option.bind (path_in_bundle q) utf8_encode = Some bytes"
    and g: "compute_bundle_group c (eq_artifactclass q) = (fp, bs)"
    and th: "effective_group_thresholds c (eq_artifactclass q) (eq_policy q) fp bs = Inr (t, a)" "eq_size_bytes q < t"
    and acc: "case find_open_accumulator c fp of
        None \<Rightarrow> resolved_bundle_id (eq_bundle_id q) u \<notin> bu_id ` set (bundles c)
      | Some r \<Rightarrow> assert_open_witness r = Inr () \<and> member_at c (bu_id r) (map char_of bytes) = None"
  shows "\<exists>c' b m. enqueue_artifact (\<lambda>_. id) u q c = Inr (c', b, m, True) \<and> archive_ok c' \<and> bu_group b = fp \<and>
           (case find_open_accumulator c fp of None \<Rightarrow> bu_id b = resolved_bundle_id (eq_bundle_id q) u | Some r \<Rightarrow> b = r) \<and>
           bundle_members c' = bundle_members c @ [m] \<and> bm_bundle_id m = bu_id b \<and> bm_member_path m = map char_of bytes \<and>
           bm_artifactclass m = eq_artifactclass q \<and> bm_asset_hash m = eq_asset_hash q"
proof -
  let ?mq = "member_request_of q (map char_of bytes)" and ?i = "resolved_bundle_id (eq_bundle_id q) u"
  have mq: "mr_asset_hash ?mq = eq_asset_hash q" "mr_member_path ?mq = map char_of bytes"
    "mr_artifactclass ?mq = eq_artifactclass q" by (simp_all add: member_request_of_def Let_def)
  have known: "eq_asset_hash q \<in> set (logical_assets c)" using asset by (simp add: require_asset_def split: if_splits)
  obtain d b where choose: "choose_bundle id u q ?mq c = Inr (d, b)" and b: "bu_status b = ''open''" "bu_group b = fp"
      "case find_open_accumulator c fp of None \<Rightarrow> bu_id b = ?i | Some r \<Rightarrow> b = r"
    and d: "bundle_members d = bundle_members c" "logical_assets d = logical_assets c" "bu_id b \<in> bu_id ` set (bundles d)"
    and free: "member_at d (bu_id b) (map char_of bytes) = None"
  proof (cases "find_open_accumulator c fp")
    case None
    with choose_fresh [OF g th None, of u ?mq] acc obtain b where
      "choose_bundle id u q ?mq c = Inr (c\<lparr>bundles := bundles c @ [b]\<rparr>, b)" "bu_status b = ''open''" "bu_group b = fp" "bu_id b = ?i" by auto
    moreover have "member_at (c\<lparr>bundles := bundles c @ [b]\<rparr>) ?i (map char_of bytes) = None"
      using acc None no_member_at [OF ok, of ?i] by (simp add: member_at_def)
    ultimately show thesis using None by (intro that [of "c\<lparr>bundles := bundles c @ [b]\<rparr>" b]) simp_all
  next
    case (Some r)
    with choose_existing [OF g th Some] acc find_open_accumulator_Some [OF Some] show thesis
      by (intro that [of c r]) (auto simp: open_accumulator_def)
  qed
  from attempt_creates [of "bu_id b" d ?mq "eq_added_at q"] d free known mq obtain m e where
    att: "member_attempt id (eq_added_at q) (bu_id b) ?mq d = Inr (e, Some (m, True))"
    and e: "bundle_members e = bundle_members d @ [m]" "identity m = (bu_id b, map char_of bytes, eq_artifactclass q, eq_asset_hash q)"
    by (auto simp: set_bundle_def)
  have "add_bundle_member (\<lambda>_. id) (eq_added_at q) b ?mq d = Inr (e, m, True)"
    using att asset d b mq by (intro add_member_attempt) (simp_all add: require_asset_def split: if_splits)
  with asset path choose have run: "enqueue_artifact (\<lambda>_. id) u q c = Inr (e, b, m, True)"
    by (simp add: enqueue_artifact_def Let_def)
  moreover have "archive_ok e" by (rule enqueue_ok [OF ok _ run]) (simp add: keeps_ok_def)
  ultimately show ?thesis using b e d by (intro exI conjI) (assumption | simp add: identity_def)+
qed

section \<open>A seal during the append\<close>

text \<open>
  C26: The claim of a flush does not stop an append that has already loaded its bundle.  If the accumulator is
  claimed and sealed by a flush while the enqueue hashes the source, the enqueue still succeeds: the new row
  joins the sealed bundle, whose counters grow, although it was not among the members when the flush took
  its snapshot and sealed.  (The comment on the claim promises that taking it before the member load
  prevents a member that is never written.)
\<close>

theorem late_append_joins_sealed:
  assumes ok: "archive_ok c" and asset: "require_asset c (eq_asset_hash q) = Inr ()"
    and path: "Option.bind (path_in_bundle q) utf8_encode = Some bytes"
    and g: "compute_bundle_group c (eq_artifactclass q) = (fp, bs)"
    and th: "effective_group_thresholds c (eq_artifactclass q) (eq_policy q) fp bs = Inr (t, a)" "eq_size_bytes q < t"
    and acc: "find_open_accumulator c fp = Some b" "assert_open_witness b = Inr ()"
    and free: "member_at c (bu_id b) (map char_of bytes) = None"
  shows "\<exists>c' m r. enqueue_artifact (\<lambda>k. if k = 1 then claim_and_seal (bu_id b) token s z else id) u q c = Inr (c', b, m, True) \<and>
           get_bundle c' (bu_id b) = Some r \<and> bu_status r = ''sealed'' \<and> bu_sealed_at r = Some z \<and>
           bu_member_count r = bu_member_count b + 1 \<and> bm_bundle_id m = bu_id b \<and>
           bundle_members c' = bundle_members (claim_and_seal (bu_id b) token s z c) @ [m]"
proof -
  let ?mq = "member_request_of q (map char_of bytes)" and ?f = "\<lambda>k :: nat. if k = 1 then claim_and_seal (bu_id b) token s z else id"
  have mq: "mr_asset_hash ?mq = eq_asset_hash q" "mr_member_path ?mq = map char_of bytes"
    by (simp_all add: member_request_of_def Let_def)
  have known: "eq_asset_hash q \<in> set (logical_assets c)" using asset by (simp add: require_asset_def split: if_splits)
  have b: "b \<in> set (bundles c)" "bu_status b = ''open''"
    using find_open_accumulator_Some [OF acc(1)] by (simp_all add: open_accumulator_def)
  from claim_seal_row [OF ok b, of token s z] obtain d where d: "claim_and_seal (bu_id b) token s z c = d"
    "bundle_members d = bundle_members c" "logical_assets d = logical_assets c"
    "get_bundle d (bu_id b) = Some (sealed_row z (claimed_row token s b))" by metis
  have "bu_id b \<in> bu_id ` set (bundles d)" using get_bundle_Some [OF d(4)] by (metis imageI)
  moreover have "member_at d (bu_id b) (map char_of bytes) = None" using free d(2) by (simp add: member_at_def)
  ultimately obtain m e where att: "member_attempt id (eq_added_at q) (bu_id b) ?mq d = Inr (e, Some (m, True))"
    and m: "identity m = (bu_id b, map char_of bytes, mr_artifactclass ?mq, eq_asset_hash q)"
    and e: "e = set_bundle (bu_id b) (count_member (mr_size_bytes ?mq)) (d\<lparr>bundle_members := bundle_members d @ [m]\<rparr>)"
    using attempt_creates [of "bu_id b" d ?mq "eq_added_at q"] d(3) known mq by auto
  have "add_bundle_member (\<lambda>k. ?f (k + 2)) (eq_added_at q) b ?mq d = Inr (e, m, True)"
    using att asset d(3) b(2) mq by (intro add_member_attempt) (simp_all add: require_asset_def split: if_splits)
  then have "enqueue_artifact ?f u q c = Inr (e, b, m, True)"
    using asset path choose_existing [OF g th acc] d(1) by (simp add: enqueue_artifact_def Let_def)
  moreover have "get_bundle e (bu_id b) = Some (count_member (mr_size_bytes ?mq) (sealed_row z (claimed_row token s b)))"
    using d(4) unfolding e set_bundle_def get_bundle_def
    by (simp add: find_update_where count_member_def)
  ultimately show ?thesis
    using m d(1) by (intro exI conjI) (assumption | simp add: identity_def e set_bundle_def count_member_def sealed_row_def claimed_row_def)+
qed

section \<open>Witnesses\<close>

definition archive_hash :: bytes where
  "archive_hash = replicate 32 (CHR ''h'')"

definition archive_catalog :: catalog_db where
  "archive_catalog = example_catalog\<lparr>bundles := [], bundle_members := [], logical_assets := [archive_hash]\<rparr>"

definition archive_request :: enqueue_request where
  "archive_request =
     \<lparr>eq_artifactclass = ''vid'', eq_policy = hd (policies example_catalog), eq_asset_hash = archive_hash,
      eq_source = ''/in/a.mov'', eq_member_path = None, eq_is_escaped = False, eq_bundle_id = None, eq_now = 5,
      eq_source_metadata = submission_link_metadata ''s1'' 1, eq_size_bytes = 5, eq_file_sha256 = archive_hash, eq_added_at = 6\<rparr>"

definition vid_group :: string where
  "vid_group = fst (compute_bundle_group archive_catalog ''vid'')"

definition vid_bundle :: bundle_row where
  "vid_bundle =
     \<lparr>bu_id = ''b2'', bu_group = vid_group,
      bu_group_basis = [(''effective'', JObj [(''target_bytes'', JInt 10), (''max_age_seconds'', JInt 60)])],
      bu_status = ''open'', bu_total_bytes = 0, bu_member_count = 0, bu_target_bytes = 10, bu_max_age_seconds = 60,
      bu_archive_id = None, bu_scan_summary = None, bu_review_summary = None, bu_customer_manifest_path = None,
      bu_claimed_by = None, bu_opened_at = 0, bu_flushed_at = None, bu_sealed_at = None, bu_held_at = None\<rparr>"

definition accumulating_catalog :: catalog_db where
  "accumulating_catalog = archive_catalog\<lparr>bundles := [vid_bundle]\<rparr>"

lemma archive_catalog_ok: "archive_ok archive_catalog" "archive_ok accumulating_catalog"
  by (simp_all add: archive_ok_def one_accumulator_def counted_def members_of_def accumulating_catalog_def archive_catalog_def vid_bundle_def)

lemma archive_request_path: "Option.bind (path_in_bundle archive_request) utf8_encode = Some (map of_char ''a.mov'')"
  by code_simp

lemma archive_request_asset:
  "require_asset archive_catalog (eq_asset_hash archive_request) = Inr ()"
  "require_asset accumulating_catalog (eq_asset_hash archive_request) = Inr ()"
  by (simp_all add: require_asset_def archive_catalog_def accumulating_catalog_def archive_request_def archive_hash_def)

lemma vid_frame:
  "compute_bundle_group accumulating_catalog a = compute_bundle_group archive_catalog a"
  "effective_group_thresholds accumulating_catalog a p fp bs = effective_group_thresholds archive_catalog a p fp bs"
  by (rule group_frame; simp add: accumulating_catalog_def)+

lemma vid_basis:
  "compute_bundle_group archive_catalog ''vid'' = (vid_group, map basis_entry [(''A'', ''raw-bytes''), (''B'', ''raw-bytes'')])"
proof -
  have "group_rows archive_catalog ''vid'' = [(''A'', ''raw-bytes''), (''B'', ''raw-bytes'')]"
    by (simp add: group_rows_def archive_catalog_def example_catalog_defs)
  then show ?thesis by (simp add: vid_group_def compute_bundle_group_def compute_group_basis_def Let_def)
qed

lemma vid_thresholds:
  "effective_group_thresholds archive_catalog ''vid'' (eq_policy archive_request) fp
     (map basis_entry [(''A'', ''raw-bytes''), (''B'', ''raw-bytes'')]) = Inr (10, 60)"
proof -
  have declared: "declared_thresholds archive_catalog (eq_policy archive_request) ''vid'' fp = [(''vid'', 10, 60)]"
    by (simp add: declared_thresholds_def archive_catalog_def archive_request_def example_catalog_defs dict_set_def)
  have "pool_floors archive_catalog (map basis_entry [(''A'', ''raw-bytes''), (''B'', ''raw-bytes'')]) = [(''A'', None), (''B'', None)]"
    by (simp add: pool_floors_def basis_entry_def entry_pool_def archive_catalog_def example_catalog_defs dict_set_def)
  with declared show ?thesis
    by (simp add: effective_group_thresholds_def group_thresholds_of_def Let_def)
qed

lemma archive_request_class: "eq_artifactclass archive_request = ''vid''" "eq_size_bytes archive_request < 10"
  by (simp_all add: archive_request_def)

lemma archive_request_added:
  "\<exists>c' b m. enqueue_artifact (\<lambda>_. id) ''u'' archive_request archive_catalog = Inr (c', b, m, True) \<and> archive_ok c' \<and>
     bu_group b = vid_group \<and> bundle_members c' = [m] \<and> bm_member_path m = ''a.mov''"
proof -
  let ?bs = "map basis_entry [(''A'', ''raw-bytes''), (''B'', ''raw-bytes'')]"
  have "find_open_accumulator archive_catalog vid_group = None"
    by (simp add: find_open_accumulator_def first_opened_def archive_catalog_def)
  then have acc: "case find_open_accumulator archive_catalog vid_group of
        None \<Rightarrow> resolved_bundle_id (eq_bundle_id archive_request) ''u'' \<notin> bu_id ` set (bundles archive_catalog)
      | Some r \<Rightarrow> assert_open_witness r = Inr () \<and> member_at archive_catalog (bu_id r) (map char_of (map of_char ''a.mov'' :: nat list)) = None"
    by (simp add: archive_catalog_def)
  have g: "compute_bundle_group archive_catalog (eq_artifactclass archive_request) = (vid_group, ?bs)"
    unfolding archive_request_class by (rule vid_basis)
  have th: "effective_group_thresholds archive_catalog (eq_artifactclass archive_request) (eq_policy archive_request) vid_group ?bs = Inr (10, 60)"
    unfolding archive_request_class by (rule vid_thresholds)
  have rows: "bundle_members archive_catalog = []" by (simp add: archive_catalog_def)
  have name: "map char_of (map of_char ''a.mov'' :: nat list) = ''a.mov''" by (simp only: list.map_comp comp_def char_of_char list.map_ident)
  from enqueue_appends [OF archive_catalog_ok(1) archive_request_asset(1) archive_request_path g th archive_request_class(2) acc]
  show ?thesis unfolding rows name append_Nil by blast
qed

theorem late_append_joins_sealed_witness:
  "\<exists>c' m r. enqueue_artifact (\<lambda>k. if k = 1 then claim_and_seal ''b2'' ''host:7'' 8 9 else id) ''u'' archive_request
       accumulating_catalog = Inr (c', vid_bundle, m, True) \<and>
     get_bundle c' ''b2'' = Some r \<and> bu_status r = ''sealed'' \<and> bu_member_count r = 1"
proof -
  have acc: "find_open_accumulator accumulating_catalog vid_group = Some vid_bundle"
    by (simp add: find_open_accumulator_def first_opened_def accumulating_catalog_def vid_bundle_def open_accumulator_def)
  have wit: "assert_open_witness vid_bundle = Inr ()"
    by (simp add: assert_open_witness_def witness_threshold_def vid_bundle_def)
  have free: "member_at accumulating_catalog (bu_id vid_bundle) (map char_of (map of_char ''a.mov'' :: nat list)) = None"
    by (simp add: member_at_def accumulating_catalog_def archive_catalog_def)
  have g: "compute_bundle_group accumulating_catalog (eq_artifactclass archive_request) =
      (vid_group, map basis_entry [(''A'', ''raw-bytes''), (''B'', ''raw-bytes'')])"
    unfolding archive_request_class vid_frame by (rule vid_basis)
  have th: "effective_group_thresholds accumulating_catalog (eq_artifactclass archive_request) (eq_policy archive_request) vid_group
      (map basis_entry [(''A'', ''raw-bytes''), (''B'', ''raw-bytes'')]) = Inr (10, 60)"
    unfolding archive_request_class vid_frame by (rule vid_thresholds)
  have ids: "bu_id vid_bundle = ''b2''" "bu_member_count vid_bundle = 0" by (simp_all add: vid_bundle_def)
  from late_append_joins_sealed [OF archive_catalog_ok(2) archive_request_asset(2) archive_request_path g th archive_request_class(2)
      acc wit free, of "''host:7''" 8 9 "''u''"]
  show ?thesis unfolding ids add_0 by blast
qed

theorem enqueue_idempotent_witness:
  "\<exists>c' b m. enqueue_artifact (\<lambda>_. id) ''u'' archive_request archive_catalog = Inr (c', b, m, True) \<and>
     (\<exists>b'. enqueue_artifact (\<lambda>_. id) ''v'' archive_request c' = Inr (c', b', m, False) \<and> bu_id b' = bu_id b)"
proof -
  from archive_request_added obtain c' b m where
    first: "enqueue_artifact (\<lambda>_. id) ''u'' archive_request archive_catalog = Inr (c', b, m, True)" by blast
  have "distinct (map fst (eq_source_metadata archive_request))"
    by (simp add: archive_request_def submission_link_metadata_def)
  moreover have "''bundle-'' @ ''u'' \<notin> bu_id ` set (bundles archive_catalog)" by (simp add: archive_catalog_def)
  ultimately have "\<exists>b'. enqueue_artifact (\<lambda>_. id) ''v'' archive_request c' = Inr (c', b', m, False) \<and> bu_id b' = bu_id b"
    by (rule enqueue_idempotent [OF archive_catalog_ok(1) _ _ first])
  with first show ?thesis by blast
qed

end
