(* ===== verification/Archive_Flush_Properties.thy ===== *)
theory Archive_Flush_Properties
  imports Archive_Quarantine Archive_Late
begin

text \<open>
  What a flush promises: a sealed bundle is on every pool that it does not report, members are set aside and
  never lost, nothing is written before everything is built and checked, and the rounds end by themselves.
\<close>

section \<open>All rounds\<close>

lemma image_map_eq2: "map f xs = map g ys \<Longrightarrow> f ` set xs = g ` set ys"
  by (metis list.set_map)

definition quarantine_id :: "flush_env \<Rightarrow> string option \<Rightarrow> string" where
  "quarantine_id e quarantine = (case quarantine of None \<Rightarrow> ''bundle-'' @ fv_uuid e | Some q \<Rightarrow> q)"

text \<open>What the loop does when a member fails.\<close>

lemma flush_attempts_failed:
  assumes rows: "member_rows_for_flush (catalog db) i \<noteq> []"
    and fail: "flush_attempt e i ts n (member_rows_for_flush (catalog db) i) db md = Inl (MemberFailed r msg, db1, md1)"
  shows "flush_attempts left e i ts n quarantine db md =
    (case left of
       0 \<Rightarrow> Inl (ArchiveFanoutError (''bundle '' @ py_repr i @ '' flush exceeded its quarantine bound''), md)
     | Suc left' \<Rightarrow>
         (case quarantine_member e i r quarantine msg (catalog db1) of
            Inl x \<Rightarrow> Inl (BundleFailed x, md)
          | Inr (c, q) \<Rightarrow> flush_attempts left' e i ts (n + 1) (Some q) (db1\<lparr>catalog := c\<rparr>) md))"
proof -
  have "md1 = md" using flush_attempt_MemberFailed [OF fail] by simp
  with fail rows show ?thesis
    by (subst flush_attempts.simps) (simp only: Let_def sum.case prod.case build_stop.case if_False)
qed

lemma flush_attempts_empty:
  "member_rows_for_flush (catalog db) i = [] \<Longrightarrow>
   flush_attempts left e i ts n quarantine db md =
     Inl (ArchiveFanoutError (''bundle '' @ py_repr i @ '' has no members left to flush; all were quarantined''), md)"
  by (subst flush_attempts.simps) (simp only: Let_def refl if_True)

lemma flush_attempts_written:
  "member_rows_for_flush (catalog db) i \<noteq> [] \<Longrightarrow>
   flush_attempt e i ts n (member_rows_for_flush (catalog db) i) db md = Inr st \<Longrightarrow>
   flush_attempts left e i ts n quarantine db md = Inr st"
  by (subst flush_attempts.simps) (simp only: Let_def if_False sum.case)

lemma flush_attempts_stopped:
  "member_rows_for_flush (catalog db) i \<noteq> [] \<Longrightarrow>
   flush_attempt e i ts n (member_rows_for_flush (catalog db) i) db md = Inl (FlushStopped x, db1, md1) \<Longrightarrow>
   flush_attempts left e i ts n quarantine db md = Inl (x, md1)"
  by (subst flush_attempts.simps) (simp only: Let_def if_False sum.case prod.case build_stop.case)

text \<open>The four ways a round ends.\<close>

lemma flush_attempt_ends:
  obtains (empty) "member_rows_for_flush (catalog db) i = []"
  | (written) st where "member_rows_for_flush (catalog db) i \<noteq> []"
      "flush_attempt e i ts n (member_rows_for_flush (catalog db) i) db md = Inr st"
  | (stopped) x db1 md1 where "member_rows_for_flush (catalog db) i \<noteq> []"
      "flush_attempt e i ts n (member_rows_for_flush (catalog db) i) db md = Inl (FlushStopped x, db1, md1)"
  | (failed) r msg db1 md1 where "member_rows_for_flush (catalog db) i \<noteq> []"
      "flush_attempt e i ts n (member_rows_for_flush (catalog db) i) db md = Inl (MemberFailed r msg, db1, md1)"
  by (cases "flush_attempt e i ts n (member_rows_for_flush (catalog db) i) db md")
    (metis build_stop.exhaust prod.exhaust)+

text \<open>Rounds beyond the number of members are never used.\<close>

lemma flush_attempts_enough:
  "flush_inv i quarantine (catalog db) \<Longrightarrow> length (member_rows_for_flush (catalog db) i) \<le> left \<Longrightarrow>
   flush_attempts (left + k) e i ts n quarantine db md = flush_attempts left e i ts n quarantine db md"
proof (induction left arbitrary: n quarantine db md)
  case 0
  then show ?case by (simp add: flush_attempts_empty)
next
  case (Suc left)
  show ?case
  proof (cases rule: flush_attempt_ends [where db = db and i = i and e = e and ts = ts and n = n and md = md])
    case (failed r msg db1 md1)
    have "flush_attempts (left + k) e i ts (n + 1) (Some q) (db1\<lparr>catalog := c\<rparr>) md =
          flush_attempts left e i ts (n + 1) (Some q) (db1\<lparr>catalog := c\<rparr>) md"
      if step: "quarantine_member e i r quarantine msg (catalog db1) = Inr (c, q)" for c q
      using next_round [OF Suc.prems(1) failed(2) step] Suc.prems(2) by (intro Suc.IH) simp_all
    then show ?thesis by (simp add: flush_attempts_failed [OF failed] split: sum.split)
  qed (simp_all add: flush_attempts_empty flush_attempts_written flush_attempts_stopped)
qed

text \<open>
  The round that wrote: only members of the bundle moved before it, all of them to the bundle of the quarantine,
  and the claim is the one the flush took.
\<close>

definition last_round :: "flush_env \<Rightarrow> string \<Rightarrow> string option \<Rightarrow> catalog_db \<Rightarrow> catalog_db \<Rightarrow> bool" where
  "last_round e i quarantine c c1 \<longleftrightarrow>
     member_rows_for_flush c1 i \<noteq> [] \<and> claim_cols i c1 = claim_cols i c \<and>
     (\<exists>qs Q. flush_inv i qs c1 \<and> bundle_members c1 = map (moved Q (quarantine_id e quarantine)) (bundle_members c) \<and>
        Q \<subseteq> bm_id ` set (members_of c i) \<and> (quarantine \<noteq> None \<or> Q \<noteq> {} \<longrightarrow> qs = Some (quarantine_id e quarantine)))"

lemma moved_members_of:
  assumes "q \<noteq> i" "bundle_members c1 = map (moved Q q) (bundle_members c)"
  shows "bm_id ` set (members_of c1 i) \<subseteq> bm_id ` set (members_of c i)"
proof
  fix k assume "k \<in> bm_id ` set (members_of c1 i)"
  then obtain m where m: "m \<in> set (bundle_members c)" "bm_bundle_id (moved Q q m) = i" "k = bm_id m"
    by (auto simp: members_of_def assms(2))
  with assms(1) have "bm_bundle_id m = i" by (auto simp: moved_def split: if_splits)
  with m show "k \<in> bm_id ` set (members_of c i)" by (auto simp: members_of_def)
qed

lemma last_round_here: "flush_inv i quarantine c \<Longrightarrow> member_rows_for_flush c i \<noteq> [] \<Longrightarrow> last_round e i quarantine c c"
  unfolding last_round_def by (intro conjI exI [of _ quarantine] exI [of _ "{}"]) (auto simp: quarantine_id_def)

lemma last_round_next:
  assumes "flush_inv i quarantine (catalog db)"
    and "flush_attempt e i ts n (member_rows_for_flush (catalog db) i) db md = Inl (MemberFailed r msg, db1, md1)"
    and "quarantine_member e i r quarantine msg (catalog db1) = Inr (c, q)"
    and rest: "last_round e i (Some q) c c1"
  shows "last_round e i quarantine (catalog db) c1"
proof -
  note nr = next_round [OF assms(1-3)]
  have q: "quarantine_id e quarantine = q" "quarantine_id e (Some q) = q" "q \<noteq> i"
    using nr(1, 2) by (simp_all add: quarantine_id_def flush_inv_def)
  from rest obtain Q where rows: "member_rows_for_flush c1 i \<noteq> []" and cols: "claim_cols i c1 = claim_cols i c"
    and inv: "flush_inv i (Some q) c1" and ms: "bundle_members c1 = map (moved Q q) (bundle_members c)"
    and Q: "Q \<subseteq> bm_id ` set (members_of c i)"
    unfolding last_round_def q by auto
  have "bundle_members c1 = map (moved (Q \<union> {bm_id r}) q) (bundle_members (catalog db))"
    unfolding ms nr(4) by (rule moved_pair)
  moreover have "Q \<union> {bm_id r} \<subseteq> bm_id ` set (members_of (catalog db) i)"
    using Q moved_members_of [OF q(3) nr(4)] nr(3) by auto
  ultimately show ?thesis
    unfolding last_round_def q using rows cols inv nr(5) by (intro conjI exI [of _ "Some q"] exI [of _ "Q \<union> {bm_id r}"]) simp_all
qed

lemma flush_attempts_Inr:
  "flush_attempts left e i ts n quarantine db md = Inr st \<Longrightarrow> flush_inv i quarantine (catalog db) \<Longrightarrow>
   \<exists>k db1. last_round e i quarantine (catalog db) (catalog db1) \<and>
     flush_attempt e i ts k (member_rows_for_flush (catalog db1) i) db1 md = Inr st"
proof (induction left arbitrary: n quarantine db)
  case 0
  show ?case
  proof (cases rule: flush_attempt_ends [where db = db and i = i and e = e and ts = ts and n = n and md = md])
    case (written st')
    with 0 show ?thesis by (intro exI [of _ n] exI [of _ db]) (simp add: flush_attempts_written last_round_here)
  qed (use 0 in \<open>simp_all add: flush_attempts_empty flush_attempts_stopped flush_attempts_failed\<close>)
next
  case (Suc left)
  show ?case
  proof (cases rule: flush_attempt_ends [where db = db and i = i and e = e and ts = ts and n = n and md = md])
    case (written st')
    with Suc.prems show ?thesis by (intro exI [of _ n] exI [of _ db]) (simp add: flush_attempts_written last_round_here)
  next
    case (failed r msg db1 md1)
    from Suc.prems(1) obtain c q where step: "quarantine_member e i r quarantine msg (catalog db1) = Inr (c, q)"
      and rest: "flush_attempts left e i ts (n + 1) (Some q) (db1\<lparr>catalog := c\<rparr>) md = Inr st"
      by (auto simp: flush_attempts_failed [OF failed] split: sum.splits)
    have "flush_inv i (Some q) c" by (rule next_round [OF Suc.prems(2) failed(2) step])
    with Suc.IH [OF rest] obtain k db2 where "last_round e i (Some q) c (catalog db2)"
      "flush_attempt e i ts k (member_rows_for_flush (catalog db2) i) db2 md = Inr st" by auto
    with last_round_next [OF Suc.prems(2) failed(2) step] show ?thesis by blast
  qed (use Suc.prems in \<open>simp_all add: flush_attempts_empty flush_attempts_stopped\<close>)
qed

lemma flush_attempts_Inl:
  "flush_attempts left e i ts n quarantine db md = Inl (x, md') \<Longrightarrow> flush_inv i quarantine (catalog db) \<Longrightarrow>
   md' = md \<or> (\<exists>k db1 db2. last_round e i quarantine (catalog db) (catalog db1) \<and>
     flush_attempt e i ts k (member_rows_for_flush (catalog db1) i) db1 md = Inl (FlushStopped x, db2, md'))"
proof (induction left arbitrary: n quarantine db)
  case 0
  show ?case
  proof (cases rule: flush_attempt_ends [where db = db and i = i and e = e and ts = ts and n = n and md = md])
    case (stopped y db1 md1)
    with 0 show ?thesis
      by (intro disjI2 exI [of _ n] exI [of _ db] exI [of _ db1]) (simp add: flush_attempts_stopped last_round_here)
  qed (use 0 in \<open>simp_all add: flush_attempts_empty flush_attempts_written flush_attempts_failed\<close>)
next
  case (Suc left)
  show ?case
  proof (cases rule: flush_attempt_ends [where db = db and i = i and e = e and ts = ts and n = n and md = md])
    case (stopped y db1 md1)
    with Suc.prems show ?thesis
      by (intro disjI2 exI [of _ n] exI [of _ db] exI [of _ db1]) (simp add: flush_attempts_stopped last_round_here)
  next
    case (failed r msg db1 md1)
    show ?thesis
    proof (cases "quarantine_member e i r quarantine msg (catalog db1)")
      case Inl
      with Suc.prems(1) show ?thesis by (simp add: flush_attempts_failed [OF failed])
    next
      case (Inr cq)
      then obtain c q where step: "quarantine_member e i r quarantine msg (catalog db1) = Inr (c, q)" by (cases cq) simp
      with Suc.prems(1) have rest: "flush_attempts left e i ts (n + 1) (Some q) (db1\<lparr>catalog := c\<rparr>) md = Inl (x, md')"
        by (simp add: flush_attempts_failed [OF failed])
      have "flush_inv i (Some q) c" by (rule next_round [OF Suc.prems(2) failed(2) step])
      with Suc.IH [OF rest] last_round_next [OF Suc.prems(2) failed(2) step] show ?thesis by auto
    qed
  qed (use Suc.prems in \<open>simp_all add: flush_attempts_empty flush_attempts_written\<close>)
qed

section \<open>The whole flush\<close>

interpretation minted: bundle_update "\<lambda>b. b\<lparr>bu_archive_id := Some x\<rparr>" for x
  by unfold_locales (auto simp: open_accumulator_def)

lemma claim_row_of:
  assumes ok: "archive_ok c" and claim: "claim_bundle_for_flush i token stamp c = Inr c'"
  obtains b where "get_bundle c i = Some b" "bu_status b = ''open''" "get_bundle c' i = Some (claimed_row token stamp b)"
    "bundle_members c' = bundle_members c"
proof -
  let ?open = "\<lambda>b. bu_id b = i \<and> bu_status b = ''open''"
  from claim have one: "length (filter ?open (bundles c)) = 1"
    and c': "c' = c\<lparr>bundles := update_where ?open (claimed_row token stamp) (bundles c)\<rparr>"
    by (auto simp: claim_bundle_for_flush_def split: if_splits)
  from one obtain b where "filter ?open (bundles c) = [b]" by (auto simp: length_Suc_conv)
  then have "b \<in> set (filter ?open (bundles c))" by simp
  then have b: "b \<in> set (bundles c)" "bu_id b = i" "bu_status b = ''open''" by simp_all
  have get: "get_bundle c i = Some b" using get_bundle_unique [OF ok b(1)] b(2) by simp
  moreover have "get_bundle c' i = Some (claimed_row token stamp b)"
    using get b(3) unfolding get_bundle_def c' by (simp add: find_updated claimed.keeps_id)
  ultimately show thesis using that b(3) by (simp add: c')
qed

lemma mint_frame:
  assumes "archive_ok c" "get_bundle c i = Some b" "bu_id loaded = i"
  shows "archive_ok (mint_archive_id loaded c)" "bundle_members (mint_archive_id loaded c) = bundle_members c"
    "\<exists>a. claim_cols i (mint_archive_id loaded c) = Some (bu_status b, bu_claimed_by b, a)"
proof -
  show "archive_ok (mint_archive_id loaded c)"
    using assms(1) minted.update_ok by (simp add: mint_archive_id_def set_bundle_def)
  show "bundle_members (mint_archive_id loaded c) = bundle_members c"
    by (simp add: mint_archive_id_def set_bundle_def)
  show "\<exists>a. claim_cols i (mint_archive_id loaded c) = Some (bu_status b, bu_claimed_by b, a)"
    using assms(2, 3) by (auto simp: mint_archive_id_def set_bundle_def claim_cols_def get_bundle_def find_update_where)
qed

text \<open>The state in which the rounds of a flush start.\<close>

definition claimed_db :: "flush_env \<Rightarrow> string \<Rightarrow> bundle_row \<Rightarrow> catalog_db \<Rightarrow> archive_db \<Rightarrow> archive_db" where
  "claimed_db e i b c db = (fv_others e db)\<lparr>catalog := mint_archive_id b c\<rparr>"

lemma claimed_db_start:
  assumes ok: "archive_ok (catalog (fv_others e db))" and b: "bu_id b = i"
    and claim: "claim_bundle_for_flush i (fv_token e) (fv_claim_at e) (catalog (fv_others e db)) = Inr c"
  shows "flush_inv i None (catalog (claimed_db e i b c db))"
    "bundle_members (catalog (claimed_db e i b c db)) = bundle_members (catalog (fv_others e db))"
    "\<exists>a. claim_cols i (catalog (claimed_db e i b c db)) = Some (''flushing'', Some (fv_token e), a)"
proof -
  from claim_row_of [OF ok claim] obtain r where get: "get_bundle c i = Some (claimed_row (fv_token e) (fv_claim_at e) r)"
    and ms: "bundle_members c = bundle_members (catalog (fv_others e db))" by metis
  note m = mint_frame [OF claim_ok [OF ok claim] get b]
  show "bundle_members (catalog (claimed_db e i b c db)) = bundle_members (catalog (fv_others e db))"
    using m(2) ms by (simp add: claimed_db_def)
  show cols: "\<exists>a. claim_cols i (catalog (claimed_db e i b c db)) = Some (''flushing'', Some (fv_token e), a)"
    using m(3) by (simp add: claimed_db_def claimed_row_def)
  then obtain x where "get_bundle (mint_archive_id b c) i = Some x" by (auto simp: claim_cols_def claimed_db_def)
  from get_bundle_Some [OF this] m(1) show "flush_inv i None (catalog (claimed_db e i b c db))"
    by (auto simp: flush_inv_def claimed_db_def)
qed

lemma flush_targets_row: "flush_targets e i c = Inr (b, ts) \<Longrightarrow> get_bundle c i = Some b \<and> bu_id b = i"
  by (auto simp: flush_targets_def res_bind_Inr_iff split: if_splits option.splits sum.splits dest: get_bundle_Some)

text \<open>How a flush goes on once the bundle is claimed.\<close>

lemma flush_bundle_cases:
  obtains (before) x where "flush_bundle e i db md = Inl (x, md)"
  | (rounds) b ts c where "flush_targets e i (catalog db) = Inr (b, ts)" "bu_id b = i"
      "claim_bundle_for_flush i (fv_token e) (fv_claim_at e) (catalog (fv_others e db)) = Inr c"
      "flush_bundle e i db md =
        (case flush_attempts (length (member_rows_for_flush (catalog (claimed_db e i b c db)) i)) e i ts 0 None
                (claimed_db e i b c db) md of
           Inl x \<Rightarrow> Inl x
         | Inr st \<Rightarrow> (case finish_flush e i st of Inl x \<Rightarrow> Inl (x, fs_media st) | Inr (db, r) \<Rightarrow> Inr (db, fs_media st, r)))"
proof (cases "flush_targets e i (catalog db)")
  case (Inl x)
  then show thesis using before by (simp add: flush_bundle_def)
next
  case (Inr bt)
  obtain b ts where bt: "bt = (b, ts)" by (cases bt)
  show thesis
  proof (cases "claim_bundle_for_flush i (fv_token e) (fv_claim_at e) (catalog (fv_others e db))")
    case (Inl x)
    then show thesis using before Inr bt by (simp add: flush_bundle_def Let_def)
  next
    case (Inr c)
    then show thesis
      using rounds [OF _ _ Inr] \<open>flush_targets e i (catalog db) = Inr bt\<close> bt flush_targets_row
      by (simp add: flush_bundle_def Let_def claimed_db_def)
  qed
qed

lemma observation_catalog [simp]: "catalog (fst (record_observation now d k des obs r m db)) = catalog db"
  by (simp add: record_observation_def Let_def split: option.split)

lemma condition_catalog: "record_condition u now d k p None db = Inr (db', row) \<Longrightarrow> catalog db' = catalog db"
  by (auto simp: record_condition_def Let_def split: option.splits if_splits)

lemma copy_failure_catalog: "record_bundle_copy_failure e i cond reason msg db = Inr db' \<Longrightarrow> catalog db' = catalog db"
proof -
  assume "record_bundle_copy_failure e i cond reason msg db = Inr db'"
  then obtain db1 row row' where obs: "record_observation (fv_now e) BUNDLE_COPY_DOMAIN i True OBSERVED_MISSING (Some reason) (Some msg) db = (db1, row)"
    and cond: "record_condition (fv_jitter e) (fv_now e) BUNDLE_COPY_DOMAIN i (plain_projection (Some cond) (Some reason) (Some msg)) None db1
      = Inr (db', row')"
    by (auto simp: record_bundle_copy_failure_def res_bind_Inr_iff split: prod.splits)
  from condition_catalog [OF cond] observation_catalog [of "fv_now e" BUNDLE_COPY_DOMAIN i True OBSERVED_MISSING "Some reason" "Some msg" db]
  show ?thesis by (simp add: obs)
qed

lemma copy_conditions_catalog: "record_copy_conditions e i st db = Inr db' \<Longrightarrow> catalog db' = catalog db"
  by (auto simp: record_copy_conditions_def record_bundle_copy_outbox_def record_bundle_copy_transient_backoff_def
      record_bundle_copy_write_failure_def res_bind_Inr_iff split: if_splits dest!: copy_failure_catalog)

lemma finish_flush_Inr:
  "finish_flush e i st = Inr (db', r) \<Longrightarrow>
   close_bundle i (fv_token e) (fv_sealed_at e) (catalog (fs_db st)) = Inr (catalog db') \<and> r = fanout_result_of i st"
  by (auto simp: finish_flush_def split: sum.splits dest!: copy_conditions_catalog post_flush_fills_catalog)

lemma close_row:
  assumes ok: "archive_ok c" and close: "close_bundle i token t c = Inr c'"
  shows "archive_ok c'" "grows c c'" "\<exists>b. get_bundle c' i = Some b \<and> bu_status b = ''sealed'' \<and> bu_claimed_by b = Some token"
    "held_funnel c q \<Longrightarrow> held_funnel c' q"
proof -
  let ?mine = "\<lambda>b. bu_id b = i \<and> bu_status b = ''flushing'' \<and> bu_claimed_by b = Some token"
  from close have one: "length (filter ?mine (bundles c)) = 1" and c': "c' = c\<lparr>bundles := update_where ?mine (sealed_row t) (bundles c)\<rparr>"
    by (auto simp: close_bundle_def Let_def split: if_splits)
  show "archive_ok c'" by (rule close_ok [OF ok close])
  show "grows c c'" unfolding c' by (rule grows_bundles)
  from one obtain b where "filter ?mine (bundles c) = [b]" by (auto simp: length_Suc_conv)
  then have "b \<in> set (filter ?mine (bundles c))" by simp
  then have b: "b \<in> set (bundles c)" "bu_id b = i" "bu_status b = ''flushing'' \<and> bu_claimed_by b = Some token" by simp_all
  have "get_bundle c i = Some b" using get_bundle_unique [OF ok b(1)] b(2) by simp
  then have "get_bundle c' i = Some (sealed_row t b)"
    using b(3) unfolding get_bundle_def c' by (simp add: find_updated sealed.keeps_id)
  with b(3) show "\<exists>b. get_bundle c' i = Some b \<and> bu_status b = ''sealed'' \<and> bu_claimed_by b = Some token"
    by (simp add: sealed_row_def)
  show "held_funnel c' q" if "held_funnel c q"
    using that unfolding held_funnel_def c' by (auto simp: set_update_where)
qed

text \<open>What is known of a flush that returned.\<close>

lemma flush_bundle_returned:
  assumes ok: "archive_ok (catalog (fv_others e db))" and out: "flush_bundle e i db md = Inr (db', md', r)"
  obtains b ts k db1 st Q where "flush_targets e i (catalog db) = Inr (b, ts)"
    "flush_attempt e i ts k (member_rows_for_flush (catalog db1) i) db1 md = Inr st" "member_rows_for_flush (catalog db1) i \<noteq> []"
    "bundle_members (catalog db1) = map (moved Q (''bundle-'' @ fv_uuid e)) (bundle_members (catalog (fv_others e db)))"
    "Q \<subseteq> bm_id ` set (members_of (catalog (fv_others e db)) i)" "archive_ok (catalog db1)"
    "Q \<noteq> {} \<Longrightarrow> flush_inv i (Some (''bundle-'' @ fv_uuid e)) (catalog db1)"
    "close_bundle i (fv_token e) (fv_sealed_at e) (catalog (fs_db st)) = Inr (catalog db')" "r = fanout_result_of i st" "md' = fs_media st"
proof (cases rule: flush_bundle_cases [where e = e and i = i and db = db and md = md])
  case (before x)
  with out show thesis by simp
next
  case (rounds b ts c)
  note start = claimed_db_start [OF ok rounds(2, 3)]
  from out rounds(4) obtain st where att: "flush_attempts (length (member_rows_for_flush (catalog (claimed_db e i b c db)) i)) e i ts 0 None
      (claimed_db e i b c db) md = Inr st" and fin: "finish_flush e i st = Inr (db', r)" and md': "md' = fs_media st"
    by (auto split: sum.splits)
  from flush_attempts_Inr [OF att start(1)] obtain k db1 where
    lr: "last_round e i None (catalog (claimed_db e i b c db)) (catalog db1)"
    and one: "flush_attempt e i ts k (member_rows_for_flush (catalog db1) i) db1 md = Inr st" by blast
  have same: "members_of (catalog (claimed_db e i b c db)) i = members_of (catalog (fv_others e db)) i"
    by (rule members_of_eq) (rule start(2))
  from lr obtain qs Q where "member_rows_for_flush (catalog db1) i \<noteq> []" and inv: "flush_inv i qs (catalog db1)"
    and "bundle_members (catalog db1) = map (moved Q (''bundle-'' @ fv_uuid e)) (bundle_members (catalog (fv_others e db)))"
    and "Q \<subseteq> bm_id ` set (members_of (catalog (fv_others e db)) i)" and qs: "Q \<noteq> {} \<longrightarrow> qs = Some (''bundle-'' @ fv_uuid e)"
    unfolding last_round_def start(2) same quarantine_id_def by auto
  moreover have "archive_ok (catalog db1)" using inv by (simp add: flush_inv_def)
  moreover have "flush_inv i (Some (''bundle-'' @ fv_uuid e)) (catalog db1)" if "Q \<noteq> {}" using inv qs that by simp
  ultimately show thesis using that [OF rounds(1) one] finish_flush_Inr [OF fin] md' by blast
qed

lemma rows_distinct:
  assumes "archive_ok c"
  shows "distinct (map bm_member_path (member_rows_for_flush c i))"
proof -
  have "inj_on (\<lambda>m. (bm_bundle_id m, bm_member_path m)) (set (bundle_members c))" "distinct (bundle_members c)"
    using assms by (simp_all add: archive_ok_def distinct_map)
  then show ?thesis by (auto simp: member_rows_for_flush_def distinct_map inj_on_def)
qed

text \<open>Every artifact of a prepared round has exactly the members of the round, with their digests and sizes.\<close>

definition carries :: "build_artifact \<Rightarrow> bundle_member list \<Rightarrow> bool" where
  "carries a rows \<longleftrightarrow>
     (\<lambda>b. (bt_member_path b, bt_asset_hash b, bt_file_sha256 b, bt_size_bytes b)) ` set (ba_members a) =
     (\<lambda>m. (bm_member_path m, bm_asset_hash m, bm_file_sha256 m, bm_size_bytes m)) ` set rows"

lemma prepared_exact:
  assumes "prepared e n rows ts c ps" "distinct (map bm_member_path rows)"
  shows "map fst ps = ts \<and> (\<exists>members. member_inputs_for_flush c rows = Inr members \<and>
    (\<forall>(t, a) \<in> set ps. build_for_target e n members t = Built a \<and> carries a rows))"
proof -
  from assms(1) obtain members where inputs: "member_inputs_for_flush c rows = Inr members"
    and built: "build_targets e n members rows ts = Inr ps" by (auto simp: prepared_def)
  note shape = member_inputs_shape [OF inputs] and bt = build_targets_Inr [OF built]
  have "map mi_member_path members = map bm_member_path rows"
    using arg_cong [OF shape, of "map fst"] by (simp add: o_def)
  with assms(2) have dist: "distinct (map mi_member_path members)" by simp
  have "carries a rows" if "(t, a) \<in> set ps" for t a
  proof -
    from that bt have "validate_built_members t a members = Inr ()" by auto
    from validate_built_exact [OF this dist] image_map_eq2 [OF shape] show ?thesis by (simp add: carries_def)
  qed
  with bt inputs show ?thesis by auto
qed

lemma carries_names: "carries a rows \<Longrightarrow> (\<lambda>m. (bm_member_path m, bm_asset_hash m)) ` set rows \<subseteq> built_names a"
proof
  fix x assume c: "carries a rows" and "x \<in> (\<lambda>m. (bm_member_path m, bm_asset_hash m)) ` set rows"
  then obtain m where m: "m \<in> set rows" "x = (bm_member_path m, bm_asset_hash m)" by auto
  then have "(bm_member_path m, bm_asset_hash m, bm_file_sha256 m, bm_size_bytes m) \<in>
      (\<lambda>b. (bt_member_path b, bt_asset_hash b, bt_file_sha256 b, bt_size_bytes b)) ` set (ba_members a)"
    using c unfolding carries_def by auto
  with m show "x \<in> built_names a" unfolding built_names_def by auto
qed

text \<open>The media after a flush, whether it returned or raised.\<close>

definition flush_media :: "(flush_error \<times> media) + archive_db \<times> media \<times> fanout_result \<Rightarrow> media" where
  "flush_media out = (case out of Inl (x, md) \<Rightarrow> md | Inr (db, md, r) \<Rightarrow> md)"

lemma last_round_ok: "last_round e i q c c1 \<Longrightarrow> archive_ok c1"
  by (auto simp: last_round_def flush_inv_def)

lemma flush_media_grows:
  assumes ok: "archive_ok (catalog (fv_others e db))"
  shows "flush_media (flush_bundle e i db md) = md \<or>
    (\<exists>b ts ps new k c. flush_media (flush_bundle e i db md) = md @ new \<and> objects_of i ps new \<and>
       flush_targets e i (catalog db) = Inr (b, ts) \<and> archive_ok c \<and> prepared e k (member_rows_for_flush c i) ts c ps)"
proof (cases rule: flush_bundle_cases [where e = e and i = i and db = db and md = md])
  case (before x)
  then show ?thesis by (simp add: flush_media_def)
next
  case (rounds b ts c)
  note start = claimed_db_start [OF ok rounds(2, 3)]
  show ?thesis
  proof (cases "flush_attempts (length (member_rows_for_flush (catalog (claimed_db e i b c db)) i)) e i ts 0 None
      (claimed_db e i b c db) md")
    case (Inl y)
    obtain x md' where y: "y = (x, md')" by (cases y)
    with Inl rounds(4) have m: "flush_media (flush_bundle e i db md) = md'" by (simp add: flush_media_def)
    from flush_attempts_Inl [OF Inl [unfolded y] start(1)] show ?thesis
      unfolding m using flush_attempt_Stopped last_round_ok rounds(1) by metis
  next
    case (Inr st)
    with rounds(4) have m: "flush_media (flush_bundle e i db md) = fs_media st"
      by (auto simp: flush_media_def split: sum.splits prod.splits)
    from flush_attempts_Inr [OF Inr start(1)] show ?thesis
      unfolding m using flush_attempt_Inr last_round_ok rounds(1) by metis
  qed
qed

section \<open>Properties\<close>

text \<open>
  C5: A flush that returns has sealed its bundle under its own claim, and the tables are in order.  Every pool of
  the bundle's frozen basis that accepts writes is either reported as failed or holds a copy of the bundle
  with a locator, under its name and content hash, for every named member of the sealed bundle.  The result is
  called partial exactly when a pool is reported.  Others may act before the claim as long as the tables
  they leave are in order; the devices may answer anything.
\<close>

theorem flush_seals_on_pools:
  assumes ok: "archive_ok (catalog (fv_others e db))" and out: "flush_bundle e i db md = Inr (db', md', r)"
  shows "archive_ok (catalog db') \<and>
    (\<exists>b. get_bundle (catalog db') i = Some b \<and> bu_status b = ''sealed'' \<and> bu_claimed_by b = Some (fv_token e)) \<and>
    (\<exists>b ts. flush_targets e i (catalog db) = Inr (b, ts) \<and>
       (\<forall>t \<in> set ts. pt_pool_id t \<in> set (fr_failed_pools r) \<or>
          holds_members (catalog db') i (pt_pool_id t)
            ((\<lambda>m. (bm_member_path m, bm_asset_hash m)) ` set (members_of (catalog db') i)))) \<and>
    fr_partial r = (fr_failed_pools r \<noteq> [])"
proof -
  from flush_bundle_returned [OF ok out] obtain b ts k db1 st where tg: "flush_targets e i (catalog db) = Inr (b, ts)"
    and att: "flush_attempt e i ts k (member_rows_for_flush (catalog db1) i) db1 md = Inr st" and ok1: "archive_ok (catalog db1)"
    and close: "close_bundle i (fv_token e) (fv_sealed_at e) (catalog (fs_db st)) = Inr (catalog db')"
    and r: "r = fanout_result_of i st" by metis
  from flush_attempt_Inr [OF att] obtain ps where prep: "prepared e k (member_rows_for_flush (catalog db1) i) ts (catalog db1) ps"
    and st: "steady (catalog db1) (catalog (fs_db st))" and ver: "\<forall>(t, a) \<in> set ps. verdict i t a st" by blast
  note row = close_row [OF steady_archive_ok [OF st ok1] close]
  have "bundle_members (catalog db') = bundle_members (catalog db1)"
    using st row(2) by (simp add: steady_def grows_def)
  then have ms: "set (members_of (catalog db') i) = set (member_rows_for_flush (catalog db1) i)"
    by (simp add: members_of_def member_rows_for_flush_def)
  note exact = prepared_exact [OF prep rows_distinct [OF ok1]]
  have "pt_pool_id t \<in> set (fr_failed_pools r) \<or> holds_members (catalog db') i (pt_pool_id t)
      ((\<lambda>m. (bm_member_path m, bm_asset_hash m)) ` set (members_of (catalog db') i))" if "t \<in> set ts" for t
  proof -
    from that exact obtain a where a: "(t, a) \<in> set ps" by auto
    with exact have "carries a (member_rows_for_flush (catalog db1) i)" by auto
    note names = carries_names [OF this, folded ms]
    from a ver have "verdict i t a st" by auto
    then show ?thesis using holds_mono [OF _ row(2) names] unfolding verdict_def r fanout_result_of_def by auto
  qed
  then show ?thesis using row(1, 3) tg r by (auto simp: fanout_result_of_def)
qed



text \<open>
  C35: The rounds of a flush end by themselves.  Each round that fails sets one member aside, so rounds that are
  allowed beyond the number of members at the claim, which is the bound of the code, never change the outcome:
  the bound does not cut a flush short.
\<close>

theorem quarantine_rounds_end:
  assumes "flush_inv i quarantine (catalog db)"
  shows "flush_attempts (length (member_rows_for_flush (catalog db) i) + k) e i ts n quarantine db md =
         flush_attempts (length (member_rows_for_flush (catalog db) i)) e i ts n quarantine db md"
  using assms by (rule flush_attempts_enough) simp

section \<open>Witnesses\<close>

text \<open>A bundle of two members for one pool; the source of the first is missing.\<close>

definition staged_hash :: "char \<Rightarrow> bytes" where "staged_hash x = replicate 32 x"

definition staged_member :: "nat \<Rightarrow> char \<Rightarrow> string \<Rightarrow> bundle_member" where
  "staged_member k x path =
     \<lparr>bm_id = k, bm_bundle_id = ''b2'', bm_asset_hash = staged_hash x, bm_artifactclass = ''vid'', bm_member_path = path,
      bm_source_path = Some (''/in/'' @ path), bm_size_bytes = 4, bm_file_sha256 = staged_hash x, bm_source_metadata = None,
      bm_added_at = 0\<rparr>"

definition due_bundle :: bundle_row where
  "due_bundle =
     \<lparr>bu_id = ''b2'', bu_group = ''g'',
      bu_group_basis = [(''basis'', JArr [JObj [(''pool'', JStr ''A''), (''representation'', JStr ''rem-object-v1'')]])],
      bu_status = ''open'', bu_total_bytes = 8, bu_member_count = 2, bu_target_bytes = 8, bu_max_age_seconds = 60,
      bu_archive_id = None, bu_scan_summary = None, bu_review_summary = None, bu_customer_manifest_path = None,
      bu_claimed_by = None, bu_opened_at = 0, bu_flushed_at = None, bu_sealed_at = None, bu_held_at = None\<rparr>"

definition due_catalog :: catalog_db where
  "due_catalog = example_catalog\<lparr>pools := [example_pool ''A''\<lparr>po_representation := ''rem-object-v1''\<rparr>], policies := [],
     copies := [], asset_locators := [], submission_members := [], verify_receipts := [], bundles := [due_bundle],
     bundle_members := [staged_member 3 (CHR ''x'') ''a.mov'', staged_member 4 (CHR ''y'') ''b.mov''],
     logical_assets := [staged_hash (CHR ''x''), staged_hash (CHR ''y'')]\<rparr>"

definition due_db :: archive_db where
  "due_db = \<lparr>jobs = [], job_attempts = [], conditions = [], condition_components = [], catalog = due_catalog\<rparr>"

definition built_archive :: build_artifact where
  "built_archive =
     \<lparr>ba_stored_digest = staged_hash (CHR ''z''),
      ba_members = [\<lparr>bt_asset_hash = staged_hash (CHR ''y''), bt_member_path = ''b.mov'', bt_size_bytes = 4,
                     bt_file_sha256 = staged_hash (CHR ''y''), bt_native_locator = [], bt_ingest_item_id = None\<rparr>],
      ba_has_manifest = True, ba_blob_roots = [], ba_exclusions = [], ba_recipient_epochs = []\<rparr>"

definition tape_env :: flush_env where
  "tape_env =
     \<lparr>fv_float = (\<lambda>_. []), fv_token = ''host:7'', fv_claim_at = 8, fv_sealed_at = 9, fv_now = 9, fv_jitter = 1, fv_uuid = ''u'',
      fv_free_bytes = 100, fv_backends = [1], fv_key_epoch = None, fv_deliverables = None, fv_signer = False, fv_manifest_ok = True,
      fv_tape_capacity = None,
      fv_build = (\<lambda>n t ms. if n = 0 then BuildRuntimeError ''source map line 2'' else Built built_archive),
      fv_tar = (\<lambda>n t ms. TarRaised []), fv_write = (\<lambda>t a. Committed [(''tape'', JInt 1)] 10),
      fv_verify = (\<lambda>t l. Verified \<lparr>vf_ok = True, vf_measured = True, vf_actual_hash = Some (staged_hash (CHR ''z'')), vf_detail = []\<rparr>),
      fv_read = (\<lambda>t m. ReadDigest (bt_file_sha256 m)), fv_fill = \<lparr>fc_live_job_cap = 1, fc_priority = 50\<rparr>, fv_others = id\<rparr>"

definition tape_target :: pool_target where
  "tape_target =
     \<lparr>pt_pool_id = ''A'', pt_artifactclass = [], pt_backend_id = 1, pt_backend_name = ''lib'', pt_representation = ''rem-object-v1'',
      pt_key_epoch = None, pt_location = ''site'', pt_offsite_gate = False, pt_tier = ''t'', pt_sort_order = 0\<rparr>"

lemmas due_defs = due_catalog_def due_bundle_def staged_member_def staged_hash_def example_catalog_defs

lemma due_ok: "archive_ok (catalog (fv_others tape_env due_db))"
  by (simp add: archive_ok_def one_accumulator_def counted_def members_of_def tape_env_def due_db_def due_defs)

lemma due_targets: "flush_targets tape_env ''b2'' due_catalog = Inr (due_bundle, [tape_target])"
  by (simp add: flush_targets_def bundle_group_targets_def require_key_epoch_def basis_entries_def entry_pool_def get_bundle_def
      get_pool_def get_backend_def pool_target_entry_def REPRESENTATIONS_def tape_env_def tape_target_def due_defs)

text \<open>The catalog at the start of a round, with the bundle claimed and some rows in place of its members.\<close>

definition round_catalog :: "bundle_row list \<Rightarrow> bundle_member list \<Rightarrow> catalog_db" where
  "round_catalog bs ms = due_catalog\<lparr>bundle_members := ms, bundles := bs\<rparr>"

definition round_db :: "bundle_row list \<Rightarrow> bundle_member list \<Rightarrow> archive_db" where
  "round_db bs ms = due_db\<lparr>catalog := round_catalog bs ms\<rparr>"

abbreviation first_member :: bundle_member where "first_member \<equiv> staged_member 3 (CHR ''x'') ''a.mov''"
abbreviation second_member :: bundle_member where "second_member \<equiv> staged_member 4 (CHR ''y'') ''b.mov''"

definition claimed_bundle :: bundle_row where
  "claimed_bundle = (claimed_row ''host:7'' 8 due_bundle)\<lparr>bu_archive_id := Some ''archive-b2''\<rparr>"

lemma due_claimed:
  "\<exists>c. claim_bundle_for_flush ''b2'' (fv_token tape_env) (fv_claim_at tape_env) (catalog (fv_others tape_env due_db)) = Inr c \<and>
     claimed_db tape_env ''b2'' due_bundle c due_db = round_db [claimed_bundle] [first_member, second_member]"
  by (simp add: claim_bundle_for_flush_def claimed_db_def mint_archive_id_def set_bundle_def tape_env_def due_db_def due_catalog_def
      due_bundle_def claimed_bundle_def claimed_row_def round_db_def round_catalog_def)

lemma round_rows: "member_rows_for_flush (round_catalog bs [first_member, second_member]) ''b2'' = [first_member, second_member]"
  by (simp add: member_rows_for_flush_def round_catalog_def staged_member_def)

definition staged_input :: "char \<Rightarrow> string \<Rightarrow> member_input" where
  "staged_input x path =
     \<lparr>mi_asset_hash = staged_hash x, mi_member_path = path, mi_source_path = ''/in/'' @ path, mi_size_bytes = 4,
      mi_file_sha256 = staged_hash x, mi_ingest_item_id = None\<rparr>"

lemma staged_links: "submission_links (bm_source_metadata (staged_member k x p)) = []"
  by (simp add: submission_links_def staged_member_def)

lemma staged_inputs:
  "validate_submission_member_identity c [first_member, second_member] = Inr ()"
  "validate_submission_member_identity c [second_member] = Inr ()"
  "member_inputs_for_flush c [first_member, second_member] = Inr [staged_input (CHR ''x'') ''a.mov'', staged_input (CHR ''y'') ''b.mov'']"
  "member_inputs_for_flush c [second_member] = Inr [staged_input (CHR ''y'') ''b.mov'']"
proof -
  have input: "member_input_of [] (staged_member k x p) = Inr (staged_input x p)" for k x p
    by (simp add: member_input_of_def member_source_path_def staged_member_def staged_input_def)
  have links: "linked_members [first_member, second_member] = []" "linked_members [second_member] = []"
    by (simp_all add: linked_members_def staged_links)
  show "validate_submission_member_identity c [first_member, second_member] = Inr ()"
    "validate_submission_member_identity c [second_member] = Inr ()"
    by (simp_all add: validate_submission_member_identity_def links)
  show "member_inputs_for_flush c [first_member, second_member] = Inr [staged_input (CHR ''x'') ''a.mov'', staged_input (CHR ''y'') ''b.mov'']"
    "member_inputs_for_flush c [second_member] = Inr [staged_input (CHR ''y'') ''b.mov'']"
    using input by (simp_all add: member_inputs_for_flush_def resolved_lineage_def links)
qed

lemma staged_paths: "utf8_text ''/in/a.mov''" "utf8_text ''/in/b.mov''" by code_simp+

lemma staged_map:
  "\<exists>m. render_flush_map c [staged_input (CHR ''x'') ''a.mov'', staged_input (CHR ''y'') ''b.mov''] [first_member, second_member] = Inr m"
  "\<exists>m. render_flush_map c [staged_input (CHR ''y'') ''b.mov''] [second_member] = Inr m"
  using staged_paths by (simp_all add: render_flush_map_def staged_input_def)

lemma first_line: "identify_member_failure ''source map line 2'' [first_member, second_member] = Some first_member"
proof -
  have "map_line_of ''source map line 2'' = Some 2" by code_simp
  then show ?thesis by (simp add: identify_member_failure_def)
qed

text \<open>The first round fails on the first member, which moves; the second round writes.\<close>

lemma due_first_round:
  "\<exists>s. flush_attempt tape_env ''b2'' [tape_target] 0 [first_member, second_member] (round_db [claimed_bundle] [first_member, second_member]) [] =
     Inl (MemberFailed first_member ''source map line 2'',
          round_db [claimed_bundle\<lparr>bu_scan_summary := s\<rparr>] [first_member, second_member], [])"
proof -
  let ?db = "round_db [claimed_bundle] [first_member, second_member]"
  obtain m where m: "render_flush_map (catalog ?db) [staged_input (CHR ''x'') ''a.mov'', staged_input (CHR ''y'') ''b.mov'']
      [first_member, second_member] = Inr m" using staged_map(1) by blast
  have b: "build_targets tape_env 0 ms [first_member, second_member] [tape_target] =
      Inl (MemberFailed first_member ''source map line 2'')" for ms
    by (simp add: build_for_target_def tape_env_def tape_target_def first_line)
  have cap: "fv_tape_capacity tape_env = None" by (simp add: tape_env_def)
  have "flush_attempt tape_env ''b2'' [tape_target] 0 [first_member, second_member] ?db [] =
     Inl (MemberFailed first_member ''source map line 2'', ?db\<lparr>catalog := set_bundle ''b2''
       (\<lambda>b. b\<lparr>bu_scan_summary := Some (scan_summary m (length [first_member, second_member]))\<rparr>) (catalog ?db)\<rparr>, [])"
    by (simp add: flush_attempt_def Let_def cap staged_inputs m b del: build_targets.simps)
  then show ?thesis
    by (intro exI [of _ "Some (scan_summary m (length [first_member, second_member]))"])
      (simp add: round_db_def round_catalog_def set_bundle_def claimed_bundle_def claimed_row_def due_bundle_def)
qed

definition held_bundle :: bundle_row where
  "held_bundle = note_quarantined first_member ''source map line 2'' (count_member 4 (quarantine_bundle tape_env due_bundle))"

lemma due_quarantine:
  "quarantine_member tape_env ''b2'' first_member None ''source map line 2''
     (round_catalog [claimed_bundle\<lparr>bu_scan_summary := s\<rparr>] [first_member, second_member]) =
   Inr (round_catalog [uncount_member 4 (claimed_bundle\<lparr>bu_scan_summary := s\<rparr>), held_bundle]
          [first_member\<lparr>bm_bundle_id := ''bundle-u''\<rparr>, second_member], ''bundle-u'')"
  by (simp add: Let_def quarantine_member_def get_bundle_def insert_bundle_def round_catalog_def claimed_bundle_def claimed_row_def
      due_bundle_def quarantine_bundle_def open_accumulator_def tape_env_def held_bundle_def move_member_def set_bundle_def
      uncount_member_def count_member_def note_quarantined_def staged_member_def due_catalog_def example_catalog_def)

lemma second_rows:
  "member_rows_for_flush (round_catalog bs [first_member\<lparr>bm_bundle_id := ''bundle-u''\<rparr>, second_member]) ''b2'' = [second_member]"
  by (simp add: member_rows_for_flush_def round_catalog_def staged_member_def)

lemma second_built:
  "build_targets tape_env (Suc 0) [staged_input (CHR ''y'') ''b.mov''] [second_member] [tape_target] = Inr [(tape_target, built_archive)]"
  by (simp add: build_for_target_def tape_env_def tape_target_def validate_built_members_def built_defect_def staged_input_def
      built_archive_def)

text \<open>Writing the archive of the second round, from any rows of the bundle.\<close>

lemma second_written:
  assumes "get_bundle c ''b2'' = Some b" "copies c = []" "verify_receipts c = []" "asset_locators c = []"
    "get_pool c ''A'' \<noteq> None" "logical_assets c = logical_assets due_catalog"
  shows "\<exists>st. write_targets tape_env ''b2'' [(tape_target, built_archive)]
      \<lparr>fs_db = due_db\<lparr>catalog := c\<rparr>, fs_media = [], fs_copy_ids = [], fs_transient = [], fs_failures = [], fs_manifest = None\<rparr> = Inr st \<and>
      fs_transient st = [] \<and> fs_failures st = [] \<and> length (fs_media st) = 1 \<and> bundles (catalog (fs_db st)) = bundles c \<and>
      bundle_members (catalog (fs_db st)) = bundle_members c \<and> policies (catalog (fs_db st)) = policies c"
proof -
  have "require_asset c (staged_hash (CHR ''y'')) = Inr ()"
    using assms(6) by (simp add: require_asset_def due_defs)
  then show ?thesis
    using assms
    by (simp add: Let_def write_target_def write_bundle_copy_for_pool_def record_placement_def copy_storage_metadata_def add_bundle_copy_def
        record_asset_locator_def verify_placement_def conclude_verify_def record_measured_def receipt_for_execution_def
        emit_customer_manifest_def tape_env_def tape_target_def built_archive_def due_db_def set_copy_def require_asset_def
        get_pool_def get_bundle_def copy_by_id_def new_bundle_copy_def staged_hash_def MEASUREMENT_SOURCES_def)
qed

definition second_bundles :: "jobj option \<Rightarrow> bundle_row list" where
  "second_bundles s = [uncount_member 4 (claimed_bundle\<lparr>bu_scan_summary := s\<rparr>), held_bundle]"

definition second_members :: "bundle_member list" where
  "second_members = [first_member\<lparr>bm_bundle_id := ''bundle-u''\<rparr>, second_member]"

lemma due_second_round:
  "\<exists>st s'. flush_attempt tape_env ''b2'' [tape_target] (Suc 0) [second_member] (round_db (second_bundles s) second_members) [] = Inr st \<and>
     fs_transient st = [] \<and> fs_failures st = [] \<and> length (fs_media st) = 1 \<and>
     bundles (catalog (fs_db st)) = second_bundles s' \<and> bundle_members (catalog (fs_db st)) = second_members \<and>
     policies (catalog (fs_db st)) = []"
proof -
  let ?db = "round_db (second_bundles s) second_members"
  obtain m where m: "render_flush_map (catalog ?db) [staged_input (CHR ''y'') ''b.mov''] [second_member] = Inr m"
    using staged_map(2) by blast
  let ?s = "Some (scan_summary m (length [second_member]))"
  let ?c = "set_bundle ''b2'' (\<lambda>b. b\<lparr>bu_scan_summary := ?s\<rparr>) (catalog ?db)"
  have c: "?c = round_catalog (second_bundles ?s) second_members"
    by (simp add: Let_def round_db_def round_catalog_def set_bundle_def second_bundles_def uncount_member_def claimed_bundle_def claimed_row_def
        due_bundle_def held_bundle_def note_quarantined_def count_member_def quarantine_bundle_def tape_env_def)
  have db: "?db\<lparr>catalog := x\<rparr> = due_db\<lparr>catalog := x\<rparr>" for x by (simp add: round_db_def)
  have "\<exists>b. get_bundle ?c ''b2'' = Some b"
    unfolding c by (simp add: get_bundle_def round_catalog_def second_bundles_def uncount_member_def claimed_bundle_def claimed_row_def due_bundle_def)
  then obtain b where "get_bundle ?c ''b2'' = Some b" by blast
  moreover have "copies ?c = []" "verify_receipts ?c = []" "asset_locators ?c = []" "get_pool ?c ''A'' \<noteq> None"
    "logical_assets ?c = logical_assets due_catalog" "policies ?c = []"
    unfolding c by (simp_all add: round_catalog_def due_catalog_def get_pool_def example_pool_def)
  ultimately obtain st where w: "write_targets tape_env ''b2'' [(tape_target, built_archive)]
      \<lparr>fs_db = due_db\<lparr>catalog := ?c\<rparr>, fs_media = [], fs_copy_ids = [], fs_transient = [], fs_failures = [], fs_manifest = None\<rparr> = Inr st"
    "fs_transient st = []" "fs_failures st = []" "length (fs_media st) = 1" "bundles (catalog (fs_db st)) = bundles ?c"
    "bundle_members (catalog (fs_db st)) = bundle_members ?c" "policies (catalog (fs_db st)) = []"
    using second_written [of ?c b] by auto
  have cap: "fv_tape_capacity tape_env = None" by (simp add: tape_env_def)
  have "flush_attempt tape_env ''b2'' [tape_target] (Suc 0) [second_member] ?db [] = Inr st"
    using w(1) by (simp add: flush_attempt_def Let_def cap staged_inputs m second_built db del: build_targets.simps write_targets.simps)
  with w(2-7) show ?thesis unfolding c by (intro exI [of _ st] exI [of _ ?s]) (simp add: round_catalog_def)
qed

lemma due_rounds:
  "\<exists>st s. flush_attempts 2 tape_env ''b2'' [tape_target] 0 None (round_db [claimed_bundle] [first_member, second_member]) [] = Inr st \<and>
     fs_transient st = [] \<and> fs_failures st = [] \<and> length (fs_media st) = 1 \<and>
     bundles (catalog (fs_db st)) = second_bundles s \<and> bundle_members (catalog (fs_db st)) = second_members \<and>
     policies (catalog (fs_db st)) = []"
proof -
  let ?db = "round_db [claimed_bundle] [first_member, second_member]"
  have rows: "member_rows_for_flush (catalog ?db) ''b2'' = [first_member, second_member]"
    by (simp add: round_db_def round_rows)
  obtain s where one: "flush_attempt tape_env ''b2'' [tape_target] 0 [first_member, second_member] ?db [] =
     Inl (MemberFailed first_member ''source map line 2'',
          round_db [claimed_bundle\<lparr>bu_scan_summary := s\<rparr>] [first_member, second_member], [])" using due_first_round by blast
  obtain st s' where two: "flush_attempt tape_env ''b2'' [tape_target] (Suc 0) [second_member] (round_db (second_bundles s) second_members) [] = Inr st"
    and st: "fs_transient st = [] \<and> fs_failures st = [] \<and> length (fs_media st) = 1 \<and>
     bundles (catalog (fs_db st)) = second_bundles s' \<and> bundle_members (catalog (fs_db st)) = second_members \<and>
     policies (catalog (fs_db st)) = []" using due_second_round [of s] by blast
  have db2: "(round_db bs ms)\<lparr>catalog := round_catalog bs' ms'\<rparr> = round_db bs' ms'" for bs ms bs' ms'
    by (simp add: round_db_def)
  have q: "quarantine_member tape_env ''b2'' first_member None ''source map line 2''
       (catalog (round_db [claimed_bundle\<lparr>bu_scan_summary := s\<rparr>] [first_member, second_member])) =
     Inr (round_catalog (second_bundles s) second_members, ''bundle-u'')"
    using due_quarantine [of s] by (simp add: round_db_def second_bundles_def second_members_def)
  have rows2: "member_rows_for_flush (catalog (round_db (second_bundles s) second_members)) ''b2'' = [second_member]"
    using second_rows by (simp add: round_db_def second_members_def)
  have "flush_attempts 1 tape_env ''b2'' [tape_target] (Suc 0) (Some ''bundle-u'') (round_db (second_bundles s) second_members) [] = Inr st"
    by (rule flush_attempts_written) (simp_all add: rows2 two)
  then have "flush_attempts (Suc 1) tape_env ''b2'' [tape_target] 0 None ?db [] = Inr st"
    by (subst flush_attempts_failed [where db = ?db and i = "''b2''", unfolded rows, OF _ one]) (simp_all add: q db2)
  with st show ?thesis by (simp add: numeral_2_eq_2) blast
qed

lemma concat_map_Nil: "concat (map (\<lambda>_. []) xs) = []"
  by (induction xs) simp_all

lemma no_policy_fills:
  assumes "policies (catalog d) = []" "\<forall>m \<in> set (bundle_members (catalog d)). length (bm_asset_hash m) = 32"
  shows "enqueue_post_flush_hdcache_fills now cfg i d = Inr (d, 0)"
proof -
  have none: "desired_target_for_asset (catalog d) h = Inr None" if "length h = 32" for h
    using that assms(1) by (simp add: desired_target_for_asset_def best_candidate_def concat_map_Nil cong: if_cong)
  have all: "res_map (\<lambda>m. desired_target_for_asset (catalog d) (bm_asset_hash m)) ms = Inr (map (\<lambda>_. None) ms)"
    if "\<forall>m \<in> set ms. length (bm_asset_hash m) = 32" for ms
    using that by (induction ms) (simp_all add: none)
  have "desired_targets_for_bundle (catalog d) b = Inr []" for b
    using all [of "filter (\<lambda>m. bm_bundle_id m = bu_id b) (bundle_members (catalog d))"] assms(2)
    by (simp add: desired_targets_for_bundle_def concat_map_Nil o_def)
  then show ?thesis by (simp add: enqueue_post_flush_hdcache_fills_def split: option.split)
qed

lemma due_flushed: "\<exists>db' md' r. flush_bundle tape_env ''b2'' due_db [] = Inr (db', md', r) \<and> length md' = 1 \<and>
    bundle_members (catalog db') = second_members \<and> fr_failed_pools r = []"
proof -
  obtain c where claim: "claim_bundle_for_flush ''b2'' (fv_token tape_env) (fv_claim_at tape_env) (catalog (fv_others tape_env due_db)) = Inr c"
    and db: "claimed_db tape_env ''b2'' due_bundle c due_db = round_db [claimed_bundle] [first_member, second_member]"
    using due_claimed by blast
  obtain st s where att: "flush_attempts 2 tape_env ''b2'' [tape_target] 0 None (round_db [claimed_bundle] [first_member, second_member]) [] = Inr st"
    and st: "fs_transient st = []" "fs_failures st = []" "length (fs_media st) = 1"
     "bundles (catalog (fs_db st)) = second_bundles s" "bundle_members (catalog (fs_db st)) = second_members"
     "policies (catalog (fs_db st)) = []" using due_rounds by blast
  have close: "\<exists>c'. close_bundle ''b2'' (fv_token tape_env) (fv_sealed_at tape_env) (catalog (fs_db st)) = Inr c' \<and>
      bundle_members c' = second_members \<and> policies c' = []"
    using st by (simp add: Let_def close_bundle_def second_bundles_def uncount_member_def claimed_bundle_def claimed_row_def due_bundle_def
        held_bundle_def note_quarantined_def count_member_def quarantine_bundle_def tape_env_def)
  then obtain c' where c': "close_bundle ''b2'' (fv_token tape_env) (fv_sealed_at tape_env) (catalog (fs_db st)) = Inr c'"
    "bundle_members c' = second_members" "policies c' = []" by blast
  let ?d = "record_bundle_copy_outbox tape_env ''b2'' ((fs_db st)\<lparr>catalog := c'\<rparr>)"
  have cond: "record_copy_conditions tape_env ''b2'' st ((fs_db st)\<lparr>catalog := c'\<rparr>) = Inr ?d"
    using st(1, 2) by (simp add: record_copy_conditions_def)
  have cat: "catalog ?d = c'" by (simp add: record_bundle_copy_outbox_def)
  have "enqueue_post_flush_hdcache_fills now cfg ''b2'' ?d = Inr (?d, 0)" for now cfg
    by (rule no_policy_fills) (simp_all add: cat c' second_members_def staged_member_def staged_hash_def)
  then have "finish_flush tape_env ''b2'' st = Inr (?d, fanout_result_of ''b2'' st)"
    using c'(1) cond by (simp add: finish_flush_def)
  moreover have "flush_targets tape_env ''b2'' (catalog due_db) = Inr (due_bundle, [tape_target])"
    using due_targets by (simp add: due_db_def)
  moreover have "mint_archive_id due_bundle c = round_catalog [claimed_bundle] [first_member, second_member]"
    using arg_cong [OF db, of catalog] by (simp add: claimed_db_def round_db_def)
  then have "length (member_rows_for_flush (mint_archive_id due_bundle c) ''b2'') = 2" by (simp add: round_rows)
  ultimately have "flush_bundle tape_env ''b2'' due_db [] = Inr (?d, fs_media st, fanout_result_of ''b2'' st)"
    using claim db att by (simp add: flush_bundle_def Let_def claimed_db_def round_db_def)
  then show ?thesis using st cat c' by (simp add: fanout_result_of_def)
qed

theorem flush_seals_on_pools_witness:
  "\<exists>db' md' r b. flush_bundle tape_env ''b2'' due_db [] = Inr (db', md', r) \<and> fr_failed_pools r = [] \<and>
     get_bundle (catalog db') ''b2'' = Some b \<and> bu_status b = ''sealed'' \<and>
     holds_members (catalog db') ''b2'' ''A'' {(''b.mov'', staged_hash (CHR ''y''))}"
proof -
  obtain db' md' r where out: "flush_bundle tape_env ''b2'' due_db [] = Inr (db', md', r)"
    and ms: "bundle_members (catalog db') = second_members" and no: "fr_failed_pools r = []" using due_flushed by blast
  have "(\<lambda>m. (bm_member_path m, bm_asset_hash m)) ` set (members_of (catalog db') ''b2'') = {(''b.mov'', staged_hash (CHR ''y''))}"
    by (simp add: members_of_def ms second_members_def staged_member_def)
  moreover have "pt_pool_id tape_target = ''A''" by (simp add: tape_target_def)
  moreover have "flush_targets tape_env ''b2'' (catalog due_db) = Inr (due_bundle, [tape_target])"
    using due_targets by (simp add: due_db_def)
  ultimately show ?thesis using flush_seals_on_pools [OF due_ok out] out no by auto
qed



theorem quarantine_rounds_end_witness:
  "flush_attempts (2 + 5) tape_env ''b2'' [tape_target] 0 None (round_db [claimed_bundle] [first_member, second_member]) [] =
   flush_attempts 2 tape_env ''b2'' [tape_target] 0 None (round_db [claimed_bundle] [first_member, second_member]) []"
proof -
  have "archive_ok (catalog (round_db [claimed_bundle] [first_member, second_member]))"
    by (simp add: archive_ok_def one_accumulator_def counted_def members_of_def round_db_def round_catalog_def claimed_bundle_def
        claimed_row_def due_bundle_def staged_member_def)
  then have "flush_inv ''b2'' None (catalog (round_db [claimed_bundle] [first_member, second_member]))"
    by (simp add: flush_inv_def round_db_def round_catalog_def claimed_bundle_def claimed_row_def due_bundle_def)
  moreover have "length (member_rows_for_flush (catalog (round_db [claimed_bundle] [first_member, second_member])) ''b2'') = 2"
    using round_rows by (simp add: round_db_def)
  ultimately show ?thesis using quarantine_rounds_end by metis
qed

end
