(* ===== verification/Journal_Format.thy ===== *)
theory Journal_Format
  imports Canonical_Json Py_Hex Catalog
begin

text \<open>
  The published form of the retention journal (\<^verbatim>\<open>src/sutradhara/retention_journal.py\<close>): envelopes of
  entries, footers, file names, and the walk \<open>_check_segment\<close> that recomputes every link of the hash chain.
  A published file is the list of its lines, each parsed (\<open>Value\<close>), blank or not JSON.  \<open>pylib\<close> holds the
  functions whose text formats are left open: \<open>repr\<close> of a float, \<open>datetime.fromisoformat\<close> and \<open>str\<close> of an
  exception.
\<close>

section \<open>Model\<close>

definition ENVELOPE_ID :: string where "ENVELOPE_ID = ''sutradhara.retention-journal/v1''"
definition HASH_ALGORITHM_ID :: string where "HASH_ALGORITHM_ID = ''sha256''"

definition GENESIS_HASH :: string where
  "GENESIS_HASH = sha256_hex (utf8 ''sutradhara.retention-journal:genesis:v1'')"

definition SOURCE_RANK :: "nat dict" where
  "SOURCE_RANK = [(''verify_receipt'', 0), (''retention_event'', 1)]"

text \<open>Every \<open>raise JournalError\<close> has its constructor; \<open>CompareTypeError\<close> is the \<open>TypeError\<close> of \<open>hmac\<close>.\<close>

datatype journal_error =
    NotInteger string
  | UnsupportedFooterVersion | UnsupportedEnvelope | UnsupportedHashAlgorithm
  | FooterChecksumMissing | FooterChecksumMismatch | HeadNotDigest | BadCursors | ZeroEntries
  | EmptySegment | FooterNotJson | FooterMissing | NameFooterMismatch string | RangeDiscontinuity string string
  | LineNotJson nat | LineNotObject nat | DuplicateFooter nat | EntryAfterFooter nat | UnknownKind nat
  | EnvelopeMismatch nat | AlgorithmMismatch nat | SequenceDiscontinuity nat | UnknownSource nat
  | OrderViolation nat | NonIncreasingCursor nat | PayloadNotObject nat | PayloadIdDiffers nat
  | ChecksumMismatch nat | LinkMismatch nat | EntryHashMismatch nat | FooterDisagrees
  | PublishedAtMissing | PublishedAtInvalid string
  | RefuseReplace string | CheckpointAhead int int | UnsafeKey string | Collision string | TransportDown
  | NoSuchReceipt nat | NoSuchEvent nat | BadArgument string | BadThreshold | CrashHook | NoDestination | IntegrityFailure
  | CompareTypeError | AlreadyRunning

definition is_journal_error :: "journal_error \<Rightarrow> bool" where
  "is_journal_error e =
     (case e of CompareTypeError \<Rightarrow> False | TransportDown \<Rightarrow> False | BadArgument _ \<Rightarrow> False | CrashHook \<Rightarrow> False
      | IntegrityFailure \<Rightarrow> False | _ \<Rightarrow> True)"

record pylib =
  pl_float_text :: "pyfloat \<Rightarrow> string"
  pl_parse_time :: "string \<Rightarrow> time option"
  pl_error_text :: "journal_error \<Rightarrow> string"

datatype jline = Blank | Garbled | Value json

record segment_file =
  sf_dir :: string
  sf_name :: string
  sf_lines :: "jline list"

definition integer :: "json option \<Rightarrow> string \<Rightarrow> journal_error + int" where
  "integer v fname = (case v of Some (JInt i) \<Rightarrow> if i < 0 then Inl (NotInteger fname) else Inr i | _ \<Rightarrow> Inl (NotInteger fname))"

text \<open>Python's \<open>==\<close> between a JSON value and an \<open>int\<close>: \<open>True\<close> and \<open>1.0\<close> equal \<open>1\<close>.\<close>

definition eq_int :: "json option \<Rightarrow> int \<Rightarrow> bool" where
  "eq_int v i =
     (case v of Some (JInt j) \<Rightarrow> j = i | Some (JBool b) \<Rightarrow> (if b then 1 else 0) = i
      | Some (JFloat (Fin r)) \<Rightarrow> r = of_int i | _ \<Rightarrow> False)"

text \<open>\<open>hmac.compare_digest\<close> raises on text outside ASCII.\<close>

definition constant_time_equal :: "string \<Rightarrow> string \<Rightarrow> journal_error + bool" where
  "constant_time_equal l r =
     (if list_all (\<lambda>c. of_char c < (128 :: nat)) (l @ r) then Inr (l = r) else Inl CompareTypeError)"

definition is_sha256 :: "string \<Rightarrow> bool" where
  "is_sha256 s = (length s = 64 \<and> list_all is_lower_hex s)"

definition require :: "bool \<Rightarrow> journal_error \<Rightarrow> journal_error + unit" where
  "require b e = (if b then Inr () else Inl e)"

definition get_str :: "json option \<Rightarrow> journal_error \<Rightarrow> journal_error + string" where
  "get_str v e = (case v of Some (JStr s) \<Rightarrow> Inr s | _ \<Rightarrow> Inl e)"

definition get_obj :: "json option \<Rightarrow> journal_error \<Rightarrow> journal_error + jobj" where
  "get_obj v e = (case v of Some (JObj o') \<Rightarrow> Inr o' | _ \<Rightarrow> Inl e)"

definition require_equal :: "string \<Rightarrow> string \<Rightarrow> journal_error \<Rightarrow> journal_error + unit" where
  "require_equal l r e = res_bind (constant_time_equal l r) (\<lambda>b. require b e)"

subsection \<open>Footers\<close>

definition footer_cursors :: "jobj \<Rightarrow> journal_error + jobj" where
  "footer_cursors footer =
     res_bind (get_obj (map_of footer ''cursors'') BadCursors)
       (\<lambda>cs. res_bind (require (set (map fst cs) = set (map fst SOURCE_RANK)) BadCursors) (\<lambda>_. Inr cs))"

definition validate_footer :: "pylib \<Rightarrow> jobj \<Rightarrow> journal_error + unit" where
  "validate_footer L footer =
     res_bind (require (eq_int (map_of footer ''footer_version'') 1) UnsupportedFooterVersion) (\<lambda>_.
     res_bind (require (map_of footer ''envelope_id'' = Some (JStr ENVELOPE_ID)) UnsupportedEnvelope) (\<lambda>_.
     res_bind (require (map_of footer ''hash_algorithm_id'' = Some (JStr HASH_ALGORITHM_ID)) UnsupportedHashAlgorithm) (\<lambda>_.
     res_bind (get_str (map_of footer ''footer_checksum'') FooterChecksumMissing) (\<lambda>checksum.
     res_bind (require_equal checksum (hash_json (pl_float_text L) (JObj (dict_pop ''footer_checksum'' footer)))
                 FooterChecksumMismatch) (\<lambda>_.
     res_bind (integer (map_of footer ''global_sequence'') ''global_sequence'') (\<lambda>_.
     res_bind (integer (map_of footer ''segment_start_sequence'') ''segment_start_sequence'') (\<lambda>_.
     res_bind (integer (map_of footer ''entry_count'') ''entry_count'') (\<lambda>count.
     res_bind (get_str (map_of footer ''head_hash'') HeadNotDigest) (\<lambda>head.
     res_bind (require (is_sha256 head) HeadNotDigest) (\<lambda>_.
     res_bind (footer_cursors footer) (\<lambda>cursors.
     res_bind (integer (map_of cursors ''verify_receipt'') ''cursor verify_receipt'') (\<lambda>_.
     res_bind (integer (map_of cursors ''retention_event'') ''cursor retention_event'') (\<lambda>_.
     require (count \<noteq> 0) ZeroEntries)))))))))))))"

fun last_text_line :: "jline list \<Rightarrow> jline option \<Rightarrow> jline option" where
  "last_text_line [] found = found"
| "last_text_line (Blank # ls) found = last_text_line ls found"
| "last_text_line (l # ls) found = last_text_line ls (Some l)"

definition read_footer :: "pylib \<Rightarrow> segment_file \<Rightarrow> journal_error + jobj" where
  "read_footer L f =
     (case last_text_line (sf_lines f) None of
        None \<Rightarrow> Inl EmptySegment
      | Some (Value (JObj footer)) \<Rightarrow>
          if map_of footer ''kind'' \<noteq> Some (JStr ''footer'') then Inl FooterMissing
          else res_bind (validate_footer L footer) (\<lambda>_. Inr footer)
      | Some (Value _) \<Rightarrow> Inl FooterMissing
      | Some _ \<Rightarrow> Inl FooterNotJson)"

record journal_state =
  js_global_sequence :: int
  js_head_hash :: string
  js_verify_receipt_cursor :: int
  js_retention_event_cursor :: int
  js_published_filename :: "string option"
  js_published_at :: "time option"

definition initial_state :: journal_state where
  "initial_state =
     \<lparr>js_global_sequence = 0, js_head_hash = GENESIS_HASH, js_verify_receipt_cursor = 0,
      js_retention_event_cursor = 0, js_published_filename = None, js_published_at = None\<rparr>"

definition state_from_footer :: "pylib \<Rightarrow> jobj \<Rightarrow> string \<Rightarrow> journal_error + journal_state" where
  "state_from_footer L footer path =
     res_bind (validate_footer L footer) (\<lambda>_.
     res_bind (footer_cursors footer) (\<lambda>cursors.
     res_bind (get_str (map_of footer ''published_at'') PublishedAtMissing) (\<lambda>text.
     case pl_parse_time L text of
       None \<Rightarrow> Inl (PublishedAtInvalid text)
     | Some moment \<Rightarrow>
         res_bind (get_str (map_of footer ''head_hash'') HeadNotDigest) (\<lambda>head.
         res_bind (integer (map_of footer ''global_sequence'') ''global_sequence'') (\<lambda>seq.
         res_bind (integer (map_of cursors ''verify_receipt'') ''verify_receipt cursor'') (\<lambda>vr.
         res_bind (integer (map_of cursors ''retention_event'') ''retention_event cursor'') (\<lambda>re.
         Inr \<lparr>js_global_sequence = seq, js_head_hash = head, js_verify_receipt_cursor = vr,
              js_retention_event_cursor = re, js_published_filename = Some path,
              js_published_at = Some moment\<rparr>)))))))"

subsection \<open>Entries\<close>

record source_entry =
  se_source :: string
  se_event_id :: int
  se_payload :: jobj

definition link_of :: "int \<Rightarrow> string \<Rightarrow> int \<Rightarrow> string \<Rightarrow> string \<Rightarrow> jobj" where
  "link_of seq source event_id checksum prev_hash =
     [(''envelope_id'', JStr ENVELOPE_ID), (''hash_algorithm_id'', JStr HASH_ALGORITHM_ID),
      (''sequence'', JInt seq), (''source'', JStr source), (''event_id'', JInt event_id),
      (''checksum'', JStr checksum), (''prev_hash'', JStr prev_hash)]"

definition entry_hash_of :: "pylib \<Rightarrow> int \<Rightarrow> source_entry \<Rightarrow> string \<Rightarrow> string" where
  "entry_hash_of L seq e prev_hash =
     hash_json (pl_float_text L)
       (JObj (link_of seq (se_source e) (se_event_id e) (hash_json (pl_float_text L) (JObj (se_payload e))) prev_hash))"

definition entry_line :: "pylib \<Rightarrow> int \<Rightarrow> source_entry \<Rightarrow> string \<Rightarrow> json" where
  "entry_line L seq e prev_hash =
     JObj ((''kind'', JStr ''entry'') #
           link_of seq (se_source e) (se_event_id e) (hash_json (pl_float_text L) (JObj (se_payload e))) prev_hash @
           [(''payload'', JObj (se_payload e)), (''entry_hash'', JStr (entry_hash_of L seq e prev_hash))])"

fun entry_lines :: "pylib \<Rightarrow> int \<Rightarrow> string \<Rightarrow> int dict \<Rightarrow> source_entry list \<Rightarrow> json list \<times> string \<times> int dict" where
  "entry_lines L seq head cursors [] = ([], head, cursors)"
| "entry_lines L seq head cursors (e # es) =
     (case entry_lines L (seq + 1) (entry_hash_of L seq e head) (dict_set (se_source e) (se_event_id e) cursors) es of
        (ls, h, cs) \<Rightarrow> (entry_line L seq e head # ls, h, cs))"

definition isoformat_z :: "time \<Rightarrow> string" where
  "isoformat_z t = take (length (isoformat t) - 6) (isoformat t) @ ''Z''"

definition footer_base :: "int \<Rightarrow> int \<Rightarrow> int \<Rightarrow> string \<Rightarrow> int dict \<Rightarrow> time \<Rightarrow> jobj" where
  "footer_base start count end_sequence head cursors now =
     [(''kind'', JStr ''footer''), (''footer_version'', JInt 1), (''envelope_id'', JStr ENVELOPE_ID),
      (''hash_algorithm_id'', JStr HASH_ALGORITHM_ID), (''segment_start_sequence'', JInt start),
      (''entry_count'', JInt count), (''global_sequence'', JInt end_sequence), (''head_hash'', JStr head),
      (''cursors'', JObj (map (\<lambda>(k, v). (k, JInt v)) cursors)), (''published_at'', JStr (isoformat_z now))]"

definition footer_of :: "pylib \<Rightarrow> int \<Rightarrow> int \<Rightarrow> int \<Rightarrow> string \<Rightarrow> int dict \<Rightarrow> time \<Rightarrow> jobj" where
  "footer_of L start count end_sequence head cursors now =
     (let base = footer_base start count end_sequence head cursors now
      in base @ [(''footer_checksum'', JStr (hash_json (pl_float_text L) (JObj base)))])"

text \<open>The lines of one published segment.\<close>

definition segment_lines :: "pylib \<Rightarrow> journal_state \<Rightarrow> source_entry list \<Rightarrow> time \<Rightarrow> json list \<times> jobj" where
  "segment_lines L previous entries now =
     (case entry_lines L (js_global_sequence previous + 1) (js_head_hash previous)
             [(''verify_receipt'', js_verify_receipt_cursor previous),
              (''retention_event'', js_retention_event_cursor previous)] entries of
        (ls, head, cursors) \<Rightarrow>
          let footer = footer_of L (js_global_sequence previous + 1) (int (length entries))
                         (js_global_sequence previous + int (length entries)) head cursors now
          in (ls @ [JObj footer], footer))"

subsection \<open>Walking a segment\<close>

record walk =
  wk_sequence :: int
  wk_hash :: string
  wk_cursors :: "int dict"
  wk_order :: "(nat \<times> int) option"
  wk_footer :: "jobj option"
  wk_count :: int

definition walk_entry :: "pylib \<Rightarrow> nat \<Rightarrow> jobj \<Rightarrow> walk \<Rightarrow> journal_error + walk" where
  "walk_entry L n v w =
     res_bind (require (map_of v ''kind'' = Some (JStr ''entry'')) (UnknownKind n)) (\<lambda>_.
     res_bind (require (map_of v ''envelope_id'' = Some (JStr ENVELOPE_ID)) (EnvelopeMismatch n)) (\<lambda>_.
     res_bind (require (map_of v ''hash_algorithm_id'' = Some (JStr HASH_ALGORITHM_ID)) (AlgorithmMismatch n)) (\<lambda>_.
     res_bind (integer (map_of v ''sequence'') ''sequence'') (\<lambda>seq.
     res_bind (require (seq = wk_sequence w) (SequenceDiscontinuity n)) (\<lambda>_.
     res_bind (get_str (map_of v ''source'') (UnknownSource n)) (\<lambda>source.
     case map_of SOURCE_RANK source of
       None \<Rightarrow> Inl (UnknownSource n)
     | Some rank \<Rightarrow>
     res_bind (integer (map_of v ''event_id'') ''event_id'') (\<lambda>event_id.
     res_bind (require (case wk_order w of None \<Rightarrow> True | Some p \<Rightarrow> \<not> (rank, event_id) \<le> p) (OrderViolation n)) (\<lambda>_.
     res_bind (require (dict_get (wk_cursors w) source 0 < event_id) (NonIncreasingCursor n)) (\<lambda>_.
     res_bind (get_obj (map_of v ''payload'') (PayloadNotObject n)) (\<lambda>payload.
     res_bind (require (eq_int (map_of payload ''event_id'') event_id) (PayloadIdDiffers n)) (\<lambda>_.
     res_bind (get_str (map_of v ''checksum'') (ChecksumMismatch n)) (\<lambda>checksum.
     res_bind (require_equal checksum (hash_json (pl_float_text L) (JObj payload)) (ChecksumMismatch n)) (\<lambda>_.
     res_bind (require (map_of v ''prev_hash'' = Some (JStr (wk_hash w))) (LinkMismatch n)) (\<lambda>_.
     res_bind (get_str (map_of v ''entry_hash'') (EntryHashMismatch n)) (\<lambda>entry_hash.
     res_bind (require_equal entry_hash
                 (hash_json (pl_float_text L) (JObj (link_of seq source event_id checksum (wk_hash w))))
                 (EntryHashMismatch n)) (\<lambda>_.
     Inr (w\<lparr>wk_hash := entry_hash, wk_sequence := wk_sequence w + 1,
            wk_cursors := dict_set source event_id (wk_cursors w),
            wk_order := Some (rank, event_id), wk_count := wk_count w + 1\<rparr>)))))))))))))))))"

definition walk_line :: "pylib \<Rightarrow> nat \<Rightarrow> jline \<Rightarrow> walk \<Rightarrow> journal_error + walk" where
  "walk_line L n l w =
     (case l of
        Value (JObj v) \<Rightarrow>
          if map_of v ''kind'' = Some (JStr ''footer'') then
            (if wk_footer w \<noteq> None then Inl (DuplicateFooter n) else Inr (w\<lparr>wk_footer := Some v\<rparr>))
          else if wk_footer w \<noteq> None then Inl (EntryAfterFooter n)
          else walk_entry L n v w
      | Value _ \<Rightarrow> Inl (LineNotObject n)
      | _ \<Rightarrow> Inl (LineNotJson n))"

fun walk_lines :: "pylib \<Rightarrow> nat \<Rightarrow> jline list \<Rightarrow> walk \<Rightarrow> journal_error + walk" where
  "walk_lines L n [] w = Inr w"
| "walk_lines L n (l # ls) w = res_bind (walk_line L n l w) (walk_lines L (n + 1) ls)"

record checked_segment =
  cs_count :: int
  cs_sequence :: int
  cs_hash :: string
  cs_cursors :: "int dict"
  cs_footer :: jobj

definition check_segment ::
  "pylib \<Rightarrow> jline list \<Rightarrow> int \<Rightarrow> string \<Rightarrow> int dict \<Rightarrow> journal_error + checked_segment" where
  "check_segment L ls expected_sequence expected_hash cursors =
     res_bind (walk_lines L 1 ls \<lparr>wk_sequence = expected_sequence, wk_hash = expected_hash, wk_cursors = cursors,
                                  wk_order = None, wk_footer = None, wk_count = 0\<rparr>) (\<lambda>w.
     case wk_footer w of
       None \<Rightarrow> Inl FooterMissing
     | Some footer \<Rightarrow>
         res_bind (validate_footer L footer) (\<lambda>_.
         res_bind (footer_cursors footer) (\<lambda>fc.
         res_bind (require
             (map_of footer ''segment_start_sequence'' = Some (JInt expected_sequence) \<and>
              map_of footer ''entry_count'' = Some (JInt (wk_count w)) \<and>
              map_of footer ''global_sequence'' = Some (JInt (wk_sequence w - 1)) \<and>
              map_of footer ''head_hash'' = Some (JStr (wk_hash w)) \<and>
              map_of fc ''verify_receipt'' = Some (JInt (dict_get (wk_cursors w) ''verify_receipt'' 0)) \<and>
              map_of fc ''retention_event'' = Some (JInt (dict_get (wk_cursors w) ''retention_event'' 0)))
             FooterDisagrees) (\<lambda>_.
         Inr \<lparr>cs_count = wk_count w, cs_sequence = wk_sequence w, cs_hash = wk_hash w,
              cs_cursors = wk_cursors w, cs_footer = footer\<rparr>))))"

end
