(* ===== verification/Retention_Events.thy ===== *)
theory Retention_Events
  imports Catalog Job_Models
begin

text \<open>
  The retention receipts: the constraints of table \<^verbatim>\<open>retention_event\<close>
  (\<^verbatim>\<open>src/sutradhara/catalog/models.py\<close>) and the two functions of \<^verbatim>\<open>src/sutradhara/retention.py\<close> that append
  them, \<open>_add_event\<close> and \<open>_add_once_event\<close>, with the payload shapes they enforce.
\<close>

section \<open>Model\<close>

definition INTAKE_ACTIONS :: "string list" where
  "INTAKE_ACTIONS =
     [''released'', ''cloud_blob_deleted'', ''staging_deleted'', ''release_attempted'', ''purge_attempted'',
      ''staging_tombstoned'', ''staging_purge_held'', ''abandoned'', ''correction_recorded'']"

definition BATCH_ACTIONS :: "string list" where
  "BATCH_ACTIONS = [''batch_invoked'', ''batch_refused'', ''grace_overridden'']"

definition event_subject_ok :: "retention_event \<Rightarrow> bool" where
  "event_subject_ok e =
     (ev_subject_type e = ''intake'' \<and> ev_intake_id e = Some (ev_subject_id e) \<and> ev_action e \<in> set INTAKE_ACTIONS \<or>
      ev_subject_type e = ''media'' \<and> ev_intake_id e = None \<and>
        ev_action e \<in> set [''offsite_confirmed'', ''correction_recorded''] \<or>
      ev_subject_type e = ''batch'' \<and> ev_intake_id e = None \<and> ev_action e \<in> set BATCH_ACTIONS \<or>
      ev_subject_type e = ''receipt'' \<and> ev_intake_id e = None \<and> ev_action e = ''correction_recorded'')"

definition event_supersession_ok :: "retention_event \<Rightarrow> bool" where
  "event_supersession_ok e =
     (ev_supersedes_source e = None \<and> ev_supersedes_event_id e = None \<or>
      ev_supersedes_source e \<in> set [Some ''verify_receipt'', Some ''retention_event''] \<and>
        ev_supersedes_event_id e \<noteq> None \<and> ev_action e = ''correction_recorded'')"

text \<open>The unique index over an action and its operation holds for the actions of one release or purge.\<close>

definition ONCE_ACTIONS :: "string list" where
  "ONCE_ACTIONS =
     [''release_attempted'', ''cloud_blob_deleted'', ''released'', ''purge_attempted'', ''staging_tombstoned'',
      ''staging_deleted'']"

definition once_key :: "retention_event \<Rightarrow> (string \<times> string) option" where
  "once_key e = (if ev_action e \<in> set ONCE_ACTIONS then Some (ev_action e, ev_operation_id e) else None)"

definition events_ok :: "retention_event list \<Rightarrow> bool" where
  "events_ok es \<longleftrightarrow>
     distinct (map ev_id es) \<and> distinct (List.map_filter once_key es) \<and>
     (\<forall>e \<in> set es. event_subject_ok e \<and> event_supersession_ok e)"

datatype event_error =
    UnknownAction string
  | BadDetailKeys string
  | BadOutcome
  | EventIntegrityError

definition insert_event :: "retention_event \<Rightarrow> retention_event list \<Rightarrow> event_error + retention_event list" where
  "insert_event e es =
     (if event_subject_ok e \<and> event_supersession_ok e \<and>
         (case once_key e of None \<Rightarrow> True | Some k \<Rightarrow> k \<notin> set (List.map_filter once_key es))
      then Inr (es @ [e]) else Inl EventIntegrityError)"

subsection \<open>Payload shapes\<close>

definition EVENT_DETAIL_KEYS :: "string list dict" where
  "EVENT_DETAIL_KEYS =
     [(''released'', [''copy_ids'']),
      (''cloud_blob_deleted'', [''bundle_id'', ''copy_ids'', ''outcome'', ''copy_outcomes'']),
      (''staging_deleted'', [''path'']),
      (''release_attempted'', [''policy_fingerprint'']),
      (''purge_attempted'', [''path'', ''grace_days'']),
      (''staging_tombstoned'', [''source_path'', ''tombstone_path'']),
      (''staging_purge_held'', [''reasons'']),
      (''batch_invoked'', [''action'', ''limit'', ''candidate_count'', ''dry_run'', ''refused'']),
      (''batch_refused'', [''action'', ''limit'', ''candidate_count'', ''dry_run'', ''refused'', ''reason'']),
      (''grace_overridden'', [''grace_days'', ''default_grace_days'']),
      (''abandoned'', [''reason'', ''previous_state'']),
      (''correction_recorded'', [''kind'', ''reason'']),
      (''offsite_confirmed'', [''shipment_id'', ''confirmed_by''])]"

definition validate_event_detail :: "string \<Rightarrow> jobj \<Rightarrow> event_error + unit" where
  "validate_event_detail action detail =
     (case map_of EVENT_DETAIL_KEYS action of
        None \<Rightarrow> Inl (UnknownAction action)
      | Some expected \<Rightarrow>
          if set (map fst detail) \<noteq> set expected then Inl (BadDetailKeys action)
          else if action = ''cloud_blob_deleted'' \<and>
                  map_of detail ''outcome'' \<notin> {Some (JStr ''deleted''), Some (JStr ''already-absent'')}
          then Inl BadOutcome
          else Inr ())"

definition new_event ::
  "string option \<Rightarrow> string \<Rightarrow> string \<Rightarrow> string \<Rightarrow> string \<Rightarrow> string \<Rightarrow> time \<Rightarrow> jobj \<Rightarrow> nat \<Rightarrow> retention_event" where
  "new_event intake_id subject_type subject_id action operation_id actor t detail i =
     \<lparr>ev_id = i, ev_intake_id = intake_id, ev_subject_type = subject_type, ev_subject_id = subject_id,
      ev_action = action, ev_operation_id = operation_id, ev_actor = actor, ev_at = t, ev_detail = Some detail,
      ev_supersedes_source = None, ev_supersedes_event_id = None\<rparr>"

definition add_event :: "retention_event \<Rightarrow> retention_event list \<Rightarrow> event_error + retention_event list" where
  "add_event e es =
     res_bind (validate_event_detail (ev_action e) (case ev_detail e of None \<Rightarrow> [] | Some d \<Rightarrow> d)) (\<lambda>_.
       insert_event (e\<lparr>ev_id := fresh_id (map ev_id es)\<rparr>) es)"

definition add_once_event ::
  "string \<Rightarrow> string \<Rightarrow> string \<Rightarrow> string \<Rightarrow> time \<Rightarrow> jobj \<Rightarrow> retention_event list \<Rightarrow> event_error + retention_event list" where
  "add_once_event intake_id action operation_id actor t detail es =
     (if list_ex (\<lambda>e. ev_action e = action \<and> ev_operation_id e = operation_id) es then Inr es
      else add_event (new_event (Some intake_id) ''intake'' intake_id action operation_id actor t detail 0) es)"

section \<open>Appending keeps the table's constraints\<close>

lemma insert_event_ok:
  assumes "events_ok es" "insert_event (e\<lparr>ev_id := fresh_id (map ev_id es)\<rparr>) es = Inr es'"
  shows "events_ok es' \<and> es' = es @ [e\<lparr>ev_id := fresh_id (map ev_id es)\<rparr>]"
proof -
  let ?e = "e\<lparr>ev_id := fresh_id (map ev_id es)\<rparr>"
  from assms(2) have new: "es' = es @ [?e]" "event_subject_ok ?e" "event_supersession_ok ?e"
    "\<And>k. once_key ?e = Some k \<Longrightarrow> k \<notin> set (List.map_filter once_key es)"
    by (auto simp: insert_event_def split: if_splits option.splits)
  have "distinct (map ev_id es')" using assms(1) new(1) fresh_id_notin [of "map ev_id es"] by (auto simp: events_ok_def)
  moreover have "distinct (List.map_filter once_key es')"
    using assms(1) new(4) by (auto simp: events_ok_def new(1) List.map_filter_def split: option.splits)
  ultimately show ?thesis using assms(1) new by (auto simp: events_ok_def)
qed

lemma add_event_ok:
  "events_ok es \<Longrightarrow> add_event e es = Inr es' \<Longrightarrow> events_ok es' \<and> (\<exists>i. es' = es @ [e\<lparr>ev_id := i\<rparr>])"
  using insert_event_ok by (fastforce simp: add_event_def res_bind_Inr_iff)

lemma add_once_event_ok:
  assumes "events_ok es" "add_once_event i a op actor t d es = Inr es'"
  shows "events_ok es' \<and> (\<exists>e \<in> set es'. ev_action e = a \<and> ev_operation_id e = op) \<and> (\<exists>new. es' = es @ new \<and> length new \<le> 1)"
proof (cases "list_ex (\<lambda>e. ev_action e = a \<and> ev_operation_id e = op) es")
  case True
  with assms show ?thesis by (auto simp: add_once_event_def list_ex_iff)
next
  case False
  with assms(2) have "add_event (new_event (Some i) ''intake'' i a op actor t d 0) es = Inr es'"
    by (simp add: add_once_event_def)
  from add_event_ok [OF assms(1) this] show ?thesis by (auto simp: new_event_def)
qed

end
