(* ===== verification/Retention_Journal.thy ===== *)
theory Retention_Journal
  imports Journal_Format Conditions Retention_Events
begin

text \<open>
  Export, shipping and verification of the retention journal
  (\<^verbatim>\<open>src/sutradhara/retention_journal.py\<close>) over the receipt tables, the directory of published segments
  and an append-only destination.  An operation that raises returns the world it leaves behind together
  with the error.  Directory creation, \<open>fsync\<close> and temporary files have no counterpart.
\<close>

section \<open>Model\<close>

datatype blob = SegmentBlob "jline list" | TextBlob string

type_synonym destination = "blob dict"

record journal_world =
  jw_db :: "catalog_db engine_db"
  jw_root :: string
  jw_files :: "segment_file list"
  jw_destination :: "destination option"

abbreviation jw_catalog :: "journal_world \<Rightarrow> catalog_db" where
  "jw_catalog w \<equiv> catalog (jw_db w)"

subsection \<open>Published segments\<close>

definition segment_name :: "int \<Rightarrow> int \<Rightarrow> string" where
  "segment_name start end_sequence =
     ''retention-journal-'' @ zfill 20 (nat start) @ ''-'' @ zfill 20 (nat end_sequence) @ ''.jsonl''"

text \<open>\<open>_SEGMENT_RE.fullmatch\<close>.\<close>

definition segment_match :: "string \<Rightarrow> (nat \<times> nat) option" where
  "segment_match name =
     (if length name = 65 \<and> take 18 name = ''retention-journal-'' \<and> name ! 38 = CHR ''-'' \<and> drop 59 name = ''.jsonl''
      then (case (nat_of_digits 0 (take 20 (drop 18 name)), nat_of_digits 0 (take 20 (drop 39 name))) of
              (Some a, Some b) \<Rightarrow> Some (a, b) | _ \<Rightarrow> None)
      else None)"

definition dated_dir :: "string \<Rightarrow> bool" where
  "dated_dir d = (length d = 10 \<and> d ! 4 = CHR ''-'' \<and> d ! 7 = CHR ''-'')"

definition segment_path :: "string \<Rightarrow> segment_file \<Rightarrow> string" where
  "segment_path rt f = rt @ ''/'' @ sf_dir f @ ''/'' @ sf_name f"

type_synonym segment = "segment_file \<times> jobj"

definition load_segment :: "pylib \<Rightarrow> segment_file \<Rightarrow> journal_error + segment option" where
  "load_segment L f =
     (case (if dated_dir (sf_dir f) then segment_match (sf_name f) else None) of
        None \<Rightarrow> Inr None
      | Some (a, b) \<Rightarrow>
          res_bind (read_footer L f) (\<lambda>footer.
          res_bind (integer (map_of footer ''segment_start_sequence'') ''segment_start_sequence'') (\<lambda>start.
          res_bind (integer (map_of footer ''global_sequence'') ''global_sequence'') (\<lambda>end_sequence.
          res_bind (require (start = int a \<and> end_sequence = int b) (NameFooterMismatch (sf_name f))) (\<lambda>_.
          Inr (Some (f, footer)))))))"

definition footer_int :: "jobj \<Rightarrow> string \<Rightarrow> int" where
  "footer_int footer k = (case map_of footer k of Some (JInt i) \<Rightarrow> i | _ \<Rightarrow> 0)"

fun contiguous :: "segment list \<Rightarrow> journal_error + unit" where
  "contiguous (p # c # rest) =
     (if footer_int (snd c) ''segment_start_sequence'' \<noteq> footer_int (snd p) ''global_sequence'' + 1
      then Inl (RangeDiscontinuity (sf_name (fst p)) (sf_name (fst c)))
      else contiguous (c # rest))"
| "contiguous _ = Inr ()"

definition published_segments :: "pylib \<Rightarrow> segment_file list \<Rightarrow> journal_error + segment list" where
  "published_segments L files =
     res_bind (res_map (load_segment L) files) (\<lambda>loaded.
       let segments = sort_key (\<lambda>s. footer_int (snd s) ''segment_start_sequence'') (List.map_filter id loaded)
       in res_bind (contiguous segments) (\<lambda>_. Inr segments))"

definition head_state :: "pylib \<Rightarrow> string \<Rightarrow> segment list \<Rightarrow> journal_error + journal_state" where
  "head_state L rt segments =
     (if segments = [] then Inr initial_state
      else state_from_footer L (snd (last segments)) (segment_path rt (fst (last segments))))"

subsection \<open>Receipts\<close>

fun json_value :: "json \<Rightarrow> json" where
  "json_value (JObj kvs) = JObj (map (\<lambda>(k, v). (k, json_value v)) kvs)"
| "json_value (JArr xs) = JArr (map json_value xs)"
| "json_value v = v"

definition verify_receipt_payload :: "verify_receipt \<Rightarrow> jobj" where
  "verify_receipt_payload r =
     [(''event_id'', JInt (int (vr_event_id r))), (''copy_id'', JInt (int (vr_copy_id r))),
      (''backend_id'', JInt (int (vr_backend_id r))), (''expected_digest'', JStr (hex_of (vr_expected_digest r))),
      (''measured_digest'', opt_str (map_option hex_of (vr_measured_digest r))), (''backend_ok'', JBool (vr_backend_ok r)),
      (''failure_kind'', opt_str (vr_failure_kind r)), (''failure_detail'', opt_str (vr_failure_detail r)),
      (''source'', JStr (vr_source r)), (''execution_id'', JStr (vr_execution_id r)),
      (''producer_process'', JStr (vr_producer_process r)), (''actor'', opt_str (vr_actor r)),
      (''at'', JStr (isoformat_z (vr_at r)))]"

definition retention_event_payload :: "retention_event \<Rightarrow> jobj" where
  "retention_event_payload r =
     [(''event_id'', JInt (int (ev_id r))), (''intake_id'', opt_str (ev_intake_id r)),
      (''subject_type'', JStr (ev_subject_type r)), (''subject_id'', JStr (ev_subject_id r)),
      (''action'', JStr (ev_action r)), (''operation_id'', JStr (ev_operation_id r)), (''actor'', JStr (ev_actor r)),
      (''at'', JStr (isoformat_z (ev_at r))),
      (''detail'', json_value (case ev_detail r of None \<Rightarrow> JNull | Some d \<Rightarrow> JObj d)),
      (''supersedes_source'', opt_str (ev_supersedes_source r)),
      (''supersedes_event_id'', case ev_supersedes_event_id r of None \<Rightarrow> JNull | Some i \<Rightarrow> JInt (int i))]"

definition receipt_entry :: "verify_receipt \<Rightarrow> source_entry" where
  "receipt_entry r =
     \<lparr>se_source = ''verify_receipt'', se_event_id = int (vr_event_id r), se_payload = verify_receipt_payload r\<rparr>"

definition event_entry :: "retention_event \<Rightarrow> source_entry" where
  "event_entry r =
     \<lparr>se_source = ''retention_event'', se_event_id = int (ev_id r), se_payload = retention_event_payload r\<rparr>"

definition new_source_entries :: "catalog_db \<Rightarrow> journal_state \<Rightarrow> source_entry list" where
  "new_source_entries c st =
     map receipt_entry
       (sort_key vr_event_id (filter (\<lambda>r. js_verify_receipt_cursor st < int (vr_event_id r)) (verify_receipts c))) @
     map event_entry
       (sort_key ev_id (filter (\<lambda>r. js_retention_event_cursor st < int (ev_id r)) (retention_events c)))"

subsection \<open>Checkpoint\<close>

definition checkpoint_ahead_issue :: "catalog_db \<Rightarrow> journal_state \<Rightarrow> journal_error option" where
  "checkpoint_ahead_issue c st =
     (case journal_checkpoints c of
        None \<Rightarrow> None
      | Some row \<Rightarrow>
          if ck_global_sequence row \<le> js_global_sequence st then None
          else Some (CheckpointAhead (ck_global_sequence row) (js_global_sequence st)))"

definition write_checkpoint :: "journal_state \<Rightarrow> catalog_db \<Rightarrow> catalog_db" where
  "write_checkpoint st c =
     (case (js_published_filename st, js_published_at st) of
        (Some name, Some moment) \<Rightarrow>
          c\<lparr>journal_checkpoints := Some
              \<lparr>ck_global_sequence = js_global_sequence st, ck_head_hash = the (fromhex (js_head_hash st)),
               ck_verify_receipt_cursor = js_verify_receipt_cursor st,
               ck_retention_event_cursor = js_retention_event_cursor st,
               ck_published_filename = name, ck_published_at = moment\<rparr>\<rparr>
      | _ \<Rightarrow> c)"

definition set_catalog :: "catalog_db \<Rightarrow> journal_world \<Rightarrow> journal_world" where
  "set_catalog c w = w\<lparr>jw_db := (jw_db w)\<lparr>catalog := c\<rparr>\<rparr>"

subsection \<open>Publishing\<close>

definition publish_segment ::
  "pylib \<Rightarrow> string \<Rightarrow> source_entry list \<Rightarrow> journal_state \<Rightarrow> time \<Rightarrow> segment_file list \<Rightarrow>
   journal_error + (segment_file list \<times> segment \<times> (journal_error + journal_state))" where
  "publish_segment L rt entries previous now files =
     (let name = segment_name (js_global_sequence previous + 1) (js_global_sequence previous + int (length entries));
          (ls, footer) = segment_lines L previous entries now;
          f = \<lparr>sf_dir = iso_date now, sf_name = name, sf_lines = map Value ls\<rparr>
      in if list_ex (\<lambda>g. sf_dir g = sf_dir f \<and> sf_name g = sf_name f) files then Inl (RefuseReplace name)
         else Inr (files @ [f], (f, footer), state_from_footer L footer (segment_path rt f)))"

subsection \<open>Shipping\<close>

definition validated_destination_key :: "string \<Rightarrow> journal_error + string" where
  "validated_destination_key key =
     (if key = [] \<or> hd key = CHR ''/'' \<or> CHR 0x5C \<in> set key then Inl (UnsafeKey key)
      else if list_ex (\<lambda>c. of_char c < (32 :: nat) \<or> of_char c = (127 :: nat)) key then Inl (UnsafeKey key)
      else if list_ex (\<lambda>p. p \<in> set [[], ''.'', ''..'']) (split_at (CHR ''/'') key) then Inl (UnsafeKey key)
      else Inr key)"

definition dest_read :: "string \<Rightarrow> destination \<Rightarrow> journal_error + blob option" where
  "dest_read key d = res_bind (validated_destination_key key) (\<lambda>k. Inr (map_of d k))"

definition dest_publish :: "blob \<Rightarrow> string \<Rightarrow> destination \<Rightarrow> journal_error + destination" where
  "dest_publish content key d =
     res_bind (validated_destination_key key) (\<lambda>k.
       case map_of d k of
         None \<Rightarrow> Inr (d @ [(k, content)])
       | Some old \<Rightarrow> if old = content then Inr d else Inl (Collision key))"

definition segment_key :: "segment_file \<Rightarrow> string" where
  "segment_key f = sf_dir f @ ''/'' @ sf_name f"

definition anchor_key :: "segment_file \<Rightarrow> string" where
  "anchor_key f = segment_key f @ ''.head.json''"

definition path_name :: "string \<Rightarrow> string" where
  "path_name p = rev (takeWhile (\<lambda>c. c \<noteq> CHR ''/'') (rev p))"

definition anchor_bytes :: "pylib \<Rightarrow> journal_state \<Rightarrow> string" where
  "anchor_bytes L st =
     canonical_json (pl_float_text L)
       (JObj [(''kind'', JStr ''offbox-head''), (''anchor_version'', JInt 1), (''envelope_id'', JStr ENVELOPE_ID),
              (''hash_algorithm_id'', JStr HASH_ALGORITHM_ID), (''global_sequence'', JInt (js_global_sequence st)),
              (''head_hash'', JStr (js_head_hash st)),
              (''cursors'', JObj [(''verify_receipt'', JInt (js_verify_receipt_cursor st)),
                                  (''retention_event'', JInt (js_retention_event_cursor st))]),
              (''published_filename'', opt_str (map_option path_name (js_published_filename st))),
              (''published_at'', opt_str (map_option isoformat_z (js_published_at st)))]) @ [CHR 0x0A]"

definition anchor_of :: "pylib \<Rightarrow> string \<Rightarrow> segment \<Rightarrow> journal_error + blob" where
  "anchor_of L rt s =
     res_bind (state_from_footer L (snd s) (segment_path rt (fst s))) (\<lambda>st. Inr (TextBlob (anchor_bytes L st)))"

text \<open>\<open>up k\<close> tells whether the transport answers its \<open>k\<close>-th request; the segments are newest first.\<close>

fun ship_scan :: "pylib \<Rightarrow> string \<Rightarrow> (nat \<Rightarrow> bool) \<Rightarrow> nat \<Rightarrow> destination \<Rightarrow> segment list \<Rightarrow> journal_error + nat \<times> nat" where
  "ship_scan L rt up k d [] = Inr (0, k)"
| "ship_scan L rt up k d (s # older) =
     res_bind (anchor_of L rt s) (\<lambda>expected.
       if \<not> up k then Inl TransportDown
       else res_bind (dest_read (anchor_key (fst s)) d) (\<lambda>actual.
         if actual = Some expected then Inr (length older + 1, k + 1)
         else if actual \<noteq> None then Inl (Collision (anchor_key (fst s)))
         else ship_scan L rt up (k + 1) d older))"

fun ship_loop ::
  "pylib \<Rightarrow> string \<Rightarrow> (nat \<Rightarrow> bool) \<Rightarrow> nat \<Rightarrow> destination \<Rightarrow> segment list \<Rightarrow> destination \<times> (journal_error + nat)" where
  "ship_loop L rt up k d [] = (d, Inr 0)"
| "ship_loop L rt up k d (s # ss) =
     (if \<not> up k then (d, Inl TransportDown)
      else case dest_publish (SegmentBlob (sf_lines (fst s))) (segment_key (fst s)) d of
             Inl e \<Rightarrow> (d, Inl e)
           | Inr d1 \<Rightarrow>
               (case anchor_of L rt s of
                  Inl e \<Rightarrow> (d1, Inl e)
                | Inr anchor \<Rightarrow>
                    if \<not> up (k + 1) then (d1, Inl TransportDown)
                    else (case dest_publish anchor (anchor_key (fst s)) d1 of
                            Inl e \<Rightarrow> (d1, Inl e)
                          | Inr d2 \<Rightarrow>
                              (case ship_loop L rt up (k + 2) d2 ss of
                                 (d3, r) \<Rightarrow> (d3, map_sum id Suc r)))))"

definition ship_segments ::
  "pylib \<Rightarrow> string \<Rightarrow> (nat \<Rightarrow> bool) \<Rightarrow> segment list \<Rightarrow> destination \<Rightarrow> destination \<times> (journal_error + nat)" where
  "ship_segments L rt up segments d =
     (case ship_scan L rt up 0 d (rev segments) of
        Inl e \<Rightarrow> (d, Inl e)
      | Inr (first_unshipped, k) \<Rightarrow> ship_loop L rt up k d (drop first_unshipped segments))"

subsection \<open>Alarms\<close>

definition ALARM_DOMAIN :: string where "ALARM_DOMAIN = ''retention_journal_alarm''"
definition DEFAULT_STALE_SECONDS :: int where "DEFAULT_STALE_SECONDS = 2 * 60 * 60"

definition project_journal_alarm ::
  "time \<Rightarrow> string \<Rightarrow> bool \<Rightarrow> string \<Rightarrow> string \<Rightarrow> catalog_db engine_db \<Rightarrow> catalog_db engine_db" where
  "project_journal_alarm now target_key active reason message db =
     (case record_observation now ALARM_DOMAIN target_key active
             (if active then OBSERVED_MISSING else OBSERVED_PRESENT) None None db of
        (db1, row) \<Rightarrow>
          if active
          then db1\<lparr>conditions := put_condition
                 (row\<lparr>c_condition := CONDITION_OPEN, c_reason := Some reason, c_message := Some message\<rparr>) (conditions db1)\<rparr>
          else db1)"

record operational_status =
  os_state :: journal_state
  os_pending_entries :: nat
  os_oldest_pending_at :: "time option"
  os_stale_seconds :: int
  os_threshold_seconds :: int
  os_stale :: bool

definition stale_threshold :: "int option \<Rightarrow> journal_error + int" where
  "stale_threshold v =
     (let t = (case v of None \<Rightarrow> DEFAULT_STALE_SECONDS | Some t \<Rightarrow> t)
      in if t \<le> 0 then Inl BadThreshold else Inr t)"

definition journal_operational_status ::
  "pylib \<Rightarrow> int option \<Rightarrow> time \<Rightarrow> journal_world \<Rightarrow> journal_error + operational_status" where
  "journal_operational_status L threshold now w =
     res_bind (stale_threshold threshold) (\<lambda>t.
     res_bind (published_segments L (jw_files w)) (\<lambda>segments.
     res_bind (head_state L (jw_root w) segments) (\<lambda>st.
       let c = jw_catalog w;
           rs = filter (\<lambda>r. js_verify_receipt_cursor st < int (vr_event_id r)) (verify_receipts c);
           es = filter (\<lambda>e. js_retention_event_cursor st < int (ev_id e)) (retention_events c);
           times = map vr_at rs @ map ev_at es;
           oldest = (if times = [] then None else Some (Min (set times)));
           stale = (case oldest of None \<Rightarrow> 0 | Some o' \<Rightarrow> max 0 ((now - o') div 1000000))
       in Inr \<lparr>os_state = st, os_pending_entries = length rs + length es, os_oldest_pending_at = oldest,
               os_stale_seconds = stale, os_threshold_seconds = t, os_stale = (oldest \<noteq> None \<and> t < stale)\<rparr>)))"

definition stale_message :: "operational_status \<Rightarrow> string" where
  "stale_message st =
     str_nat (os_pending_entries st) @ '' journal entries pending; oldest is '' @ str_int (os_stale_seconds st) @
     ''s old (threshold '' @ str_int (os_threshold_seconds st) @ ''s)''"

definition refresh_staleness_alarm ::
  "pylib \<Rightarrow> int option \<Rightarrow> time \<Rightarrow> journal_world \<Rightarrow> journal_world \<times> (journal_error + operational_status)" where
  "refresh_staleness_alarm L threshold now w =
     (case journal_operational_status L threshold now w of
        Inl e \<Rightarrow> (w, Inl e)
      | Inr st \<Rightarrow> (w\<lparr>jw_db := project_journal_alarm now ''export-stale'' (os_stale st) ''export-stale''
                             (stale_message st) (jw_db w)\<rparr>, Inr st))"

subsection \<open>Export\<close>

record export_result =
  xr_published :: bool
  xr_entry_count :: nat
  xr_segment :: "segment_file option"
  xr_state :: journal_state
  xr_shipped_segments :: nat
  xr_shipping_error :: "journal_error option"

text \<open>The part up to the checkpoint that follows a publication; \<open>crash\<close> is whether the crash hook raises.\<close>

definition export_publish ::
  "pylib \<Rightarrow> bool \<Rightarrow> time \<Rightarrow> journal_world \<Rightarrow>
   journal_world \<times> (journal_error + segment list \<times> source_entry list \<times> segment_file option \<times> journal_state)" where
  "export_publish L crash now w =
     (case res_bind (published_segments L (jw_files w)) (\<lambda>segments.
             res_bind (head_state L (jw_root w) segments) (\<lambda>st. Inr (segments, st))) of
        Inl e \<Rightarrow> (w, Inl e)
      | Inr (segments, st) \<Rightarrow>
          (case checkpoint_ahead_issue (jw_catalog w) st of
             Some e \<Rightarrow> (w, Inl e)
           | None \<Rightarrow>
               let w1 = set_catalog (write_checkpoint st (jw_catalog w)) w;
                   entries = new_source_entries (jw_catalog w1) st
               in if entries = [] then (w1, Inr (segments, [], None, st))
                  else (case publish_segment L (jw_root w) entries st now (jw_files w) of
                          Inl e \<Rightarrow> (w1, Inl e)
                        | Inr (files, (f, footer), st') \<Rightarrow>
                            let w2 = w1\<lparr>jw_files := files\<rparr>
                            in (case res_bind st' (\<lambda>s. res_bind (read_footer L f) (\<lambda>r. Inr (s, r))) of
                                  Inl e \<Rightarrow> (w2, Inl e)
                                | Inr (s, r) \<Rightarrow>
                                    if crash then (w2, Inl CrashHook)
                                    else (set_catalog (write_checkpoint s (jw_catalog w2)) w2,
                                          Inr (segments @ [(f, r)], entries, Some f, s))))))"

definition export_ship ::
  "pylib \<Rightarrow> (nat \<Rightarrow> bool) \<Rightarrow> segment list \<Rightarrow> journal_world \<Rightarrow> journal_world \<times> nat \<times> journal_error option" where
  "export_ship L up segments w =
     (if segments = [] then (w, 0, None)
      else case jw_destination w of
             None \<Rightarrow> (w, 0, Some NoDestination)
           | Some d \<Rightarrow>
               (case ship_segments L (jw_root w) up segments d of
                  (d', Inl e) \<Rightarrow> (w\<lparr>jw_destination := Some d'\<rparr>, 0, Some e)
                | (d', Inr n) \<Rightarrow> (w\<lparr>jw_destination := Some d'\<rparr>, n, None)))"

definition shipping_message :: "pylib \<Rightarrow> journal_error option \<Rightarrow> string" where
  "shipping_message L err =
     (case err of
        None \<Rightarrow> ''retention journal DR shipping succeeded''
      | Some e \<Rightarrow> if e = NoDestination then ''no ssh_disk DR target is configured'' else pl_error_text L e)"

definition export_alarms :: "pylib \<Rightarrow> journal_error option \<Rightarrow> time \<Rightarrow> catalog_db engine_db \<Rightarrow> catalog_db engine_db" where
  "export_alarms L err now db =
     project_journal_alarm now ''shipping-failed'' (err \<noteq> None) ''shipping-failed'' (shipping_message L err)
       (project_journal_alarm now ''export-failed'' False ''export-failed'' ''retention journal export succeeded'' db)"

definition export_locked ::
  "pylib \<Rightarrow> bool \<Rightarrow> (nat \<Rightarrow> bool) \<Rightarrow> time \<Rightarrow> journal_world \<Rightarrow> journal_world \<times> (journal_error + export_result)" where
  "export_locked L crash up now w =
     (case export_publish L crash now w of
        (w1, Inl e) \<Rightarrow> (w1, Inl e)
      | (w1, Inr (segments, entries, f, st)) \<Rightarrow>
          (case export_ship L up segments w1 of
             (w2, shipped, err) \<Rightarrow>
               (case refresh_staleness_alarm L None now (w2\<lparr>jw_db := export_alarms L err now (jw_db w2)\<rparr>) of
                     (w3, Inl e) \<Rightarrow> (w3, Inl e)
                   | (w3, Inr _) \<Rightarrow>
                       (w3, Inr \<lparr>xr_published = (f \<noteq> None), xr_entry_count = length entries, xr_segment = f,
                                 xr_state = st, xr_shipped_segments = shipped, xr_shipping_error = err\<rparr>))))"

text \<open>\<open>held\<close> is whether another process holds the export lock.\<close>

definition export_journal ::
  "pylib \<Rightarrow> bool \<Rightarrow> bool \<Rightarrow> (nat \<Rightarrow> bool) \<Rightarrow> time \<Rightarrow> journal_world \<Rightarrow> journal_world \<times> (journal_error + export_result)" where
  "export_journal L held crash up now w =
     (if held then (w, Inl AlreadyRunning) else export_locked L crash up now w)"

subsection \<open>Verification\<close>

datatype journal_issue =
    SegmentsIssue journal_error
  | NoPublishedFiles
  | FileIssue string journal_error
  | OffboxUnavailable
  | SegmentDiffers string
  | OffboxReadFailed journal_error
  | AnchorDiffers
  | CheckpointIssue journal_error

datatype projection_issue =
    MissingCopy nat nat | BackendDiffers nat nat | ExpectedDiffers nat nat | MeasuredDiffers nat nat
  | MeasuredTimeDiffers nat nat | Unreceipted nat

record check_result =
  cr_ok :: bool
  cr_file_count :: nat
  cr_entry_count :: int
  cr_state :: journal_state
  cr_offbox_compared :: bool
  cr_issues :: "journal_issue list"
  cr_projection_mismatches :: "projection_issue list"

fun check_chain ::
  "pylib \<Rightarrow> string \<Rightarrow> segment list \<Rightarrow> int \<Rightarrow> string \<Rightarrow> int dict \<Rightarrow> int \<Rightarrow> journal_state \<Rightarrow>
   journal_error + journal_issue list \<times> int \<times> journal_state" where
  "check_chain L rt [] seq h cs n st = Inr ([], n, st)"
| "check_chain L rt (s # ss) seq h cs n st =
     (case check_segment L (sf_lines (fst s)) seq h cs of
        Inl e \<Rightarrow> if is_journal_error e then Inr ([FileIssue (sf_name (fst s)) e], n, st) else Inl e
      | Inr r \<Rightarrow>
          res_bind (state_from_footer L (cs_footer r) (segment_path rt (fst s)))
            (check_chain L rt ss (cs_sequence r) (cs_hash r) (cs_cursors r) (n + cs_count r)))"

fun compare_segments ::
  "(nat \<Rightarrow> bool) \<Rightarrow> nat \<Rightarrow> destination \<Rightarrow> segment list \<Rightarrow> journal_issue list \<times> (journal_error + nat)" where
  "compare_segments up k d [] = ([], Inr k)"
| "compare_segments up k d (s # ss) =
     (if \<not> up k then ([], Inl TransportDown)
      else case dest_read (segment_key (fst s)) d of
             Inl e \<Rightarrow> ([], Inl e)
           | Inr b \<Rightarrow>
               (case compare_segments up (k + 1) d ss of
                  (is, r) \<Rightarrow> ((if b = Some (SegmentBlob (sf_lines (fst s))) then is else SegmentDiffers (sf_name (fst s)) # is), r)))"

definition check_offbox ::
  "pylib \<Rightarrow> (nat \<Rightarrow> bool) \<Rightarrow> journal_world \<Rightarrow> segment list \<Rightarrow> journal_error + journal_issue list \<times> bool" where
  "check_offbox L up w segments =
     (if segments = [] then Inr ([], False)
      else case jw_destination w of
             None \<Rightarrow> Inr ([OffboxUnavailable], False)
           | Some d \<Rightarrow>
               res_bind (anchor_of L (jw_root w) (last segments)) (\<lambda>expected.
                 case compare_segments up 0 d segments of
                   (is, Inl e) \<Rightarrow> Inr (is @ [OffboxReadFailed e], False)
                 | (is, Inr k) \<Rightarrow>
                     (case (if up k then dest_read (anchor_key (fst (last segments))) d else Inl TransportDown) of
                        Inl e \<Rightarrow> Inr (is @ [OffboxReadFailed e], False)
                      | Inr actual \<Rightarrow> Inr (is @ (if actual = Some expected then [] else [AnchorDiffers]), True))))"

definition get_copy :: "catalog_db \<Rightarrow> nat \<Rightarrow> copy_row option" where
  "get_copy c i = find (\<lambda>r. cp_id r = i) (copies c)"

definition latest_receipts :: "catalog_db \<Rightarrow> verify_receipt list" where
  "latest_receipts c =
     filter (\<lambda>r. list_all (\<lambda>q. vr_copy_id q = vr_copy_id r \<longrightarrow> vr_event_id q \<le> vr_event_id r) (verify_receipts c))
       (verify_receipts c)"

definition receipt_mismatches :: "catalog_db \<Rightarrow> verify_receipt \<Rightarrow> projection_issue list" where
  "receipt_mismatches c r =
     (case get_copy c (vr_copy_id r) of
        None \<Rightarrow> [MissingCopy (vr_event_id r) (vr_copy_id r)]
      | Some k \<Rightarrow>
          (if cp_backend_id k \<noteq> vr_backend_id r then [BackendDiffers (cp_id k) (vr_event_id r)] else []) @
          (if cp_integrity_hash k \<noteq> vr_expected_digest r then [ExpectedDiffers (cp_id k) (vr_event_id r)] else []) @
          (if cp_last_measured_digest k \<noteq> vr_measured_digest r then [MeasuredDiffers (cp_id k) (vr_event_id r)] else []) @
          (if cp_last_measured_at k \<noteq> (if vr_measured_digest r \<noteq> None then Some (vr_at r) else None)
           then [MeasuredTimeDiffers (cp_id k) (vr_event_id r)] else []))"

definition projection_mismatches :: "catalog_db \<Rightarrow> projection_issue list" where
  "projection_mismatches c =
     concat (map (receipt_mismatches c) (latest_receipts c)) @
     map (\<lambda>k. Unreceipted (cp_id k))
       (filter (\<lambda>k. cp_id k \<notin> set (map vr_copy_id (latest_receipts c)) \<and>
                    (cp_last_measured_digest k \<noteq> None \<or> cp_last_measured_at k \<noteq> None)) (copies c))"

definition check_journal :: "pylib \<Rightarrow> (nat \<Rightarrow> bool) \<Rightarrow> journal_world \<Rightarrow> journal_error + check_result" where
  "check_journal L up w =
     res_bind (case published_segments L (jw_files w) of
                 Inl e \<Rightarrow> if is_journal_error e then Inr ([], [SegmentsIssue e]) else Inl e
               | Inr ss \<Rightarrow> Inr (ss, if ss = [] then [NoPublishedFiles] else [])) (\<lambda>(segments, issues0).
     res_bind (check_chain L (jw_root w) segments 1 GENESIS_HASH
                 [(''verify_receipt'', 0), (''retention_event'', 0)] 0 initial_state) (\<lambda>(issues1, n, st).
     res_bind (check_offbox L up w segments) (\<lambda>(issues2, compared).
     res_bind (if segments = [] then Inr st else head_state L (jw_root w) segments) (\<lambda>published.
       let issues = issues0 @ issues1 @ issues2 @
             (case checkpoint_ahead_issue (jw_catalog w) published of None \<Rightarrow> [] | Some e \<Rightarrow> [CheckpointIssue e]);
           mismatches = projection_mismatches (jw_catalog w)
       in Inr \<lparr>cr_ok = (issues = [] \<and> mismatches = []), cr_file_count = length segments, cr_entry_count = n,
               cr_state = st, cr_offbox_compared = compared, cr_issues = issues,
               cr_projection_mismatches = mismatches\<rparr>))))"

subsection \<open>Corrections\<close>

definition correction_subject :: "string \<Rightarrow> nat \<Rightarrow> catalog_db \<Rightarrow> journal_error + string \<times> string \<times> string option" where
  "correction_subject source event_id c =
     (if source = ''retention_event''
      then (case find (\<lambda>e. ev_id e = event_id) (retention_events c) of
              None \<Rightarrow> Inl (NoSuchEvent event_id)
            | Some e \<Rightarrow> Inr (ev_subject_type e, ev_subject_id e, ev_intake_id e))
      else (case find (\<lambda>r. vr_event_id r = event_id) (verify_receipts c) of
              None \<Rightarrow> Inl (NoSuchReceipt event_id)
            | Some _ \<Rightarrow> Inr (''receipt'', ''verify_receipt:'' @ str_nat event_id, None)))"

text \<open>\<open>nonce\<close> is the text of the \<open>uuid4\<close> drawn.\<close>

definition correction_row ::
  "string \<Rightarrow> nat \<Rightarrow> string \<Rightarrow> string \<Rightarrow> string \<Rightarrow> time \<Rightarrow> string \<times> string \<times> string option \<Rightarrow> nat \<Rightarrow> retention_event" where
  "correction_row source event_id actor reason nonce now subject i =
     \<lparr>ev_id = i, ev_intake_id = snd (snd subject), ev_subject_type = fst subject, ev_subject_id = fst (snd subject),
      ev_action = ''correction_recorded'',
      ev_operation_id = ''journal-correction:'' @ source @ '':'' @ str_nat event_id @ '':'' @ nonce,
      ev_actor = actor, ev_at = now,
      ev_detail = Some [(''kind'', JStr ''receipt-supersession''), (''reason'', JStr reason)],
      ev_supersedes_source = Some source, ev_supersedes_event_id = Some event_id\<rparr>"

definition record_journal_correction ::
  "string \<Rightarrow> nat \<Rightarrow> string \<Rightarrow> string \<Rightarrow> string \<Rightarrow> time \<Rightarrow> catalog_db \<Rightarrow> journal_error + catalog_db \<times> retention_event" where
  "record_journal_correction source event_id actor reason nonce now c =
     (if source \<notin> set (map fst SOURCE_RANK) then Inl (BadArgument ''source'')
      else if event_id = 0 then Inl (BadArgument ''event_id'')
      else if actor = [] \<or> reason = [] then Inl (BadArgument ''actor and reason'')
      else res_bind (correction_subject source event_id c) (\<lambda>subject.
        let row = correction_row source event_id actor reason nonce now subject (fresh_id (map ev_id (retention_events c)))
        in (case insert_event row (retention_events c) of
              Inl _ \<Rightarrow> Inl IntegrityFailure
            | Inr es \<Rightarrow> Inr (c\<lparr>retention_events := es\<rparr>, row))))"

end
