(* ===== verification/Journal_Chain.thy ===== *)
theory Journal_Chain
  imports Journal_Format
begin

text \<open>
  What the hash chain of the retention journal guarantees: a published segment passes the walk, and an
  accepted walk pins its entries down to SHA-256 collisions.
\<close>

section \<open>Published entries pass the walk\<close>

lemma constant_time_hex: "constant_time_equal (sha256_hex m) (sha256_hex k) = Inr (sha256_hex m = sha256_hex k)"
proof -
  have "is_lower_hex c \<Longrightarrow> of_char c < (128 :: nat)" for c by (auto simp: is_lower_hex_def)
  then have "\<forall>c \<in> set (sha256_hex m @ sha256_hex k). of_char c < (128 :: nat)"
    using sha256_hex_chars [of _ m] sha256_hex_chars [of _ k] by auto
  then show ?thesis by (auto simp: constant_time_equal_def list_all_iff)
qed

lemma require_equal_self: "require_equal (hash_json fr v) (hash_json fr v) e = Inr ()"
  by (simp add: require_equal_def hash_json_def constant_time_hex require_def)

lemma require_equal_Inr: "require_equal l r e = Inr u \<Longrightarrow> l = r"
  by (simp add: require_equal_def constant_time_equal_def require_def split: if_splits)

lemma require_Inr: "require b e = Inr u \<longleftrightarrow> b"
  by (simp add: require_def)

text \<open>Entries in the order the exporter produces them, each above its table's cursor.\<close>

fun entries_ok :: "(nat \<times> int) option \<Rightarrow> int dict \<Rightarrow> source_entry list \<Rightarrow> bool" where
  "entries_ok ord cs [] = True"
| "entries_ok ord cs (e # es) =
     (case map_of SOURCE_RANK (se_source e) of
        None \<Rightarrow> False
      | Some rank \<Rightarrow>
          0 \<le> se_event_id e \<and> dict_get cs (se_source e) 0 < se_event_id e \<and>
          (case ord of None \<Rightarrow> True | Some p \<Rightarrow> p < (rank, se_event_id e)) \<and>
          map_of (se_payload e) ''event_id'' = Some (JInt (se_event_id e)) \<and>
          entries_ok (Some (rank, se_event_id e)) (dict_set (se_source e) (se_event_id e) cs) es)"

lemma walk_entry_published:
  assumes "map_of SOURCE_RANK (se_source e) = Some rank" "0 \<le> wk_sequence w"
    and "0 \<le> se_event_id e" "dict_get (wk_cursors w) (se_source e) 0 < se_event_id e"
    and "case wk_order w of None \<Rightarrow> True | Some p \<Rightarrow> p < (rank, se_event_id e)"
    and "map_of (se_payload e) ''event_id'' = Some (JInt (se_event_id e))" "wk_footer w = None"
  shows "walk_line L n (Value (entry_line L (wk_sequence w) e (wk_hash w))) w =
    Inr (w\<lparr>wk_hash := entry_hash_of L (wk_sequence w) e (wk_hash w), wk_sequence := wk_sequence w + 1,
           wk_cursors := dict_set (se_source e) (se_event_id e) (wk_cursors w),
           wk_order := Some (rank, se_event_id e), wk_count := wk_count w + 1\<rparr>)"
proof -
  have ord: "case wk_order w of None \<Rightarrow> True | Some p \<Rightarrow> \<not> (rank, se_event_id e) \<le> p"
    using assms(5) by (auto split: option.splits)
  have eh: "require_equal (entry_hash_of L (wk_sequence w) e (wk_hash w))
      (hash_json (pl_float_text L) (JObj (link_of (wk_sequence w) (se_source e) (se_event_id e)
         (hash_json (pl_float_text L) (JObj (se_payload e))) (wk_hash w)))) x = Inr ()" for x
    unfolding entry_hash_of_def by (rule require_equal_self)
  show ?thesis
    using assms ord
    by (simp add: walk_line_def entry_line_def walk_entry_def link_of_def integer_def get_str_def get_obj_def
        require_Inr require_def eq_int_def require_equal_self eh [unfolded link_of_def])
qed

lemma walk_entries_published:
  "entries_ok (wk_order w) (wk_cursors w) es \<Longrightarrow> wk_footer w = None \<Longrightarrow> 0 \<le> wk_sequence w \<Longrightarrow>
   entry_lines L (wk_sequence w) (wk_hash w) (wk_cursors w) es = (ls, h, cs) \<Longrightarrow>
   \<exists>ord. walk_lines L n (map Value ls @ rest) w = walk_lines L (n + length es) rest
     (w\<lparr>wk_hash := h, wk_sequence := wk_sequence w + int (length es), wk_cursors := cs, wk_order := ord,
        wk_count := wk_count w + int (length es)\<rparr>)"
proof (induction es arbitrary: w n ls)
  case Nil
  then have "ls = []" "h = wk_hash w" "cs = wk_cursors w" by simp_all
  then show ?case by (intro exI [of _ "wk_order w"]) simp
next
  case (Cons e es)
  from Cons.prems(1) obtain rank where r: "map_of SOURCE_RANK (se_source e) = Some rank"
    "0 \<le> se_event_id e" "dict_get (wk_cursors w) (se_source e) 0 < se_event_id e"
    "case wk_order w of None \<Rightarrow> True | Some p \<Rightarrow> p < (rank, se_event_id e)"
    "map_of (se_payload e) ''event_id'' = Some (JInt (se_event_id e))"
    "entries_ok (Some (rank, se_event_id e)) (dict_set (se_source e) (se_event_id e) (wk_cursors w)) es"
    by (auto split: option.splits)
  let ?w = "w\<lparr>wk_hash := entry_hash_of L (wk_sequence w) e (wk_hash w), wk_sequence := wk_sequence w + 1,
     wk_cursors := dict_set (se_source e) (se_event_id e) (wk_cursors w),
     wk_order := Some (rank, se_event_id e), wk_count := wk_count w + 1\<rparr>"
  obtain ls' where ls: "ls = entry_line L (wk_sequence w) e (wk_hash w) # ls'"
    and tl: "entry_lines L (wk_sequence ?w) (wk_hash ?w) (wk_cursors ?w) es = (ls', h, cs)"
    using Cons.prems(4) by (auto split: prod.splits)
  note one = walk_entry_published [OF r(1) Cons.prems(3) r(2,3,4,5) Cons.prems(2), of L n]
  from Cons.IH [of ?w ls' "n + 1"] r(6) Cons.prems(2,3) tl
  obtain ord where "walk_lines L (n + 1) (map Value ls' @ rest) ?w = walk_lines L (n + 1 + length es) rest
      (?w\<lparr>wk_hash := h, wk_sequence := wk_sequence ?w + int (length es), wk_cursors := cs, wk_order := ord,
          wk_count := wk_count ?w + int (length es)\<rparr>)" by auto
  with one ls show ?case by (intro exI [of _ ord]) (simp add: add.commute add.left_commute)
qed

definition cursors_ok :: "int dict \<Rightarrow> bool" where
  "cursors_ok cs \<longleftrightarrow> (\<exists>a b. cs = [(''verify_receipt'', a), (''retention_event'', b)] \<and> 0 \<le> a \<and> 0 \<le> b)"

lemma is_sha256_hash: "is_sha256 (hash_json fr v)"
  by (simp add: is_sha256_def hash_json_def list_all_iff sha256_hex_chars)

lemma validate_footer_of:
  assumes "0 \<le> start" "0 < count" "0 \<le> end_sequence" "is_sha256 head" "cursors_ok cursors"
  shows "validate_footer L (footer_of L start count end_sequence head cursors now) = Inr ()"
proof -
  obtain a b where cs: "cursors = [(''verify_receipt'', a), (''retention_event'', b)]" "0 \<le> a" "0 \<le> b"
    using assms(5) by (auto simp: cursors_ok_def)
  define B where "B = footer_base start count end_sequence head cursors now"
  define F where "F = footer_of L start count end_sequence head cursors now"
  have F: "F = B @ [(''footer_checksum'', JStr (hash_json (pl_float_text L) (JObj B)))]"
    by (simp add: F_def B_def footer_of_def Let_def)
  have pop: "dict_pop ''footer_checksum'' F = B"
    by (simp add: F dict_pop_def) (simp add: B_def footer_base_def)
  have ck: "map_of F ''footer_checksum'' = Some (JStr (hash_json (pl_float_text L) (JObj B)))"
    by (simp add: F) (simp add: B_def footer_base_def)
  have other: "map_of F k = map_of B k" if "k \<noteq> ''footer_checksum''" for k
    using that by (simp add: F map_add_def split: option.splits)
  have "footer_cursors F = Inr [(''verify_receipt'', JInt a), (''retention_event'', JInt b)]"
    by (simp add: footer_cursors_def other)
       (simp add: B_def footer_base_def cs get_obj_def require_def SOURCE_RANK_def insert_commute)
  then have "validate_footer L F = Inr ()"
    using assms cs
    by (simp add: validate_footer_def pop ck other get_str_def require_equal_self)
       (simp add: B_def footer_base_def require_def eq_int_def integer_def)
  then show ?thesis by (simp add: F_def)
qed

fun chain_hash :: "pylib \<Rightarrow> int \<Rightarrow> string \<Rightarrow> source_entry list \<Rightarrow> string" where
  "chain_hash L seq head [] = head"
| "chain_hash L seq head (e # es) = chain_hash L (seq + 1) (entry_hash_of L seq e head) es"

lemma chain_hash_append:
  "chain_hash L seq head (es @ fs) = chain_hash L (seq + int (length es)) (chain_hash L seq head es) fs"
  by (induction es arbitrary: seq head) (simp_all add: algebra_simps)

fun cursors_after :: "int dict \<Rightarrow> source_entry list \<Rightarrow> int dict" where
  "cursors_after cs [] = cs"
| "cursors_after cs (e # es) = cursors_after (dict_set (se_source e) (se_event_id e) cs) es"

lemma entry_lines_snd: "snd (entry_lines L seq head cs es) = (chain_hash L seq head es, cursors_after cs es)"
  by (induction es arbitrary: seq head cs) (auto split: prod.splits simp: prod_eq_iff)

lemma cursors_after_ok: "cursors_ok cs \<Longrightarrow> entries_ok ord cs es \<Longrightarrow> cursors_ok (cursors_after cs es)"
proof (induction es arbitrary: cs ord)
  case (Cons e es)
  from Cons.prems(2) have "se_source e = ''verify_receipt'' \<or> se_source e = ''retention_event''" "0 \<le> se_event_id e"
    by (auto simp: SOURCE_RANK_def split: option.splits if_splits)
  with Cons.prems(1) have "cursors_ok (dict_set (se_source e) (se_event_id e) cs)"
    by (auto simp: cursors_ok_def dict_set_def)
  with Cons show ?case by (auto split: option.splits)
qed simp

lemma is_sha256_chain: "is_sha256 head \<Longrightarrow> is_sha256 (chain_hash L seq head es)"
  by (induction es arbitrary: seq head) (simp_all add: entry_hash_of_def is_sha256_hash)

definition state_ok :: "journal_state \<Rightarrow> bool" where
  "state_ok st \<longleftrightarrow> 0 \<le> js_global_sequence st \<and> is_sha256 (js_head_hash st) \<and>
     0 \<le> js_verify_receipt_cursor st \<and> 0 \<le> js_retention_event_cursor st"

abbreviation state_cursors :: "journal_state \<Rightarrow> int dict" where
  "state_cursors st \<equiv> [(''verify_receipt'', js_verify_receipt_cursor st), (''retention_event'', js_retention_event_cursor st)]"

lemma segment_lines_eq:
  "segment_lines L st es now =
     (let footer = footer_of L (js_global_sequence st + 1) (int (length es)) (js_global_sequence st + int (length es))
        (chain_hash L (js_global_sequence st + 1) (js_head_hash st) es) (cursors_after (state_cursors st) es) now
      in (fst (entry_lines L (js_global_sequence st + 1) (js_head_hash st) (state_cursors st) es) @ [JObj footer], footer))"
  using entry_lines_snd [of L "js_global_sequence st + 1" "js_head_hash st" "state_cursors st" es]
  by (cases "entry_lines L (js_global_sequence st + 1) (js_head_hash st) (state_cursors st) es")
     (simp add: segment_lines_def Let_def)

lemma footer_of_fields:
  "map_of (footer_of L st n e h cs now) ''kind'' = Some (JStr ''footer'')"
  "map_of (footer_of L st n e h cs now) ''segment_start_sequence'' = Some (JInt st)"
  "map_of (footer_of L st n e h cs now) ''entry_count'' = Some (JInt n)"
  "map_of (footer_of L st n e h cs now) ''global_sequence'' = Some (JInt e)"
  "map_of (footer_of L st n e h cs now) ''head_hash'' = Some (JStr h)"
  "map_of (footer_of L st n e h cs now) ''published_at'' = Some (JStr (isoformat_z now))"
  "map_of (footer_of L st n e h cs now) ''cursors'' = Some (JObj (map (\<lambda>(k, v). (k, JInt v)) cs))"
  by (simp_all add: footer_of_def footer_base_def Let_def)

lemma footer_cursors_of:
  "cursors_ok cs \<Longrightarrow> footer_cursors (footer_of L st n e h cs now) = Inr (map (\<lambda>(k, v). (k, JInt v)) cs)"
  by (auto simp: footer_cursors_def footer_of_fields cursors_ok_def get_obj_def require_def SOURCE_RANK_def insert_commute)

lemma check_published:
  assumes st: "state_ok st" and es: "entries_ok None (state_cursors st) es" "es \<noteq> []"
  shows "check_segment L (map Value (fst (segment_lines L st es now))) (js_global_sequence st + 1)
           (js_head_hash st) (state_cursors st) =
         Inr \<lparr>cs_count = int (length es), cs_sequence = js_global_sequence st + 1 + int (length es),
              cs_hash = chain_hash L (js_global_sequence st + 1) (js_head_hash st) es,
              cs_cursors = cursors_after (state_cursors st) es, cs_footer = snd (segment_lines L st es now)\<rparr>"
proof -
  let ?w = "\<lparr>wk_sequence = js_global_sequence st + 1, wk_hash = js_head_hash st, wk_cursors = state_cursors st,
     wk_order = None, wk_footer = None, wk_count = 0\<rparr>"
  let ?h = "chain_hash L (js_global_sequence st + 1) (js_head_hash st) es"
  let ?cs = "cursors_after (state_cursors st) es"
  let ?f = "footer_of L (js_global_sequence st + 1) (int (length es)) (js_global_sequence st + int (length es)) ?h ?cs now"
  have ok: "cursors_ok (state_cursors st)" using st by (simp add: cursors_ok_def state_ok_def)
  have cs: "cursors_ok ?cs" by (rule cursors_after_ok [OF ok es(1)])
  have v: "validate_footer L ?f = Inr ()"
    by (rule validate_footer_of) (use st es cs is_sha256_chain in \<open>auto simp: state_ok_def\<close>)
  obtain ls where ls: "entry_lines L (js_global_sequence st + 1) (js_head_hash st) (state_cursors st) es = (ls, ?h, ?cs)"
    by (metis entry_lines_snd prod.collapse)
  have wk: "walk_line L n (Value (JObj ?f)) w = Inr (w\<lparr>wk_footer := Some ?f\<rparr>)" if "wk_footer w = None" for n w
    using that by (simp add: walk_line_def footer_of_fields)
  from walk_entries_published [of ?w es L ls ?h ?cs 1 "[Value (JObj ?f)]"] es st ls
  obtain ord where "walk_lines L 1 (map Value ls @ [Value (JObj ?f)]) ?w =
      Inr (?w\<lparr>wk_hash := ?h, wk_sequence := js_global_sequence st + 1 + int (length es), wk_cursors := ?cs,
              wk_order := ord, wk_count := int (length es), wk_footer := Some ?f\<rparr>)"
    by (auto simp: state_ok_def wk)
  moreover have "segment_lines L st es now = (ls @ [JObj ?f], ?f)" by (simp add: segment_lines_eq ls Let_def)
  ultimately show ?thesis
    using v cs by (auto simp: check_segment_def footer_cursors_of footer_of_fields cursors_ok_def require_def)
qed

section \<open>An accepted walk pins its entries\<close>

definition entry_of_line :: "jline \<Rightarrow> source_entry option" where
  "entry_of_line l =
     (case l of
        Value (JObj v) \<Rightarrow>
          if map_of v ''kind'' = Some (JStr ''footer'') then None
          else (case (map_of v ''source'', map_of v ''event_id'', map_of v ''payload'') of
                  (Some (JStr s), Some (JInt i), Some (JObj p)) \<Rightarrow>
                    Some \<lparr>se_source = s, se_event_id = i, se_payload = p\<rparr>
                | _ \<Rightarrow> None)
      | _ \<Rightarrow> None)"

definition segment_entries :: "jline list \<Rightarrow> source_entry list" where
  "segment_entries ls = List.map_filter entry_of_line ls"

lemma integer_Inr: "integer v x = Inr i \<longleftrightarrow> v = Some (JInt i) \<and> 0 \<le> i"
  by (auto simp: integer_def split: option.splits json.splits if_splits)

lemma get_str_Inr: "get_str v e = Inr s \<longleftrightarrow> v = Some (JStr s)"
  by (auto simp: get_str_def split: option.splits json.splits)

lemma get_obj_Inr: "get_obj v e = Inr o' \<longleftrightarrow> v = Some (JObj o')"
  by (auto simp: get_obj_def split: option.splits json.splits)

lemmas check_Inr = res_bind_Inr_iff require_Inr integer_Inr get_str_Inr get_obj_Inr

lemma walk_entry_Inr:
  assumes "walk_entry L n v w = Inr w'"
  shows "\<exists>s i p. map_of v ''source'' = Some (JStr s) \<and> map_of v ''event_id'' = Some (JInt i) \<and>
           map_of v ''payload'' = Some (JObj p) \<and> wk_sequence w' = wk_sequence w + 1 \<and>
           wk_hash w' = entry_hash_of L (wk_sequence w) \<lparr>se_source = s, se_event_id = i, se_payload = p\<rparr> (wk_hash w)"
proof -
  from assms obtain seq source rank event_id payload checksum entry_hash where
    "seq = wk_sequence w" "map_of v ''source'' = Some (JStr source)" "map_of v ''event_id'' = Some (JInt event_id)"
    "map_of v ''payload'' = Some (JObj payload)" "wk_sequence w' = wk_sequence w + 1"
    "require_equal checksum (hash_json (pl_float_text L) (JObj payload)) (ChecksumMismatch n) = Inr ()"
    "require_equal entry_hash (hash_json (pl_float_text L) (JObj (link_of seq source event_id checksum (wk_hash w))))
       (EntryHashMismatch n) = Inr ()" "wk_hash w' = entry_hash"
    unfolding walk_entry_def by (auto simp: check_Inr split: option.splits)
  then show ?thesis by (auto simp: entry_hash_of_def dest!: require_equal_Inr)
qed

lemma walk_line_Inr:
  assumes "walk_line L n l w = Inr w'"
  shows "case entry_of_line l of
           None \<Rightarrow> wk_hash w' = wk_hash w \<and> wk_sequence w' = wk_sequence w
         | Some e \<Rightarrow> wk_hash w' = entry_hash_of L (wk_sequence w) e (wk_hash w) \<and> wk_sequence w' = wk_sequence w + 1"
proof -
  from assms obtain v where v: "l = Value (JObj v)"
    by (auto simp: walk_line_def split: jline.splits json.splits)
  show ?thesis
  proof (cases "map_of v ''kind'' = Some (JStr ''footer'')")
    case True
    with assms v show ?thesis by (auto simp: walk_line_def entry_of_line_def split: if_splits)
  next
    case False
    with assms v have "walk_entry L n v w = Inr w'" by (simp add: walk_line_def split: if_splits)
    from walk_entry_Inr [OF this] False v show ?thesis by (auto simp: entry_of_line_def)
  qed
qed

lemma walk_lines_Inr:
  "walk_lines L n ls w = Inr w' \<Longrightarrow>
   wk_hash w' = chain_hash L (wk_sequence w) (wk_hash w) (segment_entries ls) \<and>
   wk_sequence w' = wk_sequence w + int (length (segment_entries ls))"
proof (induction ls arbitrary: n w)
  case Nil
  then show ?case by (simp add: segment_entries_def List.map_filter_simps)
next
  case (Cons l ls)
  then obtain w1 where "walk_line L n l w = Inr w1" "walk_lines L (n + 1) ls w1 = Inr w'"
    by (auto simp: res_bind_Inr_iff)
  from walk_line_Inr [OF this(1)] Cons.IH [OF this(2)] show ?case
    by (auto simp: segment_entries_def List.map_filter_simps split: option.splits)
qed

lemma check_segment_Inr:
  "check_segment L ls seq h cs = Inr r \<Longrightarrow>
   cs_hash r = chain_hash L seq h (segment_entries ls) \<and> cs_sequence r = seq + int (length (segment_entries ls))"
  by (auto simp: check_segment_def check_Inr split: option.splits dest!: walk_lines_Inr)

section \<open>Collisions\<close>

definition payload_text :: "pylib \<Rightarrow> source_entry \<Rightarrow> nat list" where
  "payload_text L e = utf8 (canonical_json (pl_float_text L) (JObj (se_payload e)))"

definition link_text :: "pylib \<Rightarrow> int \<Rightarrow> source_entry \<Rightarrow> string \<Rightarrow> nat list" where
  "link_text L seq e prev_hash =
     utf8 (canonical_json (pl_float_text L)
       (JObj (link_of seq (se_source e) (se_event_id e) (sha256_hex (payload_text L e)) prev_hash)))"

text \<open>Every byte string that is hashed on the way along a chain of entries, the genesis text included.\<close>

fun hashed_texts :: "pylib \<Rightarrow> int \<Rightarrow> string \<Rightarrow> source_entry list \<Rightarrow> nat list set" where
  "hashed_texts L seq head [] = {utf8 ''sutradhara.retention-journal:genesis:v1''}"
| "hashed_texts L seq head (e # es) =
     {payload_text L e, link_text L seq e head} \<union> hashed_texts L (seq + 1) (entry_hash_of L seq e head) es"

lemma entry_hash_text: "entry_hash_of L seq e head = sha256_hex (link_text L seq e head)"
  by (simp add: entry_hash_of_def link_text_def payload_text_def hash_json_def)

lemma genesis_hashed: "utf8 ''sutradhara.retention-journal:genesis:v1'' \<in> hashed_texts L seq head es"
  by (induction es arbitrary: seq head) simp_all

lemma hashed_texts_snoc:
  "hashed_texts L seq head (es @ [e]) =
   hashed_texts L seq head es \<union>
   {payload_text L e, link_text L (seq + int (length es)) e (chain_hash L seq head es)}"
  using genesis_hashed by (induction es arbitrary: seq head) (auto simp: algebra_simps insert_commute)

lemma map_of_sort_key: "distinct (map fst kvs) \<Longrightarrow> map_of (sort_key fst kvs) = map_of kvs"
  by (rule map_of_inject_set [THEN iffD2]) (auto simp: distinct_map)

lemma sort_json_lookup:
  assumes "distinct (map fst kvs)" "distinct (map fst kvs')" "sort_json (JObj kvs) = sort_json (JObj kvs')"
  shows "map_option sort_json (map_of kvs k) = map_option sort_json (map_of kvs' k)"
proof -
  let ?f = "\<lambda>(k, v). (k, sort_json v)"
  have m: "map_of (map ?f xs) = (\<lambda>k. map_option sort_json (map_of xs k))" for xs
    by (induction xs) (auto simp: fun_eq_iff)
  have "map fst (map ?f xs) = map fst xs" for xs :: "(string \<times> json) list" by (induction xs) auto
  then have "map_of (sort_key fst (map ?f kvs)) = map_of (map ?f kvs)" "map_of (sort_key fst (map ?f kvs')) = map_of (map ?f kvs')"
    using assms(1,2) by (metis map_of_sort_key)+
  with assms(3) m show ?thesis by (metis json.inject(6) sort_json.simps(2))
qed

lemma link_of_inject:
  assumes "sort_json (JObj (link_of seq s i c p)) = sort_json (JObj (link_of seq' s' i' c' p'))"
  shows "seq = seq' \<and> s = s' \<and> i = i' \<and> c = c' \<and> p = p'"
proof -
  have d: "distinct (map fst (link_of seq s i c p))" for seq s i c p by (simp add: link_of_def)
  note l = sort_json_lookup [OF d d assms]
  from l [of "''sequence''"] l [of "''source''"] l [of "''event_id''"] l [of "''checksum''"] l [of "''prev_hash''"]
  show ?thesis by (simp add: link_of_def)
qed

lemma link_text_not_genesis: "link_text L seq e head \<noteq> utf8 ''sutradhara.retention-journal:genesis:v1''"
proof
  assume "link_text L seq e head = utf8 ''sutradhara.retention-journal:genesis:v1''"
  from utf8_inject [OF this [unfolded link_text_def]] show False
    by (simp add: canonical_json_def link_of_def)
qed

definition same_entry :: "source_entry \<Rightarrow> source_entry \<Rightarrow> bool" where
  "same_entry e f \<longleftrightarrow> se_source e = se_source f \<and> se_event_id e = se_event_id f \<and>
     sort_json (JObj (se_payload e)) = sort_json (JObj (se_payload f))"

lemma link_step:
  assumes fr: "float_text_ok (pl_float_text L)" and free: "\<not> sha256_collision T"
    and in_T: "link_text L seq e p \<in> T" "payload_text L e \<in> T" "link_text L seq' f q \<in> T" "payload_text L f \<in> T"
    and eq: "sha256_hex (link_text L seq e p) = sha256_hex (link_text L seq' f q)"
  shows "same_entry e f \<and> p = q"
proof -
  from collision_free [OF free in_T(1,3) eq]
  have "sort_json (JObj (link_of seq (se_source e) (se_event_id e) (sha256_hex (payload_text L e)) p)) =
        sort_json (JObj (link_of seq' (se_source f) (se_event_id f) (sha256_hex (payload_text L f)) q))"
    unfolding link_text_def by (intro canonical_json_inject [OF fr]) (rule utf8_inject)
  from link_of_inject [OF this] have f: "se_source e = se_source f" "se_event_id e = se_event_id f" "p = q"
    and pay: "sha256_hex (payload_text L e) = sha256_hex (payload_text L f)" by simp_all
  from collision_free [OF free in_T(2,4) pay]
  have "sort_json (JObj (se_payload e)) = sort_json (JObj (se_payload f))"
    unfolding payload_text_def by (intro canonical_json_inject [OF fr]) (rule utf8_inject)
  with f show ?thesis unfolding same_entry_def by blast
qed

lemma genesis_step:
  assumes "\<not> sha256_collision T" "utf8 ''sutradhara.retention-journal:genesis:v1'' \<in> T" "link_text L seq e p \<in> T"
  shows "GENESIS_HASH \<noteq> sha256_hex (link_text L seq e p)"
  using collision_free [OF assms] link_text_not_genesis [of L seq e p] by (auto simp: GENESIS_HASH_def)

lemma chain_determines_entries:
  assumes fr: "float_text_ok (pl_float_text L)"
  shows "\<not> sha256_collision (hashed_texts L 1 GENESIS_HASH es \<union> hashed_texts L 1 GENESIS_HASH fs) \<Longrightarrow>
    chain_hash L 1 GENESIS_HASH es = chain_hash L 1 GENESIS_HASH fs \<Longrightarrow> list_all2 same_entry es fs"
proof (induction es arbitrary: fs rule: rev_induct)
  case Nil
  show ?case
  proof (cases fs rule: rev_cases)
    case (snoc fs' f)
    with Nil.prems(2) genesis_step [OF Nil.prems(1), of L "1 + int (length fs')" f "chain_hash L 1 GENESIS_HASH fs'"]
    show ?thesis by (simp add: chain_hash_append entry_hash_text hashed_texts_snoc)
  qed simp
next
  case (snoc e es)
  let ?G = "hashed_texts L 1 GENESIS_HASH" and ?T = "hashed_texts L 1 GENESIS_HASH (es @ [e]) \<union> hashed_texts L 1 GENESIS_HASH fs"
  let ?n = "1 + int (length es)" and ?p = "chain_hash L 1 GENESIS_HASH es"
  have le: "link_text L ?n e ?p \<in> ?T" "payload_text L e \<in> ?T" by (simp_all add: hashed_texts_snoc)
  show ?case
  proof (cases fs rule: rev_cases)
    case Nil
    with snoc.prems(2) genesis_step [OF snoc.prems(1) _ le(1)] genesis_hashed show ?thesis
      by (simp add: chain_hash_append entry_hash_text)
  next
    case (snoc fs' f)
    note fs = this
    let ?m = "1 + int (length fs')" and ?q = "chain_hash L 1 GENESIS_HASH fs'"
    have lf: "link_text L ?m f ?q \<in> ?T" "payload_text L f \<in> ?T" using fs by (simp_all add: hashed_texts_snoc)
    have "sha256_hex (link_text L ?n e ?p) = sha256_hex (link_text L ?m f ?q)"
      using snoc.prems(2) fs by (simp add: chain_hash_append entry_hash_text)
    from link_step [OF fr snoc.prems(1) le lf this] have step: "same_entry e f" "?p = ?q" by simp_all
    have "\<not> sha256_collision (?G es \<union> ?G fs')"
      using snoc.prems(1) fs by (auto simp: hashed_texts_snoc elim!: contrapos_nn collision_mono)
    from snoc.IH [OF this step(2)] step(1) fs show ?thesis by (simp add: list_all2_appendI)
  qed
qed

end
