(* ===== verification/Journal_Facts.thy ===== *)
theory Journal_Facts
  imports Retention_Journal Journal_Chain
begin

text \<open>
  Correctness of the journal exporter: over any history of appended receipts and exports, interrupted or
  not, the published files hold every exported receipt once and pass the walk; shipping keeps the
  append-only destination a prefix of the published files.
\<close>

section \<open>File names\<close>

lemma nat_bound: "0 \<le> a \<Longrightarrow> a < 10 ^ 20 \<Longrightarrow> nat a < 10 ^ Suc 19"
  by simp

lemma length_zfill_20: "0 \<le> a \<Longrightarrow> a < 10 ^ 20 \<Longrightarrow> length (zfill 20 (nat a)) = 20"
  using length_zfill [OF nat_bound, of a] by simp

lemma segment_match_name:
  assumes "0 \<le> a" "a < 10 ^ 20" "0 \<le> b" "b < 10 ^ 20"
  shows "segment_match (segment_name a b) = Some (nat a, nat b)"
  using length_zfill_20 [OF assms(1,2)] length_zfill_20 [OF assms(3,4)]
  by (simp add: segment_match_def segment_name_def nth_append nat_of_digits_zfill)

section \<open>Published files\<close>

definition file_of :: "pylib \<Rightarrow> journal_state \<Rightarrow> source_entry list \<Rightarrow> time \<Rightarrow> segment_file" where
  "file_of L st es now =
     \<lparr>sf_dir = iso_date now,
      sf_name = segment_name (js_global_sequence st + 1) (js_global_sequence st + int (length es)),
      sf_lines = map Value (fst (segment_lines L st es now))\<rparr>"

definition footer_for :: "pylib \<Rightarrow> journal_state \<Rightarrow> source_entry list \<Rightarrow> time \<Rightarrow> jobj" where
  "footer_for L st es now = snd (segment_lines L st es now)"

definition state_after :: "pylib \<Rightarrow> string \<Rightarrow> journal_state \<Rightarrow> source_entry list \<Rightarrow> time \<Rightarrow> journal_state" where
  "state_after L rt st es now =
     \<lparr>js_global_sequence = js_global_sequence st + int (length es),
      js_head_hash = chain_hash L (js_global_sequence st + 1) (js_head_hash st) es,
      js_verify_receipt_cursor = dict_get (cursors_after (state_cursors st) es) ''verify_receipt'' 0,
      js_retention_event_cursor = dict_get (cursors_after (state_cursors st) es) ''retention_event'' 0,
      js_published_filename = Some (segment_path rt (file_of L st es now)), js_published_at = Some now\<rparr>"

definition batch_ok :: "pylib \<Rightarrow> journal_state \<Rightarrow> source_entry list \<Rightarrow> time \<Rightarrow> bool" where
  "batch_ok L st es now \<longleftrightarrow>
     state_ok st \<and> es \<noteq> [] \<and> entries_ok None (state_cursors st) es \<and> datetime_ok now \<and>
     pl_parse_time L (isoformat_z now) = Some now \<and> js_global_sequence st + int (length es) < 10 ^ 20"

lemma cursors_okD: "cursors_ok cs \<Longrightarrow> cs = [(''verify_receipt'', dict_get cs ''verify_receipt'' 0),
    (''retention_event'', dict_get cs ''retention_event'' 0)] \<and> 0 \<le> dict_get cs ''verify_receipt'' 0 \<and>
    0 \<le> dict_get cs ''retention_event'' 0"
  by (auto simp: cursors_ok_def)

lemma batch_cursors:
  assumes "batch_ok L st es now"
  shows "cursors_ok (cursors_after (state_cursors st) es)"
    and "state_cursors (state_after L rt st es now) = cursors_after (state_cursors st) es"
proof -
  have "cursors_ok (state_cursors st)" using assms by (simp add: batch_ok_def state_ok_def cursors_ok_def)
  then show ok: "cursors_ok (cursors_after (state_cursors st) es)"
    using assms cursors_after_ok by (auto simp: batch_ok_def)
  show "state_cursors (state_after L rt st es now) = cursors_after (state_cursors st) es"
    using cursors_okD [OF ok] by (simp add: state_after_def)
qed

lemma state_after_ok: "batch_ok L st es now \<Longrightarrow> state_ok (state_after L rt st es now)"
  using batch_cursors(1) [of L st es now] cursors_okD [of "cursors_after (state_cursors st) es"]
  by (simp add: state_ok_def state_after_def batch_ok_def is_sha256_chain)

lemma last_text_line_snoc: "last_text_line (map Value vs @ [Value v]) found = Some (Value v)"
  by (induction vs arbitrary: found) simp_all

lemma footer_for_eq:
  "footer_for L st es now = footer_of L (js_global_sequence st + 1) (int (length es))
     (js_global_sequence st + int (length es)) (chain_hash L (js_global_sequence st + 1) (js_head_hash st) es)
     (cursors_after (state_cursors st) es) now"
  by (simp add: footer_for_def segment_lines_eq Let_def)

lemma footer_for_valid:
  assumes "batch_ok L st es now"
  shows "validate_footer L (footer_for L st es now) = Inr ()"
  unfolding footer_for_eq
  by (rule validate_footer_of) (use assms batch_cursors(1) [OF assms] is_sha256_chain in \<open>auto simp: batch_ok_def state_ok_def\<close>)

lemma read_footer_file:
  assumes "batch_ok L st es now"
  shows "read_footer L (file_of L st es now) = Inr (footer_for L st es now)"
proof -
  have "sf_lines (file_of L st es now) =
      map Value (fst (entry_lines L (js_global_sequence st + 1) (js_head_hash st) (state_cursors st) es)) @
      [Value (JObj (footer_for L st es now))]"
    by (simp add: file_of_def footer_for_eq segment_lines_eq Let_def)
  moreover have "map_of (footer_for L st es now) ''kind'' = Some (JStr ''footer'')"
    by (simp add: footer_for_eq footer_of_fields)
  ultimately show ?thesis
    by (simp add: read_footer_def last_text_line_snoc footer_for_valid [OF assms])
qed

lemma state_from_footer_for:
  assumes "batch_ok L st es now"
  shows "state_from_footer L (footer_for L st es now) (segment_path rt (file_of L st es now)) =
         Inr (state_after L rt st es now)"
proof -
  note cs = batch_cursors(1) [OF assms]
  have "0 \<le> js_global_sequence st + int (length es)" using assms by (simp add: batch_ok_def state_ok_def)
  moreover have "map_of (map (\<lambda>(k, v). (k, JInt v)) (cursors_after (state_cursors st) es)) ''verify_receipt'' =
      Some (JInt (dict_get (cursors_after (state_cursors st) es) ''verify_receipt'' 0))"
    "map_of (map (\<lambda>(k, v). (k, JInt v)) (cursors_after (state_cursors st) es)) ''retention_event'' =
      Some (JInt (dict_get (cursors_after (state_cursors st) es) ''retention_event'' 0))"
    using cs by (auto simp: cursors_ok_def)
  ultimately show ?thesis
    using assms footer_for_valid [OF assms] cs cursors_okD [OF cs]
    by (simp add: state_from_footer_def footer_for_eq footer_cursors_of footer_of_fields get_str_def integer_def
        batch_ok_def state_after_def)
qed

lemma load_file:
  assumes "batch_ok L st es now"
  shows "load_segment L (file_of L st es now) = Inr (Some (file_of L st es now, footer_for L st es now))"
proof -
  have b: "0 \<le> js_global_sequence st + 1" "js_global_sequence st + 1 < 10 ^ 20"
    "0 \<le> js_global_sequence st + int (length es)" "js_global_sequence st + int (length es) < 10 ^ 20"
    using assms by (auto simp: batch_ok_def state_ok_def Suc_leI neq_Nil_conv)
  have "segment_match (sf_name (file_of L st es now)) =
      Some (nat (js_global_sequence st + 1), nat (js_global_sequence st + int (length es)))"
    unfolding file_of_def using segment_match_name [OF b] by simp
  moreover have "dated_dir (sf_dir (file_of L st es now))"
    using assms iso_date_shape by (simp add: file_of_def dated_dir_def batch_ok_def)
  ultimately show ?thesis
    using b read_footer_file [OF assms]
    by (simp add: load_segment_def) (simp add: footer_for_eq footer_of_fields integer_def require_def)
qed

type_synonym batch = "source_entry list \<times> time"

fun segments_of :: "pylib \<Rightarrow> string \<Rightarrow> journal_state \<Rightarrow> batch list \<Rightarrow> segment list" where
  "segments_of L rt st [] = []"
| "segments_of L rt st ((es, now) # bs) =
     (file_of L st es now, footer_for L st es now) # segments_of L rt (state_after L rt st es now) bs"

fun state_of :: "pylib \<Rightarrow> string \<Rightarrow> journal_state \<Rightarrow> batch list \<Rightarrow> journal_state" where
  "state_of L rt st [] = st"
| "state_of L rt st ((es, now) # bs) = state_of L rt (state_after L rt st es now) bs"

fun batches_ok :: "pylib \<Rightarrow> string \<Rightarrow> journal_state \<Rightarrow> batch list \<Rightarrow> bool" where
  "batches_ok L rt st [] \<longleftrightarrow> True"
| "batches_ok L rt st ((es, now) # bs) \<longleftrightarrow> batch_ok L st es now \<and> batches_ok L rt (state_after L rt st es now) bs"

lemma segments_of_append:
  "segments_of L rt st (bs @ cs) = segments_of L rt st bs @ segments_of L rt (state_of L rt st bs) cs"
  by (induction L rt st bs rule: segments_of.induct) simp_all

lemma state_of_append: "state_of L rt st (bs @ cs) = state_of L rt (state_of L rt st bs) cs"
  by (induction L rt st bs rule: state_of.induct) simp_all

lemma batches_ok_append:
  "batches_ok L rt st (bs @ cs) \<longleftrightarrow> batches_ok L rt st bs \<and> batches_ok L rt (state_of L rt st bs) cs"
  by (induction L rt st bs rule: batches_ok.induct) simp_all

lemma footer_for_ints:
  "footer_int (footer_for L st es now) ''segment_start_sequence'' = js_global_sequence st + 1"
  "footer_int (footer_for L st es now) ''global_sequence'' = js_global_sequence st + int (length es)"
  by (simp_all add: footer_int_def footer_for_eq footer_of_fields)

lemma load_segments:
  "batches_ok L rt st bs \<Longrightarrow>
   res_map (load_segment L) (map fst (segments_of L rt st bs)) = Inr (map Some (segments_of L rt st bs))"
  by (induction L rt st bs rule: batches_ok.induct) (simp_all add: load_file)

lemma segment_starts:
  "batches_ok L rt st bs \<Longrightarrow> s \<in> set (segments_of L rt st bs) \<Longrightarrow>
   js_global_sequence st < footer_int (snd s) ''segment_start_sequence''"
proof (induction L rt st bs rule: batches_ok.induct)
  case (2 L rt st es now bs)
  have "js_global_sequence st \<le> js_global_sequence (state_after L rt st es now)" by (simp add: state_after_def)
  with 2 show ?case by (auto simp: footer_for_ints)
qed simp

lemma segments_sorted:
  "batches_ok L rt st bs \<Longrightarrow> sorted (map (\<lambda>s. footer_int (snd s) ''segment_start_sequence'') (segments_of L rt st bs))"
proof (induction L rt st bs rule: batches_ok.induct)
  case (2 L rt st es now bs)
  then have "js_global_sequence st + 1 \<le> footer_int (snd s) ''segment_start_sequence''"
    if "s \<in> set (segments_of L rt (state_after L rt st es now) bs)" for s
    using that segment_starts [of L rt "state_after L rt st es now" bs s] by (simp add: state_after_def)
  with 2 show ?case by (simp add: footer_for_ints)
qed simp

lemma segments_contiguous: "batches_ok L rt st bs \<Longrightarrow> contiguous (segments_of L rt st bs) = Inr ()"
proof (induction L rt st bs rule: batches_ok.induct)
  case (2 L rt st es now bs)
  then show ?case
    by (cases bs) (auto simp: footer_for_ints state_after_def)
qed simp

lemma map_filter_Some: "List.map_filter id (map Some xs) = xs"
  by (induction xs) (simp_all add: List.map_filter_simps)

lemma published_segments_of:
  assumes "batches_ok L rt st bs"
  shows "published_segments L (map fst (segments_of L rt st bs)) = Inr (segments_of L rt st bs)"
  using load_segments [OF assms] segments_sorted [OF assms] segments_contiguous [OF assms]
  by (simp add: published_segments_def map_filter_Some sort_key_id_if_sorted)

lemma head_state_of:
  assumes "batches_ok L rt initial_state bs"
  shows "head_state L rt (segments_of L rt initial_state bs) = Inr (state_of L rt initial_state bs)"
proof (cases bs rule: rev_cases)
  case (snoc bs' b)
  obtain es now where b: "b = (es, now)" by (cases b)
  from assms snoc b have "batch_ok L (state_of L rt initial_state bs') es now" by (simp add: batches_ok_append)
  from state_from_footer_for [OF this, of rt] snoc b show ?thesis
    by (simp add: head_state_def segments_of_append state_of_append)
qed (simp add: head_state_def)

lemma check_chain_of:
  "batches_ok L rt st bs \<Longrightarrow>
   check_chain L rt (segments_of L rt st bs) (js_global_sequence st + 1) (js_head_hash st) (state_cursors st) n st0 =
   Inr ([], n + int (length (concat (map fst bs))), if bs = [] then st0 else state_of L rt st bs)"
proof (induction L rt st bs arbitrary: n st0 rule: batches_ok.induct)
  case (2 L rt st es now bs)
  let ?st = "state_after L rt st es now"
  from 2 have b: "batch_ok L st es now" by simp
  have c: "check_segment L (sf_lines (file_of L st es now)) (js_global_sequence st + 1) (js_head_hash st) (state_cursors st) =
      Inr \<lparr>cs_count = int (length es), cs_sequence = js_global_sequence ?st + 1, cs_hash = js_head_hash ?st,
           cs_cursors = state_cursors ?st, cs_footer = footer_for L st es now\<rparr>"
    using check_published [of st es L now] b batch_cursors(2) [OF b, of rt]
    by (simp add: batch_ok_def file_of_def footer_for_def) (simp add: state_after_def)
  have "check_chain L rt (segments_of L rt st ((es, now) # bs)) (js_global_sequence st + 1) (js_head_hash st) (state_cursors st) n st0 =
      check_chain L rt (segments_of L rt ?st bs) (js_global_sequence ?st + 1) (js_head_hash ?st) (state_cursors ?st)
        (n + int (length es)) ?st"
    by (simp add: c state_from_footer_for [OF b])
  with 2 show ?case by simp
qed simp

section \<open>Entries and tables\<close>

text \<open>Receipts are appended with growing positive ids.\<close>

definition tables_ok :: "catalog_db \<Rightarrow> bool" where
  "tables_ok c \<longleftrightarrow>
     sorted_wrt (<) (map vr_event_id (verify_receipts c)) \<and> sorted_wrt (<) (map ev_id (retention_events c)) \<and>
     (\<forall>r \<in> set (verify_receipts c). 0 < vr_event_id r) \<and> (\<forall>e \<in> set (retention_events c). 0 < ev_id e)"

lemma sorted_wrt_filter_map: "sorted_wrt (<) (map f xs) \<Longrightarrow> sorted_wrt (<) (map f (filter P xs))"
  by (induction xs) auto

lemma sorted_wrt_sort_key: "sorted_wrt (<) (map (f :: 'a \<Rightarrow> nat) xs) \<Longrightarrow> sort_key f xs = xs"
  by (rule sort_key_id_if_sorted) (simp add: strict_sorted_imp_sorted)

lemma filter_split_sorted:
  "sorted_wrt (<) (map f xs) \<Longrightarrow> filter (\<lambda>x. int (f x) \<le> c) xs @ filter (\<lambda>x. c < int (f x)) xs = xs"
proof (induction xs)
  case (Cons x xs)
  show ?case
  proof (cases "int (f x) \<le> c")
    case False
    then have "filter (\<lambda>x. int (f x) \<le> c) xs = []" "filter (\<lambda>x. c < int (f x)) xs = xs"
      using Cons.prems by (auto simp: filter_empty_conv filter_id_conv)
    with False show ?thesis by simp
  qed (use Cons in simp)
qed simp

lemma payload_event_id:
  "map_of (verify_receipt_payload r) ''event_id'' = Some (JInt (int (vr_event_id r)))"
  "map_of (retention_event_payload e) ''event_id'' = Some (JInt (int (ev_id e)))"
  by (simp_all add: verify_receipt_payload_def retention_event_payload_def)

lemma entry_simps [simp]:
  "se_source (receipt_entry r) = ''verify_receipt''" "se_event_id (receipt_entry r) = int (vr_event_id r)"
  "se_payload (receipt_entry r) = verify_receipt_payload r"
  "se_source (event_entry e) = ''retention_event''" "se_event_id (event_entry e) = int (ev_id e)"
  "se_payload (event_entry e) = retention_event_payload e"
  by (simp_all add: receipt_entry_def event_entry_def)

lemma entries_ok_events:
  "sorted_wrt (<) (map ev_id es) \<Longrightarrow> (\<forall>e \<in> set es. b < int (ev_id e)) \<Longrightarrow>
   (case ord of None \<Rightarrow> True | Some p \<Rightarrow> \<forall>e \<in> set es. p < (1, int (ev_id e))) \<Longrightarrow>
   entries_ok ord [(''verify_receipt'', a), (''retention_event'', b)] (map event_entry es)"
proof (induction es arbitrary: ord b)
  case (Cons e es)
  from Cons.IH [of "int (ev_id e)" "Some (1, int (ev_id e))"] Cons.prems
  have "entries_ok (Some (1, int (ev_id e))) [(''verify_receipt'', a), (''retention_event'', int (ev_id e))] (map event_entry es)"
    by (auto simp: less_prod_def)
  with Cons.prems show ?case
    by (auto simp: SOURCE_RANK_def payload_event_id dict_set_def split: option.splits)
qed simp

lemma entries_ok_new:
  "sorted_wrt (<) (map vr_event_id rs) \<Longrightarrow> sorted_wrt (<) (map ev_id es) \<Longrightarrow>
   (\<forall>r \<in> set rs. a < int (vr_event_id r)) \<Longrightarrow> (\<forall>e \<in> set es. b < int (ev_id e)) \<Longrightarrow>
   (case ord of None \<Rightarrow> True | Some p \<Rightarrow> fst p = 0 \<and> (\<forall>r \<in> set rs. snd p < int (vr_event_id r))) \<Longrightarrow>
   entries_ok ord [(''verify_receipt'', a), (''retention_event'', b)] (map receipt_entry rs @ map event_entry es)"
proof (induction rs arbitrary: ord a)
  case Nil
  then show ?case using entries_ok_events [of es b ord a] by (auto simp: less_prod_def split: option.splits)
next
  case (Cons r rs)
  from Cons.IH [of "int (vr_event_id r)" "Some (0, int (vr_event_id r))"] Cons.prems
  have "entries_ok (Some (0, int (vr_event_id r))) [(''verify_receipt'', int (vr_event_id r)), (''retention_event'', b)]
      (map receipt_entry rs @ map event_entry es)"
    by auto
  with Cons.prems show ?case
    by (auto simp: SOURCE_RANK_def payload_event_id dict_set_def less_prod_def split: option.splits)
qed

lemma cursors_after_new:
  "cursors_after [(''verify_receipt'', a), (''retention_event'', b)] (map receipt_entry rs @ map event_entry es) =
   [(''verify_receipt'', if rs = [] then a else int (vr_event_id (last rs))),
    (''retention_event'', if es = [] then b else int (ev_id (last es)))]"
proof -
  have "cursors_after [(''verify_receipt'', a), (''retention_event'', b)] (map event_entry es) =
      [(''verify_receipt'', a), (''retention_event'', if es = [] then b else int (ev_id (last es)))]" for a b
    by (induction es arbitrary: b) (auto simp: dict_set_def)
  then show ?thesis
    by (induction rs arbitrary: a) (auto simp: dict_set_def)
qed

lemma segment_entries_append: "segment_entries (ls @ ks) = segment_entries ls @ segment_entries ks"
  by (simp add: segment_entries_def List.map_filter_def)

lemma entry_of_entry_line: "entry_of_line (Value (entry_line L seq e head)) = Some e"
  by (simp add: entry_line_def entry_of_line_def link_of_def)

lemma segment_entries_lines: "segment_entries (map Value (fst (entry_lines L seq head cs es))) = es"
proof (induction es arbitrary: seq head cs)
  case (Cons e es)
  from Cons [of "seq + 1" "entry_hash_of L seq e head" "dict_set (se_source e) (se_event_id e) cs"] show ?case
    by (auto simp: segment_entries_def List.map_filter_simps entry_of_entry_line split: prod.splits)
qed (simp add: segment_entries_def List.map_filter_simps)

lemma segment_entries_file: "segment_entries (sf_lines (file_of L st es now)) = es"
proof -
  have "entry_of_line (Value (JObj (footer_for L st es now))) = None"
    by (simp add: entry_of_line_def footer_for_eq footer_of_fields)
  then show ?thesis
    by (simp add: file_of_def segment_lines_eq Let_def segment_entries_append segment_entries_lines)
       (simp add: segment_entries_def List.map_filter_simps footer_for_eq)
qed

section \<open>The state of the world between exports\<close>

definition exported :: "catalog_db \<Rightarrow> journal_state \<Rightarrow> source_entry list \<Rightarrow> bool" where
  "exported c st es \<longleftrightarrow>
     filter (\<lambda>e. se_source e = ''verify_receipt'') es =
       map receipt_entry (filter (\<lambda>r. int (vr_event_id r) \<le> js_verify_receipt_cursor st) (verify_receipts c)) \<and>
     filter (\<lambda>e. se_source e \<noteq> ''verify_receipt'') es =
       map event_entry (filter (\<lambda>r. int (ev_id r) \<le> js_retention_event_cursor st) (retention_events c))"

definition journal_inv :: "pylib \<Rightarrow> batch list \<Rightarrow> journal_world \<Rightarrow> bool" where
  "journal_inv L bs w \<longleftrightarrow>
     jw_files w = map fst (segments_of L (jw_root w) initial_state bs) \<and> batches_ok L (jw_root w) initial_state bs \<and>
     tables_ok (jw_catalog w) \<and> checkpoint_ahead_issue (jw_catalog w) (state_of L (jw_root w) initial_state bs) = None \<and>
     exported (jw_catalog w) (state_of L (jw_root w) initial_state bs) (concat (map fst bs))"

lemma initial_ok: "state_ok initial_state"
  by (simp add: state_ok_def initial_state_def GENESIS_HASH_def is_sha256_def length_sha256_hex sha256_hex_chars list_all_iff)

lemma state_of_ok: "state_ok st \<Longrightarrow> batches_ok L rt st bs \<Longrightarrow> state_ok (state_of L rt st bs)"
  by (induction L rt st bs rule: batches_ok.induct) (simp_all add: state_after_ok)

lemma state_of_sequence:
  "js_global_sequence (state_of L rt st bs) = js_global_sequence st + int (length (concat (map fst bs)))"
  by (induction L rt st bs rule: state_of.induct) (simp_all add: state_after_def)

lemma segment_name_below:
  "batches_ok L rt st bs \<Longrightarrow> f \<in> fst ` set (segments_of L rt st bs) \<Longrightarrow>
   \<exists>a b. segment_match (sf_name f) = Some (a, b) \<and> int a \<le> js_global_sequence (state_of L rt st bs)"
proof (induction L rt st bs rule: batches_ok.induct)
  case (2 L rt st es now bs)
  let ?st = "state_after L rt st es now"
  from 2 have b: "batch_ok L st es now" by simp
  then have "segment_match (sf_name (file_of L st es now)) =
      Some (nat (js_global_sequence st + 1), nat (js_global_sequence st + int (length es)))"
    using segment_match_name [of "js_global_sequence st + 1" "js_global_sequence st + int (length es)"]
    by (auto simp: file_of_def batch_ok_def state_ok_def Suc_leI neq_Nil_conv)
  moreover have "int (nat (js_global_sequence st + 1)) \<le> js_global_sequence (state_of L rt ?st bs)"
    using b by (cases es) (auto simp: state_of_sequence state_after_def batch_ok_def state_ok_def)
  ultimately show ?case using 2 by auto
qed simp

lemma exported_count:
  assumes "exported c st es"
  shows "length es = length (filter (\<lambda>r. int (vr_event_id r) \<le> js_verify_receipt_cursor st) (verify_receipts c)) +
                     length (filter (\<lambda>r. int (ev_id r) \<le> js_retention_event_cursor st) (retention_events c))"
  using assms sum_length_filter_compl [of "\<lambda>e. se_source e = ''verify_receipt''" es]
  by (simp add: exported_def)

section \<open>One export\<close>

text \<open>
  What the runtime gives: a clock between the years the standard library represents, a parser that reads
  back the text the exporter wrote, and fewer receipts than the twenty digits of a file name can number.
\<close>

definition runtime_ok :: "pylib \<Rightarrow> time \<Rightarrow> catalog_db \<Rightarrow> bool" where
  "runtime_ok L now c \<longleftrightarrow>
     datetime_ok now \<and> pl_parse_time L (isoformat_z now) = Some now \<and>
     int (length (verify_receipts c) + length (retention_events c)) < 10 ^ 20"

lemma new_entries_eq:
  assumes "tables_ok c"
  shows "new_source_entries c st =
    map receipt_entry (filter (\<lambda>r. js_verify_receipt_cursor st < int (vr_event_id r)) (verify_receipts c)) @
    map event_entry (filter (\<lambda>r. js_retention_event_cursor st < int (ev_id r)) (retention_events c))"
  using assms by (simp add: new_source_entries_def tables_ok_def sorted_wrt_sort_key sorted_wrt_filter_map)

lemma sorted_wrt_last: "sorted_wrt (<) (map f ys) \<Longrightarrow> x \<in> set ys \<Longrightarrow> f x \<le> (f (last ys) :: nat)"
  by (cases ys rule: rev_cases) (auto simp: sorted_wrt_append)

lemma cursor_covers:
  assumes "sorted_wrt (<) (map f xs)"
    and "c' = (if filter (\<lambda>x. c < int (f x)) xs = [] then c else int (f (last (filter (\<lambda>x. c < int (f x)) xs))))"
  shows "\<forall>x \<in> set xs. int (f x) \<le> c'"
proof
  fix x
  assume x: "x \<in> set xs"
  show "int (f x) \<le> c'"
  proof (cases "c < int (f x)")
    case True
    with x have "x \<in> set (filter (\<lambda>x. c < int (f x)) xs)" by simp
    with sorted_wrt_last [OF sorted_wrt_filter_map [OF assms(1)] this] assms(2) show ?thesis by (auto simp: filter_empty_conv)
  next
    case False
    have "c \<le> c'"
    proof (cases "filter (\<lambda>x. c < int (f x)) xs = []")
      case False
      from last_in_set [OF this] assms(2) False show ?thesis by auto
    qed (simp add: assms(2))
    with False show ?thesis by simp
  qed
qed

lemma cursors_of_new:
  assumes "tables_ok c"
  shows "\<forall>r \<in> set (verify_receipts c). int (vr_event_id r) \<le> js_verify_receipt_cursor (state_after L rt st (new_source_entries c st) now)"
    (is "?V")
    and "\<forall>e \<in> set (retention_events c). int (ev_id e) \<le> js_retention_event_cursor (state_after L rt st (new_source_entries c st) now)"
    (is "?E")
proof -
  have s: "sorted_wrt (<) (map vr_event_id (verify_receipts c))" "sorted_wrt (<) (map ev_id (retention_events c))"
    using assms by (simp_all add: tables_ok_def)
  show ?V by (rule cursor_covers [OF s(1), where c = "js_verify_receipt_cursor st"])
    (simp add: new_entries_eq [OF assms] state_after_def cursors_after_new)
  show ?E by (rule cursor_covers [OF s(2), where c = "js_retention_event_cursor st"])
    (simp add: new_entries_eq [OF assms] state_after_def cursors_after_new)
qed

lemma nothing_new:
  assumes "tables_ok c" "\<forall>r \<in> set (verify_receipts c). int (vr_event_id r) \<le> js_verify_receipt_cursor st"
    "\<forall>e \<in> set (retention_events c). int (ev_id e) \<le> js_retention_event_cursor st"
  shows "new_source_entries c st = []"
  using assms by (auto simp: new_entries_eq filter_empty_conv)

lemma exported_new:
  assumes "tables_ok c" "exported c st es"
  shows "exported c (state_after L rt st (new_source_entries c st) now) (es @ new_source_entries c st)"
proof -
  note cov = cursors_of_new [OF assms(1), of L rt st now]
  have all: "filter (\<lambda>r. int (vr_event_id r) \<le> js_verify_receipt_cursor (state_after L rt st (new_source_entries c st) now)) (verify_receipts c) = verify_receipts c"
    "filter (\<lambda>e. int (ev_id e) \<le> js_retention_event_cursor (state_after L rt st (new_source_entries c st) now)) (retention_events c) = retention_events c"
    using cov by (simp_all add: filter_id_conv)
  have "map receipt_entry (verify_receipts c) =
      map receipt_entry (filter (\<lambda>r. int (vr_event_id r) \<le> js_verify_receipt_cursor st) (verify_receipts c)) @
      map receipt_entry (filter (\<lambda>r. js_verify_receipt_cursor st < int (vr_event_id r)) (verify_receipts c))"
    "map event_entry (retention_events c) =
      map event_entry (filter (\<lambda>r. int (ev_id r) \<le> js_retention_event_cursor st) (retention_events c)) @
      map event_entry (filter (\<lambda>r. js_retention_event_cursor st < int (ev_id r)) (retention_events c))"
    using assms(1) by (simp_all add: tables_ok_def filter_split_sorted flip: map_append)
  with assms show ?thesis
    unfolding exported_def all by (simp add: new_entries_eq filter_map o_def)
qed

lemma new_batch_ok:
  assumes "tables_ok c" "exported c st es" "state_ok st" "js_global_sequence st = int (length es)"
    and "runtime_ok L now c" "new_source_entries c st \<noteq> []"
  shows "batch_ok L st (new_source_entries c st) now"
proof -
  let ?n = "new_source_entries c st"
  have "entries_ok None (state_cursors st) ?n"
    unfolding new_entries_eq [OF assms(1)]
    by (rule entries_ok_new) (use assms(1) in \<open>auto simp: tables_ok_def sorted_wrt_filter_map\<close>)
  moreover have "length (es @ ?n) = length (verify_receipts c) + length (retention_events c)"
    using exported_count [OF exported_new [OF assms(1,2), of L "[]" now]] cursors_of_new [OF assms(1), of L "[]" st now]
    by (simp add: filter_id_conv)
  ultimately show ?thesis
    using assms(3-6) by (simp add: batch_ok_def runtime_ok_def)
qed

lemma write_checkpoint_fields [simp]:
  "verify_receipts (write_checkpoint st c) = verify_receipts c"
  "retention_events (write_checkpoint st c) = retention_events c"
  "tables_ok (write_checkpoint st c) = tables_ok c"
  "new_source_entries (write_checkpoint st c) st' = new_source_entries c st'"
  "exported (write_checkpoint st c) st' es = exported c st' es"
  by (auto simp: write_checkpoint_def tables_ok_def new_source_entries_def exported_def split: option.splits)

lemma write_checkpoint_ahead:
  "js_global_sequence st \<le> js_global_sequence st' \<Longrightarrow> checkpoint_ahead_issue c st' = None \<Longrightarrow>
   checkpoint_ahead_issue (write_checkpoint st c) st' = None"
  by (auto simp: write_checkpoint_def checkpoint_ahead_issue_def split: option.splits if_splits)

lemma set_catalog_fields [simp]:
  "jw_catalog (set_catalog c w) = c" "jw_files (set_catalog c w) = jw_files w" "jw_root (set_catalog c w) = jw_root w"
  "jw_destination (set_catalog c w) = jw_destination w"
  by (simp_all add: set_catalog_def)

definition next_batches :: "pylib \<Rightarrow> batch list \<Rightarrow> time \<Rightarrow> journal_world \<Rightarrow> batch list" where
  "next_batches L bs now w =
     (let new = new_source_entries (jw_catalog w) (state_of L (jw_root w) initial_state bs)
      in if new = [] then bs else bs @ [(new, now)])"

lemma publish_segment_of:
  assumes "batches_ok L rt initial_state bs" "batch_ok L (state_of L rt initial_state bs) es now"
  shows "publish_segment L rt es (state_of L rt initial_state bs) now (map fst (segments_of L rt initial_state bs)) =
    (let st = state_of L rt initial_state bs
     in Inr (map fst (segments_of L rt initial_state bs) @ [file_of L st es now],
             (file_of L st es now, footer_for L st es now), Inr (state_after L rt st es now)))"
proof -
  let ?st = "state_of L rt initial_state bs"
  have "segment_match (sf_name (file_of L ?st es now)) =
      Some (nat (js_global_sequence ?st + 1), nat (js_global_sequence ?st + int (length es)))"
    using assms(2) segment_match_name [of "js_global_sequence ?st + 1" "js_global_sequence ?st + int (length es)"]
    by (auto simp: file_of_def batch_ok_def state_ok_def Suc_leI neq_Nil_conv)
  then have "sf_name g \<noteq> sf_name (file_of L ?st es now)" if "g \<in> fst ` set (segments_of L rt initial_state bs)" for g
    using segment_name_below [OF assms(1) that] assms(2) by (auto simp: batch_ok_def state_ok_def)
  then have "\<not> list_ex (\<lambda>g. sf_dir g = sf_dir (file_of L ?st es now) \<and> sf_name g = sf_name (file_of L ?st es now))
      (map fst (segments_of L rt initial_state bs))"
    by (fastforce simp: list_ex_iff)
  then show ?thesis
    using state_from_footer_for [OF assms(2), of rt]
    unfolding publish_segment_def Let_def case_prod_beta file_of_def footer_for_def by simp
qed

lemma journal_invD:
  assumes "journal_inv L bs w"
  shows "published_segments L (jw_files w) = Inr (segments_of L (jw_root w) initial_state bs)"
    and "head_state L (jw_root w) (segments_of L (jw_root w) initial_state bs) = Inr (state_of L (jw_root w) initial_state bs)"
    and "state_ok (state_of L (jw_root w) initial_state bs)"
    and "js_global_sequence (state_of L (jw_root w) initial_state bs) = int (length (concat (map fst bs)))"
  using assms published_segments_of head_state_of state_of_ok [OF initial_ok] state_of_sequence [of L "jw_root w" initial_state bs]
  by (auto simp: journal_inv_def initial_state_def)

lemma next_inv:
  assumes "journal_inv L bs w" "runtime_ok L now (jw_catalog w)"
  defines "bs' \<equiv> next_batches L bs now w"
  defines "st \<equiv> state_of L (jw_root w) initial_state bs'"
  shows "batches_ok L (jw_root w) initial_state bs'" "exported (jw_catalog w) st (concat (map fst bs'))"
    "new_source_entries (jw_catalog w) st = []" "checkpoint_ahead_issue (jw_catalog w) st = None"
proof -
  let ?st = "state_of L (jw_root w) initial_state bs" and ?c = "jw_catalog w"
  let ?new = "new_source_entries ?c ?st"
  note inv = assms(1) [unfolded journal_inv_def]
  have t: "tables_ok ?c" and e: "exported ?c ?st (concat (map fst bs))" using inv by simp_all
  have st: "st = (if ?new = [] then ?st else state_after L (jw_root w) ?st ?new now)"
    by (simp add: st_def bs'_def next_batches_def state_of_append Let_def)
  have b: "batch_ok L ?st ?new now" if "?new \<noteq> []"
    by (rule new_batch_ok [OF t e]) (use that assms journal_invD [OF assms(1)] in auto)
  show "batches_ok L (jw_root w) initial_state bs'"
    using inv b by (simp add: bs'_def next_batches_def Let_def batches_ok_append)
  show "exported ?c st (concat (map fst bs'))"
    using e exported_new [OF t e, of L "jw_root w" now] unfolding st by (simp add: bs'_def next_batches_def Let_def)
  show "new_source_entries ?c st = []"
    using nothing_new [OF t cursors_of_new [OF t, of L "jw_root w" ?st now]] unfolding st by simp
  have "js_global_sequence ?st \<le> js_global_sequence st" unfolding st by (simp add: state_after_def)
  then show "checkpoint_ahead_issue ?c st = None"
    using inv by (auto simp: checkpoint_ahead_issue_def split: option.splits if_splits)
qed

text \<open>The parts of the world a step of the exporter leaves alone.\<close>

definition same_tables :: "journal_world \<Rightarrow> journal_world \<Rightarrow> bool" where
  "same_tables w w' \<longleftrightarrow>
     verify_receipts (jw_catalog w') = verify_receipts (jw_catalog w) \<and>
     retention_events (jw_catalog w') = retention_events (jw_catalog w) \<and> jw_root w' = jw_root w"

lemma export_publish_spec:
  assumes "journal_inv L bs w" "runtime_ok L now (jw_catalog w)"
  defines "bs' \<equiv> next_batches L bs now w"
  shows "\<exists>w' new f. export_publish L crash now w =
      (w', if crash \<and> bs' \<noteq> bs then Inl CrashHook
           else Inr (segments_of L (jw_root w) initial_state bs', new, f, state_of L (jw_root w) initial_state bs')) \<and>
    journal_inv L bs' w' \<and> same_tables w w' \<and> jw_destination w' = jw_destination w \<and> (f \<noteq> None \<longleftrightarrow> bs' \<noteq> bs) \<and>
    concat (map fst bs') = concat (map fst bs) @ new"
proof -
  let ?rt = "jw_root w" and ?c = "jw_catalog w"
  let ?st = "state_of L ?rt initial_state bs" and ?ss = "segments_of L ?rt initial_state bs"
  let ?new = "new_source_entries ?c ?st"
  let ?w1 = "set_catalog (write_checkpoint ?st ?c) w"
  note inv = assms(1) [unfolded journal_inv_def] and D = journal_invD [OF assms(1)]
  note N = next_inv [OF assms(1,2), folded bs'_def]
  have ca: "checkpoint_ahead_issue ?c ?st = None" using inv by simp
  show ?thesis
  proof (cases "?new = []")
    case True
    then have bs': "bs' = bs" by (simp add: bs'_def next_batches_def)
    have "export_publish L crash now w = (?w1, Inr (?ss, [], None, ?st))"
      using D ca True by (simp add: export_publish_def Let_def)
    moreover have "journal_inv L bs ?w1" using inv by (simp add: journal_inv_def write_checkpoint_ahead)
    ultimately show ?thesis by (auto simp: bs' same_tables_def)
  next
    case False
    then have bs': "bs' = bs @ [(?new, now)]" by (simp add: bs'_def next_batches_def)
    let ?f = "file_of L ?st ?new now" and ?st' = "state_after L ?rt ?st ?new now"
    let ?w2 = "?w1\<lparr>jw_files := jw_files w @ [?f]\<rparr>"
    let ?w3 = "set_catalog (write_checkpoint ?st' (jw_catalog ?w2)) ?w2"
    have b: "batch_ok L ?st ?new now" using N(1) by (simp add: bs' batches_ok_append)
    have st': "state_of L ?rt initial_state bs' = ?st'" by (simp add: bs' state_of_append)
    have ss': "segments_of L ?rt initial_state bs' = ?ss @ [(?f, footer_for L ?st ?new now)]"
      by (simp add: bs' segments_of_append)
    have p: "publish_segment L ?rt ?new ?st now (jw_files w) =
        Inr (jw_files w @ [?f], (?f, footer_for L ?st ?new now), Inr ?st')"
      using publish_segment_of [of L ?rt bs ?new now] inv b by (simp add: Let_def)
    have "export_publish L crash now w = (if crash then (?w2, Inl CrashHook) else (?w3, Inr (segments_of L ?rt initial_state bs', ?new, Some ?f, ?st')))"
      using D ca False read_footer_file [OF b] by (simp add: export_publish_def Let_def p ss')
    moreover have "journal_inv L bs' ?w2" "journal_inv L bs' ?w3"
      using inv N by (auto simp: journal_inv_def ss' st' state_after_def intro!: write_checkpoint_ahead)
    moreover have "bs' \<noteq> bs" "concat (map fst bs') = concat (map fst bs) @ ?new" by (simp_all add: bs')
    ultimately show ?thesis by (cases crash) (auto simp: st' same_tables_def)
  qed
qed

lemma record_observation_catalog: "catalog (fst (record_observation now d t a obs x y db)) = catalog db"
  by (simp add: record_observation_def Let_def split: option.splits prod.splits)

lemma project_alarm_catalog [simp]: "catalog (project_journal_alarm now k a r m db) = catalog db"
  using record_observation_catalog [of now ALARM_DOMAIN k a "if a then OBSERVED_MISSING else OBSERVED_PRESENT" None None db]
  by (auto simp: project_journal_alarm_def split: prod.splits)

lemma journal_inv_cong:
  "jw_catalog w' = jw_catalog w \<Longrightarrow> jw_files w' = jw_files w \<Longrightarrow> jw_root w' = jw_root w \<Longrightarrow>
   journal_inv L bs w' = journal_inv L bs w"
  by (simp add: journal_inv_def)

lemma refresh_spec:
  assumes "journal_inv L bs w"
  shows "\<exists>st db. refresh_staleness_alarm L None now w = (w\<lparr>jw_db := db\<rparr>, Inr st) \<and> catalog db = jw_catalog w"
proof -
  have "\<exists>st. journal_operational_status L None now w = Inr st"
    using journal_invD [OF assms]
    by (simp add: journal_operational_status_def stale_threshold_def DEFAULT_STALE_SECONDS_def Let_def)
  then obtain st where "journal_operational_status L None now w = Inr st" ..
  then show ?thesis
    by (intro exI [of _ st] exI [of _ "project_journal_alarm now ''export-stale'' (os_stale st) ''export-stale'' (stale_message st) (jw_db w)"])
       (simp add: refresh_staleness_alarm_def)
qed

lemma export_ship_fields:
  "export_ship L up ss w = (w', n, e) \<Longrightarrow> jw_db w' = jw_db w \<and> jw_files w' = jw_files w \<and> jw_root w' = jw_root w"
  by (auto simp: export_ship_def split: if_splits option.splits prod.splits sum.splits)

lemma export_locked_spec:
  assumes "journal_inv L bs w" "runtime_ok L now (jw_catalog w)"
  defines "bs' \<equiv> next_batches L bs now w"
  shows "\<exists>w1 w' r. export_locked L crash up now w = (w', if crash \<and> bs' \<noteq> bs then Inl CrashHook else Inr r) \<and>
    journal_inv L bs' w' \<and> same_tables w w' \<and> xr_state r = state_of L (jw_root w) initial_state bs' \<and>
    xr_published r = (bs' \<noteq> bs) \<and> concat (map fst bs') = concat (map fst bs) @ drop (length (concat (map fst bs))) (concat (map fst bs')) \<and>
    xr_entry_count r = length (concat (map fst bs')) - length (concat (map fst bs)) \<and>
    jw_root w1 = jw_root w \<and> jw_destination w1 = jw_destination w \<and>
    (if crash \<and> bs' \<noteq> bs then jw_destination w' = jw_destination w
     else export_ship L up (segments_of L (jw_root w) initial_state bs') w1 =
            (w1\<lparr>jw_destination := jw_destination w'\<rparr>, xr_shipped_segments r, xr_shipping_error r))"
proof -
  obtain w1 new f where p: "export_publish L crash now w =
      (w1, if crash \<and> bs' \<noteq> bs then Inl CrashHook
           else Inr (segments_of L (jw_root w) initial_state bs', new, f, state_of L (jw_root w) initial_state bs'))"
    and w1: "journal_inv L bs' w1" "same_tables w w1" "jw_destination w1 = jw_destination w" "f \<noteq> None \<longleftrightarrow> bs' \<noteq> bs"
      "concat (map fst bs') = concat (map fst bs) @ new"
    using export_publish_spec [OF assms(1,2), of crash, folded bs'_def] by blast
  let ?ss = "segments_of L (jw_root w) initial_state bs'"
  show ?thesis
  proof (cases "crash \<and> bs' \<noteq> bs")
    case True
    define r where "r = \<lparr>xr_published = True, xr_entry_count = length new, xr_segment = f,
      xr_state = state_of L (jw_root w) initial_state bs', xr_shipped_segments = 0, xr_shipping_error = None\<rparr>"
    from p True w1 show ?thesis
      by (intro exI [of _ w1] exI [of _ r]) (simp add: export_locked_def same_tables_def r_def)
  next
    case False
    obtain w2 n e where ship: "export_ship L up ?ss w1 = (w2, n, e)" by (cases "export_ship L up ?ss w1") auto
    note w2 = export_ship_fields [OF ship]
    define db2 where "db2 = export_alarms L e now (jw_db w2)"
    have "journal_inv L bs' (w2\<lparr>jw_db := db2\<rparr>)"
      using w1(1) w2 by (subst journal_inv_cong [of _ w1]) (simp_all add: db2_def export_alarms_def)
    from refresh_spec [OF this, of now] obtain st db where
      rf: "refresh_staleness_alarm L None now (w2\<lparr>jw_db := db2\<rparr>) = (w2\<lparr>jw_db := db2, jw_db := db\<rparr>, Inr st)" "catalog db = catalog db2"
      by auto
    define r where "r = \<lparr>xr_published = (f \<noteq> None), xr_entry_count = length new, xr_segment = f,
      xr_state = state_of L (jw_root w) initial_state bs', xr_shipped_segments = n, xr_shipping_error = e\<rparr>"
    have "export_locked L crash up now w = (w2\<lparr>jw_db := db\<rparr>, Inr r)"
      using False rf by (simp add: export_locked_def p ship Let_def r_def flip: db2_def)
    moreover have "catalog db = jw_catalog w1" using rf w2 by (simp add: db2_def export_alarms_def)
    moreover from this have "journal_inv L bs' (w2\<lparr>jw_db := db\<rparr>)"
      using w1(1) w2 by (subst journal_inv_cong [of _ w1]) simp_all
    moreover have "export_ship L up ?ss w1 = (w1\<lparr>jw_destination := jw_destination w2\<rparr>, n, e)" using ship w2 by simp
    ultimately show ?thesis
      using False w1 w2
      by - (rule exI [of _ w1], rule exI [of _ "w2\<lparr>jw_db := db\<rparr>"], rule exI [of _ r], auto simp: same_tables_def r_def)
  qed
qed

end
