(* ===== verification/Journal_Shipping.thy ===== *)
theory Journal_Shipping
  imports Journal_Facts "HOL-Library.Sublist"
begin

text \<open>
  Shipping of published segments to the append-only destination: under any pattern of transport outages
  the destination is a prefix of one fixed sequence of objects, the segments in order, each followed by
  the anchor of its head.
\<close>

section \<open>Destination keys\<close>

definition safe_char :: "char \<Rightarrow> bool" where
  "safe_char c \<longleftrightarrow> 32 \<le> (of_char c :: nat) \<and> of_char c \<noteq> (127 :: nat) \<and> c \<noteq> CHR ''/'' \<and> c \<noteq> CHR 0x5C"

lemma safe_not_control: "safe_char c \<Longrightarrow> \<not> ((of_char c :: nat) < 32 \<or> of_char c = (127 :: nat))"
  by (simp add: safe_char_def)

lemma safe_digit: "digit_val c \<noteq> None \<Longrightarrow> safe_char c"
  by (auto simp: digit_val_def safe_char_def Let_def split: if_splits)

lemma safe_iso_date: "c \<in> set (iso_date t) \<Longrightarrow> safe_char c"
proof -
  have "safe_char (CHR ''-'')" by (simp add: safe_char_def)
  then show "c \<in> set (iso_date t) \<Longrightarrow> safe_char c"
    by (auto simp: iso_date_def split: prod.splits dest: zfill_digits intro: safe_digit)
qed

lemma safe_segment_name: "c \<in> set (segment_name a b) \<Longrightarrow> safe_char c"
proof -
  have "list_all safe_char (''retention-journal-'' @ ''-'' @ ''.jsonl'')" by (simp add: safe_char_def)
  then show "c \<in> set (segment_name a b) \<Longrightarrow> safe_char c"
    by (auto simp: segment_name_def list_all_iff dest: zfill_digits intro: safe_digit)
qed

lemma validated_key:
  assumes "\<forall>c \<in> set d. safe_char c" "\<forall>c \<in> set n. safe_char c" "2 < length d" "2 < length n"
  shows "validated_destination_key (d @ ''/'' @ n) = Inr (d @ ''/'' @ n)"
proof -
  have ns: "CHR ''/'' \<notin> set d" "CHR ''/'' \<notin> set n" "CHR 0x5C \<notin> set d" "CHR 0x5C \<notin> set n"
    using assms(1,2) by (auto simp: safe_char_def)
  have "split_at (CHR ''/'') (d @ ''/'' @ n) = [d, n]" using split_at_one [OF ns(1,2)] by simp
  moreover have "\<not> list_ex (\<lambda>c. of_char c < (32 :: nat) \<or> of_char c = (127 :: nat)) (d @ ''/'' @ n)"
    using safe_not_control assms(1,2) by (auto simp: list_ex_iff)
  moreover have "hd (d @ ''/'' @ n) \<noteq> CHR ''/''" using assms(3) ns(1) by (cases d) auto
  ultimately show ?thesis using ns assms(3,4) by (auto simp: validated_destination_key_def)
qed

lemma keys_of_file:
  assumes "batch_ok L st es now"
  defines "f \<equiv> file_of L st es now"
  shows "validated_destination_key (segment_key f) = Inr (segment_key f)"
    and "validated_destination_key (anchor_key f) = Inr (anchor_key f)"
    and "length (sf_dir f) = 10" and "length (sf_name f) = 65"
proof -
  have "length (iso_date now) = 10" using assms iso_date_shape by (simp add: batch_ok_def)
  then show d: "length (sf_dir f) = 10" by (simp add: f_def file_of_def)
  have b: "0 \<le> js_global_sequence st + 1" "js_global_sequence st + 1 < 10 ^ 20"
    "0 \<le> js_global_sequence st + int (length es)" "js_global_sequence st + int (length es) < 10 ^ 20"
    using assms by (auto simp: batch_ok_def state_ok_def Suc_leI neq_Nil_conv)
  show n: "length (sf_name f) = 65"
    using length_zfill_20 [OF b(1,2)] length_zfill_20 [OF b(3,4)] by (simp add: f_def file_of_def segment_name_def)
  have s: "\<forall>c \<in> set (sf_dir f). safe_char c" "\<forall>c \<in> set (sf_name f). safe_char c"
    using safe_iso_date safe_segment_name by (auto simp: f_def file_of_def)
  have "list_all safe_char ''.head.json''" by (simp add: safe_char_def)
  with s have "\<forall>c \<in> set (sf_name f @ ''.head.json''). safe_char c" by (auto simp: list_all_iff)
  from validated_key [OF s(1) this] d n show "validated_destination_key (anchor_key f) = Inr (anchor_key f)"
    by (simp add: anchor_key_def segment_key_def)
  show "validated_destination_key (segment_key f) = Inr (segment_key f)"
    using validated_key [OF s] d n by (simp add: segment_key_def)
qed

section \<open>The log of shipped objects\<close>

definition anchor_blob :: "pylib \<Rightarrow> string \<Rightarrow> segment \<Rightarrow> blob" where
  "anchor_blob L rt s = (case anchor_of L rt s of Inl _ \<Rightarrow> TextBlob [] | Inr b \<Rightarrow> b)"

definition ship_pair :: "pylib \<Rightarrow> string \<Rightarrow> segment \<Rightarrow> destination" where
  "ship_pair L rt s =
     [(segment_key (fst s), SegmentBlob (sf_lines (fst s))), (anchor_key (fst s), anchor_blob L rt s)]"

definition ship_log :: "pylib \<Rightarrow> string \<Rightarrow> segment list \<Rightarrow> destination" where
  "ship_log L rt segs = concat (map (ship_pair L rt) segs)"

definition shippable :: "pylib \<Rightarrow> string \<Rightarrow> segment list \<Rightarrow> bool" where
  "shippable L rt segs \<longleftrightarrow>
     (\<forall>s \<in> set segs. anchor_of L rt s = Inr (anchor_blob L rt s) \<and>
        validated_destination_key (segment_key (fst s)) = Inr (segment_key (fst s)) \<and>
        validated_destination_key (anchor_key (fst s)) = Inr (anchor_key (fst s))) \<and>
     distinct (map fst (ship_log L rt segs))"

lemma ship_log_append: "ship_log L rt (as @ bs) = ship_log L rt as @ ship_log L rt bs"
  by (simp add: ship_log_def)

lemma ship_log_Cons: "ship_log L rt (s # ss) = ship_pair L rt s @ ship_log L rt ss"
  by (simp add: ship_log_def)

lemma length_ship_log: "length (ship_log L rt segs) = 2 * length segs"
  by (induction segs) (simp_all add: ship_log_def ship_pair_def)

lemma anchor_of_file:
  assumes "batch_ok L st es now"
  shows "anchor_of L rt (file_of L st es now, footer_for L st es now) =
         Inr (anchor_blob L rt (file_of L st es now, footer_for L st es now))"
  using state_from_footer_for [OF assms, of rt] by (simp add: anchor_of_def anchor_blob_def)

lemma log_keys_above:
  "batches_ok L rt st bs \<Longrightarrow> k \<in> fst ` set (ship_log L rt (segments_of L rt st bs)) \<Longrightarrow>
   \<exists>a b. segment_match (take 65 (drop 11 k)) = Some (a, b) \<and> js_global_sequence st < int a"
proof (induction L rt st bs rule: batches_ok.induct)
  case (2 L rt st es now bs)
  let ?f = "file_of L st es now" and ?st = "state_after L rt st es now"
  from 2 have b: "batch_ok L st es now" by simp
  note K = keys_of_file [OF b]
  have m: "segment_match (sf_name ?f) = Some (nat (js_global_sequence st + 1), nat (js_global_sequence st + int (length es)))"
    using b segment_match_name [of "js_global_sequence st + 1" "js_global_sequence st + int (length es)"]
    by (auto simp: file_of_def batch_ok_def state_ok_def Suc_leI neq_Nil_conv)
  have "take 65 (drop 11 (segment_key ?f)) = sf_name ?f" "take 65 (drop 11 (anchor_key ?f)) = sf_name ?f"
    using K(3,4) by (simp_all add: segment_key_def anchor_key_def)
  moreover have "k = segment_key ?f \<or> k = anchor_key ?f \<or> k \<in> fst ` set (ship_log L rt (segments_of L rt ?st bs))"
    using 2(3) by (auto simp: ship_log_Cons ship_pair_def)
  ultimately show ?case
    using 2 m b by (fastforce simp: batch_ok_def state_ok_def state_after_def)
qed (simp add: ship_log_def)

lemma shippable_segments: "batches_ok L rt st bs \<Longrightarrow> shippable L rt (segments_of L rt st bs)"
proof (induction L rt st bs rule: batches_ok.induct)
  case (2 L rt st es now bs)
  let ?f = "file_of L st es now" and ?st = "state_after L rt st es now"
  from 2 have b: "batch_ok L st es now" and bs: "batches_ok L rt ?st bs" by simp_all
  note K = keys_of_file [OF b]
  have m: "segment_match (sf_name ?f) = Some (nat (js_global_sequence st + 1), nat (js_global_sequence st + int (length es)))"
    using b segment_match_name [of "js_global_sequence st + 1" "js_global_sequence st + int (length es)"]
    by (auto simp: file_of_def batch_ok_def state_ok_def Suc_leI neq_Nil_conv)
  have t: "take 65 (drop 11 (segment_key ?f)) = sf_name ?f" "take 65 (drop 11 (anchor_key ?f)) = sf_name ?f"
    using K(3,4) by (simp_all add: segment_key_def anchor_key_def)
  have ge: "js_global_sequence st + 1 \<le> js_global_sequence ?st" "0 \<le> js_global_sequence st"
    using b by (cases es; simp add: state_after_def batch_ok_def state_ok_def)+
  have "k \<notin> fst ` set (ship_log L rt (segments_of L rt ?st bs))" if "take 65 (drop 11 k) = sf_name ?f" for k
  proof
    assume "k \<in> fst ` set (ship_log L rt (segments_of L rt ?st bs))"
    from log_keys_above [OF bs this] that m ge show False by auto
  qed
  with t have "segment_key ?f \<notin> fst ` set (ship_log L rt (segments_of L rt ?st bs))"
    "anchor_key ?f \<notin> fst ` set (ship_log L rt (segments_of L rt ?st bs))" by blast+
  moreover have "segment_key ?f \<noteq> anchor_key ?f" by (simp add: anchor_key_def)
  ultimately show ?case
    using 2 bs K anchor_of_file [OF b, of rt] by (auto simp: shippable_def ship_log_Cons ship_pair_def)
qed (simp add: shippable_def ship_log_def)

section \<open>Shipping extends the log\<close>

lemma dest_publish_new:
  "validated_destination_key k = Inr k \<Longrightarrow> k \<notin> fst ` set d \<Longrightarrow> dest_publish b k d = Inr (d @ [(k, b)])"
  by (simp add: dest_publish_def map_of_eq_None_iff [symmetric])

lemma dest_publish_same:
  "validated_destination_key k = Inr k \<Longrightarrow> map_of d k = Some b \<Longrightarrow> dest_publish b k d = Inr d"
  by (simp add: dest_publish_def)

text \<open>
  Shipping the segments \<open>ss\<close> after \<open>done\<close>, where the first of them may have reached the destination
  without its anchor.
\<close>

definition resumes :: "pylib \<Rightarrow> string \<Rightarrow> segment list \<Rightarrow> segment list \<Rightarrow> destination \<Rightarrow> bool" where
  "resumes L rt past ss d \<longleftrightarrow>
     d = ship_log L rt past \<or>
     (\<exists>s rest. ss = s # rest \<and> d = ship_log L rt past @ [(segment_key (fst s), SegmentBlob (sf_lines (fst s)))])"

lemma publish_segment_step:
  assumes "resumes L rt past (s # ss) d" "shippable L rt (past @ s # ss)"
  defines "d1 \<equiv> ship_log L rt past @ [(segment_key (fst s), SegmentBlob (sf_lines (fst s)))]"
  shows "dest_publish (SegmentBlob (sf_lines (fst s))) (segment_key (fst s)) d = Inr d1" "prefix d d1"
    and "dest_publish (anchor_blob L rt s) (anchor_key (fst s)) d1 = Inr (ship_log L rt (past @ [s]))"
proof -
  have v: "validated_destination_key (segment_key (fst s)) = Inr (segment_key (fst s))"
    "validated_destination_key (anchor_key (fst s)) = Inr (anchor_key (fst s))"
    and n: "segment_key (fst s) \<notin> fst ` set (ship_log L rt past)" "anchor_key (fst s) \<notin> fst ` set d1"
    using assms(2) by (auto simp: shippable_def ship_log_append ship_log_Cons ship_pair_def d1_def)
  have "map_of d1 (segment_key (fst s)) = Some (SegmentBlob (sf_lines (fst s)))"
    using n(1) by (simp add: d1_def map_add_def flip: map_of_eq_None_iff)
  note same = dest_publish_same [OF v(1) this]
  consider "d = ship_log L rt past" | "d = d1" using assms(1) by (auto simp: resumes_def d1_def)
  then show "dest_publish (SegmentBlob (sf_lines (fst s))) (segment_key (fst s)) d = Inr d1"
    using same dest_publish_new [OF v(1) n(1)] by cases (simp_all add: d1_def)
  show "prefix d d1" using assms(1) by (auto simp: resumes_def d1_def)
  show "dest_publish (anchor_blob L rt s) (anchor_key (fst s)) d1 = Inr (ship_log L rt (past @ [s]))"
    using dest_publish_new [OF v(2) n(2)] by (simp add: d1_def ship_log_def ship_pair_def)
qed

lemma ship_loop_log:
  assumes "resumes L rt past ss d" "shippable L rt (past @ ss)" "ship_loop L rt up k d ss = (d', r)"
  shows "prefix d d' \<and> prefix d' (ship_log L rt (past @ ss)) \<and>
    (r = Inr (length ss) \<and> d' = ship_log L rt (past @ ss) \<or> r = Inl TransportDown \<and> (\<exists>i. \<not> up i))"
  using assms
proof (induction ss arbitrary: past k d d' r)
  case Nil
  then show ?case by (auto simp: resumes_def)
next
  case (Cons s ss)
  note P = publish_segment_step [OF Cons.prems(1,2)]
  let ?d1 = "ship_log L rt past @ [(segment_key (fst s), SegmentBlob (sf_lines (fst s)))]"
  let ?d2 = "ship_log L rt (past @ [s])"
  have a: "anchor_of L rt s = Inr (anchor_blob L rt s)" using Cons.prems(2) by (simp add: shippable_def)
  have pre: "prefix ?d1 ?d2" "prefix ?d2 (ship_log L rt (past @ s # ss))"
    by (simp_all add: ship_log_append ship_log_Cons ship_pair_def ship_log_def)
  note D = prefix_order.trans [OF pre] prefix_order.trans [OF P(2) pre(1)]
    prefix_order.trans [OF P(2) prefix_order.trans [OF pre]]
  consider "\<not> up k" | "up k" "\<not> up (k + 1)" | "up k" "up (k + 1)" by blast
  then show ?case
  proof cases
    case 1
    with Cons.prems(3) D(3) show ?thesis by auto
  next
    case 2
    with Cons.prems(3) P a have "d' = ?d1" "r = Inl TransportDown" by auto
    with 2 P(2) D(1) show ?thesis by auto
  next
    case 3
    obtain d3 r3 where l: "ship_loop L rt up (k + 2) ?d2 ss = (d3, r3)" by fastforce
    have "prefix ?d2 d3 \<and> prefix d3 (ship_log L rt ((past @ [s]) @ ss)) \<and>
        (r3 = Inr (length ss) \<and> d3 = ship_log L rt ((past @ [s]) @ ss) \<or> r3 = Inl TransportDown \<and> (\<exists>i. \<not> up i))"
      by (rule Cons.IH [OF _ _ l]) (use Cons.prems(2) in \<open>simp_all add: resumes_def\<close>)
    moreover have "d' = d3" "r = map_sum id Suc r3" using Cons.prems(3) 3 P a l by simp_all
    ultimately show ?thesis using prefix_order.trans [OF D(2)] by auto
  qed
qed

lemma ship_scan_cong:
  "(\<And>s. s \<in> set ss \<Longrightarrow> map_of d (anchor_key (fst s)) = map_of d' (anchor_key (fst s))) \<Longrightarrow>
   ship_scan L rt up k d ss = ship_scan L rt up k d' ss"
proof (induction ss arbitrary: k)
  case (Cons s ss)
  then have "dest_read (anchor_key (fst s)) d = dest_read (anchor_key (fst s)) d'"
    by (auto simp: dest_read_def validated_destination_key_def)
  with Cons show ?case by (simp cong: if_cong)
qed simp

lemma shippable_appendD: "shippable L rt (ss @ [s]) \<Longrightarrow> shippable L rt ss"
  by (simp add: shippable_def ship_log_append)

lemma resumes_length: "resumes L rt past ss d \<Longrightarrow> length d = 2 * length past \<or> length d = 2 * length past + 1"
  by (auto simp: resumes_def length_ship_log)

lemma resumes_full: "resumes L rt (take n ss) (drop n ss) (ship_log L rt ss) \<Longrightarrow> n \<le> length ss \<Longrightarrow> n = length ss"
  using resumes_length [of L rt "take n ss" "drop n ss" "ship_log L rt ss"] by (simp add: length_ship_log; presburger)

lemma map_of_last_anchor:
  assumes "shippable L rt (ss @ [s])" "prefix d (ship_log L rt (ss @ [s]))"
  shows "map_of d (anchor_key (fst s)) = (if d = ship_log L rt (ss @ [s]) then Some (anchor_blob L rt s) else None)"
proof -
  let ?l = "ship_log L rt ss @ [(segment_key (fst s), SegmentBlob (sf_lines (fst s)))]"
  have log: "ship_log L rt (ss @ [s]) = ?l @ [(anchor_key (fst s), anchor_blob L rt s)]"
    by (simp add: ship_log_def ship_pair_def)
  have n: "anchor_key (fst s) \<notin> fst ` set ?l" using assms(1) by (auto simp: shippable_def log)
  consider "d = ship_log L rt (ss @ [s])" | "prefix d ?l" "d \<noteq> ship_log L rt (ss @ [s])"
    using assms(2) unfolding log prefix_snoc by blast
  then show ?thesis
  proof cases
    case 1
    with n show ?thesis by (simp add: log map_add_def flip: map_of_eq_None_iff)
  next
    case 2
    with n have "anchor_key (fst s) \<notin> fst ` set d" using set_mono_prefix [OF 2(1)] by blast
    with 2 show ?thesis by (simp flip: map_of_eq_None_iff)
  qed
qed

lemma ship_scan_log:
  "shippable L rt ss \<Longrightarrow> prefix d (ship_log L rt ss) \<Longrightarrow>
   (\<exists>n k'. ship_scan L rt up k d (rev ss) = Inr (n, k') \<and> n \<le> length ss \<and> resumes L rt (take n ss) (drop n ss) d) \<or>
   ship_scan L rt up k d (rev ss) = Inl TransportDown \<and> (\<exists>i. \<not> up i)"
proof (induction ss arbitrary: d k rule: rev_induct)
  case Nil
  then show ?case by (simp add: resumes_def ship_log_def)
next
  case (snoc s ss)
  note look = map_of_last_anchor [OF snoc.prems]
  have s: "anchor_of L rt s = Inr (anchor_blob L rt s)"
    "dest_read (anchor_key (fst s)) d = Inr (map_of d (anchor_key (fst s)))"
    using snoc.prems(1) by (auto simp: shippable_def dest_read_def)
  let ?seg = "(segment_key (fst s), SegmentBlob (sf_lines (fst s)))"
  have log: "ship_log L rt (ss @ [s]) = (ship_log L rt ss @ [?seg]) @ [(anchor_key (fst s), anchor_blob L rt s)]"
    by (simp add: ship_log_def ship_pair_def)
  consider "\<not> up k" | "up k" "d = ship_log L rt (ss @ [s])"
    | "up k" "d \<noteq> ship_log L rt (ss @ [s])" "prefix d (ship_log L rt ss)"
    | "up k" "d = ship_log L rt ss @ [?seg]" "d \<noteq> ship_log L rt (ss @ [s])"
    using snoc.prems(2) unfolding log prefix_snoc by blast
  then show ?case
  proof cases
    case 1
    then show ?thesis using s by auto
  next
    case 2
    then show ?thesis using s look by (simp add: resumes_def)
  next
    case 3
    have "ship_scan L rt up k d (rev (ss @ [s])) = ship_scan L rt up (k + 1) d (rev ss)" using 3 s look by simp
    moreover note snoc.IH [OF shippable_appendD [OF snoc.prems(1)] 3(3), of "k + 1"]
    ultimately show ?thesis by (auto simp: resumes_def)
  next
    case 4
    have "distinct (map fst (ship_log L rt ss @ [?seg]))" using snoc.prems(1) unfolding shippable_def log by simp
    then have "ship_scan L rt up (k + 1) d (rev ss) = ship_scan L rt up (k + 1) (ship_log L rt ss) (rev ss)"
      unfolding 4(2) by (intro ship_scan_cong) (force simp: map_add_def ship_log_def ship_pair_def split: option.splits)
    then have "ship_scan L rt up k d (rev (ss @ [s])) = ship_scan L rt up (k + 1) (ship_log L rt ss) (rev ss)"
      using 4(1,3) s look by simp
    moreover have "resumes L rt ss [s] d" using 4(2) by (simp add: resumes_def)
    moreover have "(\<exists>k'. ship_scan L rt up (k + 1) (ship_log L rt ss) (rev ss) = Inr (length ss, k')) \<or>
        ship_scan L rt up (k + 1) (ship_log L rt ss) (rev ss) = Inl TransportDown \<and> (\<exists>i. \<not> up i)"
      using snoc.IH [OF shippable_appendD [OF snoc.prems(1)] prefix_order.refl, of "k + 1"] resumes_full [of L rt _ ss] by blast
    ultimately show ?thesis by (simp del: ship_scan.simps rev_append) auto
  qed
qed

lemma ship_segments_log:
  assumes "shippable L rt ss" "prefix d (ship_log L rt ss)" "ship_segments L rt up ss d = (d', r)"
  shows "prefix d d' \<and> prefix d' (ship_log L rt ss) \<and>
    ((\<exists>n. r = Inr n) \<and> d' = ship_log L rt ss \<or> r = Inl TransportDown \<and> (\<exists>i. \<not> up i))"
  using ship_scan_log [OF assms(1,2), of up 0]
proof (elim disjE exE conjE)
  fix n k'
  assume n: "ship_scan L rt up 0 d (rev ss) = Inr (n, k')" "resumes L rt (take n ss) (drop n ss) d"
  then have "ship_loop L rt up k' d (drop n ss) = (d', r)" using assms(3) by (simp add: ship_segments_def)
  from ship_loop_log [OF n(2) _ this] assms(1) show ?thesis by auto
qed (use assms in \<open>auto simp: ship_segments_def\<close>)

section \<open>Off-box comparison\<close>

lemma ship_log_lookup:
  assumes "shippable L rt ss" "s \<in> set ss"
  shows "map_of (ship_log L rt ss) (segment_key (fst s)) = Some (SegmentBlob (sf_lines (fst s)))"
    and "map_of (ship_log L rt ss) (anchor_key (fst s)) = Some (anchor_blob L rt s)"
proof -
  have "set (ship_pair L rt s) \<subseteq> set (ship_log L rt ss)" using assms(2) by (auto simp: ship_log_def)
  then show "map_of (ship_log L rt ss) (segment_key (fst s)) = Some (SegmentBlob (sf_lines (fst s)))"
    "map_of (ship_log L rt ss) (anchor_key (fst s)) = Some (anchor_blob L rt s)"
    using assms(1) by (auto simp: ship_pair_def shippable_def intro!: map_of_is_SomeI)
qed

lemma compare_segments_log:
  assumes "shippable L rt ss"
  shows "set ps \<subseteq> set ss \<Longrightarrow> compare_segments (\<lambda>_. True) k (ship_log L rt ss) ps = ([], Inr (k + length ps))"
proof (induction ps arbitrary: k)
  case (Cons s ps)
  then have "dest_read (segment_key (fst s)) (ship_log L rt ss) = Inr (Some (SegmentBlob (sf_lines (fst s))))"
    using assms ship_log_lookup [OF assms, of s] by (auto simp: dest_read_def shippable_def)
  with Cons show ?case by simp
qed simp

lemma check_offbox_log:
  assumes "shippable L (jw_root w) ss" "ss \<noteq> []" "jw_destination w = Some (ship_log L (jw_root w) ss)"
  shows "check_offbox L (\<lambda>_. True) w ss = Inr ([], True)"
proof -
  have s: "last ss \<in> set ss" using assms(2) by simp
  then have "anchor_of L (jw_root w) (last ss) = Inr (anchor_blob L (jw_root w) (last ss))"
    "dest_read (anchor_key (fst (last ss))) (ship_log L (jw_root w) ss) = Inr (Some (anchor_blob L (jw_root w) (last ss)))"
    using assms(1) ship_log_lookup(2) [OF assms(1) s] by (auto simp: shippable_def dest_read_def)
  then show ?thesis using assms(2,3) compare_segments_log [OF assms(1) order_refl, of 0] by (simp add: check_offbox_def)
qed

section \<open>Histories of the journal\<close>

text \<open>
  Receipts and events arrive with growing ids, other work changes the rest of the database, and exports
  run at any time, with any transport outages and with or without a crash after publication.
\<close>

inductive journal_run :: "pylib \<Rightarrow> journal_world \<Rightarrow> bool" for L where
  start: "jw_files w = [] \<Longrightarrow> verify_receipts (jw_catalog w) = [] \<Longrightarrow> retention_events (jw_catalog w) = [] \<Longrightarrow>
    journal_checkpoints (jw_catalog w) = None \<Longrightarrow> jw_destination w \<in> {None, Some []} \<Longrightarrow> journal_run L w"
| receipt: "journal_run L w \<Longrightarrow> Max (insert 0 (vr_event_id ` set (verify_receipts (jw_catalog w)))) < vr_event_id r \<Longrightarrow>
    journal_run L (set_catalog ((jw_catalog w)\<lparr>verify_receipts := verify_receipts (jw_catalog w) @ [r]\<rparr>) w)"
| event: "journal_run L w \<Longrightarrow> Max (insert 0 (ev_id ` set (retention_events (jw_catalog w)))) < ev_id e \<Longrightarrow>
    journal_run L (set_catalog ((jw_catalog w)\<lparr>retention_events := retention_events (jw_catalog w) @ [e]\<rparr>) w)"
| work: "journal_run L w \<Longrightarrow> verify_receipts (catalog db) = verify_receipts (jw_catalog w) \<Longrightarrow>
    retention_events (catalog db) = retention_events (jw_catalog w) \<Longrightarrow>
    journal_checkpoints (catalog db) = journal_checkpoints (jw_catalog w) \<Longrightarrow> journal_run L (w\<lparr>jw_db := db\<rparr>)"
| export: "journal_run L w \<Longrightarrow> runtime_ok L now (jw_catalog w) \<Longrightarrow>
    journal_run L (fst (export_locked L crash up now w))"

definition cursors_known :: "catalog_db \<Rightarrow> journal_state \<Rightarrow> bool" where
  "cursors_known c st \<longleftrightarrow>
     js_verify_receipt_cursor st \<le> int (Max (insert 0 (vr_event_id ` set (verify_receipts c)))) \<and>
     js_retention_event_cursor st \<le> int (Max (insert 0 (ev_id ` set (retention_events c))))"

lemma last_id_le:
  assumes "filter P xs \<noteq> []"
  shows "f (last (filter P xs)) \<le> (Max (insert 0 (f ` set xs)) :: nat)"
proof -
  from last_in_set [OF assms] have "last (filter P xs) \<in> set xs" by simp
  then show ?thesis by (intro Max_ge) auto
qed

lemma cursors_known_after:
  assumes "tables_ok c" "cursors_known c st"
  shows "cursors_known c (state_after L rt st (new_source_entries c st) now)"
  using assms(2) last_id_le [of "\<lambda>r. js_verify_receipt_cursor st < int (vr_event_id r)" "verify_receipts c" vr_event_id]
    last_id_le [of "\<lambda>e. js_retention_event_cursor st < int (ev_id e)" "retention_events c" ev_id]
  by (simp add: cursors_known_def new_entries_eq [OF assms(1)] state_after_def cursors_after_new)

definition world_inv :: "pylib \<Rightarrow> batch list \<Rightarrow> journal_world \<Rightarrow> bool" where
  "world_inv L bs w \<longleftrightarrow>
     journal_inv L bs w \<and> cursors_known (jw_catalog w) (state_of L (jw_root w) initial_state bs) \<and>
     (case jw_destination w of
        None \<Rightarrow> True
      | Some d \<Rightarrow> prefix d (ship_log L (jw_root w) (segments_of L (jw_root w) initial_state bs)))"

lemma Max_append: "Max (insert 0 (f ` set xs)) \<le> (Max (insert 0 (f ` set (xs @ [x]))) :: nat)"
  by (intro Max_mono) auto

lemma world_inv_start:
  assumes "jw_files w = []" "verify_receipts (jw_catalog w) = []" "retention_events (jw_catalog w) = []"
    "journal_checkpoints (jw_catalog w) = None" "jw_destination w \<in> {None, Some []}"
  shows "world_inv L [] w"
  using assms
  by (auto simp: world_inv_def journal_inv_def cursors_known_def tables_ok_def checkpoint_ahead_issue_def exported_def
      initial_state_def)

lemma world_inv_receipt:
  assumes "world_inv L bs w" "Max (insert 0 (vr_event_id ` set (verify_receipts (jw_catalog w)))) < vr_event_id r"
  defines "w' \<equiv> set_catalog ((jw_catalog w)\<lparr>verify_receipts := verify_receipts (jw_catalog w) @ [r]\<rparr>) w"
  shows "world_inv L bs w'"
proof -
  have c: "js_verify_receipt_cursor (state_of L (jw_root w) initial_state bs) < int (vr_event_id r)"
    using assms(1,2) unfolding world_inv_def cursors_known_def by linarith
  have j: "journal_inv L bs w" using assms(1) by (simp add: world_inv_def)
  have i: "journal_inv L bs w'" unfolding w'_def using j c assms(2)
    by (auto simp: journal_inv_def tables_ok_def exported_def checkpoint_ahead_issue_def sorted_wrt_append)
  have w': "verify_receipts (jw_catalog w') = verify_receipts (jw_catalog w) @ [r]"
    "retention_events (jw_catalog w') = retention_events (jw_catalog w)" "jw_root w' = jw_root w" by (simp_all add: w'_def)
  have "cursors_known (jw_catalog w') (state_of L (jw_root w') initial_state bs)"
    using assms(1) [unfolded world_inv_def cursors_known_def] Max_append [of vr_event_id "verify_receipts (jw_catalog w)" r]
    unfolding cursors_known_def w' by linarith
  moreover have "jw_root w' = jw_root w" "jw_destination w' = jw_destination w" by (simp_all add: w'_def)
  ultimately show ?thesis using assms(1) i by (simp add: world_inv_def cong: option.case_cong)
qed

lemma world_inv_event:
  assumes "world_inv L bs w" "Max (insert 0 (ev_id ` set (retention_events (jw_catalog w)))) < ev_id e"
  defines "w' \<equiv> set_catalog ((jw_catalog w)\<lparr>retention_events := retention_events (jw_catalog w) @ [e]\<rparr>) w"
  shows "world_inv L bs w'"
proof -
  have c: "js_retention_event_cursor (state_of L (jw_root w) initial_state bs) < int (ev_id e)"
    using assms(1,2) unfolding world_inv_def cursors_known_def by linarith
  have j: "journal_inv L bs w" using assms(1) by (simp add: world_inv_def)
  have i: "journal_inv L bs w'" unfolding w'_def using j c assms(2)
    by (auto simp: journal_inv_def tables_ok_def exported_def checkpoint_ahead_issue_def sorted_wrt_append)
  have w': "retention_events (jw_catalog w') = retention_events (jw_catalog w) @ [e]"
    "verify_receipts (jw_catalog w') = verify_receipts (jw_catalog w)" "jw_root w' = jw_root w" by (simp_all add: w'_def)
  have "cursors_known (jw_catalog w') (state_of L (jw_root w') initial_state bs)"
    using assms(1) [unfolded world_inv_def cursors_known_def] Max_append [of ev_id "retention_events (jw_catalog w)" e]
    unfolding cursors_known_def w' by linarith
  moreover have "jw_root w' = jw_root w" "jw_destination w' = jw_destination w" by (simp_all add: w'_def)
  ultimately show ?thesis using assms(1) i by (simp add: world_inv_def cong: option.case_cong)
qed

lemma world_inv_work:
  assumes "world_inv L bs w" "verify_receipts (catalog db) = verify_receipts (jw_catalog w)"
    "retention_events (catalog db) = retention_events (jw_catalog w)"
    "journal_checkpoints (catalog db) = journal_checkpoints (jw_catalog w)"
  shows "world_inv L bs (w\<lparr>jw_db := db\<rparr>)"
  using assms
  by (simp add: world_inv_def journal_inv_def cursors_known_def tables_ok_def exported_def checkpoint_ahead_issue_def
      cong: option.case_cong)

lemma export_ship_log:
  assumes "shippable L (jw_root w) ss" "jw_destination w = Some d" "prefix d (ship_log L (jw_root w) ss)"
    "export_ship L up ss w = (w\<lparr>jw_destination := D\<rparr>, n, e)"
  shows "\<exists>d'. D = Some d' \<and> prefix d d' \<and> prefix d' (ship_log L (jw_root w) ss) \<and>
    (e = None \<and> d' = ship_log L (jw_root w) ss \<or> e = Some TransportDown \<and> (\<exists>i. \<not> up i))"
proof (cases "ss = []")
  case True
  with assms have "D = Some d" "e = None" by (auto simp: export_ship_def dest: arg_cong [where f = jw_destination])
  with True assms(3) show ?thesis by (simp add: ship_log_def)
next
  case False
  obtain d' r where r: "ship_segments L (jw_root w) up ss d = (d', r)" by fastforce
  have "D = Some d' \<and> e = (case r of Inl e \<Rightarrow> Some e | Inr n \<Rightarrow> None)"
    using assms(2,4) False r by (cases r) (auto simp: export_ship_def dest: arg_cong [where f = jw_destination])
  with ship_segments_log [OF assms(1,3) r] show ?thesis by (cases r) auto
qed

lemma export_ship_none: "jw_destination w = None \<Longrightarrow> export_ship L up ss w = (w\<lparr>jw_destination := D\<rparr>, n, e) \<Longrightarrow> D = None"
  by (auto simp: export_ship_def split: if_splits dest: arg_cong [where f = jw_destination])

lemma next_log_prefix:
  "prefix (ship_log L rt (segments_of L rt initial_state bs)) (ship_log L rt (segments_of L rt initial_state (next_batches L bs now w)))"
  by (simp add: next_batches_def Let_def segments_of_append ship_log_append)

lemma cursors_known_next:
  assumes "world_inv L bs w"
  shows "cursors_known (jw_catalog w) (state_of L (jw_root w) initial_state (next_batches L bs now w))"
  using assms cursors_known_after [of "jw_catalog w"]
  by (auto simp: world_inv_def journal_inv_def next_batches_def Let_def state_of_append)

lemma world_inv_export:
  assumes "world_inv L bs w" "runtime_ok L now (jw_catalog w)"
  defines "bs' \<equiv> next_batches L bs now w"
  obtains w' r where "export_locked L crash up now w = (w', if crash \<and> bs' \<noteq> bs then Inl CrashHook else Inr r)"
    "world_inv L bs' w'" "same_tables w w'" "xr_state r = state_of L (jw_root w) initial_state bs'"
    "xr_entry_count r = length (concat (map fst bs')) - length (concat (map fst bs))"
    "\<And>d. jw_destination w = Some d \<Longrightarrow> \<exists>d'. jw_destination w' = Some d' \<and> prefix d d' \<and>
       (crash \<or> (\<exists>i. \<not> up i) \<or> xr_shipping_error r = None \<and>
          d' = ship_log L (jw_root w) (segments_of L (jw_root w) initial_state bs'))"
proof -
  let ?log = "\<lambda>bs. ship_log L (jw_root w) (segments_of L (jw_root w) initial_state bs)"
  have j: "journal_inv L bs w" using assms(1) by (simp add: world_inv_def)
  obtain w1 w' r where e: "export_locked L crash up now w = (w', if crash \<and> bs' \<noteq> bs then Inl CrashHook else Inr r)"
    and inv: "journal_inv L bs' w'" "same_tables w w'" "xr_state r = state_of L (jw_root w) initial_state bs'"
      "xr_entry_count r = length (concat (map fst bs')) - length (concat (map fst bs))"
    and w1: "jw_root w1 = jw_root w" "jw_destination w1 = jw_destination w"
      "if crash \<and> bs' \<noteq> bs then jw_destination w' = jw_destination w
       else export_ship L up (segments_of L (jw_root w) initial_state bs') w1 =
              (w1\<lparr>jw_destination := jw_destination w'\<rparr>, xr_shipped_segments r, xr_shipping_error r)"
    using export_locked_spec [OF j assms(2), of crash up, folded bs'_def] by blast
  have rt: "jw_root w' = jw_root w" using inv(2) by (simp add: same_tables_def)
  have ship: "shippable L (jw_root w1) (segments_of L (jw_root w) initial_state bs')"
    using next_inv(1) [OF j assms(2)] shippable_segments by (simp add: bs'_def w1)
  have D: "\<exists>d'. jw_destination w' = Some d' \<and> prefix d d' \<and> prefix d' (?log bs') \<and>
      (crash \<or> (\<exists>i. \<not> up i) \<or> xr_shipping_error r = None \<and> d' = ?log bs')" if d: "jw_destination w = Some d" for d
  proof -
    have p: "prefix d (?log bs')"
      using assms(1) d prefix_order.trans [OF _ next_log_prefix] by (simp add: world_inv_def bs'_def)
    then show ?thesis
      using w1 d export_ship_log [OF ship, of d up "jw_destination w'" "xr_shipped_segments r" "xr_shipping_error r"]
      by (cases "crash \<and> bs' \<noteq> bs") auto
  qed
  have N: "jw_destination w' = None" if "jw_destination w = None"
    using that w1 export_ship_none [of w1 L up] by (auto split: if_splits)
  have "cursors_known (jw_catalog w') (state_of L (jw_root w) initial_state bs')"
    using cursors_known_next [OF assms(1), of now] inv(2) by (simp add: bs'_def cursors_known_def same_tables_def)
  then have "world_inv L bs' w'"
    unfolding world_inv_def rt using inv(1) N D by (cases "jw_destination w") auto
  with e inv D show ?thesis by (intro that [of w' r]) blast+
qed

lemma journal_run_inv: "journal_run L w \<Longrightarrow> \<exists>bs. world_inv L bs w"
proof (induction rule: journal_run.induct)
  case (start w)
  then have "world_inv L [] w" by (rule world_inv_start)
  then show ?case ..
next
  case (export w now crash up)
  then obtain bs where "world_inv L bs w" by blast
  from world_inv_export [OF this export(2), of crash up] show ?case by (metis fst_conv)
qed (use world_inv_receipt world_inv_event world_inv_work in blast)+

definition published_entries :: "journal_world \<Rightarrow> source_entry list" where
  "published_entries w = concat (map (\<lambda>f. segment_entries (sf_lines f)) (jw_files w))"

lemma published_entries_of: "journal_inv L bs w \<Longrightarrow> published_entries w = concat (map fst bs)"
proof -
  have "concat (map (\<lambda>f. segment_entries (sf_lines f)) (map fst (segments_of L rt st bs))) = concat (map fst bs)" for rt st
    by (induction L rt st bs rule: segments_of.induct) (simp_all add: segment_entries_file)
  then show "journal_inv L bs w \<Longrightarrow> published_entries w = concat (map fst bs)"
    by (simp add: published_entries_def journal_inv_def)
qed

lemma exported_all:
  assumes "world_inv L bs w" "runtime_ok L now (jw_catalog w)"
  defines "es \<equiv> concat (map fst (next_batches L bs now w))"
  shows "filter (\<lambda>e. se_source e = ''verify_receipt'') es = map receipt_entry (verify_receipts (jw_catalog w))"
    "filter (\<lambda>e. se_source e \<noteq> ''verify_receipt'') es = map event_entry (retention_events (jw_catalog w))"
    "length es = length (verify_receipts (jw_catalog w)) + length (retention_events (jw_catalog w))"
proof -
  let ?st = "state_of L (jw_root w) initial_state (next_batches L bs now w)"
  have j: "journal_inv L bs w" using assms(1) by (simp add: world_inv_def)
  then have t: "tables_ok (jw_catalog w)" by (simp add: journal_inv_def)
  note N = next_inv [OF j assms(2)]
  have all: "filter (\<lambda>r. int (vr_event_id r) \<le> js_verify_receipt_cursor ?st) (verify_receipts (jw_catalog w)) = verify_receipts (jw_catalog w)"
    "filter (\<lambda>e. int (ev_id e) \<le> js_retention_event_cursor ?st) (retention_events (jw_catalog w)) = retention_events (jw_catalog w)"
    using N(3) by (auto simp: new_entries_eq [OF t] filter_id_conv filter_empty_conv not_less)
  show "filter (\<lambda>e. se_source e = ''verify_receipt'') es = map receipt_entry (verify_receipts (jw_catalog w))"
    "filter (\<lambda>e. se_source e \<noteq> ''verify_receipt'') es = map event_entry (retention_events (jw_catalog w))"
    using N(2) unfolding exported_def all es_def by simp_all
  show "length es = length (verify_receipts (jw_catalog w)) + length (retention_events (jw_catalog w))"
    using exported_count [OF N(2)] unfolding all es_def by simp
qed

end
