(* ===== verification/Journal_Properties.thy ===== *)
theory Journal_Properties
  imports Journal_Shipping
begin

text \<open>
  The guarantees of the retention journal as a whole: every receipt is published once, whatever crashes
  and outages happened before; an export with a working transport leaves a journal that verification
  accepts; the destination only grows; and two journals with the same head hold the same entries.
\<close>

section \<open>Verification after an export\<close>

lemma checkpoint_none: "world_inv L bs w \<Longrightarrow>
   checkpoint_ahead_issue (jw_catalog w) (state_of L (jw_root w) initial_state bs) = None"
  by (simp add: world_inv_def journal_inv_def)

lemma length_segments_of: "length (segments_of L rt st bs) = length bs"
  by (induction L rt st bs rule: segments_of.induct) simp_all

lemma check_journal_shipped:
  assumes "world_inv L bs w" "bs \<noteq> []"
    "jw_destination w = Some (ship_log L (jw_root w) (segments_of L (jw_root w) initial_state bs))"
  shows "\<exists>cr. check_journal L (\<lambda>_. True) w = Inr cr \<and> cr_issues cr = [] \<and>
    cr_entry_count cr = int (length (concat (map fst bs))) \<and> cr_state cr = state_of L (jw_root w) initial_state bs \<and>
    cr_file_count cr = length bs"
proof -
  let ?ss = "segments_of L (jw_root w) initial_state bs" and ?st = "state_of L (jw_root w) initial_state bs"
  have j: "journal_inv L bs w" using assms(1) by (simp add: world_inv_def)
  then have ok: "batches_ok L (jw_root w) initial_state bs" by (simp add: journal_inv_def)
  have len: "length ?ss = length bs" by (rule length_segments_of)
  then have ne: "?ss \<noteq> []" using assms(2) by auto
  have chain: "check_chain L (jw_root w) ?ss 1 GENESIS_HASH [(''verify_receipt'', 0), (''retention_event'', 0)] 0 initial_state =
      Inr ([], int (length (concat (map fst bs))), ?st)"
    using check_chain_of [OF ok, of 0 initial_state] assms(2) by (simp add: initial_state_def)
  have off: "check_offbox L (\<lambda>_. True) w ?ss = Inr ([], True)"
    using check_offbox_log [OF shippable_segments [OF ok] ne assms(3)] .
  show ?thesis
    using journal_invD(1,2) [OF j] ne chain off checkpoint_none [OF assms(1)]
    by (simp add: check_journal_def len Let_def)
qed

lemma next_batches_ne:
  assumes "world_inv L bs w" "runtime_ok L now (jw_catalog w)"
    "verify_receipts (jw_catalog w) \<noteq> [] \<or> retention_events (jw_catalog w) \<noteq> []"
  shows "next_batches L bs now w \<noteq> []"
  using exported_all(3) [OF assms(1,2)] assms(3) by auto

text \<open>C30: After any history of receipts, unrelated work and exports, interrupted or not, an export succeeds,
  and the published files then hold an entry for every row of both receipt tables, each exactly once and
  in order, and nothing else.\<close>

theorem journal_export_exactly_once:
  assumes "journal_run L w" "runtime_ok L now (jw_catalog w)"
  shows "\<exists>w' r. export_locked L False up now w = (w', Inr r) \<and>
    filter (\<lambda>e. se_source e = ''verify_receipt'') (published_entries w') = map receipt_entry (verify_receipts (jw_catalog w)) \<and>
    filter (\<lambda>e. se_source e \<noteq> ''verify_receipt'') (published_entries w') = map event_entry (retention_events (jw_catalog w)) \<and>
    xr_entry_count r = length (published_entries w') - length (published_entries w) \<and> same_tables w w'"
proof -
  obtain bs where inv: "world_inv L bs w" using journal_run_inv [OF assms(1)] by blast
  obtain w' r where "export_locked L False up now w = (w', if False \<and> next_batches L bs now w \<noteq> bs then Inl CrashHook else Inr r)"
    and w': "world_inv L (next_batches L bs now w) w'" "same_tables w w'"
    "xr_entry_count r = length (concat (map fst (next_batches L bs now w))) - length (concat (map fst bs))"
    using world_inv_export [OF inv assms(2), of False up] by metis
  moreover have "published_entries w' = concat (map fst (next_batches L bs now w))" "published_entries w = concat (map fst bs)"
    using w'(1) inv published_entries_of by (auto simp: world_inv_def)
  ultimately show ?thesis using exported_all [OF inv assms(2)] by simp
qed

text \<open>C32: An export with a working transport leaves nothing for the verification to report: it ships what is
  missing, and walking the published files, comparing them with the off-box copy and checking the
  checkpoint finds no issue and counts every receipt.\<close>

theorem journal_verifies_after_export:
  assumes "journal_run L w" "runtime_ok L now (jw_catalog w)" "jw_destination w \<noteq> None"
    "verify_receipts (jw_catalog w) \<noteq> [] \<or> retention_events (jw_catalog w) \<noteq> []"
  shows "\<exists>w' r cr. export_locked L False (\<lambda>_. True) now w = (w', Inr r) \<and> xr_shipping_error r = None \<and>
    check_journal L (\<lambda>_. True) w' = Inr cr \<and> cr_issues cr = [] \<and> cr_state cr = xr_state r \<and>
    cr_entry_count cr = int (length (verify_receipts (jw_catalog w)) + length (retention_events (jw_catalog w)))"
proof -
  obtain bs where inv: "world_inv L bs w" using journal_run_inv [OF assms(1)] by blast
  let ?bs = "next_batches L bs now w"
  obtain d where d: "jw_destination w = Some d" using assms(3) by blast
  obtain w' r where e: "export_locked L False (\<lambda>_. True) now w = (w', if False \<and> ?bs \<noteq> bs then Inl CrashHook else Inr r)"
    and w': "world_inv L ?bs w'" "same_tables w w'" "xr_state r = state_of L (jw_root w) initial_state ?bs"
    and "\<exists>d'. jw_destination w' = Some d' \<and> prefix d d' \<and> (False \<or> (\<exists>i. \<not> True) \<or> xr_shipping_error r = None \<and>
          d' = ship_log L (jw_root w) (segments_of L (jw_root w) initial_state ?bs))"
    by (rule world_inv_export [OF inv assms(2), of False "\<lambda>_. True"]) (use d in blast)
  then have s: "xr_shipping_error r = None" "jw_root w' = jw_root w"
    "jw_destination w' = Some (ship_log L (jw_root w') (segments_of L (jw_root w') initial_state ?bs))"
    by (auto simp: same_tables_def)
  from check_journal_shipped [OF w'(1) next_batches_ne [OF inv assms(2,4)] s(3)] show ?thesis
    using e s w'(3) exported_all(3) [OF inv assms(2)] by auto
qed

text \<open>C33: Under any pattern of outages and crashes an export never changes an object at the destination, and
  what the destination holds is a prefix of the fixed log of the published segments, each followed by
  the anchor of its head.\<close>

theorem journal_ship_append_only:
  assumes "journal_run L w" "runtime_ok L now (jw_catalog w)" "jw_destination w = Some d"
    "export_locked L crash up now w = (w', r)"
  shows "\<exists>d' ss. jw_destination w' = Some d' \<and> prefix d d' \<and> published_segments L (jw_files w') = Inr ss \<and>
    prefix d' (ship_log L (jw_root w') ss)"
proof -
  obtain bs where inv: "world_inv L bs w" using journal_run_inv [OF assms(1)] by blast
  have "world_inv L (next_batches L bs now w) w' \<and> (\<exists>d'. jw_destination w' = Some d' \<and> prefix d d')"
    by (rule world_inv_export [OF inv assms(2), of crash up]) (use assms(3,4) in fastforce)
  then show ?thesis
    using journal_invD(1) [of L "next_batches L bs now w" w'] by (auto simp: world_inv_def)
qed

section \<open>Tamper evidence\<close>

definition entries_of_segments :: "segment list \<Rightarrow> source_entry list" where
  "entries_of_segments ss = concat (map (\<lambda>s. segment_entries (sf_lines (fst s))) ss)"

lemma check_segment_head:
  "check_segment L ls seq h cs = Inr r \<Longrightarrow> map_of (cs_footer r) ''head_hash'' = Some (JStr (cs_hash r))"
  by (auto simp: check_segment_def check_Inr split: option.splits)

lemma state_from_footer_head:
  "state_from_footer L footer p = Inr st \<Longrightarrow> map_of footer ''head_hash'' = Some (JStr (js_head_hash st))"
  by (auto simp: state_from_footer_def check_Inr split: option.splits)

lemma check_chain_hash:
  "check_chain L rt ss seq h cs n st0 = Inr ([], m, st) \<Longrightarrow> js_head_hash st0 = h \<Longrightarrow>
   js_head_hash st = chain_hash L seq h (entries_of_segments ss)"
proof (induction ss arbitrary: seq h cs n st0)
  case (Cons s ss)
  then obtain r st1 where r: "check_segment L (sf_lines (fst s)) seq h cs = Inr r"
    "state_from_footer L (cs_footer r) (segment_path rt (fst s)) = Inr st1"
    "check_chain L rt ss (cs_sequence r) (cs_hash r) (cs_cursors r) (n + cs_count r) st1 = Inr ([], m, st)"
    by (auto simp: res_bind_Inr_iff split: sum.splits if_splits)
  have "js_head_hash st1 = cs_hash r" using check_segment_head [OF r(1)] state_from_footer_head [OF r(2)] by simp
  from Cons.IH [OF r(3) this] check_segment_Inr [OF r(1)] show ?case
    by (simp add: entries_of_segments_def chain_hash_append)
qed (simp add: entries_of_segments_def)

lemma check_journal_hash:
  assumes "check_journal L up w = Inr cr" "cr_issues cr = []" "published_segments L (jw_files w) = Inr ss"
  shows "js_head_hash (cr_state cr) = chain_hash L 1 GENESIS_HASH (entries_of_segments ss)"
proof -
  from assms obtain n where
    "check_chain L (jw_root w) ss 1 GENESIS_HASH [(''verify_receipt'', 0), (''retention_event'', 0)] 0 initial_state =
     Inr ([], n, cr_state cr)"
    by (auto simp: check_journal_def res_bind_Inr_iff Let_def split: option.splits)
  from check_chain_hash [OF this] show ?thesis by (simp add: initial_state_def)
qed

text \<open>C31: Two journals that verification accepts and whose walks end in the same head hash hold the same
  entries in the same order: rewriting, dropping, inserting or reordering a receipt under an unchanged
  head exhibits two texts with one SHA-256 digest.\<close>

theorem journal_tamper_evident:
  assumes "float_text_ok (pl_float_text L)"
    and "published_segments L (jw_files w1) = Inr ss1" "check_journal L up1 w1 = Inr cr1" "cr_issues cr1 = []"
    and "published_segments L (jw_files w2) = Inr ss2" "check_journal L up2 w2 = Inr cr2" "cr_issues cr2 = []"
    and "js_head_hash (cr_state cr1) = js_head_hash (cr_state cr2)"
  shows "list_all2 same_entry (entries_of_segments ss1) (entries_of_segments ss2) \<or>
    sha256_collision (hashed_texts L 1 GENESIS_HASH (entries_of_segments ss1) \<union>
                      hashed_texts L 1 GENESIS_HASH (entries_of_segments ss2))"
  using chain_determines_entries [OF assms(1)] check_journal_hash [OF assms(3,4,2)] check_journal_hash [OF assms(6,7,5)]
    assms(8) by metis

section \<open>Corrections\<close>

definition correction_target :: "string \<Rightarrow> nat \<Rightarrow> catalog_db \<Rightarrow> bool" where
  "correction_target source event_id c \<longleftrightarrow>
     source = ''verify_receipt'' \<and> (\<exists>r \<in> set (verify_receipts c). vr_event_id r = event_id) \<or>
     source = ''retention_event'' \<and> (\<exists>e \<in> set (retention_events c). ev_id e = event_id \<and> ev_subject_type e \<noteq> ''batch'')"

lemma insert_correction:
  assumes "source \<in> set (map fst SOURCE_RANK)"
  shows "insert_event (correction_row source event_id actor reason nonce now sub i) es =
    (if event_subject_ok (correction_row source event_id actor reason nonce now sub i)
     then Inr (es @ [correction_row source event_id actor reason nonce now sub i]) else Inl EventIntegrityError)"
  using assms
  by (auto simp: insert_event_def correction_row_def event_supersession_ok_def once_key_def ONCE_ACTIONS_def SOURCE_RANK_def)

lemma record_correction_eq:
  "record_journal_correction source event_id actor reason nonce now c = Inr (c', row) \<longleftrightarrow>
   source \<in> set (map fst SOURCE_RANK) \<and> 0 < event_id \<and> actor \<noteq> [] \<and> reason \<noteq> [] \<and>
   (\<exists>sub. correction_subject source event_id c = Inr sub \<and>
      row = correction_row source event_id actor reason nonce now sub (fresh_id (map ev_id (retention_events c))) \<and>
      event_subject_ok row \<and> c' = c\<lparr>retention_events := retention_events c @ [row]\<rparr>)"
  using insert_correction [of source]
  by (cases "source \<in> set (map fst SOURCE_RANK) \<and> 0 < event_id \<and> actor \<noteq> [] \<and> reason \<noteq> []")
     (auto simp: record_journal_correction_def res_bind_Inr_iff Let_def split: if_splits)

lemma correction_subject_ok:
  assumes "events_ok (retention_events c)"
  shows "source \<in> set (map fst SOURCE_RANK) \<and> (\<exists>sub. correction_subject source event_id c = Inr sub \<and>
      event_subject_ok (correction_row source event_id actor reason nonce now sub i)) \<longleftrightarrow> correction_target source event_id c"
proof (cases "source = ''retention_event''")
  case True
  have ids: "e = f" if "e \<in> set (retention_events c)" "f \<in> set (retention_events c)" "ev_id e = ev_id f" for e f
    using assms that by (auto simp: events_ok_def distinct_map dest: inj_onD)
  show ?thesis
  proof (cases "find (\<lambda>e. ev_id e = event_id) (retention_events c)")
    case None
    then have "\<forall>e \<in> set (retention_events c). ev_id e \<noteq> event_id" by (simp add: find_None_iff)
    with True None show ?thesis by (auto simp: correction_subject_def correction_target_def)
  next
    case (Some e)
    then have e: "e \<in> set (retention_events c)" "ev_id e = event_id" by (auto simp: find_Some_iff)
    with assms have "event_subject_ok e" by (simp add: events_ok_def)
    then have "event_subject_ok (correction_row source event_id actor reason nonce now (ev_subject_type e, ev_subject_id e, ev_intake_id e) i)
        \<longleftrightarrow> ev_subject_type e \<noteq> ''batch''"
      by (auto simp: event_subject_ok_def correction_row_def INTAKE_ACTIONS_def BATCH_ACTIONS_def)
    with True Some e ids show ?thesis by (auto simp: correction_subject_def correction_target_def SOURCE_RANK_def)
  qed
next
  case False
  have "event_subject_ok (correction_row source event_id actor reason nonce now (''receipt'', s, None) i)" for s
    by (simp add: event_subject_ok_def correction_row_def)
  moreover have "find (\<lambda>r. vr_event_id r = event_id) (verify_receipts c) = None \<longleftrightarrow> (\<forall>r \<in> set (verify_receipts c). vr_event_id r \<noteq> event_id)"
    by (auto simp: find_None_iff)
  ultimately show ?thesis
    using False by (cases "find (\<lambda>r. vr_event_id r = event_id) (verify_receipts c)")
      (auto simp: correction_subject_def correction_target_def SOURCE_RANK_def)
qed

text \<open>C34: A correction is recorded exactly when it names an actor, a reason and an existing receipt that is
  not about a batch; a batch receipt exists but its correction violates the table's subject constraint.
  The receipts already there are never touched.\<close>

theorem correction_recorded_iff:
  assumes "events_ok (retention_events c)" "0 < event_id"
  shows "(\<exists>c' row. record_journal_correction source event_id actor reason nonce now c = Inr (c', row) \<and>
      retention_events c' = retention_events c @ [row] \<and> events_ok (retention_events c') \<and>
      ev_supersedes_source row = Some source \<and> ev_supersedes_event_id row = Some event_id \<and>
      verify_receipts c' = verify_receipts c) \<longleftrightarrow>
    correction_target source event_id c \<and> actor \<noteq> [] \<and> reason \<noteq> []"
proof -
  let ?row = "\<lambda>sub. correction_row source event_id actor reason nonce now sub (fresh_id (map ev_id (retention_events c)))"
  have ok: "events_ok (retention_events c @ [?row sub])"
    if "event_subject_ok (?row sub)" "source \<in> set (map fst SOURCE_RANK)" for sub
    using insert_event_ok [OF assms(1), of "?row sub"] insert_correction [OF that(2)] that(1) by (simp add: correction_row_def)
  note target = correction_subject_ok [OF assms(1), of source event_id actor reason nonce now "fresh_id (map ev_id (retention_events c))"]
  show ?thesis (is "?l \<longleftrightarrow> ?r")
  proof
    assume ?l
    then obtain c' row where "record_journal_correction source event_id actor reason nonce now c = Inr (c', row)" by blast
    then show ?r unfolding record_correction_eq using target by blast
  next
    assume r: ?r
    then obtain sub where sub: "source \<in> set (map fst SOURCE_RANK)" "correction_subject source event_id c = Inr sub"
      "event_subject_ok (?row sub)" using target by blast
    then have "record_journal_correction source event_id actor reason nonce now c =
        Inr (c\<lparr>retention_events := retention_events c @ [?row sub]\<rparr>, ?row sub)"
      unfolding record_correction_eq using r assms(2) by blast
    moreover have "ev_supersedes_source (?row sub) = Some source" "ev_supersedes_event_id (?row sub) = Some event_id"
      by (simp_all add: correction_row_def)
    ultimately show ?l using ok [OF sub(3,1)] by auto
  qed
qed

section \<open>Witnesses\<close>

definition example_pylib :: pylib where
  "example_pylib =
     \<lparr>pl_float_text = example_fr, pl_parse_time = (\<lambda>s. if s = isoformat_z 0 then Some 0 else None),
      pl_error_text = (\<lambda>_. ''error'')\<rparr>"

definition example_receipt :: verify_receipt where
  "example_receipt =
     \<lparr>vr_event_id = 1, vr_copy_id = 7, vr_backend_id = 2, vr_expected_digest = ''d'', vr_measured_digest = Some ''d'',
      vr_backend_ok = True, vr_failure_kind = None, vr_failure_detail = None, vr_source = ''fixity'',
      vr_execution_id = ''x'', vr_producer_process = ''p'', vr_actor = None, vr_at = 0\<rparr>"

definition empty_world :: journal_world where
  "empty_world =
     \<lparr>jw_db = \<lparr>jobs = [], job_attempts = [], conditions = [], condition_components = [],
               catalog = \<lparr>backends = [], pools = [], class_pools = [], policies = [], copies = [], asset_locators = [],
                 bundles = [], bundle_members = [], logical_assets = [], staging_transforms = [], blob_roots = [],
                 exclusion_records = [], review_decisions = [], intakes = [], ingest_items = [], virtual_members = [],
                 submission_members = [], arrangements = [], offsite_confirmations = [], retention_events = [],
                 verify_receipts = [], journal_checkpoints = None\<rparr>\<rparr>,
      jw_root = ''/journal'', jw_files = [], jw_destination = Some []\<rparr>"

definition receipt_world :: journal_world where
  "receipt_world =
     set_catalog ((jw_catalog empty_world)\<lparr>verify_receipts := verify_receipts (jw_catalog empty_world) @ [example_receipt]\<rparr>)
       empty_world"

lemma example_runtime: "runtime_ok example_pylib 0 (jw_catalog receipt_world)"
  unfolding runtime_ok_def by (simp add: example_pylib_def receipt_world_def empty_world_def) (simp add: datetime_ok_def, code_simp)

lemma receipt_world_run: "journal_run example_pylib receipt_world"
  unfolding receipt_world_def
  by (intro journal_run.receipt journal_run.start) (simp_all add: empty_world_def example_receipt_def)

lemma receipt_world_checked:
  "\<exists>w ss cr. published_segments example_pylib (jw_files w) = Inr ss \<and> check_journal example_pylib (\<lambda>_. True) w = Inr cr \<and>
     cr_issues cr = [] \<and> entries_of_segments ss \<noteq> []"
proof -
  obtain bs where inv: "world_inv example_pylib bs receipt_world" using journal_run_inv [OF receipt_world_run] by blast
  let ?bs = "next_batches example_pylib bs 0 receipt_world"
  have d: "jw_destination receipt_world = Some []" by (simp add: receipt_world_def empty_world_def)
  have "\<exists>w. world_inv example_pylib ?bs w \<and>
      jw_destination w = Some (ship_log example_pylib (jw_root w) (segments_of example_pylib (jw_root w) initial_state ?bs))"
    by (rule world_inv_export [OF inv example_runtime, of False "\<lambda>_. True"]) (use d in \<open>fastforce simp: same_tables_def\<close>)
  then obtain w where w: "world_inv example_pylib ?bs w"
    "jw_destination w = Some (ship_log example_pylib (jw_root w) (segments_of example_pylib (jw_root w) initial_state ?bs))" by blast
  have "?bs \<noteq> []" by (rule next_batches_ne [OF inv example_runtime]) (simp add: receipt_world_def)
  from check_journal_shipped [OF w(1) this w(2)] obtain cr where
    "check_journal example_pylib (\<lambda>_. True) w = Inr cr" "cr_issues cr = []" by blast
  moreover have j: "journal_inv example_pylib ?bs w" using w(1) by (simp add: world_inv_def)
  have "entries_of_segments (segments_of example_pylib (jw_root w) initial_state ?bs) = published_entries w"
    using j by (simp add: entries_of_segments_def published_entries_def journal_inv_def comp_def)
  moreover have "published_entries w \<noteq> []"
    unfolding published_entries_of [OF j] length_greater_0_conv [symmetric] exported_all(3) [OF inv example_runtime]
    by (simp add: receipt_world_def)
  ultimately show ?thesis using journal_invD(1) [OF j] by metis
qed

theorem journal_export_exactly_once_witness:
  "\<exists>w' r. export_locked example_pylib False (\<lambda>_. False) 0 receipt_world = (w', Inr r) \<and>
     filter (\<lambda>e. se_source e = ''verify_receipt'') (published_entries w') = [receipt_entry example_receipt]"
  using journal_export_exactly_once [OF receipt_world_run example_runtime, of "\<lambda>_. False"]
  by (auto simp: receipt_world_def empty_world_def)

theorem journal_verifies_after_export_witness:
  "\<exists>w' r cr. export_locked example_pylib False (\<lambda>_. True) 0 receipt_world = (w', Inr r) \<and>
     check_journal example_pylib (\<lambda>_. True) w' = Inr cr \<and> cr_issues cr = [] \<and> cr_entry_count cr = 1"
  using journal_verifies_after_export [OF receipt_world_run example_runtime]
  by (auto simp: receipt_world_def empty_world_def)

theorem journal_ship_append_only_witness:
  "\<exists>d'. jw_destination (fst (export_locked example_pylib True (\<lambda>k. k < 2) 0 receipt_world)) = Some d' \<and> prefix [] d'"
  using journal_ship_append_only [OF receipt_world_run example_runtime, of "[]" True "\<lambda>k. k < 2"
      "fst (export_locked example_pylib True (\<lambda>k. k < 2) 0 receipt_world)"
      "snd (export_locked example_pylib True (\<lambda>k. k < 2) 0 receipt_world)"]
  by (auto simp: receipt_world_def empty_world_def)

theorem journal_tamper_evident_witness:
  "\<exists>w ss cr. check_journal example_pylib (\<lambda>_. True) w = Inr cr \<and> cr_issues cr = [] \<and> entries_of_segments ss \<noteq> [] \<and>
     (list_all2 same_entry (entries_of_segments ss) (entries_of_segments ss) \<or>
      sha256_collision (hashed_texts example_pylib 1 GENESIS_HASH (entries_of_segments ss) \<union>
                        hashed_texts example_pylib 1 GENESIS_HASH (entries_of_segments ss)))"
proof -
  obtain w ss cr where w: "published_segments example_pylib (jw_files w) = Inr ss"
    "check_journal example_pylib (\<lambda>_. True) w = Inr cr" "cr_issues cr = []" "entries_of_segments ss \<noteq> []"
    using receipt_world_checked by blast
  have "float_text_ok (pl_float_text example_pylib)" by (simp add: example_pylib_def example_fr_ok)
  from journal_tamper_evident [OF this w(1-3) w(1-3) refl] w show ?thesis by blast
qed

theorem correction_recorded_iff_witness:
  "(\<exists>c' row. record_journal_correction ''verify_receipt'' 1 ''op'' ''typo'' ''n'' 0 (jw_catalog receipt_world) = Inr (c', row) \<and>
      retention_events c' = [row])"
proof -
  have "events_ok (retention_events (jw_catalog receipt_world))"
    by (simp add: events_ok_def receipt_world_def empty_world_def List.map_filter_def)
  from correction_recorded_iff [OF this, of 1 "''verify_receipt''" "''op''" "''typo''" "''n''" 0] show ?thesis
    by (auto simp: correction_target_def receipt_world_def empty_world_def example_receipt_def)
qed

end
