(* ===== verification/Retention_Gate.thy ===== *)
theory Retention_Gate
  imports Archive_Predicate Conditions Retention_Events Canonical_Json Py_Hex
begin

text \<open>
  The gates of retention (\<^verbatim>\<open>src/sutradhara/retention.py\<close>): which intakes may give up their temporary bytes.
  Nothing here changes the catalog.  A witness is an independent confirmation of one copy by its backend;
  \<open>witness_world\<close> is what the backends answer, and when, in one round of calls.
\<close>

section \<open>Texts\<close>

fun retention_state_text :: "retention_state \<Rightarrow> string" where
  "retention_state_text HELD = ''held''"
| "retention_state_text RELEASED = ''released''"
| "retention_state_text TOMBSTONED = ''tombstoned''"
| "retention_state_text ABANDONED = ''abandoned''"
| "retention_state_text PURGED = ''purged''"

fun intake_status_text :: "intake_status \<Rightarrow> string" where
  "intake_status_text RECEIVING = ''receiving''"
| "intake_status_text VERIFYING = ''verifying''"
| "intake_status_text QUARANTINED = ''quarantined''"
| "intake_status_text REGISTERED = ''registered''"

fun arrangement_status_text :: "arrangement_status \<Rightarrow> string" where
  "arrangement_status_text DRAFT = ''draft''"
| "arrangement_status_text PENDING_DERIVATIVES = ''pending_derivatives''"
| "arrangement_status_text READY = ''ready''"
| "arrangement_status_text SUBMITTED = ''submitted''"
| "arrangement_status_text ARR_ABANDONED = ''abandoned''"

abbreviation days :: "int \<Rightarrow> time" where "days n \<equiv> seconds (n * 86400)"

definition DEFAULT_STAGING_GRACE_DAYS :: int where "DEFAULT_STAGING_GRACE_DAYS = 30"
definition DEFAULT_BATCH_LIMIT :: int where "DEFAULT_BATCH_LIMIT = 25"
definition WITNESS_MAX_AGE :: time where "WITNESS_MAX_AGE = seconds 5"

section \<open>Rows\<close>

definition intake_items :: "catalog_db \<Rightarrow> string \<Rightarrow> ingest_item list" where
  "intake_items c i = sort_key it_id (filter (\<lambda>it. it_intake_id it = i) (ingest_items c))"

section \<open>Holds of the intake\<close>

definition intake_eligibility_holds :: "intake_row \<Rightarrow> ingest_item list \<Rightarrow> string list" where
  "intake_eligibility_holds r items =
     (if in_status r \<noteq> REGISTERED then [''intake-status:'' @ intake_status_text (in_status r)] else []) @
     (if items = [] then [''intake-empty''] else [])"

definition arrangement_hold :: "catalog_db \<Rightarrow> arrangement_row \<Rightarrow> string list" where
  "arrangement_hold c a =
     (if ar_status a = ARR_ABANDONED then []
      else if ar_status a = SUBMITTED then
        (case ar_submission_id a of
           None \<Rightarrow> [''arrangement:'' @ str_nat (ar_id a) @ '':submitted-missing-submission'']
         | Some s \<Rightarrow>
             if s = [] then [''arrangement:'' @ str_nat (ar_id a) @ '':submitted-missing-submission'']
             else if submission_is_archived c s then []
             else [''arrangement:'' @ str_nat (ar_id a) @ '':submitted-not-archived''])
      else [''arrangement:'' @ str_nat (ar_id a) @ '':'' @ arrangement_status_text (ar_status a)])"

definition arrangement_holds :: "catalog_db \<Rightarrow> string \<Rightarrow> string list" where
  "arrangement_holds c i =
     concat (map (arrangement_hold c) (sort_key ar_id (filter (\<lambda>a. ar_intake_id a = i) (arrangements c))))"

subsection \<open>Prepare profiles\<close>

datatype media_kind = VIDEO | AUDIO | IMAGE | DOCUMENT | OTHER

definition VIDEO_EXTENSIONS :: "string list" where
  "VIDEO_EXTENSIONS =
     [''.3gp'', ''.avi'', ''.m2ts'', ''.m4v'', ''.mkv'', ''.mov'', ''.mp4'', ''.mpeg'', ''.mpg'', ''.mts'', ''.mxf'',
      ''.r3d'', ''.wmv'']"

definition AUDIO_EXTENSIONS :: "string list" where
  "AUDIO_EXTENSIONS = [''.aac'', ''.aif'', ''.aiff'', ''.flac'', ''.m4a'', ''.mp3'', ''.wav'']"

definition IMAGE_EXTENSIONS :: "string list" where
  "IMAGE_EXTENSIONS =
     [''.arw'', ''.cr2'', ''.dng'', ''.heic'', ''.jpeg'', ''.jpg'', ''.nef'', ''.png'', ''.tif'', ''.tiff'']"

definition DOCUMENT_EXTENSIONS :: "string list" where
  "DOCUMENT_EXTENSIONS = [''.csv'', ''.doc'', ''.docx'', ''.json'', ''.pdf'', ''.txt'', ''.xml'']"

text \<open>\<open>Path(p).suffix.lower()\<close>.\<close>

definition lower_char :: "char \<Rightarrow> char" where
  "lower_char c = (let k = of_char c :: nat in if 65 \<le> k \<and> k \<le> 90 then char_of (k + 32) else c)"

definition path_suffix :: "string \<Rightarrow> string" where
  "path_suffix p =
     (let parts = filter (\<lambda>x. x \<noteq> [] \<and> x \<noteq> ''.'') (split_at (CHR ''/'') p);
          name = (if parts = [] then [] else last parts);
          ext = takeWhile (\<lambda>c. c \<noteq> CHR ''.'') (rev name)
      in if length ext = length name \<or> ext = [] \<or> length ext + 1 = length name then []
         else CHR ''.'' # rev ext)"

definition media_kind_for_path :: "string \<Rightarrow> media_kind" where
  "media_kind_for_path p =
     (let suffix = map lower_char (path_suffix p)
      in if suffix \<in> set VIDEO_EXTENSIONS then VIDEO
         else if suffix \<in> set AUDIO_EXTENSIONS then AUDIO
         else if suffix \<in> set IMAGE_EXTENSIONS then IMAGE
         else if suffix \<in> set DOCUMENT_EXTENSIONS then DOCUMENT
         else OTHER)"

text \<open>A fact an entry produces is its kind and its type; a resource is a pool and a count.\<close>

record derivation_entry =
  de_job_kind :: string
  de_input_media_kind :: "media_kind option"
  de_produces :: "(string \<times> string) list"
  de_output_class :: "string option"
  de_params :: jobj
  de_resources :: "(string \<times> nat) list"

definition transcode_entry :: derivation_entry where
  "transcode_entry =
     \<lparr>de_job_kind = ''transcode'', de_input_media_kind = Some VIDEO,
      de_produces = [(''mezz'', ''derivation''), (''preview'', ''derivation'')], de_output_class = Some ''s-proxy'',
      de_params = [], de_resources = [(''cpu'', 8)]\<rparr>"

definition pfr_index_entry :: derivation_entry where
  "pfr_index_entry =
     \<lparr>de_job_kind = ''pfr-index'', de_input_media_kind = Some VIDEO, de_produces = [(''pfr-index-v1'', ''index'')],
      de_output_class = None, de_params = [], de_resources = [(''io'', 1), (''cpu'', 1)]\<rparr>"

definition PROFILES :: "((string \<times> string) \<times> derivation_entry list) list" where
  "PROFILES =
     [((''s-masters'', ''hd-review''), [transcode_entry, pfr_index_entry]),
      ((''s-masters'', ''proxy-review''), [transcode_entry])]"

text \<open>The job kinds of every profile are distinct, so the check for duplicates never raises.\<close>

definition entries_for :: "string \<Rightarrow> string \<Rightarrow> media_kind \<Rightarrow> derivation_entry list" where
  "entries_for artifactclass profile kind =
     filter (\<lambda>e. de_input_media_kind e = None \<or> de_input_media_kind e = Some kind)
       (case map_of PROFILES (artifactclass, profile) of None \<Rightarrow> [] | Some es \<Rightarrow> es)"

definition DERIVATION_DOMAIN :: string where "DERIVATION_DOMAIN = ''derivation''"

definition derivation_target_key :: "nat \<Rightarrow> string \<Rightarrow> string" where
  "derivation_target_key i job_kind = ''derivation:'' @ str_nat i @ '':'' @ job_kind"

definition derivation_hold :: "catalog_db engine_db \<Rightarrow> nat \<Rightarrow> derivation_entry \<Rightarrow> string list" where
  "derivation_hold db i e =
     (let k = derivation_target_key i (de_job_kind e)
      in case get_condition (conditions db) DERIVATION_DOMAIN k of
           None \<Rightarrow> [''derivation:'' @ k @ '':missing-condition'']
         | Some r \<Rightarrow> if c_condition r = CONDITION_SATISFIED then []
                     else [''derivation:'' @ k @ '':'' @ c_condition r])"

definition prepared_profile_holds :: "catalog_db engine_db \<Rightarrow> intake_row \<Rightarrow> string list" where
  "prepared_profile_holds db r =
     (case in_requested_profile r of
        None \<Rightarrow> []
      | Some p \<Rightarrow>
          if p = [] then []
          else concat (map (\<lambda>it. concat (map (derivation_hold db (it_id it))
                                  (entries_for (it_artifactclass it) p (media_kind_for_path (it_as_received_path it)))))
                         (intake_items (catalog db) (in_id r))))"

section \<open>Witnesses\<close>

text \<open>Whether the adapter class of a backend kind has a witness; \<open>None\<close> for a kind without adapter.\<close>

definition backend_declares_retention_witness :: "string \<Rightarrow> bool option" where
  "backend_declares_retention_witness kind =
     (if kind = ''rem_tape'' then Some True
      else if kind \<in> set [''memory'', ''d2_tape'', ''s3'', ''ssh_disk''] then Some False
      else None)"

definition copy_kind :: "catalog_db \<Rightarrow> copy_row \<Rightarrow> string" where
  "copy_kind c r = (case get_backend c (cp_backend_id r) of None \<Rightarrow> [] | Some b \<Rightarrow> be_kind b)"

record witness_evidence =
  we_eligible :: bool
  we_confirmed :: "bool option"
  we_observed_at :: time

type_synonym witness_answers = "(nat \<times> witness_evidence) list"

text \<open>
  \<open>ww_build\<close> is whether the adapter of a backend can be built (\<open>None\<close>: it raises) and implements the
  witness; \<open>ww_call\<close> the answer for a copy (\<open>None\<close>: the call raises); \<open>ww_at\<close> the clock after the call.
\<close>

record witness_world =
  ww_build :: "nat \<Rightarrow> bool option"
  ww_call :: "nat \<Rightarrow> jobj \<Rightarrow> bytes \<Rightarrow> bool option"
  ww_at :: "nat \<Rightarrow> time"

record witness_request =
  wr_copy_id :: nat
  wr_eligible :: bool
  wr_error :: bool
  wr_locator :: jobj
  wr_expected_hash :: bytes

definition qualifying_copies_for_pool :: "catalog_db \<Rightarrow> bytes \<Rightarrow> string \<Rightarrow> string \<Rightarrow> copy_row list" where
  "qualifying_copies_for_pool c asset_hash pool_id artifactclass =
     asset_placements c True (Some artifactclass) (Some pool_id) asset_hash"

definition witness_request_of :: "witness_world \<Rightarrow> catalog_db \<Rightarrow> copy_row \<Rightarrow> witness_request" where
  "witness_request_of ww c r =
     (let req = (\<lambda>eligible err. \<lparr>wr_copy_id = cp_id r, wr_eligible = eligible, wr_error = err,
                                 wr_locator = cp_native_locator r, wr_expected_hash = cp_integrity_hash r\<rparr>)
      in case backend_declares_retention_witness (copy_kind c r) of
           None \<Rightarrow> req True True
         | Some False \<Rightarrow> req False False
         | Some True \<Rightarrow> (case ww_build ww (cp_backend_id r) of Some True \<Rightarrow> req True False | _ \<Rightarrow> req True True))"

definition item_copies :: "catalog_db \<Rightarrow> ingest_item \<Rightarrow> copy_row list" where
  "item_copies c it =
     (case policy_targets c (it_artifactclass it) of
        Inl _ \<Rightarrow> []
      | Inr ts \<Rightarrow> concat (map (\<lambda>t. qualifying_copies_for_pool c (it_asset_hash it) (pt_pool_id t) (pt_artifactclass t)) ts))"

definition prepare_witness_requests :: "witness_world \<Rightarrow> catalog_db \<Rightarrow> ingest_item list \<Rightarrow> witness_request list" where
  "prepare_witness_requests ww c items =
     map (witness_request_of ww c) (dedupe_by_copy_id (concat (map (item_copies c) items)))"

definition execute_witness_request :: "witness_world \<Rightarrow> witness_request \<Rightarrow> nat \<times> witness_evidence" where
  "execute_witness_request ww q =
     (wr_copy_id q,
      \<lparr>we_eligible = wr_eligible q,
       we_confirmed =
         (if \<not> wr_eligible q then None
          else if wr_error q then Some False
          else case ww_call ww (wr_copy_id q) (wr_locator q) (wr_expected_hash q) of
                 None \<Rightarrow> Some False
               | Some b \<Rightarrow> Some b),
       we_observed_at = ww_at ww (wr_copy_id q)\<rparr>)"

definition execute_witness_requests :: "witness_world \<Rightarrow> witness_request list \<Rightarrow> witness_answers" where
  "execute_witness_requests ww qs = map (execute_witness_request ww) qs"

definition collect_witness_answers :: "witness_world \<Rightarrow> catalog_db \<Rightarrow> ingest_item list \<Rightarrow> witness_answers" where
  "collect_witness_answers ww c items = execute_witness_requests ww (prepare_witness_requests ww c items)"

definition witness_answers_stale :: "time \<Rightarrow> witness_answers \<Rightarrow> bool" where
  "witness_answers_stale now answers =
     list_ex (\<lambda>(_, a). we_eligible a \<and> now - we_observed_at a > WITNESS_MAX_AGE) answers"

definition fresh_witness_answers ::
  "witness_world \<Rightarrow> time \<Rightarrow> catalog_db \<Rightarrow> ingest_item list \<Rightarrow> witness_answers option \<Rightarrow> witness_answers" where
  "fresh_witness_answers ww now c items answers =
     (case answers of
        None \<Rightarrow> collect_witness_answers ww c items
      | Some a \<Rightarrow> if witness_answers_stale now a then collect_witness_answers ww c items else a)"

section \<open>Gates\<close>

record pool_gate =
  pg_pool_id :: string
  pg_offsite_gate :: bool
  pg_satisfied :: bool
  pg_copy_id :: "nat option"
  pg_media_id :: "string option"
  pg_reason :: "string option"

record asset_gate =
  ag_item_id :: nat
  ag_asset_hash :: string
  ag_artifactclass :: string
  ag_releasable :: bool
  ag_pools :: "pool_gate list"

definition copy_media_id :: "catalog_db \<Rightarrow> copy_row \<Rightarrow> string option" where
  "copy_media_id c r =
     (case get_backend c (cp_backend_id r) of
        None \<Rightarrow> None
      | Some b \<Rightarrow>
          (case copy_media_identity (be_family b) r of
             Inl _ \<Rightarrow> None
           | Inr None \<Rightarrow> Some (''memory:exempt:'' @ str_nat (cp_id r))
           | Inr (Some (family, media)) \<Rightarrow> Some (family @ '':'' @ media)))"

definition confirmed_media_ids :: "catalog_db \<Rightarrow> string list" where
  "confirmed_media_ids c = map of_media_id (filter (\<lambda>o'. of_revoked_at o' = None) (offsite_confirmations c))"

datatype copy_verdict = Accept "string option" | WitnessHold | MissingMedia | NotConfirmed

definition copy_verdict_of :: "catalog_db \<Rightarrow> bool \<Rightarrow> string list \<Rightarrow> witness_answers \<Rightarrow> copy_row \<Rightarrow> copy_verdict" where
  "copy_verdict_of c offsite_gate confirmed witnesses r =
     (if (case map_of witnesses (cp_id r) of
            None \<Rightarrow> backend_declares_retention_witness (copy_kind c r) \<noteq> Some False
          | Some w \<Rightarrow> we_eligible w \<and> we_confirmed w \<noteq> Some True)
      then WitnessHold
      else let media_id = copy_media_id c r
           in if offsite_gate
              then (case media_id of
                      None \<Rightarrow> MissingMedia
                    | Some m \<Rightarrow> if m = [] then MissingMedia else if m \<in> set confirmed then Accept media_id else NotConfirmed)
              else Accept media_id)"

fun pool_scan ::
  "catalog_db \<Rightarrow> bool \<Rightarrow> string list \<Rightarrow> witness_answers \<Rightarrow> bool \<Rightarrow> bool \<Rightarrow> copy_row list \<Rightarrow> string + nat \<times> string option" where
  "pool_scan c og confirmed ws saw_missing saw_witness [] =
     Inl (if saw_witness then ''rem-unconfirmed'' else if saw_missing then ''missing-media-id'' else ''offsite-unconfirmed'')"
| "pool_scan c og confirmed ws saw_missing saw_witness (r # rs) =
     (case copy_verdict_of c og confirmed ws r of
        Accept m \<Rightarrow> Inr (cp_id r, m)
      | WitnessHold \<Rightarrow> pool_scan c og confirmed ws saw_missing True rs
      | MissingMedia \<Rightarrow> pool_scan c og confirmed ws True saw_witness rs
      | NotConfirmed \<Rightarrow> pool_scan c og confirmed ws saw_missing saw_witness rs)"

definition pool_candidates :: "catalog_db \<Rightarrow> bytes \<Rightarrow> pool_target \<Rightarrow> pool_row \<Rightarrow> copy_row list" where
  "pool_candidates c asset_hash t pool =
     filter (\<lambda>r. cp_pool_id r = Some (po_id pool) \<and> cp_backend_id r = po_backend_id pool)
       (qualifying_copies_for_pool c asset_hash (pt_pool_id t) (pt_artifactclass t))"

definition pool_gate_status :: "catalog_db \<Rightarrow> witness_answers \<Rightarrow> bytes \<Rightarrow> pool_target \<Rightarrow> pool_gate" where
  "pool_gate_status c ws asset_hash t =
     (let gate = (\<lambda>ok i m reason. \<lparr>pg_pool_id = pt_pool_id t, pg_offsite_gate = pt_offsite_gate t, pg_satisfied = ok,
                                  pg_copy_id = i, pg_media_id = m, pg_reason = reason\<rparr>)
      in case get_pool c (pt_pool_id t) of
           None \<Rightarrow> gate False None None (Some ''pool-missing'')
         | Some pool \<Rightarrow>
             (case pool_candidates c asset_hash t pool of
                [] \<Rightarrow> gate False None None (Some ''no-verified-copy'')
              | r # rs \<Rightarrow>
                  (case pool_scan c (pt_offsite_gate t) (if pt_offsite_gate t then confirmed_media_ids c else []) ws
                          False False (r # rs) of
                     Inr (i, m) \<Rightarrow> gate True (Some i) m None
                   | Inl reason \<Rightarrow> gate False (Some (cp_id r)) (copy_media_id c r) (Some reason))))"

text \<open>A membership whose pool is gone is excluded by the foreign key.\<close>

fun policy_expansion_hold :: "replication_error \<Rightarrow> string" where
  "policy_expansion_hold (PolicyMissing a) = ''policy-missing''"
| "policy_expansion_hold (DuplicatePool a p) =
     ''policy-invalid:ReplicationInvariantError:artifactclass '' @ py_repr a @ '' has duplicate pool '' @ py_repr p"
| "policy_expansion_hold (BadRepresentation r) =
     ''policy-invalid:ValueError:'' @ py_repr r @ '' is not a valid Representation''"
| "policy_expansion_hold (BackendUnavailable p b) =
     ''policy-invalid:PoolBackendUnavailable:pool '' @ py_repr p @ '' targets backend_id='' @ str_nat b @
     '', which was not supplied''"
| "policy_expansion_hold (DanglingPool p) = ''policy-invalid:AttributeError:pool '' @ py_repr p"
| "policy_expansion_hold (NoSuchBundle b) = ''policy-invalid:LookupError:bundle '' @ py_repr b"

definition asset_gate_status :: "catalog_db \<Rightarrow> witness_answers \<Rightarrow> ingest_item \<Rightarrow> asset_gate" where
  "asset_gate_status c ws it =
     (let gate = (\<lambda>ok ps. \<lparr>ag_item_id = it_id it, ag_asset_hash = hex_of (it_asset_hash it),
                          ag_artifactclass = it_artifactclass it, ag_releasable = ok, ag_pools = ps\<rparr>)
      in case policy_targets c (it_artifactclass it) of
           Inl e \<Rightarrow> gate False [\<lparr>pg_pool_id = ''<policy>'', pg_offsite_gate = False, pg_satisfied = False, pg_copy_id = None,
                                pg_media_id = None, pg_reason = Some (policy_expansion_hold e)\<rparr>]
         | Inr ts \<Rightarrow> let ps = map (pool_gate_status c ws (it_asset_hash it)) ts
                     in gate (ps \<noteq> [] \<and> list_all pg_satisfied ps) ps)"

definition asset_holds :: "asset_gate list \<Rightarrow> string list" where
  "asset_holds assets =
     [''asset:'' @ str_nat (ag_item_id a) @ '':pool:'' @ pg_pool_id p @ '':'' @
        (case pg_reason p of None \<Rightarrow> ''None'' | Some r \<Rightarrow> r). a \<leftarrow> assets, p \<leftarrow> ag_pools a, \<not> pg_satisfied p]"

subsection \<open>Policy fingerprint\<close>

definition fingerprint_pools :: "catalog_db \<Rightarrow> string \<Rightarrow> json option" where
  "fingerprint_pools c artifactclass =
     (let rows = sort_key (\<lambda>(p, b). po_id p)
            [(p, b). m \<leftarrow> class_pools c, ap_artifactclass m = artifactclass \<and> ap_active m,
               p \<leftarrow> pools c, po_id p = ap_pool_id m, b \<leftarrow> backends c, be_id b = po_backend_id p]
      in if list_ex (\<lambda>(p, b). backend_declares_retention_witness (be_kind b) = None) rows then None
         else Some (JObj [(''artifactclass'', JStr artifactclass),
                (''pools'', JArr (map (\<lambda>(p, b).
                   JObj [(''pool_id'', JStr (po_id p)), (''backend_id'', JInt (int (be_id b))),
                         (''backend_name'', JStr (be_name b)), (''backend_kind'', JStr (be_kind b)),
                         (''offsite_gate'', JBool (po_offsite_gate p)),
                         (''witness_eligible'', JBool (backend_declares_retention_witness (be_kind b) = Some True))])
                   rows))]))"

text \<open>\<open>None\<close>: a backend kind without adapter makes the computation raise.  No number in the snapshot is a float.\<close>

definition policy_fingerprint :: "catalog_db \<Rightarrow> ingest_item list \<Rightarrow> string option" where
  "policy_fingerprint c items =
     (let snapshots = map (fingerprint_pools c) (sort (remdups (map it_artifactclass items)))
      in if None \<in> set snapshots then None
         else Some (''v1:'' @ sha256_hex (utf8 (dumps (\<lambda>_. []) True
                (sort_json (JObj [(''version'', JInt 1), (''artifactclasses'', JArr (map the snapshots))]))))))"

subsection \<open>The gate of an intake\<close>

record intake_gate =
  ig_intake_id :: string
  ig_retention_state :: retention_state
  ig_releasable :: bool
  ig_holds :: "string list"
  ig_assets :: "asset_gate list"
  ig_released_at :: "time option"
  ig_staging_deleted_at :: "time option"
  ig_grace_deadline :: "time option"
  ig_purge_status :: string
  ig_assessed_at :: time

datatype gate_error = UnsupportedBackendKind

definition purge_projection ::
  "catalog_db \<Rightarrow> intake_row \<Rightarrow> string list \<Rightarrow> time option \<Rightarrow> time \<Rightarrow> ingest_item list \<Rightarrow> gate_error + string" where
  "purge_projection c r holds deadline now items =
     (if in_retention_state r = TOMBSTONED then Inr ''tombstone-gc-pending''
      else if in_retention_state r = ABANDONED then Inr ''abandoned''
      else if in_retention_state r \<noteq> RELEASED then Inr ''not-applicable''
      else if (case deadline of None \<Rightarrow> True | Some d \<Rightarrow> d \<ge> now) then Inr ''grace-active''
      else (case in_release_fingerprint r of
              None \<Rightarrow> Inr ''blocked:missing-policy-fingerprint''
            | Some f \<Rightarrow>
                (case policy_fingerprint c items of
                   None \<Rightarrow> Inl UnsupportedBackendKind
                 | Some g \<Rightarrow> if g \<noteq> f then Inr ''blocked:policy-changed''
                             else if holds \<noteq> [] then Inr (''blocked:'' @ hd holds)
                             else Inr ''eligible'')))"

definition local_gate_status ::
  "catalog_db engine_db \<Rightarrow> intake_row \<Rightarrow> witness_answers \<Rightarrow> bool \<Rightarrow> int \<Rightarrow> time \<Rightarrow> gate_error + intake_gate" where
  "local_gate_status db r ws require_held grace_days now =
     (let c = catalog db;
          items = intake_items c (in_id r);
          eligibility = intake_eligibility_holds r items;
          base = eligibility @ arrangement_holds c (in_id r) @ prepared_profile_holds db r;
          assets = (if eligibility = [] then map (asset_gate_status c ws) items else []);
          holds = base @ asset_holds assets;
          ok = (\<not> require_held \<or> in_retention_state r = HELD) \<and> base = [] \<and>
               assets \<noteq> [] \<and> list_all ag_releasable assets;
          deadline = map_option (\<lambda>t. t + days grace_days) (in_released_at r)
      in res_bind (purge_projection c r holds deadline now items) (\<lambda>purge.
           Inr \<lparr>ig_intake_id = in_id r, ig_retention_state = in_retention_state r, ig_releasable = ok, ig_holds = holds,
                ig_assets = assets, ig_released_at = in_released_at r, ig_staging_deleted_at = in_staging_deleted_at r,
                ig_grace_deadline = deadline, ig_purge_status = purge, ig_assessed_at = now\<rparr>))"

definition assess_intake ::
  "witness_world \<Rightarrow> int \<Rightarrow> time \<Rightarrow> catalog_db engine_db \<Rightarrow> intake_row \<Rightarrow> gate_error + intake_gate \<times> witness_answers" where
  "assess_intake ww grace_days now db r =
     (let items = intake_items (catalog db) (in_id r);
          ws = (if in_retention_state r \<in> {TOMBSTONED, ABANDONED, PURGED} then []
                else collect_witness_answers ww (catalog db) items)
      in res_bind (local_gate_status db r ws True grace_days now) (\<lambda>g. Inr (g, ws)))"

definition hold_reason :: "intake_gate \<Rightarrow> string" where
  "hold_reason g = (if ig_holds g \<noteq> [] then hd (ig_holds g) else ''state='' @ retention_state_text (ig_retention_state g))"

definition purge_holds ::
  "catalog_db engine_db \<Rightarrow> intake_row \<Rightarrow> witness_answers \<Rightarrow> int \<Rightarrow> time \<Rightarrow> time \<Rightarrow> gate_error + string list" where
  "purge_holds db r ws grace_days gate_now now =
     (case (in_retention_state r, in_released_at r) of
        (RELEASED, Some released_at) \<Rightarrow>
          res_bind (local_gate_status db r ws False grace_days gate_now) (\<lambda>status.
            let grace = (if released_at + days grace_days \<ge> now then [''grace-active''] else [])
            in case in_release_fingerprint r of
                 None \<Rightarrow> Inr (ig_holds status @ grace @ [''missing-policy-fingerprint''])
               | Some f \<Rightarrow>
                   (case policy_fingerprint (catalog db) (intake_items (catalog db) (in_id r)) of
                      None \<Rightarrow> Inl UnsupportedBackendKind
                    | Some g \<Rightarrow> Inr (ig_holds status @ grace @ (if g \<noteq> f then [''policy-changed''] else []))))
      | _ \<Rightarrow> Inr [''state='' @ retention_state_text (in_retention_state r)])"

end
