(* ===== verification/Staging_Fs.thy ===== *)
theory Staging_Fs
  imports Py_Text "HOL-Library.Sublist"
begin

text \<open>
  The file system that retention works on: nodes by absolute path, with the operations of \<open>pathlib\<close>,
  \<open>os\<close> and \<open>shutil\<close> that \<^verbatim>\<open>src/sutradhara/retention.py\<close> calls.  A directory carries its device, a file
  its bytes and what \<open>json.loads\<close> makes of its text, a link its target.  Name resolution follows at most
  forty links, the limit of the kernel.
\<close>

section \<open>Paths\<close>

type_synonym path = "string list"

text \<open>The parts of a path below its anchor; \<open>pathlib\<close> drops empty parts and single dots.\<close>

definition path_parts :: "string \<Rightarrow> path" where
  "path_parts s = filter (\<lambda>p. p \<noteq> [] \<and> p \<noteq> ''.'') (split_at (CHR ''/'') s)"

definition is_absolute :: "string \<Rightarrow> bool" where
  "is_absolute s = (s \<noteq> [] \<and> hd s = CHR ''/'')"

definition absolute :: "path \<Rightarrow> string \<Rightarrow> path" where
  "absolute cwd s = (if is_absolute s then path_parts s else cwd @ path_parts s)"

definition str_path :: "path \<Rightarrow> string" where
  "str_path p = (if p = [] then ''/'' else concat (map (\<lambda>x. ''/'' @ x) p))"

fun common_prefix :: "path \<Rightarrow> path \<Rightarrow> path" where
  "common_prefix (x # xs) (y # ys) = (if x = y then x # common_prefix xs ys else [])"
| "common_prefix _ _ = []"

text \<open>\<open>os.path.commonpath\<close> of a non-empty list of absolute paths.\<close>

fun commonpath :: "path list \<Rightarrow> path" where
  "commonpath [] = []"
| "commonpath [p] = p"
| "commonpath (p # q # ps) = common_prefix p (commonpath (q # ps))"

section \<open>Nodes\<close>

datatype fs_node = DirNode nat | FileNode string "json option" | LinkNode string

type_synonym filesystem = "(path \<times> fs_node) list"

datatype os_error = NotFound | NotADirectory | TooManyLinks | FileExists | InvalidMove | CrossDevice

abbreviation max_links :: nat where "max_links \<equiv> 40"

function follow :: "filesystem \<Rightarrow> nat \<Rightarrow> path \<Rightarrow> path \<Rightarrow> os_error + path" where
  "follow fs n cur [] = Inr cur"
| "follow fs n cur (x # rest) =
     (case map_of fs cur of
        None \<Rightarrow> Inl NotFound
      | Some (DirNode _) \<Rightarrow>
          if x = ''..'' then follow fs n (butlast cur) rest
          else (case map_of fs (cur @ [x]) of
                  None \<Rightarrow> Inl NotFound
                | Some (LinkNode t) \<Rightarrow>
                    if n = 0 then Inl TooManyLinks
                    else follow fs (n - 1) (if is_absolute t then [] else cur) (path_parts t @ rest)
                | Some _ \<Rightarrow> follow fs n (cur @ [x]) rest)
      | Some _ \<Rightarrow> Inl NotADirectory)"
  by pat_completeness auto
termination
  by (relation "measures [\<lambda>(fs, n, cur, rest). n, \<lambda>(fs, n, cur, rest). length rest]") auto

definition stat_node :: "filesystem \<Rightarrow> path \<Rightarrow> os_error + fs_node" where
  "stat_node fs p =
     res_bind (follow fs max_links [] p) (\<lambda>q. case map_of fs q of None \<Rightarrow> Inl NotFound | Some nd \<Rightarrow> Inr nd)"

text \<open>\<open>lstat\<close> resolves everything but the last part.\<close>

definition lstat_node :: "filesystem \<Rightarrow> path \<Rightarrow> os_error + fs_node" where
  "lstat_node fs p =
     (if p = [] \<or> last p = ''..'' then stat_node fs p
      else res_bind (follow fs max_links [] (butlast p)) (\<lambda>d.
             case map_of fs d of
               None \<Rightarrow> Inl NotFound
             | Some (DirNode _) \<Rightarrow> (case map_of fs (d @ [last p]) of None \<Rightarrow> Inl NotFound | Some nd \<Rightarrow> Inr nd)
             | Some _ \<Rightarrow> Inl NotADirectory))"

definition path_exists :: "filesystem \<Rightarrow> path \<Rightarrow> bool" where
  "path_exists fs p = (case stat_node fs p of Inl _ \<Rightarrow> False | Inr _ \<Rightarrow> True)"

definition path_is_dir :: "filesystem \<Rightarrow> path \<Rightarrow> bool" where
  "path_is_dir fs p = (case stat_node fs p of Inr (DirNode _) \<Rightarrow> True | _ \<Rightarrow> False)"

definition path_file :: "filesystem \<Rightarrow> path \<Rightarrow> (string \<times> json option) option" where
  "path_file fs p = (case stat_node fs p of Inr (FileNode b j) \<Rightarrow> Some (b, j) | _ \<Rightarrow> None)"

definition path_device :: "filesystem \<Rightarrow> path \<Rightarrow> os_error + nat" where
  "path_device fs p =
     (case follow fs max_links [] p of
        Inl e \<Rightarrow> Inl e
      | Inr q \<Rightarrow>
          (case map_of fs q of
             None \<Rightarrow> Inl NotFound
           | Some (DirNode d) \<Rightarrow> Inr d
           | Some _ \<Rightarrow> (case map_of fs (butlast q) of Some (DirNode d) \<Rightarrow> Inr d | _ \<Rightarrow> Inl NotFound)))"

text \<open>\<open>resolve(strict=False)\<close>: what is missing is kept as written.\<close>

function resolve_lax :: "filesystem \<Rightarrow> nat \<Rightarrow> path \<Rightarrow> path \<Rightarrow> path" where
  "resolve_lax fs n cur [] = cur"
| "resolve_lax fs n cur (x # rest) =
     (if x = ''..'' then resolve_lax fs n (butlast cur) rest
      else case map_of fs (cur @ [x]) of
             Some (LinkNode t) \<Rightarrow>
               if n = 0 then cur @ [x] @ rest
               else resolve_lax fs (n - 1) (if is_absolute t then [] else cur) (path_parts t @ rest)
           | _ \<Rightarrow> resolve_lax fs n (cur @ [x]) rest)"
  by pat_completeness auto
termination
  by (relation "measures [\<lambda>(fs, n, cur, rest). n, \<lambda>(fs, n, cur, rest). length rest]") auto

section \<open>Changes\<close>

text \<open>\<open>mkdir(parents=True, exist_ok=True)\<close> on a path without links; a new directory is on its parent's device.\<close>

fun mkdir_parents :: "filesystem \<Rightarrow> path \<Rightarrow> path \<Rightarrow> os_error + filesystem" where
  "mkdir_parents fs cur [] = Inr fs"
| "mkdir_parents fs cur (x # rest) =
     (case map_of fs cur of
        Some (DirNode dev) \<Rightarrow>
          if x = ''..'' then mkdir_parents fs (butlast cur) rest
          else (case map_of fs (cur @ [x]) of
                  None \<Rightarrow> mkdir_parents (fs @ [(cur @ [x], DirNode dev)]) (cur @ [x]) rest
                | Some (DirNode _) \<Rightarrow> mkdir_parents fs (cur @ [x]) rest
                | Some _ \<Rightarrow> Inl (if rest = [] then FileExists else NotADirectory))
      | Some _ \<Rightarrow> Inl NotADirectory
      | None \<Rightarrow> Inl NotFound)"

definition remove_tree :: "path \<Rightarrow> filesystem \<Rightarrow> filesystem" where
  "remove_tree p fs = filter (\<lambda>(q, _). \<not> prefix p q) fs"

definition move_path :: "path \<Rightarrow> path \<Rightarrow> path \<Rightarrow> path" where
  "move_path src dst q = (if prefix src q then dst @ drop (length src) q else q)"

text \<open>\<open>os.replace\<close> of a directory by a name that is free.\<close>

definition os_replace :: "path \<Rightarrow> path \<Rightarrow> filesystem \<Rightarrow> os_error + filesystem" where
  "os_replace source destination fs =
     res_bind (follow fs max_links [] (butlast source)) (\<lambda>sp.
     res_bind (follow fs max_links [] (butlast destination)) (\<lambda>dp.
       let src = sp @ [last source]; dst = dp @ [last destination]
       in if last source = ''..'' then Inl InvalidMove
          else if map_of fs src = None then Inl NotFound
          else if map_of fs dst \<noteq> None then Inl NotADirectory
          else if prefix src dst then Inl InvalidMove
          else if path_device fs sp \<noteq> path_device fs dp then Inl CrossDevice
          else Inr (map (\<lambda>(q, nd). (move_path src dst q, nd)) fs)))"

end
