(* ===== verification/Retention.thy ===== *)
theory Retention
  imports Retention_Gate Staging_Fs
begin

text \<open>
  The operations of retention (\<^verbatim>\<open>src/sutradhara/retention.py\<close>) over the catalog, the staging file system and
  the objects of the cloud backends.

  \<^item> Sessions keep the intake they loaded: \<open>make_session_factory\<close> sets \<open>expire_on_commit=False\<close>, so after a
    commit \<open>session.get\<close> returns the instance the session already holds, and only a rollback makes the next
    access read the row again.  An operation therefore takes the session's instance \<open>r\<close> of the intake, and
    every query goes to the database as it is then; a write sets the changed columns only.
  \<^item> Between two transactions other processes act: \<open>rv_itf e k\<close> is what they do at the \<open>k\<close>-th such point.
  \<^item> \<open>rv_wit\<close> are the rounds of witness calls, \<open>rv_now\<close> the readings of the clock, \<open>rv_fails\<close> the copies whose
    delete call raises, \<open>rv_nonce\<close> a drawn uuid, \<open>rv_crash\<close> whether the process dies between the rename and
    its commit, \<open>rv_gc_stop\<close> the paths already removed when it dies inside \<open>shutil.rmtree\<close>.
\<close>

section \<open>State\<close>

record retention_world =
  rw_db :: "catalog_db engine_db"
  rw_fs :: filesystem
  rw_objects :: "(nat \<times> jobj) list"

abbreviation rw_catalog :: "retention_world \<Rightarrow> catalog_db" where
  "rw_catalog w \<equiv> catalog (rw_db w)"

datatype retention_error =
    RetentionError string
  | RtValueError string
  | RtOsError os_error
  | RtUnsupportedKind
  | RtEventError event_error
  | RtBackendError nat
  | RtCrash

record retention_env =
  rv_itf :: "nat \<Rightarrow> retention_world \<Rightarrow> retention_world"
  rv_wit :: "nat \<Rightarrow> witness_world"
  rv_now :: "nat \<Rightarrow> time"
  rv_fails :: "nat \<Rightarrow> bool"
  rv_nonce :: string
  rv_crash :: bool
  rv_gc_stop :: "path list option"

text \<open>The process environment that names the staging area, and the text of a JSON parse error.\<close>

record site =
  si_cwd :: path
  si_landing_roots :: "string option"
  si_receive_root :: "string option"
  si_tombstone_root :: "string option"
  si_parse_text :: string

definition set_db :: "catalog_db \<Rightarrow> retention_world \<Rightarrow> retention_world" where
  "set_db c w = w\<lparr>rw_db := (rw_db w)\<lparr>catalog := c\<rparr>\<rparr>"

definition with_events :: "event_error + retention_event list \<Rightarrow> catalog_db \<Rightarrow> retention_error + catalog_db" where
  "with_events res c = (case res of Inl e \<Rightarrow> Inl (RtEventError e) | Inr es \<Rightarrow> Inr (c\<lparr>retention_events := es\<rparr>))"

definition gate_result :: "gate_error + 'a \<Rightarrow> retention_error + 'a" where
  "gate_result g = (case g of Inl _ \<Rightarrow> Inl RtUnsupportedKind | Inr x \<Rightarrow> Inr x)"

definition no_intake :: "string \<Rightarrow> retention_error" where
  "no_intake i = RetentionError (''intake '' @ py_repr i @ '' does not exist'')"

definition require_intake :: "catalog_db \<Rightarrow> string \<Rightarrow> retention_error + intake_row" where
  "require_intake c i = (case get_intake c i of None \<Rightarrow> Inl (no_intake i) | Some r \<Rightarrow> Inr r)"

section \<open>Offsite confirmations\<close>

definition known_media_id :: "catalog_db \<Rightarrow> string \<Rightarrow> bool" where
  "known_media_id c m = list_ex (\<lambda>r. cp_deleted_at r = None \<and> copy_media_id c r = Some m) (copies c)"

definition get_confirmation :: "catalog_db \<Rightarrow> string \<Rightarrow> offsite_confirmation option" where
  "get_confirmation c m = find (\<lambda>o'. of_media_id o' = m) (offsite_confirmations c)"

definition media_event :: "string \<Rightarrow> string \<Rightarrow> string \<Rightarrow> string \<Rightarrow> time \<Rightarrow> jobj \<Rightarrow> retention_event" where
  "media_event media_id action operation_id actor now detail =
     new_event None ''media'' media_id action operation_id actor now detail 0"

definition confirm_offsite ::
  "string \<Rightarrow> string \<Rightarrow> string option \<Rightarrow> string \<Rightarrow> time \<Rightarrow> catalog_db \<Rightarrow> retention_error + catalog_db \<times> bool" where
  "confirm_offsite media_id confirmed_by shipment_id nonce now c =
     (if media_id = [] then Inl (RtValueError ''media_id must be non-empty'')
      else if confirmed_by = [] then Inl (RtValueError ''confirmed_by must be non-empty'')
      else if \<not> known_media_id c media_id
      then Inl (RetentionError (''media id '' @ py_repr media_id @ '' matches no known copy''))
      else let row = \<lparr>of_media_id = media_id, of_confirmed_at = now, of_confirmed_by = confirmed_by,
                      of_shipment_id = shipment_id, of_revoked_at = None, of_revoked_by = None\<rparr>;
               record = (\<lambda>rows. res_bind
                 (with_events (add_event (media_event media_id ''offsite_confirmed''
                      (''offsite-confirm:'' @ media_id @ '':'' @ nonce) confirmed_by now
                      [(''shipment_id'', case shipment_id of None \<Rightarrow> JNull | Some s \<Rightarrow> JStr s),
                       (''confirmed_by'', JStr confirmed_by)]) (retention_events c))
                   (c\<lparr>offsite_confirmations := rows\<rparr>)) (\<lambda>c'. Inr (c', True)))
           in (case get_confirmation c media_id of
                 None \<Rightarrow> record (offsite_confirmations c @ [row])
               | Some old \<Rightarrow>
                   if of_revoked_at old = None then Inr (c, False)
                   else record (update_where (\<lambda>o'. of_media_id o' = media_id) (\<lambda>_. row) (offsite_confirmations c))))"

definition confirmation_receipt :: "catalog_db \<Rightarrow> string \<Rightarrow> retention_event option" where
  "confirmation_receipt c media_id =
     (let es = sort_key ev_id (filter (\<lambda>e. ev_subject_type e = ''media'' \<and> ev_subject_id e = media_id \<and>
                                          ev_action e = ''offsite_confirmed'') (retention_events c))
      in if es = [] then None else Some (last es))"

definition revoke_offsite ::
  "string \<Rightarrow> string \<Rightarrow> string \<Rightarrow> string \<Rightarrow> time \<Rightarrow> catalog_db \<Rightarrow> retention_error + catalog_db \<times> bool" where
  "revoke_offsite media_id actor reason nonce now c =
     (if actor = [] \<or> reason = [] then Inl (RtValueError ''actor and reason must be non-empty'')
      else (case get_confirmation c media_id of
              None \<Rightarrow> Inl (RetentionError (''offsite confirmation '' @ py_repr media_id @ '' does not exist''))
            | Some row \<Rightarrow>
                if of_revoked_at row \<noteq> None then Inr (c, False)
                else (case confirmation_receipt c media_id of
                        None \<Rightarrow> Inl (RetentionError (''offsite confirmation '' @ py_repr media_id @
                                                     '' has no receipt to supersede''))
                      | Some receipt \<Rightarrow>
                          res_bind (with_events
                            (add_event ((media_event media_id ''correction_recorded''
                                 (''offsite-revoke:'' @ media_id @ '':'' @ nonce) actor now
                                 [(''kind'', JStr ''offsite-revocation''), (''reason'', JStr reason)])
                                 \<lparr>ev_supersedes_source := Some ''retention_event'',
                                  ev_supersedes_event_id := Some (ev_id receipt)\<rparr>) (retention_events c))
                            (c\<lparr>offsite_confirmations :=
                                 update_where (\<lambda>o'. of_media_id o' = media_id)
                                   (\<lambda>o'. o'\<lparr>of_revoked_at := Some now, of_revoked_by := Some actor\<rparr>)
                                   (offsite_confirmations c)\<rparr>))
                            (\<lambda>c'. Inr (c', True)))))"

section \<open>Abandoning\<close>

definition put_intake :: "string \<Rightarrow> (intake_row \<Rightarrow> intake_row) \<Rightarrow> catalog_db \<Rightarrow> catalog_db" where
  "put_intake i f c = c\<lparr>intakes := update_where (\<lambda>r. in_id r = i) f (intakes c)\<rparr>"

definition abandon_retention ::
  "intake_row \<Rightarrow> string \<Rightarrow> string \<Rightarrow> string \<Rightarrow> time \<Rightarrow> catalog_db \<Rightarrow> retention_error + catalog_db \<times> bool" where
  "abandon_retention r actor reason nonce now c =
     (if actor = [] \<or> reason = [] then Inl (RtValueError ''actor and reason must be non-empty'')
      else if in_retention_state r = ABANDONED then Inr (c, False)
      else if in_retention_state r \<noteq> HELD \<and> in_retention_state r \<noteq> RELEASED
      then Inl (RetentionError (''cannot abandon intake in state='' @ retention_state_text (in_retention_state r)))
      else res_bind (with_events
             (add_event (new_event (Some (in_id r)) ''intake'' (in_id r) ''abandoned''
                  (''abandon:'' @ in_id r @ '':'' @ nonce) actor now
                  [(''reason'', JStr reason), (''previous_state'', JStr (retention_state_text (in_retention_state r)))] 0)
                (retention_events c))
             (put_intake (in_id r) (\<lambda>x. x\<lparr>in_retention_state := ABANDONED\<rparr>) c))
             (\<lambda>c'. Inr (c', True)))"

section \<open>Status\<close>

definition retention_status :: "witness_world \<Rightarrow> int \<Rightarrow> time \<Rightarrow> catalog_db engine_db \<Rightarrow> intake_row \<Rightarrow> retention_error + intake_gate" where
  "retention_status ww grace_days now db r = res_bind (gate_result (assess_intake ww grace_days now db r)) (\<lambda>(g, _). Inr g)"

definition releasable :: "witness_world \<Rightarrow> time \<Rightarrow> catalog_db engine_db \<Rightarrow> intake_row \<Rightarrow> retention_error + bool" where
  "releasable ww now db r =
     res_bind (retention_status ww DEFAULT_STAGING_GRACE_DAYS now db r) (\<lambda>g. Inr (ig_releasable g))"

definition purge_status :: "witness_world \<Rightarrow> int \<Rightarrow> time \<Rightarrow> catalog_db engine_db \<Rightarrow> intake_row \<Rightarrow> retention_error + string" where
  "purge_status ww grace_days now db r =
     (if in_retention_state r = TOMBSTONED then Inr ''tombstone-gc-pending''
      else if in_retention_state r = ABANDONED then Inr ''abandoned''
      else if in_retention_state r \<noteq> RELEASED then Inr ''not-applicable''
      else res_bind (retention_status ww grace_days now db r) (\<lambda>g. Inr (ig_purge_status g)))"

section \<open>Releasing an intake\<close>

record run_result =
  rr_intake_id :: string
  rr_released :: bool
  rr_deleted_copy_ids :: "nat list"
  rr_reason :: string

definition not_released :: "string \<Rightarrow> string \<Rightarrow> run_result" where
  "not_released i reason = \<lparr>rr_intake_id = i, rr_released = False, rr_deleted_copy_ids = [], rr_reason = reason\<rparr>"

definition state_reason :: "intake_row \<Rightarrow> string" where
  "state_reason r = ''state='' @ retention_state_text (in_retention_state r)"

definition cloud_bundle_id :: "string \<Rightarrow> string" where
  "cloud_bundle_id i = ''cloud-blob:'' @ i"

definition cloud_blob_copies :: "catalog_db \<Rightarrow> string \<Rightarrow> copy_row list" where
  "cloud_blob_copies c i =
     sort_key cp_id (filter (\<lambda>r. cp_bundle_id r = Some (cloud_bundle_id i) \<and> cp_deleted_at r = None) (copies c))"

text \<open>
  The reservation transaction: gate again and record the attempt.  The result is the reason of a hold, or
  the catalog to commit with the policy fingerprint and the copies to delete.
\<close>

definition release_reserve ::
  "string \<Rightarrow> intake_row \<Rightarrow> witness_answers \<Rightarrow> time \<Rightarrow> time \<Rightarrow> catalog_db engine_db \<Rightarrow>
   retention_error + string + catalog_db \<times> string \<times> copy_row list" where
  "release_reserve actor r ws gate_now now db =
     res_bind (gate_result (local_gate_status db r ws True DEFAULT_STAGING_GRACE_DAYS gate_now)) (\<lambda>g.
       if \<not> ig_releasable g then Inr (Inl (hold_reason g))
       else (case policy_fingerprint (catalog db) (intake_items (catalog db) (in_id r)) of
               None \<Rightarrow> Inl RtUnsupportedKind
             | Some f \<Rightarrow>
                 res_bind (with_events
                   (add_once_event (in_id r) ''release_attempted'' (''release:'' @ in_id r) actor now
                      [(''policy_fingerprint'', JStr f)] (retention_events (catalog db))) (catalog db)) (\<lambda>c'.
                   Inr (Inr (c', f, cloud_blob_copies (catalog db) (in_id r))))))"

definition deletable_kind :: "string \<Rightarrow> bool" where
  "deletable_kind kind = (kind \<in> set [''memory'', ''s3'', ''ssh_disk''])"

definition object_of :: "copy_row \<Rightarrow> nat \<times> jobj" where
  "object_of r = (cp_backend_id r, cp_native_locator r)"

fun delete_copy_objects ::
  "(nat \<Rightarrow> bool) \<Rightarrow> catalog_db \<Rightarrow> copy_row list \<Rightarrow> (nat \<times> jobj) list \<Rightarrow>
   (nat \<times> jobj) list \<times> (retention_error + (nat \<times> string) list)" where
  "delete_copy_objects fails c [] objs = (objs, Inr [])"
| "delete_copy_objects fails c (r # rs) objs =
     (if fails (cp_id r) then (objs, Inl (RtBackendError (cp_id r)))
      else if \<not> deletable_kind (copy_kind c r)
      then (objs, Inl (RetentionError (''backend '' @
              py_repr (case get_backend c (cp_backend_id r) of None \<Rightarrow> [] | Some b \<Rightarrow> be_name b) @
              '' for copy id='' @ str_nat (cp_id r) @ '' does not support delete_object'')))
      else (case delete_copy_objects fails c rs (filter (\<lambda>x. x \<noteq> object_of r) objs) of
              (objs', Inl e) \<Rightarrow> (objs', Inl e)
            | (objs', Inr outs) \<Rightarrow>
                (objs', Inr ((cp_id r, if object_of r \<in> set objs then ''deleted'' else ''already-absent'') # outs))))"

definition aggregate_outcome :: "(nat \<times> string) list \<Rightarrow> string" where
  "aggregate_outcome outs = (if list_all (\<lambda>(_, x). x = ''already-absent'') outs then ''already-absent'' else ''deleted'')"

definition mark_deleted :: "nat list \<Rightarrow> time \<Rightarrow> copy_row list \<Rightarrow> copy_row list" where
  "mark_deleted ids now = update_where (\<lambda>x. cp_id x \<in> set ids) (\<lambda>x. x\<lparr>cp_deleted_at := Some now\<rparr>)"

text \<open>
  The outcome transaction.  The session still holds the copies it deleted, loaded with no deletion time,
  so each of them is written.
\<close>

definition release_commit ::
  "string \<Rightarrow> intake_row \<Rightarrow> string \<Rightarrow> nat list \<Rightarrow> (nat \<times> string) list \<Rightarrow> time \<Rightarrow> catalog_db \<Rightarrow> retention_error + catalog_db" where
  "release_commit actor r fingerprint copy_ids outs now c =
     (let i = in_id r; op = ''release:'' @ in_id r; ids = JArr (map (\<lambda>k. JInt (int k)) copy_ids)
      in res_bind (with_events
           (res_bind (add_once_event i ''cloud_blob_deleted'' op actor now
              [(''bundle_id'', JStr (cloud_bundle_id i)), (''copy_ids'', ids), (''outcome'', JStr (aggregate_outcome outs)),
               (''copy_outcomes'', JArr (map (\<lambda>(k, x). JObj [(''copy_id'', JInt (int k)), (''outcome'', JStr x)]) outs))]
              (retention_events c))
            (add_once_event i ''released'' op actor now [(''copy_ids'', ids)])) c) (\<lambda>c'.
         Inr (put_intake i (\<lambda>x. x\<lparr>in_retention_state := RELEASED, in_released_at := Some now,
                                  in_release_fingerprint := Some fingerprint\<rparr>)
               (c'\<lparr>copies := mark_deleted copy_ids now (copies c')\<rparr>))))"

definition run_retention ::
  "retention_env \<Rightarrow> string \<Rightarrow> intake_row \<Rightarrow> witness_answers option \<Rightarrow> retention_world \<Rightarrow>
   retention_world \<times> (retention_error + run_result)" where
  "run_retention e actor r answers w =
     (let i = in_id r in
      if actor = [] then (w, Inl (RtValueError ''actor must be non-empty''))
      else if in_retention_state r \<noteq> HELD then (w, Inr (not_released i (state_reason r)))
      else let ws = fresh_witness_answers (rv_wit e 0) (rv_now e 0) (rw_catalog w) (intake_items (rw_catalog w) i) answers
      in case gate_result (local_gate_status (rw_db w) r ws True DEFAULT_STAGING_GRACE_DAYS (rv_now e 1)) of
           Inl err \<Rightarrow> (w, Inl err)
         | Inr g \<Rightarrow>
             if \<not> ig_releasable g then (w, Inr (not_released i (hold_reason g)))
             else let w1 = rv_itf e 0 w;
                      ws1 = fresh_witness_answers (rv_wit e 1) (rv_now e 2) (rw_catalog w1) (intake_items (rw_catalog w1) i) (Some ws);
                      w2 = rv_itf e 1 w1
             in (case release_reserve actor r ws1 (rv_now e 3) (rv_now e 4) (rw_db w2) of
                   Inl err \<Rightarrow> (w2, Inl err)
                 | Inr (Inl reason) \<Rightarrow> (w2, Inr (not_released i reason))
                 | Inr (Inr (c', f, cs)) \<Rightarrow>
                     let w3 = rv_itf e 2 (set_db c' w2)
                     in (case delete_copy_objects (rv_fails e) (rw_catalog w3) cs (rw_objects w3) of
                           (objs, Inl err) \<Rightarrow> (w3\<lparr>rw_objects := objs\<rparr>, Inl err)
                         | (objs, Inr outs) \<Rightarrow>
                             let w4 = rv_itf e 3 (w3\<lparr>rw_objects := objs\<rparr>)
                             in if in_retention_state r \<noteq> HELD then (w4, Inr (not_released i (state_reason r)))
                             else (case release_commit actor r f (map cp_id cs) outs (rv_now e 5) (rw_catalog w4) of
                                   Inl err \<Rightarrow> (w4, Inl err)
                                 | Inr c4 \<Rightarrow>
                                     (set_db c4 w4,
                                      Inr \<lparr>rr_intake_id = i, rr_released = True, rr_deleted_copy_ids = map cp_id cs,
                                           rr_reason = ''released''\<rparr>)))))"

section \<open>Staging paths\<close>

definition shown_path :: "path option \<Rightarrow> path \<Rightarrow> string" where
  "shown_path base p =
     (case base of
        None \<Rightarrow> str_path p
      | Some b \<Rightarrow> (case drop (length b) p of [] \<Rightarrow> ''.'' | x # xs \<Rightarrow> x @ concat (map (\<lambda>y. ''/'' @ y) xs)))"

fun check_components :: "filesystem \<Rightarrow> path option \<Rightarrow> bool \<Rightarrow> path \<Rightarrow> path \<Rightarrow> retention_error + unit" where
  "check_components fs base allow cur [] = Inr ()"
| "check_components fs base allow cur (x # rest) =
     (case lstat_node fs (cur @ [x]) of
        Inl NotFound \<Rightarrow>
          if allow then (if rest = [] then Inr () else check_components fs base allow (cur @ [x]) rest)
          else Inl (RetentionError (''path component does not exist: '' @ shown_path base (cur @ [x])))
      | Inl err \<Rightarrow> Inl (RtOsError err)
      | Inr (LinkNode _) \<Rightarrow> Inl (RetentionError (''symlink path component rejected: '' @ shown_path base (cur @ [x])))
      | Inr _ \<Rightarrow> check_components fs base allow (cur @ [x]) rest)"

definition assert_no_symlink_components :: "filesystem \<Rightarrow> bool \<Rightarrow> path \<Rightarrow> retention_error + unit" where
  "assert_no_symlink_components fs allow_missing_leaf p = check_components fs None allow_missing_leaf [] p"

definition os_result :: "os_error + 'a \<Rightarrow> retention_error + 'a" where
  "os_result x = (case x of Inl err \<Rightarrow> Inl (RtOsError err) | Inr v \<Rightarrow> Inr v)"

definition resolve_strict :: "filesystem \<Rightarrow> path \<Rightarrow> retention_error + path" where
  "resolve_strict fs p = os_result (follow fs max_links [] p)"

definition env_str :: "string option \<Rightarrow> string \<Rightarrow> string" where
  "env_str v d = (case v of None \<Rightarrow> d | Some s \<Rightarrow> s)"

definition landing_roots :: "site \<Rightarrow> filesystem \<Rightarrow> retention_error + path list" where
  "landing_roots si fs =
     (let parts = filter (\<lambda>p. p \<noteq> []) (split_at (CHR '':'') (env_str (si_landing_roots si) []));
          values = (if parts = [] then [env_str (si_receive_root si) ''/replica/landing''] else parts)
      in res_map (\<lambda>v. let p = absolute (si_cwd si) v
                      in res_bind (assert_no_symlink_components fs False p) (\<lambda>_. resolve_strict fs p)) values)"

definition tombstone_root :: "site \<Rightarrow> filesystem \<Rightarrow> retention_error + path" where
  "tombstone_root si fs =
     (case si_tombstone_root si of
        Some s \<Rightarrow>
          if s \<noteq> [] then Inr (absolute (si_cwd si) s)
          else res_bind (landing_roots si fs) (\<lambda>rs. Inr (hd rs @ [''.retention-tombstones'']))
      | None \<Rightarrow> res_bind (landing_roots si fs) (\<lambda>rs. Inr (hd rs @ [''.retention-tombstones''])))"

definition unsafe_delete_root :: "path \<Rightarrow> bool" where
  "unsafe_delete_root p = (p = [] \<or> length p + 1 < 3)"

definition is_relative_to :: "path \<Rightarrow> path \<Rightarrow> bool" where
  "is_relative_to p rt = (prefix rt p \<and> p \<noteq> rt)"

definition item_source_paths :: "site \<Rightarrow> catalog_db \<Rightarrow> string \<Rightarrow> path list" where
  "item_source_paths si c i =
     [absolute (si_cwd si) v. it \<leftarrow> ingest_items c, it_intake_id it = i,
        v \<leftarrow> (case map_of (it_metadata it) ''source_path'' of Some (JStr v) \<Rightarrow> [v] | _ \<Rightarrow> []), v \<noteq> []]"

definition staging_root_for_intake :: "site \<Rightarrow> catalog_db \<Rightarrow> intake_row \<Rightarrow> path option" where
  "staging_root_for_intake si c r =
     (if env_str (in_manifest_path r) [] \<noteq> []
      then Some (butlast (absolute (si_cwd si) (env_str (in_manifest_path r) [])))
      else case item_source_paths si c (in_id r) of
             [] \<Rightarrow> None
           | p # ps \<Rightarrow> Some (commonpath (map butlast (p # ps))))"

definition bytes_sha256 :: "string \<Rightarrow> string" where
  "bytes_sha256 b = sha256_hex (map of_char b)"

definition validate_sentinel :: "site \<Rightarrow> filesystem \<Rightarrow> path \<Rightarrow> string \<Rightarrow> retention_error + unit" where
  "validate_sentinel si fs root_path i =
     (let sentinel = root_path @ [''intake.json'']
      in res_bind (assert_no_symlink_components fs False sentinel) (\<lambda>_.
           case path_file fs sentinel of
             None \<Rightarrow> Inl (RetentionError ''intake sentinel is not a regular file'')
           | Some (_, None) \<Rightarrow> Inl (RetentionError (''invalid intake sentinel: '' @ si_parse_text si))
           | Some (_, Some (JObj kvs)) \<Rightarrow>
               if map_of kvs ''intake_id'' = Some (JStr i) then Inr ()
               else Inl (RetentionError ''intake sentinel identity mismatch'')
           | Some (_, Some _) \<Rightarrow> Inl (RetentionError ''intake sentinel identity mismatch'')))"

definition tombstone_name :: "string \<Rightarrow> string" where
  "tombstone_name i = ''v1-'' @ sha256_hex (utf8 i)"

definition validate_manifest :: "site \<Rightarrow> filesystem \<Rightarrow> path \<Rightarrow> intake_row \<Rightarrow> string \<Rightarrow> retention_error + unit" where
  "validate_manifest si fs resolved r m =
     (let parts = path_parts m; base = (if is_absolute m then None else Some (si_cwd si))
      in res_bind (check_components fs base False (if is_absolute m then [] else si_cwd si) parts) (\<lambda>_.
         res_bind (resolve_strict fs (absolute (si_cwd si) m)) (\<lambda>manifest.
           if \<not> is_relative_to manifest resolved then Inl (RetentionError ''manifest escapes the staging root'')
           else (case path_file fs manifest of
                   None \<Rightarrow> Inl (RetentionError ''manifest is not a regular file'')
                 | Some (b, _) \<Rightarrow>
                     (case in_manifest_digest r of
                        None \<Rightarrow> Inl (RetentionError ''manifest digest is missing'')
                      | Some d \<Rightarrow> if bytes_sha256 b \<noteq> d then Inl (RetentionError ''manifest digest mismatch'') else Inr ())))))"

definition validate_staging_root :: "site \<Rightarrow> filesystem \<Rightarrow> path \<Rightarrow> intake_row \<Rightarrow> retention_error + unit" where
  "validate_staging_root si fs p r =
     res_bind (assert_no_symlink_components fs False p) (\<lambda>_.
     res_bind (resolve_strict fs p) (\<lambda>resolved.
       if unsafe_delete_root resolved then Inl (RetentionError (''unsafe staging root: '' @ str_path resolved))
       else res_bind (landing_roots si fs) (\<lambda>roots.
         if \<not> list_ex (is_relative_to resolved) roots
         then Inl (RetentionError (''staging root is outside the configured landing roots: '' @ str_path resolved))
         else res_bind (validate_sentinel si fs resolved (in_id r)) (\<lambda>_.
           case in_manifest_path r of None \<Rightarrow> Inr () | Some m \<Rightarrow> validate_manifest si fs resolved r m))))"

definition validate_tombstone_path :: "site \<Rightarrow> filesystem \<Rightarrow> path \<Rightarrow> string \<Rightarrow> retention_error + unit" where
  "validate_tombstone_path si fs p i =
     res_bind (tombstone_root si fs) (\<lambda>t.
     res_bind (resolve_strict fs t) (\<lambda>expected_root.
     res_bind (assert_no_symlink_components fs True p) (\<lambda>_.
       let resolved = resolve_lax fs max_links [] p
       in if butlast resolved \<noteq> expected_root
          then Inl (RetentionError ''recorded tombstone path is outside the configured root'')
          else if resolved = [] \<or> last resolved \<noteq> tombstone_name i
          then Inl (RetentionError ''recorded tombstone basename does not match the intake'')
          else if path_exists fs resolved then validate_sentinel si fs resolved i else Inr ())))"

text \<open>The tombstone root is created on the way, also when a later check fails.\<close>

definition preflight_staging_paths ::
  "site \<Rightarrow> catalog_db \<Rightarrow> intake_row \<Rightarrow> filesystem \<Rightarrow> filesystem \<times> (retention_error + path \<times> path)" where
  "preflight_staging_paths si c r fs =
     (case staging_root_for_intake si c r of
        None \<Rightarrow> (fs, Inl (RetentionError ''staging root is not recorded''))
      | Some staging \<Rightarrow>
          (case res_bind (tombstone_root si fs) (\<lambda>t.
                  res_bind (assert_no_symlink_components fs True t) (\<lambda>_.
                  res_bind (os_result (mkdir_parents fs [] t)) (\<lambda>fs1. Inr (t, fs1)))) of
             Inl err \<Rightarrow> (fs, Inl err)
           | Inr (t, fs1) \<Rightarrow>
               (fs1, res_bind (assert_no_symlink_components fs1 False t) (\<lambda>_.
                  let tomb = t @ [tombstone_name (in_id r)]
                  in if path_exists fs1 tomb \<and> \<not> path_exists fs1 staging
                     then res_bind (validate_tombstone_path si fs1 tomb (in_id r)) (\<lambda>_. Inr (staging, tomb))
                     else res_bind (validate_staging_root si fs1 staging r) (\<lambda>_.
                          res_bind (os_result (path_device fs1 staging)) (\<lambda>d1.
                          res_bind (os_result (path_device fs1 t)) (\<lambda>d2.
                            if d1 \<noteq> d2 then Inl (RetentionError ''tombstone root is not on the staging filesystem'')
                            else Inr (staging, tomb))))))))"

definition atomic_tombstone ::
  "site \<Rightarrow> path \<Rightarrow> path \<Rightarrow> string \<Rightarrow> filesystem \<Rightarrow> filesystem \<times> (retention_error + unit)" where
  "atomic_tombstone si source destination i fs =
     (if path_exists fs destination
      then (fs, res_bind (validate_sentinel si fs destination i) (\<lambda>_.
              if path_exists fs source then Inl (RetentionError ''both staging and tombstone paths exist'') else Inr ()))
      else if \<not> path_exists fs source
      then (fs, Inl (RetentionError ''staging path disappeared before tombstone rename''))
      else (case os_replace source destination fs of
              Inl err \<Rightarrow> (fs, Inl (RtOsError err))
            | Inr fs1 \<Rightarrow> (fs1, validate_sentinel si fs1 destination i)))"

section \<open>Sweeping staging\<close>

record sweep_result =
  sr_intake_id :: string
  sr_purged :: bool
  sr_deleted_path :: "string option"
  sr_reason :: string

definition not_purged :: "string \<Rightarrow> string option \<Rightarrow> string \<Rightarrow> sweep_result" where
  "not_purged i p reason = \<lparr>sr_intake_id = i, sr_purged = False, sr_deleted_path = p, sr_reason = reason\<rparr>"

definition purge_hold_event :: "string \<Rightarrow> string \<Rightarrow> string list \<Rightarrow> time \<Rightarrow> retention_event" where
  "purge_hold_event actor i reasons now =
     new_event (Some i) ''intake'' i ''staging_purge_held'' (''purge:'' @ i) actor now
       [(''reasons'', JArr (map JStr reasons))] 0"

text \<open>\<open>_record_purge_hold\<close>, the commit and the result.\<close>

definition hold_purge ::
  "string \<Rightarrow> string \<Rightarrow> string list \<Rightarrow> time \<Rightarrow> retention_world \<Rightarrow> retention_world \<times> (retention_error + sweep_result)" where
  "hold_purge actor i reasons now w =
     (case with_events (add_event (purge_hold_event actor i reasons now) (retention_events (rw_catalog w))) (rw_catalog w) of
        Inl err \<Rightarrow> (w, Inl err)
      | Inr c \<Rightarrow> (set_db c w, Inr (not_purged i None (hd reasons))))"

definition grace_override_event :: "string \<Rightarrow> string \<Rightarrow> int \<Rightarrow> time \<Rightarrow> retention_event" where
  "grace_override_event operation_id actor grace_days now =
     new_event None ''batch'' operation_id ''grace_overridden'' operation_id actor now
       [(''grace_days'', JInt grace_days), (''default_grace_days'', JInt DEFAULT_STAGING_GRACE_DAYS)] 0"

definition delete_path_idempotent :: "filesystem \<Rightarrow> path \<Rightarrow> path list option \<Rightarrow> filesystem \<times> (retention_error + unit)" where
  "delete_path_idempotent fs p stop =
     (let resolved = resolve_lax fs max_links [] p
      in if unsafe_delete_root resolved
         then (fs, Inl (RetentionError (''refusing to delete unsafe staging path: '' @ str_path resolved)))
         else (case stop of
                 Some removed \<Rightarrow>
                   (filter (\<lambda>(q, _). \<not> (prefix resolved q \<and> q \<in> set removed)) fs, Inl RtCrash)
               | None \<Rightarrow> (remove_tree resolved fs, Inr ())))"

text \<open>\<open>str(Path(text))\<close>.\<close>

definition path_text :: "site \<Rightarrow> string \<Rightarrow> string" where
  "path_text si text =
     shown_path (if is_absolute text then None else Some (si_cwd si)) (absolute (si_cwd si) text)"

definition resume_tombstone_gc ::
  "site \<Rightarrow> retention_env \<Rightarrow> string \<Rightarrow> intake_row \<Rightarrow> retention_world \<Rightarrow> retention_world \<times> (retention_error + sweep_result)" where
  "resume_tombstone_gc si e actor r w =
     (let i = in_id r in
      case in_tombstone_path r of
        None \<Rightarrow> (w, Inl (RetentionError ''tombstoned intake is missing its tombstone path''))
      | Some text \<Rightarrow>
          (let p = absolute (si_cwd si) text; shown = path_text si text in
           case validate_tombstone_path si (rw_fs w) p i of
             Inl err \<Rightarrow> (w, Inl err)
           | Inr _ \<Rightarrow>
               (case delete_path_idempotent (rw_fs w) p (rv_gc_stop e) of
                  (fs, Inl err) \<Rightarrow> (w\<lparr>rw_fs := fs\<rparr>, Inl err)
                | (fs, Inr _) \<Rightarrow>
                    (let w1 = rv_itf e 6 (w\<lparr>rw_fs := fs\<rparr>) in
                     if in_retention_state r = PURGED then (w1, Inr (not_purged i (Some shown) ''already-purged''))
                     else if in_retention_state r \<noteq> TOMBSTONED then (w1, Inr (not_purged i (Some shown) (state_reason r)))
                     else (case with_events (add_once_event i ''staging_deleted'' (''purge:'' @ i) actor (rv_now e 20)
                                    [(''path'', JStr shown)] (retention_events (rw_catalog w1))) (rw_catalog w1) of
                             Inl err \<Rightarrow> (w1, Inl err)
                           | Inr c \<Rightarrow>
                               (set_db (put_intake i (\<lambda>x. x\<lparr>in_retention_state := PURGED,
                                                           in_staging_deleted_at := Some (rv_now e 20)\<rparr>) c) w1,
                                Inr \<lparr>sr_intake_id = i, sr_purged = True, sr_deleted_path = Some shown,
                                     sr_reason = ''purged''\<rparr>))))))"

text \<open>
  Transaction B, the point of no return; \<open>refreshed\<close> is whether the one allowed witness refresh has
  happened, and after a rollback the intake is read again.
\<close>

definition purge_gated ::
  "retention_env \<Rightarrow> nat \<Rightarrow> int \<Rightarrow> intake_row \<Rightarrow> witness_answers \<Rightarrow> retention_world \<Rightarrow> retention_error + string list" where
  "purge_gated e k grace_days r ws w =
     gate_result (purge_holds (rw_db w) r ws grace_days (rv_now e k) (rv_now e (k + 1)))"

definition tombstone_staging ::
  "site \<Rightarrow> retention_env \<Rightarrow> nat \<Rightarrow> string \<Rightarrow> intake_row \<Rightarrow> path \<Rightarrow> path \<Rightarrow> retention_world \<Rightarrow>
   retention_world \<times> (retention_error + sweep_result)" where
  "tombstone_staging si e k actor r staging tomb w =
     (let i = in_id r in
      case atomic_tombstone si staging tomb i (rw_fs w) of
        (fs, Inl err) \<Rightarrow> (w\<lparr>rw_fs := fs\<rparr>, Inl err)
      | (fs, Inr _) \<Rightarrow>
          if rv_crash e then (w\<lparr>rw_fs := fs\<rparr>, Inl RtCrash)
          else (let now = rv_now e k; text = str_path tomb in
                case with_events (add_once_event i ''staging_tombstoned'' (''purge:'' @ i) actor now
                       [(''source_path'', JStr (str_path staging)), (''tombstone_path'', JStr text)]
                       (retention_events (rw_catalog w))) (rw_catalog w) of
                  Inl err \<Rightarrow> (w\<lparr>rw_fs := fs\<rparr>, Inl err)
                | Inr c \<Rightarrow>
                    let set_row = (\<lambda>x. x\<lparr>in_retention_state := TOMBSTONED, in_tombstoned_at := Some now,
                                          in_tombstone_path := Some text\<rparr>)
                    in resume_tombstone_gc si e actor (set_row r)
                         (rv_itf e 5 (set_db (put_intake i set_row c) (w\<lparr>rw_fs := fs\<rparr>)))))"

definition commit_attempt ::
  "site \<Rightarrow> retention_env \<Rightarrow> nat \<Rightarrow> string \<Rightarrow> int \<Rightarrow> intake_row \<Rightarrow> witness_answers \<Rightarrow> retention_world \<Rightarrow>
   (retention_world \<times> (retention_error + sweep_result)) + retention_world \<times> witness_request list" where
  "commit_attempt si e k actor grace_days r ws w =
     (case purge_gated e k grace_days r ws w of
        Inl err \<Rightarrow> Inl (w, Inl err)
      | Inr holds \<Rightarrow>
          if holds \<noteq> [] then Inl (hold_purge actor (in_id r) holds (rv_now e (k + 2)) w)
          else (case preflight_staging_paths si (rw_catalog w) r (rw_fs w) of
                  (fs, Inl err) \<Rightarrow> Inl (w\<lparr>rw_fs := fs\<rparr>, Inl err)
                | (fs, Inr (staging, tomb)) \<Rightarrow>
                    if witness_answers_stale (rv_now e (k + 3)) ws
                    then Inr (w\<lparr>rw_fs := fs\<rparr>,
                              prepare_witness_requests (rv_wit e 2) (rw_catalog w) (intake_items (rw_catalog w) (in_id r)))
                    else Inl (tombstone_staging si e (k + 4) actor r staging tomb (w\<lparr>rw_fs := fs\<rparr>))))"

text \<open>The rounds of transaction B; \<open>None\<close>: still running after \<open>n\<close> rounds.\<close>

fun commit_loop ::
  "nat \<Rightarrow> bool \<Rightarrow> site \<Rightarrow> retention_env \<Rightarrow> string \<Rightarrow> int \<Rightarrow> intake_row \<Rightarrow> witness_answers \<Rightarrow> retention_world \<Rightarrow>
   (retention_world \<times> (retention_error + sweep_result)) option" where
  "commit_loop 0 refreshed si e actor grace_days r ws w = None"
| "commit_loop (Suc n) refreshed si e actor grace_days r ws w =
     (case commit_attempt si e (if refreshed then 15 else 10) actor grace_days r ws w of
        Inl res \<Rightarrow> Some res
      | Inr (w1, requests) \<Rightarrow>
          (let w2 = rv_itf e (if refreshed then 7 else 4) w1 in
           case require_intake (rw_catalog w2) (in_id r) of
             Inl err \<Rightarrow> Some (w2, Inl err)
           | Inr r2 \<Rightarrow>
               if refreshed then Some (hold_purge actor (in_id r2) [''rem-unconfirmed''] (rv_now e 20) w2)
               else commit_loop n True si e actor grace_days r2 (execute_witness_requests (rv_wit e 2) requests) w2))"

definition commit_purge ::
  "site \<Rightarrow> retention_env \<Rightarrow> string \<Rightarrow> int \<Rightarrow> intake_row \<Rightarrow> witness_answers \<Rightarrow> retention_world \<Rightarrow>
   retention_world \<times> (retention_error + sweep_result)" where
  "commit_purge si e actor grace_days r ws w =
     (case commit_loop 2 False si e actor grace_days r ws (rv_itf e 3 w) of
        Some res \<Rightarrow> res
      | None \<Rightarrow> (w, Inl RtCrash))"

definition sweep_released ::
  "site \<Rightarrow> retention_env \<Rightarrow> string \<Rightarrow> int \<Rightarrow> intake_row \<Rightarrow> witness_answers option \<Rightarrow> retention_world \<Rightarrow>
   retention_world \<times> (retention_error + sweep_result)" where
  "sweep_released si e actor grace_days r answers w =
     (let i = in_id r;
          ws = fresh_witness_answers (rv_wit e 0) (rv_now e 0) (rw_catalog w) (intake_items (rw_catalog w) i) answers in
      case purge_gated e 1 grace_days r ws w of
        Inl err \<Rightarrow> (w, Inl err)
      | Inr holds \<Rightarrow>
          (case preflight_staging_paths si (rw_catalog w) r (rw_fs w) of
             (fs, Inl (RetentionError m)) \<Rightarrow> hold_purge actor i (holds @ [''staging-path:'' @ m]) (rv_now e 3) (w\<lparr>rw_fs := fs\<rparr>)
           | (fs, Inl err) \<Rightarrow> (w\<lparr>rw_fs := fs\<rparr>, Inl err)
           | (fs, Inr (staging, tomb)) \<Rightarrow>
               if holds \<noteq> [] then hold_purge actor i holds (rv_now e 3) (w\<lparr>rw_fs := fs\<rparr>)
               else let w1 = rv_itf e 1 (w\<lparr>rw_fs := fs\<rparr>);
                        ws1 = fresh_witness_answers (rv_wit e 1) (rv_now e 4) (rw_catalog w1)
                                (intake_items (rw_catalog w1) i) (Some ws);
                        w2 = rv_itf e 2 w1
               in (case purge_gated e 5 grace_days r ws1 w2 of
                     Inl err \<Rightarrow> (w2, Inl err)
                   | Inr holds2 \<Rightarrow>
                       if holds2 \<noteq> [] then hold_purge actor i holds2 (rv_now e 7) w2
                       else (case with_events (add_once_event i ''purge_attempted'' (''purge:'' @ i) actor (rv_now e 8)
                                    [(''path'', JStr (str_path staging)), (''grace_days'', JInt grace_days)]
                                    (retention_events (rw_catalog w2))) (rw_catalog w2) of
                               Inl err \<Rightarrow> (w2, Inl err)
                             | Inr c \<Rightarrow> commit_purge si e actor grace_days r ws1 (set_db c w2)))))"

definition sweep_staging ::
  "site \<Rightarrow> retention_env \<Rightarrow> string \<Rightarrow> int \<Rightarrow> bool \<Rightarrow> intake_row \<Rightarrow> witness_answers option \<Rightarrow> bool \<Rightarrow> retention_world \<Rightarrow>
   retention_world \<times> (retention_error + sweep_result)" where
  "sweep_staging si e actor grace_days break_glass r answers override_evented w =
     (let i = in_id r in
      if actor = [] then (w, Inl (RtValueError ''actor must be non-empty''))
      else if in_retention_state r = PURGED then (w, Inr (not_purged i None ''already-purged''))
      else if in_retention_state r = ABANDONED then (w, Inr (not_purged i None ''abandoned''))
      else if grace_days < DEFAULT_STAGING_GRACE_DAYS \<and> \<not> break_glass then (w, Inr (not_purged i None ''grace-below-floor''))
      else (case (if grace_days < DEFAULT_STAGING_GRACE_DAYS \<and> \<not> override_evented
                  then with_events (add_event (grace_override_event (''grace-override:'' @ rv_nonce e) actor grace_days (rv_now e 9))
                                      (retention_events (rw_catalog w))) (rw_catalog w)
                  else Inr (rw_catalog w)) of
              Inl err \<Rightarrow> (w, Inl err)
            | Inr c \<Rightarrow>
                let w0 = (if grace_days < DEFAULT_STAGING_GRACE_DAYS \<and> \<not> override_evented then rv_itf e 0 (set_db c w) else w)
                in if in_retention_state r = TOMBSTONED then resume_tombstone_gc si e actor r w0
                   else if in_retention_state r \<noteq> RELEASED \<or> in_released_at r = None
                   then (w0, Inr (not_purged i None (state_reason r)))
                   else sweep_released si e actor grace_days r answers w0))"

section \<open>Batches\<close>

record batch_candidate =
  bc_intake_id :: string
  bc_release_condition :: string
  bc_evidence :: "string list"
  bc_recent_flip :: bool

record 'r batch_result =
  br_operation_id :: string
  br_action :: string
  br_limit :: int
  br_candidate_count :: nat
  br_refused :: bool
  br_dry_run :: bool
  br_all_held :: bool
  br_candidates :: "batch_candidate list"
  br_holds :: "(string \<times> string list) list"
  br_results :: "'r list"
  br_reason :: string

record batch_env =
  bv_wit :: "string \<Rightarrow> witness_world"
  bv_now :: "string \<Rightarrow> time"
  bv_run :: "string \<Rightarrow> retention_env"
  bv_itf :: "string \<Rightarrow> retention_world \<Rightarrow> retention_world"
  bv_reload :: "string \<Rightarrow> bool"
  bv_nonce :: string
  bv_at :: time

definition batch_limit :: "int option \<Rightarrow> retention_error + int" where
  "batch_limit v =
     (let limit = (case v of None \<Rightarrow> DEFAULT_BATCH_LIMIT | Some n \<Rightarrow> n)
      in if limit \<le> 0 then Inl (RtValueError ''batch_limit must be greater than zero'') else Inr limit)"

definition candidate_intakes :: "catalog_db \<Rightarrow> string option \<Rightarrow> retention_state list \<Rightarrow> intake_row list" where
  "candidate_intakes c intake_id states =
     sort_key in_id
       (filter (\<lambda>r. case intake_id of None \<Rightarrow> in_retention_state r \<in> set states | Some i \<Rightarrow> in_id r = i) (intakes c))"

definition get_copy_row :: "catalog_db \<Rightarrow> nat \<Rightarrow> copy_row option" where
  "get_copy_row c i = find (\<lambda>r. cp_id r = i) (copies c)"

definition pool_evidence :: "catalog_db \<Rightarrow> pool_gate \<Rightarrow> (time \<times> string) list" where
  "pool_evidence c p =
     (case (if pg_satisfied p then pg_copy_id p else None) of
        None \<Rightarrow> []
      | Some i \<Rightarrow>
          (case get_copy_row c i of
             None \<Rightarrow> []
           | Some r \<Rightarrow>
               (case cp_last_measured_at r of
                  None \<Rightarrow> []
                | Some t \<Rightarrow>
                    (t, ''verified:'' @ pg_pool_id p) #
                    (case (if pg_offsite_gate p then pg_media_id p else None) of
                       None \<Rightarrow> []
                     | Some m \<Rightarrow>
                         (case get_confirmation c m of
                            None \<Rightarrow> []
                          | Some o' \<Rightarrow> if of_revoked_at o' = None then [(of_confirmed_at o', ''offsite-confirmed:'' @ m)] else [])))))"

definition release_condition :: "catalog_db \<Rightarrow> intake_gate \<Rightarrow> retention_error + string" where
  "release_condition c g =
     (let evidence = [x. a \<leftarrow> ig_assets g, p \<leftarrow> ag_pools a, x \<leftarrow> pool_evidence c p]
      in if evidence = []
         then Inl (RetentionError (''releasable intake '' @ py_repr (ig_intake_id g) @ '' has no release-enabling evidence''))
         else Inr (snd (last (sort evidence))))"

definition batch_candidate_of :: "catalog_db \<Rightarrow> time \<Rightarrow> intake_gate \<Rightarrow> string \<Rightarrow> batch_candidate" where
  "batch_candidate_of c now g condition =
     \<lparr>bc_intake_id = ig_intake_id g, bc_release_condition = condition,
      bc_evidence = [''asset:'' @ str_nat (ag_item_id a) @ '':pool:'' @ pg_pool_id p @ '':copy:'' @
                       (case pg_copy_id p of None \<Rightarrow> ''None'' | Some k \<Rightarrow> str_nat k).
                       a \<leftarrow> ig_assets g, p \<leftarrow> ag_pools a, pg_satisfied p],
      bc_recent_flip =
        list_ex (\<lambda>a. list_ex (\<lambda>p. pg_satisfied p \<and>
                   (case pg_copy_id p of
                      None \<Rightarrow> False
                    | Some k \<Rightarrow> (case get_copy_row c k of None \<Rightarrow> False | Some r \<Rightarrow> cp_health_changed_at r \<ge> now - days 1)))
                 (ag_pools a)) (ig_assets g)\<rparr>"

definition batch_detail :: "string \<Rightarrow> int \<Rightarrow> nat \<Rightarrow> bool \<Rightarrow> bool \<Rightarrow> jobj" where
  "batch_detail action limit count dry_run refused =
     [(''action'', JStr action), (''limit'', JInt limit), (''candidate_count'', JInt (int count)),
      (''dry_run'', JBool dry_run), (''refused'', JBool refused)]"

definition record_batch_invocation ::
  "string \<Rightarrow> string \<Rightarrow> string \<Rightarrow> int \<Rightarrow> nat \<Rightarrow> bool \<Rightarrow> bool \<Rightarrow> string \<Rightarrow> time \<Rightarrow> catalog_db \<Rightarrow> retention_error + catalog_db" where
  "record_batch_invocation op actor action limit count dry_run refused reason now c =
     (let detail = batch_detail action limit count dry_run refused
      in with_events
           (res_bind (add_event (new_event None ''batch'' op ''batch_invoked'' op actor now detail 0) (retention_events c)) (\<lambda>es.
              if refused
              then add_event (new_event None ''batch'' op ''batch_refused'' op actor now (detail @ [(''reason'', JStr reason)]) 0) es
              else Inr es)) c)"

type_synonym assessment = "intake_row \<times> intake_gate \<times> witness_answers"

definition assess_all :: "batch_env \<Rightarrow> int \<Rightarrow> catalog_db engine_db \<Rightarrow> intake_row list \<Rightarrow> retention_error + assessment list" where
  "assess_all b grace_days db =
     res_map (\<lambda>r. res_bind (gate_result (assess_intake (bv_wit b (in_id r)) grace_days (bv_now b (in_id r)) db r))
                    (\<lambda>(g, ws). Inr (r, g, ws)))"

text \<open>
  The candidates one after the other.  \<open>bv_itf b i\<close> is what other processes do before the candidate \<open>i\<close>, and
  \<open>bv_reload b i\<close> whether an earlier candidate rolled the session back, so that its row is read again.
\<close>

fun run_each ::
  "batch_env \<Rightarrow> (intake_row \<Rightarrow> witness_answers \<Rightarrow> retention_world \<Rightarrow> retention_world \<times> (retention_error + 'r)) \<Rightarrow>
   assessment list \<Rightarrow> retention_world \<Rightarrow> retention_world \<times> (retention_error + 'r list)" where
  "run_each b f [] w = (w, Inr [])"
| "run_each b f ((r, g, ws) # xs) w =
     (let i = in_id r; w0 = bv_itf b i w in
      case (if bv_reload b i then require_intake (rw_catalog w0) i else Inr r) of
        Inl err \<Rightarrow> (w0, Inl err)
      | Inr r0 \<Rightarrow>
          (case f r0 ws w0 of
             (w1, Inl err) \<Rightarrow> (w1, Inl err)
           | (w1, Inr x) \<Rightarrow>
               (case run_each b f xs w1 of (w2, Inl err) \<Rightarrow> (w2, Inl err) | (w2, Inr ys) \<Rightarrow> (w2, Inr (x # ys)))))"

text \<open>What the two batches share once the candidates are known.\<close>

definition run_batch ::
  "batch_env \<Rightarrow> string \<Rightarrow> string \<Rightarrow> string \<Rightarrow> int \<Rightarrow> bool \<Rightarrow> assessment list \<Rightarrow> batch_candidate list \<Rightarrow>
   (string \<times> string list) list \<Rightarrow> ('r \<Rightarrow> bool) \<Rightarrow>
   (intake_row \<Rightarrow> witness_answers \<Rightarrow> retention_world \<Rightarrow> retention_world \<times> (retention_error + 'r)) \<Rightarrow>
   retention_world \<Rightarrow> retention_world \<times> (retention_error + 'r batch_result)" where
  "run_batch b op actor action limit dry_run chosen cands held done_by f w =
     (let refused = int (length cands) > limit in
      case record_batch_invocation op actor action limit (length cands) dry_run refused ''batch-limit-exceeded'' (bv_at b)
             (rw_catalog w) of
        Inl err \<Rightarrow> (w, Inl err)
      | Inr c \<Rightarrow>
          (case (if refused \<or> dry_run then (set_db c w, Inr []) else run_each b f chosen (set_db c w)) of
             (w1, Inl err) \<Rightarrow> (w1, Inl err)
           | (w1, Inr results) \<Rightarrow>
               let all_held = (if dry_run \<or> refused then cands = [] else \<not> list_ex done_by results);
                   reason = (if refused then ''batch-limit-exceeded'' else if all_held then ''all-held''
                             else if dry_run then ''dry-run'' else ''completed'')
               in (w1, Inr \<lparr>br_operation_id = op, br_action = action, br_limit = limit, br_candidate_count = length cands,
                            br_refused = refused, br_dry_run = dry_run, br_all_held = all_held, br_candidates = cands,
                            br_holds = held, br_results = results, br_reason = reason\<rparr>)))"

text \<open>The read-only pre-pass: the limit, every assessment, and the candidates.\<close>

definition release_prepass ::
  "batch_env \<Rightarrow> string option \<Rightarrow> int option \<Rightarrow> retention_world \<Rightarrow> retention_error + int \<times> assessment list \<times> batch_candidate list" where
  "release_prepass b intake_id limit w =
     res_bind (batch_limit limit) (\<lambda>n.
     res_bind (assess_all b DEFAULT_STAGING_GRACE_DAYS (rw_db w) (candidate_intakes (rw_catalog w) intake_id [HELD])) (\<lambda>as.
     res_bind (res_map (\<lambda>(r, g, ws). res_bind (release_condition (rw_catalog w) g)
                          (\<lambda>x. Inr (batch_candidate_of (rw_catalog w) (bv_at b) g x)))
                 (filter (\<lambda>(r, g, ws). ig_releasable g) as)) (\<lambda>cands. Inr (n, as, cands))))"

definition run_retention_batch ::
  "batch_env \<Rightarrow> string \<Rightarrow> string option \<Rightarrow> int option \<Rightarrow> bool \<Rightarrow> retention_world \<Rightarrow>
   retention_world \<times> (retention_error + run_result batch_result)" where
  "run_retention_batch b actor intake_id limit dry_run w =
     (if actor = [] then (w, Inl (RtValueError ''actor must be non-empty''))
      else case release_prepass b intake_id limit w of
             Inl err \<Rightarrow> (w, Inl err)
           | Inr (n, as, cands) \<Rightarrow>
               run_batch b (''batch:release:'' @ bv_nonce b) actor ''release'' n dry_run
                 (filter (\<lambda>(r, g, ws). ig_releasable g) as) cands
                 (map (\<lambda>(r, g, ws). (in_id r, if ig_holds g \<noteq> [] then ig_holds g
                                              else [''state='' @ retention_state_text (ig_retention_state g)]))
                    (filter (\<lambda>(r, g, ws). \<not> ig_releasable g) as))
                 rr_released (\<lambda>r ws. run_retention (bv_run b (in_id r)) actor r (Some ws)) w)"

definition purge_candidate :: "intake_gate \<Rightarrow> bool" where
  "purge_candidate g = (ig_purge_status g \<in> set [''eligible'', ''tombstone-gc-pending''])"

definition purge_prepass ::
  "batch_env \<Rightarrow> string option \<Rightarrow> int \<Rightarrow> catalog_db engine_db \<Rightarrow> retention_error + assessment list \<times> batch_candidate list" where
  "purge_prepass b intake_id grace_days db =
     res_bind (assess_all b grace_days db (candidate_intakes (catalog db) intake_id [RELEASED, TOMBSTONED])) (\<lambda>as.
     res_bind (res_map (\<lambda>(r, g, ws). res_bind
                    (if ig_purge_status g = ''tombstone-gc-pending'' then Inr ''purge:tombstone-gc-pending''
                     else release_condition (catalog db) g)
                    (\<lambda>x. Inr (batch_candidate_of (catalog db) (bv_at b) g x)))
                 (filter (\<lambda>(r, g, ws). purge_candidate g) as)) (\<lambda>cands. Inr (as, cands)))"

definition purge_override :: "string \<Rightarrow> string \<Rightarrow> int \<Rightarrow> time \<Rightarrow> catalog_db \<Rightarrow> retention_error + catalog_db" where
  "purge_override op actor grace_days now c =
     (if grace_days < DEFAULT_STAGING_GRACE_DAYS
      then with_events (add_event (grace_override_event op actor grace_days now) (retention_events c)) c else Inr c)"

definition sweep_staging_batch ::
  "site \<Rightarrow> batch_env \<Rightarrow> string \<Rightarrow> string option \<Rightarrow> int option \<Rightarrow> bool \<Rightarrow> int \<Rightarrow> bool \<Rightarrow> retention_world \<Rightarrow>
   retention_world \<times> (retention_error + sweep_result batch_result)" where
  "sweep_staging_batch si b actor intake_id limit dry_run grace_days break_glass w =
     (let op = ''batch:purge:'' @ bv_nonce b in
      if actor = [] then (w, Inl (RtValueError ''actor must be non-empty''))
      else case batch_limit limit of
             Inl err \<Rightarrow> (w, Inl err)
           | Inr n \<Rightarrow>
               if grace_days < DEFAULT_STAGING_GRACE_DAYS \<and> \<not> break_glass
               then (case record_batch_invocation op actor ''purge'' n 0 dry_run True ''grace-below-floor'' (bv_at b) (rw_catalog w) of
                       Inl err \<Rightarrow> (w, Inl err)
                     | Inr c \<Rightarrow> (set_db c w,
                         Inr \<lparr>br_operation_id = op, br_action = ''purge'', br_limit = n, br_candidate_count = 0,
                              br_refused = True, br_dry_run = dry_run, br_all_held = False, br_candidates = [],
                              br_holds = [], br_results = [], br_reason = ''grace-below-floor''\<rparr>))
               else case purge_override op actor grace_days (bv_at b) (rw_catalog w) of
                      Inl err \<Rightarrow> (w, Inl err)
                    | Inr c \<Rightarrow>
                        (case purge_prepass b intake_id grace_days ((rw_db w)\<lparr>catalog := c\<rparr>) of
                           Inl err \<Rightarrow> (w, Inl err)
                         | Inr (as, cands) \<Rightarrow>
                             run_batch b op actor ''purge'' n dry_run (filter (\<lambda>(r, g, ws). purge_candidate g) as) cands
                               (map (\<lambda>(r, g, ws). (in_id r, [ig_purge_status g])) (filter (\<lambda>(r, g, ws). \<not> purge_candidate g) as))
                               sr_purged
                               (\<lambda>r ws. sweep_staging si (bv_run b (in_id r)) actor grace_days break_glass r (Some ws) True)
                               (set_db c w)))"

end
