(* ===== verification/Retention_Facts.thy ===== *)
theory Retention_Facts
  imports Retention
begin

text \<open>
  What the retention gates amount to: which copy protects an asset for a pool, and that a gate opens exactly
  when the intake is registered, nothing is pending on it, and every asset is protected in every pool of
  its policy.
\<close>

section \<open>Protection\<close>

definition holds_asset :: "catalog_db \<Rightarrow> string \<Rightarrow> string \<Rightarrow> bytes \<Rightarrow> copy_row \<Rightarrow> bool" where
  "holds_asset c a p h r \<longleftrightarrow>
     cp_asset_hash r = Some h \<or> (\<exists>l \<in> set (asset_locators c). locator_leg c (Some a) (Some p) h r l)"

definition offsite_ok :: "catalog_db \<Rightarrow> copy_row \<Rightarrow> bool" where
  "offsite_ok c r \<longleftrightarrow>
     (\<exists>k \<in> set (offsite_confirmations c). of_revoked_at k = None \<and> of_media_id k \<noteq> [] \<and>
        copy_media_id c r = Some (of_media_id k))"

definition answers_confirm :: "catalog_db \<Rightarrow> witness_answers \<Rightarrow> copy_row \<Rightarrow> bool" where
  "answers_confirm c ws r \<longleftrightarrow>
     (case map_of ws (cp_id r) of
        None \<Rightarrow> backend_declares_retention_witness (copy_kind c r) = Some False
      | Some w \<Rightarrow> we_eligible w \<longrightarrow> we_confirmed w = Some True)"

text \<open>What the backends themselves say of a copy.\<close>

definition backend_confirms :: "witness_world \<Rightarrow> catalog_db \<Rightarrow> copy_row \<Rightarrow> bool" where
  "backend_confirms ww c r \<longleftrightarrow>
     (case backend_declares_retention_witness (copy_kind c r) of
        None \<Rightarrow> False
      | Some False \<Rightarrow> True
      | Some True \<Rightarrow> ww_build ww (cp_backend_id r) = Some True \<and>
                     ww_call ww (cp_id r) (cp_native_locator r) (cp_integrity_hash r) = Some True)"

definition protects :: "(copy_row \<Rightarrow> bool) \<Rightarrow> catalog_db \<Rightarrow> bytes \<Rightarrow> pool_target \<Rightarrow> copy_row \<Rightarrow> bool" where
  "protects witnessed c h t r \<longleftrightarrow>
     r \<in> set (copies c) \<and> cp_health r = HealthOk \<and> cp_deleted_at r = None \<and>
     cp_last_measured_digest r = Some (cp_integrity_hash r) \<and>
     cp_pool_id r = Some (pt_pool_id t) \<and> cp_backend_id r = pt_backend_id t \<and>
     holds_asset c (pt_artifactclass t) (pt_pool_id t) h r \<and> witnessed r \<and> (pt_offsite_gate t \<longrightarrow> offsite_ok c r)"

definition item_protected :: "(copy_row \<Rightarrow> bool) \<Rightarrow> catalog_db \<Rightarrow> ingest_item \<Rightarrow> bool" where
  "item_protected witnessed c it \<longleftrightarrow>
     (\<exists>ts. policy_targets c (it_artifactclass it) = Inr ts \<and>
        (\<forall>t \<in> set ts. \<exists>r. protects witnessed c (it_asset_hash it) t r))"

definition intake_clear :: "catalog_db engine_db \<Rightarrow> intake_row \<Rightarrow> bool" where
  "intake_clear db r \<longleftrightarrow>
     in_status r = REGISTERED \<and>
     (\<forall>a \<in> set (arrangements (catalog db)). ar_intake_id a = in_id r \<longrightarrow>
        ar_status a = ARR_ABANDONED \<or>
        ar_status a = SUBMITTED \<and>
          (\<exists>s. ar_submission_id a = Some s \<and> s \<noteq> [] \<and> submission_is_archived (catalog db) s)) \<and>
     (\<forall>p it d. in_requested_profile r = Some p \<and> p \<noteq> [] \<and> it \<in> set (ingest_items (catalog db)) \<and>
        it_intake_id it = in_id r \<and>
        d \<in> set (entries_for (it_artifactclass it) p (media_kind_for_path (it_as_received_path it))) \<longrightarrow>
        (\<exists>k. get_condition (conditions db) DERIVATION_DOMAIN (derivation_target_key (it_id it) (de_job_kind d)) = Some k \<and>
             c_condition k = CONDITION_SATISFIED))"

definition intake_protected :: "(copy_row \<Rightarrow> bool) \<Rightarrow> catalog_db \<Rightarrow> string \<Rightarrow> bool" where
  "intake_protected witnessed c i \<longleftrightarrow>
     (\<exists>it \<in> set (ingest_items c). it_intake_id it = i) \<and>
     (\<forall>it \<in> set (ingest_items c). it_intake_id it = i \<longrightarrow> item_protected witnessed c it)"

section \<open>Pools\<close>

lemma asset_placements_set:
  assumes "catalog_ok c"
  shows "r \<in> set (asset_placements c v (Some a) (Some p) h) \<longleftrightarrow>
    r \<in> set (copies c) \<and> copy_counts v r \<and>
    (cp_asset_hash r = Some h \<and> cp_pool_id r = Some p \<or>
     (\<exists>l \<in> set (asset_locators c). locator_leg c (Some a) (Some p) h r l))"
proof -
  let ?A = "sort_key cp_id (filter (\<lambda>r. cp_asset_hash r = Some h \<and> copy_counts v r \<and> pool_matches (Some p) r) (copies c))"
  let ?B = "sort_key cp_id (concat (map (\<lambda>r. map (\<lambda>_. r) (filter (locator_leg c (Some a) (Some p) h r) (asset_locators c)))
                              (filter (copy_counts v) (copies c))))"
  have mem: "x \<in> set (?A @ ?B) \<longleftrightarrow> x \<in> set (copies c) \<and> copy_counts v x \<and>
      (cp_asset_hash x = Some h \<and> cp_pool_id x = Some p \<or>
       (\<exists>l \<in> set (asset_locators c). locator_leg c (Some a) (Some p) h x l))" for x
    by (auto simp: pool_matches_def)
  have inj: "inj_on cp_id (set (copies c))" using assms by (simp add: catalog_ok_def distinct_map)
  have "set (dedupe_by_copy_id (?A @ ?B)) = set (?A @ ?B)"
  proof (rule dedupe_by_copy_id_set)
    fix r s assume "r \<in> set (?A @ ?B)" "s \<in> set (?A @ ?B)" "cp_id r = cp_id s"
    then have "r \<in> set (copies c)" "s \<in> set (copies c)" unfolding mem by blast+
    with inj \<open>cp_id r = cp_id s\<close> show "r = s" by (simp add: inj_on_eq_iff)
  qed
  then show ?thesis unfolding asset_placements_def Let_def using mem [of r] by simp
qed

lemma copy_counts_verified:
  "copy_counts True r \<longleftrightarrow> cp_health r = HealthOk \<and> cp_deleted_at r = None \<and>
     cp_last_measured_digest r = Some (cp_integrity_hash r)"
  by (auto simp: copy_counts_def)

lemma target_loop_origin:
  "target_loop c a av ke seen ms = Inr ts \<Longrightarrow> t \<in> set ts \<Longrightarrow>
   pt_artifactclass t = a \<and>
   (\<exists>pool. get_pool c (pt_pool_id t) = Some pool \<and> pt_backend_id t = po_backend_id pool \<and> pt_offsite_gate t = po_offsite_gate pool)"
proof (induction ms arbitrary: seen ts)
  case (Cons m ms)
  from Cons.prems(1) obtain pool t' ts' where pool: "get_pool c (ap_pool_id m) = Some pool"
    and t': "pool_target_entry c pool av a ke (ap_sort_order m) = Inr t'"
    and rest: "target_loop c a av ke (po_id pool # seen) ms = Inr ts'" and ts: "ts = t' # ts'"
    by (auto simp: res_bind_Inr_iff split: option.splits if_splits)
  have "pt_pool_id t' = ap_pool_id m" "pt_artifactclass t' = a" "pt_backend_id t' = po_backend_id pool"
    "pt_offsite_gate t' = po_offsite_gate pool"
    using t' get_pool_Some [OF pool] by (auto simp: pool_target_entry_def split: if_splits)
  with Cons.IH [OF rest] Cons.prems(2) ts pool show ?case by auto
qed simp

lemma policy_target_origin:
  assumes "policy_targets c a = Inr ts" "t \<in> set ts"
  shows "pt_artifactclass t = a" and "\<exists>pool. get_pool c (pt_pool_id t) = Some pool \<and>
    pt_backend_id t = po_backend_id pool \<and> pt_offsite_gate t = po_offsite_gate pool"
proof -
  obtain av where "target_loop c a av None [] (memberships c a False) = Inr ts"
    using assms(1) by (auto simp: policy_targets_def target_pools_def Let_def split: if_splits)
  from target_loop_origin [OF this assms(2)]
  show "pt_artifactclass t = a" and "\<exists>pool. get_pool c (pt_pool_id t) = Some pool \<and>
    pt_backend_id t = po_backend_id pool \<and> pt_offsite_gate t = po_offsite_gate pool" by blast+
qed

lemma pool_candidates_set:
  assumes "catalog_ok c" "get_pool c (pt_pool_id t) = Some pool" "pt_backend_id t = po_backend_id pool"
  shows "r \<in> set (pool_candidates c h t pool) \<longleftrightarrow>
    r \<in> set (copies c) \<and> cp_health r = HealthOk \<and> cp_deleted_at r = None \<and>
    cp_last_measured_digest r = Some (cp_integrity_hash r) \<and>
    cp_pool_id r = Some (pt_pool_id t) \<and> cp_backend_id r = pt_backend_id t \<and>
    holds_asset c (pt_artifactclass t) (pt_pool_id t) h r"
  using get_pool_Some [OF assms(2)] assms(3)
  by (auto simp: pool_candidates_def qualifying_copies_for_pool_def asset_placements_set [OF assms(1)]
      copy_counts_verified holds_asset_def)

lemma copy_verdict_accept:
  assumes "confirmed = (if og then confirmed_media_ids c else [])"
  shows "(\<exists>m. copy_verdict_of c og confirmed ws r = Accept m) \<longleftrightarrow> answers_confirm c ws r \<and> (og \<longrightarrow> offsite_ok c r)"
  unfolding assms
  by (auto simp: copy_verdict_of_def answers_confirm_def offsite_ok_def confirmed_media_ids_def Let_def
      split: option.splits)

lemma pool_scan_Inr:
  "(\<exists>x. pool_scan c og cf ws sm sw rs = Inr x) \<longleftrightarrow> (\<exists>r \<in> set rs. \<exists>m. copy_verdict_of c og cf ws r = Accept m)"
  by (induction c og cf ws sm sw rs rule: pool_scan.induct) (auto split: copy_verdict.splits)

lemma pool_gate_satisfied:
  assumes "get_pool c (pt_pool_id t) = Some pool"
  shows "pg_satisfied (pool_gate_status c ws h t) \<longleftrightarrow>
    (\<exists>r \<in> set (pool_candidates c h t pool). answers_confirm c ws r \<and> (pt_offsite_gate t \<longrightarrow> offsite_ok c r))"
proof (cases "pool_candidates c h t pool")
  case Nil
  with assms show ?thesis by (simp add: pool_gate_status_def Let_def)
next
  case (Cons r rs)
  let ?cf = "if pt_offsite_gate t then confirmed_media_ids c else []"
  have "pg_satisfied (pool_gate_status c ws h t) \<longleftrightarrow>
      (\<exists>x. pool_scan c (pt_offsite_gate t) ?cf ws False False (r # rs) = Inr x)"
    using assms Cons by (simp add: pool_gate_status_def Let_def split: sum.splits prod.splits)
  then show ?thesis unfolding pool_scan_Inr Cons using copy_verdict_accept [of ?cf "pt_offsite_gate t" c ws] by blast
qed

lemma pool_gate_protected:
  assumes "catalog_ok c" "policy_targets c a = Inr ts" "t \<in> set ts"
  shows "pg_satisfied (pool_gate_status c ws h t) \<longleftrightarrow> (\<exists>r. protects (answers_confirm c ws) c h t r)"
proof -
  from policy_targets_pools(2) [OF assms(2,3)] obtain pool where
    pool: "get_pool c (pt_pool_id t) = Some pool" "pt_backend_id t = po_backend_id pool" by blast
  show ?thesis
    unfolding pool_gate_satisfied [OF pool(1)] protects_def Bex_def
    unfolding pool_candidates_set [OF assms(1) pool] by blast
qed

lemma asset_gate_protected:
  assumes "catalog_ok c"
  shows "ag_releasable (asset_gate_status c ws it) \<longleftrightarrow> item_protected (answers_confirm c ws) c it"
proof (cases "policy_targets c (it_artifactclass it)")
  case (Inl e)
  then show ?thesis by (simp add: asset_gate_status_def item_protected_def)
next
  case (Inr ts)
  have "ag_releasable (asset_gate_status c ws it) \<longleftrightarrow>
      (\<forall>t \<in> set ts. pg_satisfied (pool_gate_status c ws (it_asset_hash it) t))"
    using Inr policy_targets_pools(3) [OF Inr] by (simp add: asset_gate_status_def Let_def list_all_iff)
  then show ?thesis using Inr pool_gate_protected [OF assms Inr] by (simp add: item_protected_def)
qed

text \<open>An asset without a hold is releasable: a class without pools is itself a hold.\<close>

lemma asset_holds_Nil:
  "asset_holds as = [] \<longleftrightarrow> (\<forall>a \<in> set as. \<forall>p \<in> set (ag_pools a). pg_satisfied p)"
  by (auto simp: asset_holds_def)

lemma asset_gate_no_holds:
  "(\<forall>p \<in> set (ag_pools (asset_gate_status c ws it)). pg_satisfied p) \<longleftrightarrow> ag_releasable (asset_gate_status c ws it)"
proof (cases "policy_targets c (it_artifactclass it)")
  case (Inr ts)
  then show ?thesis using policy_targets_pools(3) [OF Inr] by (simp add: asset_gate_status_def Let_def list_all_iff)
qed (simp add: asset_gate_status_def)

section \<open>The intake\<close>

lemma set_intake_items: "set (intake_items c i) = {it \<in> set (ingest_items c). it_intake_id it = i}"
  by (auto simp: intake_items_def)

lemma arrangement_hold_Nil:
  "arrangement_hold c a = [] \<longleftrightarrow> ar_status a = ARR_ABANDONED \<or>
     ar_status a = SUBMITTED \<and> (\<exists>s. ar_submission_id a = Some s \<and> s \<noteq> [] \<and> submission_is_archived c s)"
  by (auto simp: arrangement_hold_def split: option.splits)

lemma derivation_hold_Nil:
  "derivation_hold db i d = [] \<longleftrightarrow>
     (\<exists>k. get_condition (conditions db) DERIVATION_DOMAIN (derivation_target_key i (de_job_kind d)) = Some k \<and>
          c_condition k = CONDITION_SATISFIED)"
  by (auto simp: derivation_hold_def Let_def split: option.splits)

definition base_holds :: "catalog_db engine_db \<Rightarrow> intake_row \<Rightarrow> string list" where
  "base_holds db r = intake_eligibility_holds r (intake_items (catalog db) (in_id r)) @
     arrangement_holds (catalog db) (in_id r) @ prepared_profile_holds db r"

lemma base_holds_Nil:
  "base_holds db r = [] \<longleftrightarrow> intake_clear db r \<and> (\<exists>it \<in> set (ingest_items (catalog db)). it_intake_id it = in_id r)"
proof -
  have items: "intake_items (catalog db) (in_id r) \<noteq> [] \<longleftrightarrow> (\<exists>it \<in> set (ingest_items (catalog db)). it_intake_id it = in_id r)"
    unfolding set_empty [symmetric] set_intake_items by auto
  have prof: "prepared_profile_holds db r = [] \<longleftrightarrow>
      (\<forall>p it d. in_requested_profile r = Some p \<and> p \<noteq> [] \<and> it \<in> set (ingest_items (catalog db)) \<and> it_intake_id it = in_id r \<and>
        d \<in> set (entries_for (it_artifactclass it) p (media_kind_for_path (it_as_received_path it))) \<longrightarrow>
        derivation_hold db (it_id it) d = [])"
    by (auto simp: prepared_profile_holds_def set_intake_items split: option.splits)
  have arr: "arrangement_holds (catalog db) (in_id r) = [] \<longleftrightarrow>
      (\<forall>a \<in> set (arrangements (catalog db)). ar_intake_id a = in_id r \<longrightarrow> arrangement_hold (catalog db) a = [])"
    by (auto simp: arrangement_holds_def)
  show ?thesis
    unfolding base_holds_def append_is_Nil_conv arr prof arrangement_hold_Nil derivation_hold_Nil intake_clear_def
      intake_eligibility_holds_def
    using items by auto
qed

lemma base_holds_eligible: "base_holds db r = [] \<Longrightarrow> intake_eligibility_holds r (intake_items (catalog db) (in_id r)) = []"
  by (simp add: base_holds_def)

lemma gate_fields:
  assumes "local_gate_status db r ws rh grace now = Inr g"
  defines "as \<equiv> (if intake_eligibility_holds r (intake_items (catalog db) (in_id r)) = []
                  then map (asset_gate_status (catalog db) ws) (intake_items (catalog db) (in_id r)) else [])"
  shows "ig_holds g = base_holds db r @ asset_holds as"
    and "ig_releasable g \<longleftrightarrow> (rh \<longrightarrow> in_retention_state r = HELD) \<and> base_holds db r = [] \<and>
           as \<noteq> [] \<and> list_all ag_releasable as"
    and "ig_intake_id g = in_id r" and "ig_assets g = as"
  using assms by (auto simp: local_gate_status_def Let_def res_bind_Inr_iff base_holds_def)

lemma gate_open_iff:
  assumes ok: "catalog_ok (catalog db)" and g: "local_gate_status db r ws rh grace now = Inr g"
  shows "ig_holds g = [] \<longleftrightarrow> intake_clear db r \<and> intake_protected (answers_confirm (catalog db) ws) (catalog db) (in_id r)"
    and "ig_releasable g \<longleftrightarrow> (rh \<longrightarrow> in_retention_state r = HELD) \<and> ig_holds g = []"
proof -
  let ?c = "catalog db"
  let ?its = "intake_items ?c (in_id r)"
  note F = gate_fields [OF g]
  have prot: "intake_protected (answers_confirm ?c ws) ?c (in_id r) \<longleftrightarrow>
      (\<exists>it \<in> set (ingest_items ?c). it_intake_id it = in_id r) \<and> (\<forall>it \<in> set ?its. ag_releasable (asset_gate_status ?c ws it))"
    by (auto simp: intake_protected_def set_intake_items asset_gate_protected [OF ok])
  have hold: "asset_holds (map (asset_gate_status ?c ws) ?its) = [] \<longleftrightarrow> (\<forall>it \<in> set ?its. ag_releasable (asset_gate_status ?c ws it))"
    by (simp add: asset_holds_Nil asset_gate_no_holds)
  have els: "intake_eligibility_holds r ?its = []" "?its \<noteq> []" if "base_holds db r = []"
    using that by (auto simp: base_holds_def intake_eligibility_holds_def split: if_splits)
  show "ig_holds g = [] \<longleftrightarrow> intake_clear db r \<and> intake_protected (answers_confirm ?c ws) ?c (in_id r)"
  proof (cases "base_holds db r = []")
    case True
    then show ?thesis using F(1) els(1) [OF True] hold prot base_holds_Nil [of db r] by auto
  next
    case False
    then show ?thesis using F(1) prot base_holds_Nil [of db r] by auto
  qed
  show "ig_releasable g \<longleftrightarrow> (rh \<longrightarrow> in_retention_state r = HELD) \<and> ig_holds g = []"
  proof (cases "base_holds db r = []")
    case True
    then show ?thesis using F(1,2) els [OF True] hold by (auto simp: list_all_iff)
  qed (use F(1,2) in auto)
qed

text \<open>A held intake has no purge projection to compute.\<close>

lemma held_gate_total:
  "in_retention_state r = HELD \<Longrightarrow> \<exists>g. local_gate_status db r ws rh grace now = Inr g"
  by (simp add: local_gate_status_def Let_def purge_projection_def)

section \<open>Witness answers\<close>

lemma collected_answer:
  assumes "catalog_ok c" "it \<in> set items" "r \<in> set (item_copies c it)"
  shows "map_of (collect_witness_answers ww c items) (cp_id r) =
           Some (snd (execute_witness_request ww (witness_request_of ww c r)))"
proof -
  let ?all = "concat (map (item_copies c) items)"
  have sub: "set ?all \<subseteq> set (copies c)"
    by (auto simp: item_copies_def qualifying_copies_for_pool_def asset_placements_set [OF assms(1)] split: sum.splits)
  have inj: "inj_on cp_id (set (copies c))" using assms(1) by (simp add: catalog_ok_def distinct_map)
  have "set (dedupe_by_copy_id ?all) = set ?all"
    by (rule dedupe_by_copy_id_set) (use sub inj in \<open>meson inj_onD subsetD\<close>)
  moreover have "r \<in> set ?all" using assms(2,3) by auto
  ultimately have r: "r \<in> set (dedupe_by_copy_id ?all)" by blast
  let ?f = "\<lambda>r. execute_witness_request ww (witness_request_of ww c r)"
  have key: "fst (?f x) = cp_id x" for x
    by (simp add: execute_witness_request_def witness_request_of_def Let_def split: option.splits bool.splits)
  have ans: "collect_witness_answers ww c items = map ?f (dedupe_by_copy_id ?all)"
    by (simp add: collect_witness_answers_def execute_witness_requests_def prepare_witness_requests_def)
  have "map fst (map ?f (dedupe_by_copy_id ?all)) = map cp_id (dedupe_by_copy_id ?all)" by (simp add: key)
  then have "distinct (map fst (map ?f (dedupe_by_copy_id ?all)))" using dedup_on_ids by metis
  moreover have "(cp_id r, snd (?f r)) \<in> set (map ?f (dedupe_by_copy_id ?all))"
    using r key [of r] by (metis imageI list.set_map prod.collapse)
  ultimately show ?thesis unfolding ans by simp
qed

lemma executed_confirms:
  "(we_eligible (snd (execute_witness_request ww (witness_request_of ww c r))) \<longrightarrow>
    we_confirmed (snd (execute_witness_request ww (witness_request_of ww c r))) = Some True) \<longleftrightarrow> backend_confirms ww c r"
  by (auto simp: execute_witness_request_def witness_request_of_def backend_confirms_def Let_def
      split: option.splits bool.splits)

lemma protects_candidate:
  assumes "catalog_ok c" "policy_targets c (it_artifactclass it) = Inr ts" "t \<in> set ts" "protects P c (it_asset_hash it) t r"
  shows "r \<in> set (item_copies c it)"
  using assms
  by (auto simp: item_copies_def qualifying_copies_for_pool_def asset_placements_set [OF assms(1)] protects_def
      copy_counts_verified holds_asset_def)

text \<open>Answers collected from the backends say of a protecting copy what its backend says.\<close>

lemma protected_by_backends:
  assumes "catalog_ok c"
  shows "intake_protected (answers_confirm c (collect_witness_answers ww c (intake_items c i))) c i \<longleftrightarrow>
         intake_protected (backend_confirms ww c) c i"
proof -
  let ?ws = "collect_witness_answers ww c (intake_items c i)"
  have same: "answers_confirm c ?ws r \<longleftrightarrow> backend_confirms ww c r"
    if "it \<in> set (intake_items c i)" "r \<in> set (item_copies c it)" for it r
    unfolding answers_confirm_def collected_answer [OF assms that] option.case executed_confirms by (rule refl)
  have "protects (answers_confirm c ?ws) c (it_asset_hash it) t r \<longleftrightarrow> protects (backend_confirms ww c) c (it_asset_hash it) t r"
    if "it \<in> set (intake_items c i)" "policy_targets c (it_artifactclass it) = Inr ts" "t \<in> set ts" for it ts t r
    using protects_candidate [OF assms that(2,3)] same [OF that(1)] unfolding protects_def by blast
  then have "item_protected (answers_confirm c ?ws) c it \<longleftrightarrow> item_protected (backend_confirms ww c) c it"
    if "it \<in> set (intake_items c i)" for it
    unfolding item_protected_def using that by metis
  then show ?thesis unfolding intake_protected_def set_intake_items by blast
qed

section \<open>Receipts do not matter to the gates\<close>

named_theorems receipt_frame \<open>what does not depend on the receipts\<close>

lemma lookups_frame [receipt_frame]:
  "get_backend (c\<lparr>retention_events := es\<rparr>) = get_backend c"
  "get_pool (c\<lparr>retention_events := es\<rparr>) = get_pool c"
  "get_intake (c\<lparr>retention_events := es\<rparr>) = get_intake c"
  "intake_items (c\<lparr>retention_events := es\<rparr>) = intake_items c"
  "cloud_blob_copies (c\<lparr>retention_events := es\<rparr>) = cloud_blob_copies c"
  "confirmed_media_ids (c\<lparr>retention_events := es\<rparr>) = confirmed_media_ids c"
  by (simp_all add: fun_eq_iff get_backend_def get_pool_def get_intake_def intake_items_def cloud_blob_copies_def
      confirmed_media_ids_def)

lemma copy_frame [receipt_frame]:
  "copy_kind (c\<lparr>retention_events := es\<rparr>) = copy_kind c"
  "copy_media_id (c\<lparr>retention_events := es\<rparr>) = copy_media_id c"
  "backend_confirms ww (c\<lparr>retention_events := es\<rparr>) = backend_confirms ww c"
  "offsite_ok (c\<lparr>retention_events := es\<rparr>) = offsite_ok c"
  "locator_leg (c\<lparr>retention_events := es\<rparr>) = locator_leg c"
  by (simp_all add: fun_eq_iff copy_kind_def copy_media_id_def backend_confirms_def offsite_ok_def locator_leg_def
      locator_artifactclass_filter_def asset_has_artifactclass_membership_def lookups_frame split: option.splits)

lemma target_loop_frame: "target_loop (c\<lparr>retention_events := es\<rparr>) a av ke seen ms = target_loop c a av ke seen ms"
  by (induction ms arbitrary: seen) (simp_all add: lookups_frame pool_target_entry_def split: option.split)

lemma policy_targets_frame [receipt_frame]: "policy_targets (c\<lparr>retention_events := es\<rparr>) = policy_targets c"
  by (simp add: fun_eq_iff policy_targets_def target_pools_def memberships_def accepting_pool_def Let_def target_loop_frame)

lemma policy_targets_copies: "policy_targets (c\<lparr>copies := x\<rparr>) = policy_targets c"
proof -
  have "target_loop (c\<lparr>copies := x\<rparr>) a av ke seen ms = target_loop c a av ke seen ms" for a av ke seen ms
    by (induction ms arbitrary: seen) (simp_all add: get_pool_def get_backend_def pool_target_entry_def split: option.split)
  then show ?thesis by (simp add: fun_eq_iff policy_targets_def target_pools_def memberships_def accepting_pool_def Let_def)
qed

lemma policy_fingerprint_frame [receipt_frame]: "policy_fingerprint (c\<lparr>retention_events := es\<rparr>) = policy_fingerprint c"
proof -
  have "fingerprint_pools (c\<lparr>retention_events := es\<rparr>) = fingerprint_pools c" unfolding fun_eq_iff by (simp add: fingerprint_pools_def Let_def cong: if_cong)
  then show ?thesis by (intro ext) (simp only: policy_fingerprint_def)
qed

lemma submission_frame [receipt_frame]: "submission_is_archived (c\<lparr>retention_events := es\<rparr>) = submission_is_archived c"
  by (simp add: fun_eq_iff submission_is_archived_def Let_def member_archive_evidence_def verified_bundle_copy_count_def)

lemma catalog_ok_frame [receipt_frame]: "catalog_ok (c\<lparr>retention_events := es\<rparr>) = catalog_ok c"
  by (simp add: catalog_ok_def lookups_frame)

lemma protected_frame [receipt_frame]: "intake_protected P (c\<lparr>retention_events := es\<rparr>) = intake_protected P c"
  by (simp add: fun_eq_iff intake_protected_def item_protected_def protects_def holds_asset_def receipt_frame)

lemma clear_frame [receipt_frame]: "intake_clear (db\<lparr>catalog := (catalog db)\<lparr>retention_events := es\<rparr>\<rparr>) r = intake_clear db r"
  by (simp add: intake_clear_def receipt_frame)

end
