(* ===== verification/Retention_Release.thy ===== *)
theory Retention_Release
  imports Retention_Facts
begin

text \<open>
  Releasing an intake (\<open>run_retention\<close>): the gate means what it promises, no object goes without it, a
  failed deletion is resumed by the next run, and what a concurrent abandonment gets.
\<close>

section \<open>The gate\<close>

text \<open>
  C3: An intake is releasable exactly when it is held, registered, has items, every arrangement on it is
  abandoned or archived, every derivation of its profile is satisfied, and every item has, in every pool of
  its class policy, a healthy undeleted copy on that pool's backend measured to its own digest, confirmed by
  the backend where the backend has a witness, and confirmed offsite where the pool demands it.
\<close>

theorem releasable_iff:
  assumes "catalog_ok (catalog db)"
  shows "releasable ww now db r = Inr True \<longleftrightarrow>
     in_retention_state r = HELD \<and> intake_clear db r \<and>
     intake_protected (backend_confirms ww (catalog db)) (catalog db) (in_id r)"
proof -
  let ?c = "catalog db"
  define ws where "ws = (if in_retention_state r \<in> {TOMBSTONED, ABANDONED, PURGED} then []
                         else collect_witness_answers ww ?c (intake_items ?c (in_id r)))"
  have rel: "releasable ww now db r = Inr True \<longleftrightarrow>
      (\<exists>g. local_gate_status db r ws True DEFAULT_STAGING_GRACE_DAYS now = Inr g \<and> ig_releasable g)"
    by (auto simp: releasable_def retention_status_def assess_intake_def ws_def Let_def gate_result_def res_bind_def
        split: sum.splits)
  show ?thesis
  proof (cases "in_retention_state r = HELD")
    case True
    then have "ws = collect_witness_answers ww ?c (intake_items ?c (in_id r))" by (simp add: ws_def)
    then show ?thesis
      using rel True held_gate_total [OF True, of db ws True DEFAULT_STAGING_GRACE_DAYS now] gate_open_iff [OF assms, of r ws True]
        protected_by_backends [OF assms, of ww "in_id r"] by auto
  next
    case False
    then show ?thesis using rel gate_fields(2) [of db r ws True] by auto
  qed
qed

text \<open>An intake with two protected pools and one object in the cloud.\<close>

definition cloud_copy :: copy_row where
  "cloud_copy = (example_copy 9 None (Some ''cloud-blob:i1'') ''C'')\<lparr>cp_native_locator := [(''key'', JStr ''k'')]\<rparr>"

definition release_catalog :: catalog_db where
  "release_catalog = example_catalog\<lparr>copies := copies example_catalog @ [cloud_copy]\<rparr>"

definition example_db :: "catalog_db engine_db" where
  "example_db = \<lparr>jobs = [], job_attempts = [], conditions = [], condition_components = [], catalog = release_catalog\<rparr>"

definition silent_witness :: witness_world where
  "silent_witness = \<lparr>ww_build = (\<lambda>_. None), ww_call = (\<lambda>_ _ _. None), ww_at = (\<lambda>_. 0)\<rparr>"

definition example_intake :: intake_row where
  "example_intake = hd (intakes example_catalog)"

lemmas release_example_defs = example_catalog_defs release_catalog_def cloud_copy_def example_intake_def

lemma example_intake_fields:
  "in_id example_intake = ''i1''" "in_retention_state example_intake = HELD" "catalog example_db = release_catalog"
  "get_intake release_catalog ''i1'' = Some example_intake"
  by (simp_all add: release_example_defs example_db_def get_intake_def)

lemma release_catalog_ok: "catalog_ok release_catalog"
  by (simp add: catalog_ok_def release_example_defs get_pool_def get_backend_def)

lemma example_clear: "intake_clear example_db example_intake"
  by (simp add: intake_clear_def example_db_def release_example_defs)

lemma release_targets: "policy_targets release_catalog = policy_targets example_catalog"
  unfolding release_catalog_def by (rule policy_targets_copies)

lemma example_target_pool:
  assumes "policy_targets example_catalog ''vid'' = Inr ts" "t \<in> set ts"
  shows "pt_pool_id t \<in> {''A'', ''B''} \<and> pt_backend_id t = 1 \<and> pt_offsite_gate t = False \<and> pt_artifactclass t = ''vid''"
proof -
  have "pt_pool_id t \<in> pt_pool_id ` set ts" using assms(2) by simp
  then have p: "pt_pool_id t \<in> {''A'', ''B''}"
    unfolding policy_targets_pools(1) [OF assms(1)] by (auto simp: example_catalog_defs)
  with policy_target_origin [OF assms] show ?thesis by (auto simp: example_get_pool example_pool_def)
qed

lemma example_protected: "intake_protected (backend_confirms silent_witness release_catalog) release_catalog ''i1''"
proof -
  obtain ts where ts: "policy_targets example_catalog ''vid'' = Inr ts" using example_targets by blast
  have kind: "backend_confirms silent_witness release_catalog (example_copy i x y p)" for i x y p
    by (simp add: backend_confirms_def copy_kind_def get_backend_def backend_declares_retention_witness_def
        release_example_defs)
  have "protects (backend_confirms silent_witness release_catalog) release_catalog ''h'' t
      (if pt_pool_id t = ''A'' then example_copy 1 (Some ''h'') None ''A'' else example_copy 3 None (Some ''b1'') ''B'')"
    if "t \<in> set ts" for t
    using example_target_pool [OF ts that] kind
    by (auto simp: protects_def holds_asset_def)
       (simp_all add: release_example_defs locator_leg_def locator_artifactclass_filter_def)
  then have "item_protected (backend_confirms silent_witness release_catalog) release_catalog it"
    if "it \<in> set (ingest_items release_catalog)" for it
    using that ts by (auto simp: item_protected_def release_targets) (auto simp: release_example_defs)
  moreover have "\<exists>it \<in> set (ingest_items release_catalog). it_intake_id it = ''i1''" by (simp add: release_example_defs)
  ultimately show ?thesis by (simp add: intake_protected_def)
qed

theorem releasable_iff_witness: "releasable silent_witness 0 example_db example_intake = Inr True"
  using releasable_iff [of example_db silent_witness 0 example_intake] release_catalog_ok example_clear example_protected
  by (simp add: example_intake_fields)

section \<open>No deletion without the gate\<close>

lemma add_event_appends: "add_event e es = Inr es' \<Longrightarrow> \<exists>i. es' = es @ [e\<lparr>ev_id := i\<rparr>]"
  by (auto simp: add_event_def insert_event_def res_bind_Inr_iff split: if_splits)

lemma set_db_same: "set_db (rw_catalog w) w = w"
  by (simp add: set_db_def)

definition receipt_in :: "string \<Rightarrow> string \<Rightarrow> catalog_db \<Rightarrow> bool" where
  "receipt_in action op c \<longleftrightarrow> (\<exists>e \<in> set (retention_events c). ev_action e = action \<and> ev_operation_id e = op)"

lemma add_once_recorded:
  assumes "add_once_event i a op actor t d es = Inr es'"
  shows "\<exists>e \<in> set es'. ev_action e = a \<and> ev_operation_id e = op" "set es \<subseteq> set es'"
  using assms add_event_appends
  by (force simp: add_once_event_def list_ex_iff new_event_def split: if_splits)+

lemma with_events_Inr: "with_events res c = Inr c' \<longleftrightarrow> (\<exists>es. res = Inr es \<and> c' = c\<lparr>retention_events := es\<rparr>)"
  by (auto simp: with_events_def split: sum.splits)

lemma delete_copy_objects_frame:
  "delete_copy_objects fails c cs objs = (objs', res) \<Longrightarrow>
   set objs' \<subseteq> set objs \<and> set objs - object_of ` set cs \<subseteq> set objs' \<and>
   (\<forall>outs. res = Inr outs \<longrightarrow> set objs' = set objs - object_of ` set cs \<and> map fst outs = map cp_id cs)"
proof (induction fails c cs objs arbitrary: objs' res rule: delete_copy_objects.induct)
  case (2 fails c r rs objs)
  show ?case
  proof (cases "fails (cp_id r) \<or> \<not> deletable_kind (copy_kind c r)")
    case True
    with 2(2) show ?thesis by (auto split: if_splits)
  next
    case False
    obtain o1 r1 where rec: "delete_copy_objects fails c rs (filter (\<lambda>x. x \<noteq> object_of r) objs) = (o1, r1)"
      by fastforce
    with 2(2) False have "objs' = o1" "res = map_sum id (\<lambda>outs. (cp_id r, if object_of r \<in> set objs then ''deleted'' else ''already-absent'') # outs) r1"
      by (auto split: sum.splits)
    with 2(1) [OF _ _ rec] False show ?thesis by (cases r1) auto
  qed
qed auto

lemma release_reserve_Inr:
  assumes "release_reserve actor r ws gnow now db = Inr (Inr (c', f, cs))"
  shows "\<exists>g. local_gate_status db r ws True DEFAULT_STAGING_GRACE_DAYS gnow = Inr g \<and> ig_releasable g"
    and "policy_fingerprint (catalog db) (intake_items (catalog db) (in_id r)) = Some f"
    and "cs = cloud_blob_copies (catalog db) (in_id r)"
    and "\<exists>es. c' = (catalog db)\<lparr>retention_events := es\<rparr> \<and>
           add_once_event (in_id r) ''release_attempted'' (''release:'' @ in_id r) actor now [(''policy_fingerprint'', JStr f)]
             (retention_events (catalog db)) = Inr es"
  using assms
  by (auto simp: release_reserve_def res_bind_Inr_iff gate_result_def with_events_Inr split: sum.splits if_splits option.splits)

definition fresh_or_collected :: "witness_world \<Rightarrow> time \<Rightarrow> catalog_db \<Rightarrow> string \<Rightarrow> witness_answers \<Rightarrow> bool" where
  "fresh_or_collected ww now c i ws \<longleftrightarrow>
     \<not> witness_answers_stale now ws \<or> ws = collect_witness_answers ww c (intake_items c i)"

lemma fresh_witness_answers_fresh: "fresh_or_collected ww now c i (fresh_witness_answers ww now c (intake_items c i) (Some ws))"
  by (simp add: fresh_or_collected_def fresh_witness_answers_def)


section \<open>Resuming a release\<close>

definition quiet :: "retention_env \<Rightarrow> bool" where
  "quiet e \<longleftrightarrow> (\<forall>k w. rv_itf e k w = w)"

text \<open>
  An intake whose release nothing stands in the way of but failing delete calls.  Neither the receipts nor
  the objects occur, so an interrupted run leaves it true.
\<close>

definition release_ready :: "retention_env \<Rightarrow> intake_row \<Rightarrow> retention_world \<Rightarrow> bool" where
  "release_ready e r w \<longleftrightarrow>
     quiet e \<and> catalog_ok (rw_catalog w) \<and> get_intake (rw_catalog w) (in_id r) = Some r \<and> in_retention_state r = HELD \<and>
     intake_clear (rw_db w) r \<and>
     (\<forall>k \<in> {0, 1}. intake_protected (backend_confirms (rv_wit e k) (rw_catalog w)) (rw_catalog w) (in_id r)) \<and>
     policy_fingerprint (rw_catalog w) (intake_items (rw_catalog w) (in_id r)) \<noteq> None \<and>
     (\<forall>x \<in> set (cloud_blob_copies (rw_catalog w) (in_id r)). deletable_kind (copy_kind (rw_catalog w) x))"

lemma release_ready_gate:
  assumes "release_ready e r w" "k \<in> {0, 1}"
    "ws = collect_witness_answers (rv_wit e k) (rw_catalog w) (intake_items (rw_catalog w) (in_id r))"
  shows "\<exists>g. local_gate_status (rw_db w) r ws True grace now = Inr g \<and> ig_releasable g"
proof -
  from assms(1) have ok: "catalog_ok (rw_catalog w)" and held: "in_retention_state r = HELD" by (auto simp: release_ready_def)
  obtain g where g: "local_gate_status (rw_db w) r ws True grace now = Inr g" using held_gate_total [OF held] by blast
  have "intake_protected (answers_confirm (rw_catalog w) ws) (rw_catalog w) (in_id r)"
    using assms protected_by_backends [OF ok, of "rv_wit e k" "in_id r"] by (auto simp: release_ready_def)
  with gate_open_iff [OF ok g] assms(1) g show ?thesis by (auto simp: release_ready_def)
qed

lemma release_ready_receipts:
  assumes "release_ready e r w"
  shows "release_ready (e\<lparr>rv_fails := f\<rparr>) r ((set_db ((rw_catalog w)\<lparr>retention_events := es\<rparr>) w)\<lparr>rw_objects := os\<rparr>)"
  using assms by (simp add: release_ready_def set_db_def receipt_frame quiet_def)

lemma add_once_total:
  assumes "a \<in> set INTAKE_ACTIONS" "validate_event_detail a d = Inr ()"
  shows "\<exists>es'. add_once_event i a op actor t d es = Inr es'"
proof (cases "list_ex (\<lambda>e. ev_action e = a \<and> ev_operation_id e = op) es")
  case False
  let ?e = "new_event (Some i) ''intake'' i a op actor t d (fresh_id (map ev_id es))"
  have "(a, op) \<notin> set (List.map_filter once_key es)"
    using False by (auto simp: list_ex_iff List.map_filter_def once_key_def split: if_splits)
  then have "insert_event ?e es = Inr (es @ [?e])"
    using assms(1) by (auto simp: insert_event_def new_event_def event_subject_ok_def event_supersession_ok_def once_key_def)
  then show ?thesis using False assms(2) by (auto simp: add_once_event_def add_event_def new_event_def)
qed (simp add: add_once_event_def)

lemma intake_actions:
  "''release_attempted'' \<in> set INTAKE_ACTIONS" "''cloud_blob_deleted'' \<in> set INTAKE_ACTIONS"
  "''released'' \<in> set INTAKE_ACTIONS" "''purge_attempted'' \<in> set INTAKE_ACTIONS"
  "''staging_tombstoned'' \<in> set INTAKE_ACTIONS" "''staging_deleted'' \<in> set INTAKE_ACTIONS"
  by (simp_all add: INTAKE_ACTIONS_def)

lemma delete_copy_objects_outcome:
  "\<forall>x \<in> set cs. deletable_kind (copy_kind c x) \<Longrightarrow>
   (if \<exists>x \<in> set cs. fails (cp_id x) then \<exists>k. snd (delete_copy_objects fails c cs objs) = Inl (RtBackendError k)
    else \<exists>outs. snd (delete_copy_objects fails c cs objs) = Inr outs)"
  by (induction fails c cs objs rule: delete_copy_objects.induct) (auto split: prod.splits sum.splits if_splits)

lemma aggregate_outcome_valid: "aggregate_outcome outs \<in> {''already-absent'', ''deleted''}"
  by (simp add: aggregate_outcome_def)

lemma get_intake_put:
  "(\<And>x. in_id (f x) = in_id x) \<Longrightarrow> get_intake (put_intake i f c) i = map_option f (get_intake c i)"
  by (simp add: get_intake_def put_intake_def find_update_where)

definition released_row :: "string \<Rightarrow> time \<Rightarrow> intake_row \<Rightarrow> intake_row" where
  "released_row f now x = x\<lparr>in_retention_state := RELEASED, in_released_at := Some now, in_release_fingerprint := Some f\<rparr>"

lemma release_commit_total:
  "\<exists>es. release_commit actor r f ids outs now c =
      Inr (put_intake (in_id r) (released_row f now)
             (c\<lparr>retention_events := es, copies := mark_deleted ids now (copies c)\<rparr>)) \<and>
    (\<forall>a \<in> {''cloud_blob_deleted'', ''released''}. \<exists>e \<in> set es. ev_action e = a \<and> ev_operation_id e = ''release:'' @ in_id r) \<and>
    set (retention_events c) \<subseteq> set es"
proof -
  let ?op = "''release:'' @ in_id r" and ?ids = "JArr (map (\<lambda>k. JInt (int k)) ids)"
  let ?d = "[(''bundle_id'', JStr (cloud_bundle_id (in_id r))), (''copy_ids'', ?ids), (''outcome'', JStr (aggregate_outcome outs)),
     (''copy_outcomes'', JArr (map (\<lambda>(k, x). JObj [(''copy_id'', JInt (int k)), (''outcome'', JStr x)]) outs))]"
  have "validate_event_detail ''cloud_blob_deleted'' ?d = Inr ()"
    using aggregate_outcome_valid [of outs] by (auto simp: validate_event_detail_def EVENT_DETAIL_KEYS_def)
  then obtain es1 where e1: "add_once_event (in_id r) ''cloud_blob_deleted'' ?op actor now ?d (retention_events c) = Inr es1"
    using add_once_total [OF intake_actions(2)] by blast
  have "validate_event_detail ''released'' [(''copy_ids'', ?ids)] = Inr ()"
    by (simp add: validate_event_detail_def EVENT_DETAIL_KEYS_def)
  then obtain es2 where e2: "add_once_event (in_id r) ''released'' ?op actor now [(''copy_ids'', ?ids)] es1 = Inr es2"
    using add_once_total [OF intake_actions(3)] by blast
  have "release_commit actor r f ids outs now c =
      Inr (put_intake (in_id r) (released_row f now)
             (c\<lparr>retention_events := es2, copies := mark_deleted ids now (copies c)\<rparr>))"
    unfolding release_commit_def Let_def e1 res_bind_simps e2 by (simp add: with_events_def released_row_def [abs_def])
  then show ?thesis using add_once_recorded [OF e1] add_once_recorded [OF e2] by fastforce
qed

text \<open>What a run does once its attempt is committed and the others have acted.\<close>

definition release_rest ::
  "retention_env \<Rightarrow> string \<Rightarrow> intake_row \<Rightarrow> string \<Rightarrow> copy_row list \<Rightarrow> retention_world \<Rightarrow>
   retention_world \<times> (retention_error + run_result)" where
  "release_rest e actor r f cs w3 =
     (case delete_copy_objects (rv_fails e) (rw_catalog w3) cs (rw_objects w3) of
        (objs, Inl err) \<Rightarrow> (w3\<lparr>rw_objects := objs\<rparr>, Inl err)
      | (objs, Inr outs) \<Rightarrow>
          (let w4 = rv_itf e 3 (w3\<lparr>rw_objects := objs\<rparr>) in
           case release_commit actor r f (map cp_id cs) outs (rv_now e 5) (rw_catalog w4) of
             Inl err \<Rightarrow> (w4, Inl err)
           | Inr c4 \<Rightarrow> (set_db c4 w4,
               Inr \<lparr>rr_intake_id = in_id r, rr_released = True, rr_deleted_copy_ids = map cp_id cs, rr_reason = ''released''\<rparr>)))"

text \<open>It ends with the intake released, whatever its row says by then.\<close>

lemma release_rest_succeeds:
  assumes "\<forall>x \<in> set cs. \<not> rv_fails e (cp_id x) \<and> deletable_kind (copy_kind (rw_catalog w3) x)"
    "\<And>v. rv_itf e 3 v = v" "get_intake (rw_catalog w3) (in_id r) = Some r'"
  shows "\<exists>w'. release_rest e actor r f cs w3 = (w', Inr \<lparr>rr_intake_id = in_id r, rr_released = True,
      rr_deleted_copy_ids = map cp_id cs, rr_reason = ''released''\<rparr>) \<and>
    get_intake (rw_catalog w') (in_id r) = Some (released_row f (rv_now e 5) r') \<and>
    set (rw_objects w') = set (rw_objects w3) - object_of ` set cs \<and>
    copies (rw_catalog w') = mark_deleted (map cp_id cs) (rv_now e 5) (copies (rw_catalog w3)) \<and>
    set (retention_events (rw_catalog w3)) \<subseteq> set (retention_events (rw_catalog w')) \<and>
    (\<forall>a \<in> {''cloud_blob_deleted'', ''released''}. receipt_in a (''release:'' @ in_id r) (rw_catalog w'))"
proof -
  obtain objs dres where del: "delete_copy_objects (rv_fails e) (rw_catalog w3) cs (rw_objects w3) = (objs, dres)" by fastforce
  have "\<forall>x \<in> set cs. deletable_kind (copy_kind (rw_catalog w3) x)" using assms(1) by blast
  from delete_copy_objects_outcome [OF this, of "rv_fails e" "rw_objects w3"] assms(1) obtain outs where k: "dres = Inr outs"
    by (auto simp: del)
  obtain es4 where com: "release_commit actor r f (map cp_id cs) outs (rv_now e 5) (rw_catalog w3) =
      Inr (put_intake (in_id r) (released_row f (rv_now e 5))
        ((rw_catalog w3)\<lparr>retention_events := es4, copies := mark_deleted (map cp_id cs) (rv_now e 5) (copies (rw_catalog w3))\<rparr>))"
    and rec: "\<forall>a \<in> {''cloud_blob_deleted'', ''released''}. \<exists>e \<in> set es4. ev_action e = a \<and> ev_operation_id e = ''release:'' @ in_id r"
    and old: "set (retention_events (rw_catalog w3)) \<subseteq> set es4"
    using release_commit_total by blast
  define c4 where "c4 = (rw_catalog w3)\<lparr>retention_events := es4, copies := mark_deleted (map cp_id cs) (rv_now e 5) (copies (rw_catalog w3))\<rparr>"
  define w4 where "w4 = set_db (put_intake (in_id r) (released_row f (rv_now e 5)) c4) (w3\<lparr>rw_objects := objs\<rparr>)"
  have "release_rest e actor r f cs w3 = (w4, Inr \<lparr>rr_intake_id = in_id r, rr_released = True,
      rr_deleted_copy_ids = map cp_id cs, rr_reason = ''released''\<rparr>)"
    unfolding release_rest_def del k prod.case sum.case assms(2) Let_def w4_def c4_def using com by simp
  moreover have "get_intake c4 (in_id r) = Some r'" using assms(3) by (simp add: c4_def get_intake_def)
  then have "get_intake (rw_catalog w4) (in_id r) = Some (released_row f (rv_now e 5) r')"
    by (simp add: w4_def set_db_def get_intake_put released_row_def)
  moreover have "copies (rw_catalog w4) = mark_deleted (map cp_id cs) (rv_now e 5) (copies (rw_catalog w3))"
    "retention_events (rw_catalog w4) = es4" "rw_objects w4 = objs"
    by (simp_all add: w4_def set_db_def put_intake_def c4_def)
  moreover have "set objs = set (rw_objects w3) - object_of ` set cs"
    using delete_copy_objects_frame [OF del] k by simp
  ultimately show ?thesis
    using rec old by - (rule exI [of _ w4], simp only: receipt_in_def ball_simps simp_thms)
qed

text \<open>The run of a ready intake, up to the outcome of the delete calls.\<close>

lemma release_ready_run:
  assumes "release_ready (e\<lparr>rv_itf := (\<lambda>_ v. v)\<rparr>) r w" "actor \<noteq> []" "c = rw_catalog w" "cs = cloud_blob_copies c (in_id r)"
    "\<And>v. rv_itf e 0 v = v" "\<And>v. rv_itf e 1 v = v"
  shows "\<exists>f es w3. policy_fingerprint c (intake_items c (in_id r)) = Some f \<and>
    add_once_event (in_id r) ''release_attempted'' (''release:'' @ in_id r) actor (rv_now e 4)
      [(''policy_fingerprint'', JStr f)] (retention_events c) = Inr es \<and>
    w3 = rv_itf e 2 (set_db (c\<lparr>retention_events := es\<rparr>) w) \<and>
    run_retention e actor r None w = release_rest e actor r f cs w3"
proof -
  let ?i = "in_id r"
  define ws where "ws = collect_witness_answers (rv_wit e 0) c (intake_items c ?i)"
  define ws1 where "ws1 = fresh_witness_answers (rv_wit e 1) (rv_now e 2) c (intake_items c ?i) (Some ws)"
  have held: "in_retention_state r = HELD" using assms(1) by (simp add: release_ready_def)
  obtain f where f: "policy_fingerprint c (intake_items c ?i) = Some f" using assms(1,3) by (auto simp: release_ready_def)
  have "rv_wit (e\<lparr>rv_itf := (\<lambda>_ v. v)\<rparr>) = rv_wit e" by simp
  note gate = release_ready_gate [OF assms(1), unfolded this, folded assms(3)]
  obtain g0 where g0: "local_gate_status (rw_db w) r ws True DEFAULT_STAGING_GRACE_DAYS (rv_now e 1) = Inr g0" "ig_releasable g0"
    using gate [of 0 ws] by (auto simp: ws_def)
  have "ws1 = collect_witness_answers (rv_wit e 0) c (intake_items c ?i) \<or> ws1 = collect_witness_answers (rv_wit e 1) c (intake_items c ?i)"
    unfolding ws1_def ws_def fresh_witness_answers_def by auto
  then obtain g1 where g1: "local_gate_status (rw_db w) r ws1 True DEFAULT_STAGING_GRACE_DAYS (rv_now e 3) = Inr g1" "ig_releasable g1"
    using gate [of 0 ws1] gate [of 1 ws1] by blast
  have "validate_event_detail ''release_attempted'' [(''policy_fingerprint'', JStr f)] = Inr ()"
    by (simp add: validate_event_detail_def EVENT_DETAIL_KEYS_def)
  then obtain es where es: "add_once_event ?i ''release_attempted'' (''release:'' @ ?i) actor (rv_now e 4)
      [(''policy_fingerprint'', JStr f)] (retention_events c) = Inr es"
    using add_once_total [OF intake_actions(1)] by blast
  have "release_reserve actor r ws1 (rv_now e 3) (rv_now e 4) (rw_db w) = Inr (Inr (c\<lparr>retention_events := es\<rparr>, f, cs))"
    unfolding release_reserve_def g1 gate_result_def sum.case res_bind_simps assms(3) [symmetric] f option.case es
    using g1(2) assms(4) by (simp add: with_events_def)
  with f es show ?thesis
    using assms(2) held g0
    by (simp add: run_retention_def release_rest_def Let_def assms(5,6) gate_result_def fresh_witness_answers_def [of _ _ _ _ None]
        assms(3) [symmetric] ws_def [symmetric] ws1_def [symmetric] del: One_nat_def)
qed

lemma quiet_itf: "quiet e \<Longrightarrow> e\<lparr>rv_itf := (\<lambda>_ v. v)\<rparr> = e"
proof -
  assume "quiet e"
  then have "rv_itf e = (\<lambda>_ v. v)" by (simp add: quiet_def fun_eq_iff)
  then show ?thesis by (cases e) simp
qed

lemma release_stops:
  assumes "release_ready e r w" "actor \<noteq> []" "c = rw_catalog w" "cs = cloud_blob_copies c (in_id r)"
    "\<exists>x \<in> set cs. rv_fails e (cp_id x)"
  shows "\<exists>w' k. run_retention e actor r None w = (w', Inl (RtBackendError k)) \<and>
    (\<forall>f. release_ready (e\<lparr>rv_fails := f\<rparr>) r w') \<and> copies (rw_catalog w') = copies c"
proof -
  have q: "quiet e" "\<And>k v. rv_itf e k v = v" using assms(1) by (auto simp: release_ready_def quiet_def)
  obtain f es w3 where f: "policy_fingerprint c (intake_items c (in_id r)) = Some f"
    and es: "add_once_event (in_id r) ''release_attempted'' (''release:'' @ in_id r) actor (rv_now e 4)
      [(''policy_fingerprint'', JStr f)] (retention_events c) = Inr es"
    and w3: "w3 = set_db (c\<lparr>retention_events := es\<rparr>) w"
    and run: "run_retention e actor r None w = release_rest e actor r f cs w3"
    using release_ready_run [of e r w actor c cs] assms(1-4) quiet_itf [OF q(1)] q(2) by auto
  have c3: "rw_catalog w3 = c\<lparr>retention_events := es\<rparr>" "rw_objects w3 = rw_objects w" by (simp_all add: w3 set_db_def)
  have kinds: "\<forall>x \<in> set cs. deletable_kind (copy_kind (rw_catalog w3) x)"
    using assms(1,3,4) by (simp add: release_ready_def c3 receipt_frame)
  obtain objs dres where del: "delete_copy_objects (rv_fails e) (rw_catalog w3) cs (rw_objects w3) = (objs, dres)" by fastforce
  from delete_copy_objects_outcome [OF kinds, of "rv_fails e" "rw_objects w3"] assms(5)
  obtain k where k: "dres = Inl (RtBackendError k)" by (auto simp: del)
  have "release_ready (e\<lparr>rv_fails := f\<rparr>) r (w3\<lparr>rw_objects := objs\<rparr>)" for f
    unfolding w3 assms(3) by (rule release_ready_receipts [OF assms(1)])
  then show ?thesis unfolding run release_rest_def del k by (simp add: c3)
qed

lemma release_succeeds:
  assumes "release_ready e r w" "actor \<noteq> []" "c = rw_catalog w" "cs = cloud_blob_copies c (in_id r)"
    "\<forall>x \<in> set cs. \<not> rv_fails e (cp_id x)"
  shows "\<exists>w' f. run_retention e actor r None w = (w', Inr \<lparr>rr_intake_id = in_id r, rr_released = True,
      rr_deleted_copy_ids = map cp_id cs, rr_reason = ''released''\<rparr>) \<and>
    policy_fingerprint c (intake_items c (in_id r)) = Some f \<and>
    get_intake (rw_catalog w') (in_id r) = Some (released_row f (rv_now e 5) r) \<and>
    set (rw_objects w') = set (rw_objects w) - object_of ` set cs \<and>
    copies (rw_catalog w') = mark_deleted (map cp_id cs) (rv_now e 5) (copies c) \<and>
    (\<forall>a \<in> {''release_attempted'', ''cloud_blob_deleted'', ''released''}. receipt_in a (''release:'' @ in_id r) (rw_catalog w'))"
proof -
  have q: "quiet e" "\<And>k v. rv_itf e k v = v" using assms(1) by (auto simp: release_ready_def quiet_def)
  obtain f es w3 where f: "policy_fingerprint c (intake_items c (in_id r)) = Some f"
    and es: "add_once_event (in_id r) ''release_attempted'' (''release:'' @ in_id r) actor (rv_now e 4)
      [(''policy_fingerprint'', JStr f)] (retention_events c) = Inr es"
    and w3: "w3 = set_db (c\<lparr>retention_events := es\<rparr>) w"
    and run: "run_retention e actor r None w = release_rest e actor r f cs w3"
    using release_ready_run [of e r w actor c cs] assms(1-4) quiet_itf [OF q(1)] q(2) by auto
  have c3: "rw_catalog w3 = c\<lparr>retention_events := es\<rparr>" "rw_objects w3 = rw_objects w" by (simp_all add: w3 set_db_def)
  have kinds: "\<forall>x \<in> set cs. deletable_kind (copy_kind (rw_catalog w3) x)"
    using assms(1,3,4) by (simp add: release_ready_def c3 receipt_frame)
  have "get_intake (rw_catalog w3) (in_id r) = Some r" using assms(1,3) by (simp add: release_ready_def c3 receipt_frame)
  with kinds assms(5) obtain w' where rest: "release_rest e actor r f cs w3 = (w', Inr \<lparr>rr_intake_id = in_id r, rr_released = True,
      rr_deleted_copy_ids = map cp_id cs, rr_reason = ''released''\<rparr>)"
    "get_intake (rw_catalog w') (in_id r) = Some (released_row f (rv_now e 5) r)"
    "set (rw_objects w') = set (rw_objects w3) - object_of ` set cs"
    "copies (rw_catalog w') = mark_deleted (map cp_id cs) (rv_now e 5) (copies (rw_catalog w3))"
    "set (retention_events (rw_catalog w3)) \<subseteq> set (retention_events (rw_catalog w'))"
    "\<forall>a \<in> {''cloud_blob_deleted'', ''released''}. receipt_in a (''release:'' @ in_id r) (rw_catalog w')"
    using release_rest_succeeds [of cs e w3 r r actor f] q(2) by blast
  have "receipt_in ''release_attempted'' (''release:'' @ in_id r) (rw_catalog w')"
    using add_once_recorded(1) [OF es] rest(5) by (auto simp: receipt_in_def c3)
  with rest f show ?thesis
    by - (rule exI [of _ w'], rule exI [of _ f], simp only: run c3 ball_simps simp_thms, simp)
qed

text \<open>
  C15: When only delete calls can fail, a release run of a ready intake either stops at a failing call,
  and then the intake is still held and ready, so the next run takes up where this one stopped, or, when
  no call fails, it ends with the intake released under the fingerprint of the current policy, its cloud
  objects gone, the copies marked deleted, and all three receipts written.
\<close>

theorem release_resumes:
  assumes "release_ready e r w" "actor \<noteq> []" "c = rw_catalog w" "cs = cloud_blob_copies c (in_id r)"
  shows "\<exists>w' res. run_retention e actor r None w = (w', res) \<and>
    (if \<exists>x \<in> set cs. rv_fails e (cp_id x)
     then (\<exists>k. res = Inl (RtBackendError k)) \<and> (\<forall>f. release_ready (e\<lparr>rv_fails := f\<rparr>) r w') \<and> copies (rw_catalog w') = copies c
     else res = Inr \<lparr>rr_intake_id = in_id r, rr_released = True, rr_deleted_copy_ids = map cp_id cs, rr_reason = ''released''\<rparr> \<and>
       get_intake (rw_catalog w') (in_id r) =
         Some (released_row (the (policy_fingerprint c (intake_items c (in_id r)))) (rv_now e 5) r) \<and>
       set (rw_objects w') = set (rw_objects w) - object_of ` set cs \<and>
       copies (rw_catalog w') = mark_deleted (map cp_id cs) (rv_now e 5) (copies c) \<and>
       (\<forall>a \<in> {''release_attempted'', ''cloud_blob_deleted'', ''released''}. receipt_in a (''release:'' @ in_id r) (rw_catalog w')))"
proof (cases "\<exists>x \<in> set cs. rv_fails e (cp_id x)")
  case True
  with release_stops [OF assms] show ?thesis by fastforce
next
  case False
  with release_succeeds [OF assms] show ?thesis by fastforce
qed

definition example_world :: retention_world where
  "example_world = \<lparr>rw_db = example_db, rw_fs = [], rw_objects = [object_of cloud_copy, (1, [])]\<rparr>"

definition release_env :: "(nat \<Rightarrow> bool) \<Rightarrow> retention_env" where
  "release_env fails = \<lparr>rv_itf = (\<lambda>_ w. w), rv_wit = (\<lambda>_. silent_witness), rv_now = (\<lambda>_. 7), rv_fails = fails,
     rv_nonce = ''n'', rv_crash = False, rv_gc_stop = None\<rparr>"

lemma example_cloud: "cloud_blob_copies release_catalog ''i1'' = [cloud_copy]"
  by (simp add: cloud_blob_copies_def cloud_bundle_id_def release_example_defs)

lemma example_fingerprint: "policy_fingerprint release_catalog (intake_items release_catalog ''i1'') \<noteq> None"
  by (simp add: policy_fingerprint_def fingerprint_pools_def intake_items_def backend_declares_retention_witness_def
      release_example_defs del: dumps.simps sort_json.simps)

lemma example_ready: "release_ready (release_env fails) example_intake example_world"
  using release_catalog_ok example_clear example_protected example_fingerprint example_cloud
  by (simp add: release_ready_def quiet_def release_env_def example_world_def example_intake_fields)
     (simp add: copy_kind_def get_backend_def deletable_kind_def release_example_defs)

theorem release_resumes_witness:
  "(\<exists>w1 k. run_retention (release_env (\<lambda>_. True)) ''op'' example_intake None example_world = (w1, Inl (RtBackendError k)) \<and>
     (\<exists>w2 res. run_retention (release_env (\<lambda>_. False)) ''op'' example_intake None w1 = (w2, Inr res) \<and> rr_released res))"
proof -
  obtain w1 k where w1: "run_retention (release_env (\<lambda>_. True)) ''op'' example_intake None example_world = (w1, Inl (RtBackendError k))"
    and ready: "release_ready (release_env (\<lambda>_. True)\<lparr>rv_fails := \<lambda>_. False\<rparr>) example_intake w1"
    using release_resumes [OF example_ready [of "\<lambda>_. True"], of "''op''" release_catalog "[cloud_copy]"]
    by (auto simp: example_intake_fields example_cloud example_world_def release_env_def)
  have "release_env (\<lambda>_. True)\<lparr>rv_fails := \<lambda>_. False\<rparr> = release_env (\<lambda>_. False)" by (simp add: release_env_def)
  with ready release_resumes [of "release_env (\<lambda>_. False)" example_intake w1 "''op''", OF _ _ refl refl] w1
  show ?thesis by (auto simp: release_env_def)
qed


section \<open>A concurrent abandonment\<close>

definition abandon_in :: "intake_row \<Rightarrow> string \<Rightarrow> string \<Rightarrow> string \<Rightarrow> time \<Rightarrow> retention_world \<Rightarrow> retention_world" where
  "abandon_in r actor reason nonce now w =
     (case abandon_retention r actor reason nonce now (rw_catalog w) of Inl _ \<Rightarrow> w | Inr (c, _) \<Rightarrow> set_db c w)"

lemma abandon_held:
  assumes "in_retention_state r = HELD" "actor \<noteq> []" "reason \<noteq> []"
  shows "\<exists>ev. abandon_retention r actor reason nonce now c =
      Inr (put_intake (in_id r) (\<lambda>x. x\<lparr>in_retention_state := ABANDONED\<rparr>) (c\<lparr>retention_events := retention_events c @ [ev]\<rparr>), True) \<and>
    ev_action ev = ''abandoned'' \<and> ev_actor ev = actor"
proof -
  let ?d = "[(''reason'', JStr reason), (''previous_state'', JStr (retention_state_text HELD))]"
  let ?e = "new_event (Some (in_id r)) ''intake'' (in_id r) ''abandoned'' (''abandon:'' @ in_id r @ '':'' @ nonce) actor now ?d"
  have "insert_event (?e k) es = Inr (es @ [?e k])" for k es
    by (simp add: insert_event_def new_event_def event_subject_ok_def event_supersession_ok_def once_key_def INTAKE_ACTIONS_def
        ONCE_ACTIONS_def)
  moreover have "validate_event_detail ''abandoned'' ?d = Inr ()"
    by (simp add: validate_event_detail_def EVENT_DETAIL_KEYS_def)
  ultimately have "add_event (?e 0) es = Inr (es @ [?e (fresh_id (map ev_id es))])" for es
    unfolding add_event_def by (simp add: new_event_def)
  then have "abandon_retention r actor reason nonce now c = Inr (put_intake (in_id r) (\<lambda>x. x\<lparr>in_retention_state := ABANDONED\<rparr>)
      (c\<lparr>retention_events := retention_events c @ [?e (fresh_id (map ev_id (retention_events c)))]\<rparr>), True)"
    unfolding abandon_retention_def assms(1) using assms(2,3) by (simp add: with_events_def put_intake_def)
  then show ?thesis by (auto simp: new_event_def)
qed

text \<open>
  C39: When an operator abandons a held intake after the attempt of a release run is committed and
  before its last transaction, the abandonment succeeds and is recorded, and the run still deletes the
  cloud objects and leaves the intake released: the run decides on the row its session loaded at the start,
  so the check of the state before the outcome does not see the new one.
\<close>

theorem abandonment_lost:
  assumes "release_ready e r w" "actor \<noteq> []" "c = rw_catalog w" "cs = cloud_blob_copies c (in_id r)"
    "\<forall>x \<in> set cs. \<not> rv_fails e (cp_id x)" "operator \<noteq> []" "reason \<noteq> []"
    "e' = e\<lparr>rv_itf := (\<lambda>k. if k = 2 then abandon_in r operator reason nonce t else (\<lambda>v. v))\<rparr>"
  shows "\<exists>w' res. run_retention e' actor r None w = (w', Inr res) \<and> rr_released res \<and>
    (\<exists>x. get_intake (rw_catalog w') (in_id r) = Some x \<and> in_retention_state x = RELEASED) \<and>
    set (rw_objects w') = set (rw_objects w) - object_of ` set cs \<and>
    (\<exists>ev \<in> set (retention_events (rw_catalog w')). ev_action ev = ''abandoned'' \<and> ev_actor ev = operator)"
proof -
  have "quiet e" using assms(1) by (simp add: release_ready_def)
  then have "e'\<lparr>rv_itf := (\<lambda>_ v. v)\<rparr> = e" using quiet_itf by (simp add: assms(8))
  then obtain f es w3 where w3: "w3 = rv_itf e' 2 (set_db (c\<lparr>retention_events := es\<rparr>) w)"
    and run: "run_retention e' actor r None w = release_rest e' actor r f cs w3"
    using release_ready_run [of e' r w actor c cs] assms(1-4) by (auto simp: assms(8))
  have held: "in_retention_state r = HELD" using assms(1) by (simp add: release_ready_def)
  obtain ev where ev: "ev_action ev = ''abandoned''" "ev_actor ev = operator"
    and ab: "abandon_retention r operator reason nonce t (c\<lparr>retention_events := es\<rparr>) =
      Inr (put_intake (in_id r) (\<lambda>x. x\<lparr>in_retention_state := ABANDONED\<rparr>) (c\<lparr>retention_events := es @ [ev]\<rparr>), True)"
    using abandon_held [OF held assms(6,7), of nonce t "c\<lparr>retention_events := es\<rparr>"] by auto
  have c3: "rw_catalog w3 = put_intake (in_id r) (\<lambda>x. x\<lparr>in_retention_state := ABANDONED\<rparr>) (c\<lparr>retention_events := es @ [ev]\<rparr>)"
    "rw_objects w3 = rw_objects w"
    unfolding w3 by (simp_all add: assms(8) abandon_in_def set_db_def ab)
  have "copy_kind (rw_catalog w3) = copy_kind c" by (simp add: c3 copy_kind_def get_backend_def put_intake_def fun_eq_iff)
  then have kinds: "\<forall>x \<in> set cs. \<not> rv_fails e' (cp_id x) \<and> deletable_kind (copy_kind (rw_catalog w3) x)"
    using assms(1,3,4,5,8) by (simp add: release_ready_def)
  have "get_intake (rw_catalog w3) (in_id r) = Some (r\<lparr>in_retention_state := ABANDONED\<rparr>)"
    using assms(1,3) unfolding c3 by (simp add: get_intake_put release_ready_def receipt_frame)
  from release_rest_succeeds [OF kinds _ this, of actor f] obtain w' where
    "release_rest e' actor r f cs w3 = (w', Inr \<lparr>rr_intake_id = in_id r, rr_released = True,
      rr_deleted_copy_ids = map cp_id cs, rr_reason = ''released''\<rparr>)"
    "get_intake (rw_catalog w') (in_id r) = Some (released_row f (rv_now e' 5) (r\<lparr>in_retention_state := ABANDONED\<rparr>))"
    "set (rw_objects w') = set (rw_objects w3) - object_of ` set cs"
    "set (retention_events (rw_catalog w3)) \<subseteq> set (retention_events (rw_catalog w'))"
    using assms(8) by auto
  moreover have "ev \<in> set (retention_events (rw_catalog w3))" by (simp add: c3 put_intake_def)
  ultimately show ?thesis using ev unfolding run c3(2) by (auto simp: released_row_def)
qed

theorem abandonment_lost_witness:
  "\<exists>w' res. run_retention ((release_env (\<lambda>_. False))\<lparr>rv_itf := (\<lambda>k. if k = 2
      then abandon_in example_intake ''curator'' ''keep'' ''n'' 6 else (\<lambda>v. v))\<rparr>) ''op'' example_intake None example_world = (w', Inr res) \<and>
     rr_released res \<and> object_of cloud_copy \<notin> set (rw_objects w') \<and>
     (\<exists>ev \<in> set (retention_events (rw_catalog w')). ev_action ev = ''abandoned'' \<and> ev_actor ev = ''curator'')"
  using abandonment_lost [OF example_ready [of "\<lambda>_. False"], of "''op''" release_catalog "[cloud_copy]" "''curator''" "''keep''", OF _ _ _ _ _ _ refl, of "''n''" 6]
  by (auto simp: example_world_def example_intake_fields example_cloud release_env_def)

end
