(* ===== verification/Retention_Paths.thy ===== *)
theory Retention_Paths
  imports Retention
begin

text \<open>
  What the path checks of retention establish: on link-free paths the resolving functions are the identity,
  and which nodes each change of the file system leaves alone.
\<close>

section \<open>Plain paths\<close>

text \<open>Directories all the way down, no link and no \<open>..\<close> among them.\<close>

definition plain_dir :: "filesystem \<Rightarrow> path \<Rightarrow> bool" where
  "plain_dir fs p \<longleftrightarrow> ''..'' \<notin> set p \<and> (\<forall>q. prefix q p \<longrightarrow> (\<exists>d. map_of fs q = Some (DirNode d)))"

lemma plain_dir_node: "plain_dir fs (p @ q) \<Longrightarrow> \<exists>d. map_of fs p = Some (DirNode d)"
  by (simp add: plain_dir_def)

lemma plain_dir_step: "plain_dir fs (cur @ x # rest) \<Longrightarrow> x \<noteq> ''..'' \<and> plain_dir fs ((cur @ [x]) @ rest)"
  by (auto simp: plain_dir_def)

lemma follow_plain: "plain_dir fs (cur @ rest) \<Longrightarrow> follow fs n cur rest = Inr (cur @ rest)"
proof (induction rest arbitrary: cur)
  case (Cons x rest)
  note step = plain_dir_step [OF Cons.prems]
  from plain_dir_node [OF Cons.prems] plain_dir_node [OF conjunct2 [OF step]] Cons.IH [OF conjunct2 [OF step]] step
  show ?case by auto
qed simp

lemma resolve_plain: "plain_dir fs (cur @ rest) \<Longrightarrow> resolve_lax fs n cur (rest @ zs) = resolve_lax fs n (cur @ rest) zs"
proof (induction rest arbitrary: cur)
  case (Cons x rest)
  note step = plain_dir_step [OF Cons.prems]
  from plain_dir_node [OF conjunct2 [OF step]] Cons.IH [OF conjunct2 [OF step]] step
  show ?case by auto
qed simp

lemma lstat_plain: "plain_dir fs p \<Longrightarrow> p \<noteq> [] \<Longrightarrow> \<exists>d. lstat_node fs p = Inr (DirNode d)"
proof -
  assume p: "plain_dir fs p" "p \<noteq> []"
  then obtain q x where q: "p = q @ [x]" by (cases p rule: rev_cases) auto
  have "plain_dir fs q" using p(1) by (auto simp: plain_dir_def q)
  then have "follow fs max_links [] q = Inr q" using follow_plain [of fs "[]" q] by simp
  moreover have "x \<noteq> ''..''" using p(1) by (auto simp: plain_dir_def q)
  moreover obtain d d' where "map_of fs q = Some (DirNode d)" "map_of fs (q @ [x]) = Some (DirNode d')"
    using plain_dir_node [of fs q "[x]"] plain_dir_node [of fs "q @ [x]" "[]"] p(1) by (auto simp: q)
  ultimately show ?thesis by (simp add: lstat_node_def q)
qed

lemma check_plain:
  "plain_dir fs (cur @ rest) \<Longrightarrow> check_components fs base allow cur (rest @ zs) = check_components fs base allow (cur @ rest) zs"
proof (induction rest arbitrary: cur)
  case (Cons x rest)
  note step = plain_dir_step [OF Cons.prems]
  have "plain_dir fs (cur @ [x])" using step by (auto simp: plain_dir_def)
  then obtain d where "lstat_node fs (cur @ [x]) = Inr (DirNode d)" using lstat_plain by blast
  with Cons.IH [OF conjunct2 [OF step]] show ?case by simp
qed simp

text \<open>One more name below a plain directory.\<close>

lemma leaf_plain:
  assumes "plain_dir fs t" "x \<noteq> ''..''"
  shows "lstat_node fs (t @ [x]) = (case map_of fs (t @ [x]) of None \<Rightarrow> Inl NotFound | Some nd \<Rightarrow> Inr nd)"
    and "(\<forall>l. map_of fs (t @ [x]) \<noteq> Some (LinkNode l)) \<Longrightarrow>
           stat_node fs (t @ [x]) = (case map_of fs (t @ [x]) of None \<Rightarrow> Inl NotFound | Some nd \<Rightarrow> Inr nd)"
    and "(\<forall>l. map_of fs (t @ [x]) \<noteq> Some (LinkNode l)) \<Longrightarrow> resolve_lax fs n [] (t @ [x]) = t @ [x]"
proof -
  obtain d where d: "map_of fs t = Some (DirNode d)" using plain_dir_node [of fs t "[]"] assms(1) by auto
  have f: "follow fs max_links [] t = Inr t" using follow_plain [of fs "[]" t] assms(1) by simp
  show "lstat_node fs (t @ [x]) = (case map_of fs (t @ [x]) of None \<Rightarrow> Inl NotFound | Some nd \<Rightarrow> Inr nd)"
    using assms(2) by (simp add: lstat_node_def f d)
  assume nl: "\<forall>l. map_of fs (t @ [x]) \<noteq> Some (LinkNode l)"
  have "follow fs n cur (rest @ [x]) = follow fs n (cur @ rest) [x]" if "plain_dir fs (cur @ rest)" for n cur rest
    using that
  proof (induction rest arbitrary: cur)
    case (Cons y rest)
    note step = plain_dir_step [OF Cons.prems]
    from plain_dir_node [OF Cons.prems] plain_dir_node [OF conjunct2 [OF step]] Cons.IH [OF conjunct2 [OF step]] step
    show ?case by auto
  qed simp
  from this [of "[]" t max_links] assms(1) have "follow fs max_links [] (t @ [x]) = follow fs max_links t [x]" by simp
  then show "stat_node fs (t @ [x]) = (case map_of fs (t @ [x]) of None \<Rightarrow> Inl NotFound | Some nd \<Rightarrow> Inr nd)"
    using nl assms(2) by (auto simp: stat_node_def d split: option.splits fs_node.splits)
  show "resolve_lax fs n [] (t @ [x]) = t @ [x]"
    using resolve_plain [of fs "[]" t n "[x]"] nl assms by (auto split: option.splits fs_node.splits)
qed

section \<open>The sentinel\<close>

definition sentinel_at :: "filesystem \<Rightarrow> path \<Rightarrow> string \<Rightarrow> bool" where
  "sentinel_at fs p i \<longleftrightarrow>
     (\<exists>b kvs. map_of fs (p @ [''intake.json'']) = Some (FileNode b (Some (JObj kvs))) \<and> map_of kvs ''intake_id'' = Some (JStr i))"

lemma validate_sentinel_plain:
  assumes "plain_dir fs p"
  shows "validate_sentinel si fs p i = Inr () \<longleftrightarrow> sentinel_at fs p i"
    and "\<not> sentinel_at fs p i \<Longrightarrow> \<exists>m. validate_sentinel si fs p i = Inl (RetentionError m)"
proof -
  let ?s = "p @ [''intake.json'']"
  have chk: "assert_no_symlink_components fs False ?s = check_components fs None False p [''intake.json'']"
    using check_plain [of fs "[]" p None False "[''intake.json'']"] assms by (simp add: assert_no_symlink_components_def)
  note leaf = leaf_plain [OF assms, of "''intake.json''"]
  have "validate_sentinel si fs p i =
      (case map_of fs ?s of
         Some (FileNode b j) \<Rightarrow>
           (case j of
              None \<Rightarrow> Inl (RetentionError (''invalid intake sentinel: '' @ si_parse_text si))
            | Some (JObj kvs) \<Rightarrow> if map_of kvs ''intake_id'' = Some (JStr i) then Inr ()
                                else Inl (RetentionError ''intake sentinel identity mismatch'')
            | Some _ \<Rightarrow> Inl (RetentionError ''intake sentinel identity mismatch''))
       | Some (DirNode d) \<Rightarrow> Inl (RetentionError ''intake sentinel is not a regular file'')
       | Some (LinkNode l) \<Rightarrow> Inl (RetentionError (''symlink path component rejected: '' @ shown_path None ?s))
       | None \<Rightarrow> Inl (RetentionError (''path component does not exist: '' @ shown_path None ?s)))"
    unfolding validate_sentinel_def Let_def chk
    using leaf(1,2) by (auto simp: path_file_def split: option.splits fs_node.splits json.splits)
  then show "validate_sentinel si fs p i = Inr () \<longleftrightarrow> sentinel_at fs p i"
    "\<not> sentinel_at fs p i \<Longrightarrow> \<exists>m. validate_sentinel si fs p i = Inl (RetentionError m)"
    by (auto simp: sentinel_at_def split: option.splits fs_node.splits json.splits)
qed

section \<open>What a change leaves alone\<close>

definition fs_keeps :: "path set \<Rightarrow> filesystem \<Rightarrow> filesystem \<Rightarrow> bool" where
  "fs_keeps S fs fs' \<longleftrightarrow> (\<forall>x \<in> set fs. (\<exists>p \<in> S. prefix p (fst x)) \<or> x \<in> set fs')"

lemma fs_keeps_refl [simp]: "fs_keeps S fs fs"
  by (simp add: fs_keeps_def)

lemma fs_keeps_trans: "fs_keeps S fs fs1 \<Longrightarrow> fs_keeps T fs1 fs2 \<Longrightarrow> fs_keeps (S \<union> T) fs fs2"
  unfolding fs_keeps_def by blast

lemma fs_keeps_mono: "fs_keeps S fs fs' \<Longrightarrow> S \<subseteq> T \<Longrightarrow> fs_keeps T fs fs'"
  unfolding fs_keeps_def by blast

lemma fs_keeps_remove: "fs_keeps {p} fs (remove_tree p fs)"
  by (auto simp: fs_keeps_def remove_tree_def)

lemma fs_keeps_stop: "fs_keeps {p} fs (filter (\<lambda>(q, _). \<not> (prefix p q \<and> q \<in> set removed)) fs)"
  by (auto simp: fs_keeps_def)

lemma fs_keeps_mkdir: "mkdir_parents fs cur rest = Inr fs' \<Longrightarrow> fs_keeps {} fs fs'"
proof (induction fs cur rest arbitrary: fs' rule: mkdir_parents.induct)
  case (2 fs cur x rest)
  then show ?case by (auto simp: fs_keeps_def split: option.splits fs_node.splits if_splits)
qed (simp add: fs_keeps_def)

lemma fs_keeps_replace:
  assumes "os_replace source destination fs = Inr fs'" "follow fs max_links [] (butlast source) = Inr sp"
  shows "fs_keeps {sp @ [last source]} fs fs'"
proof -
  obtain dst where "fs' = map (\<lambda>(q, nd). (move_path (sp @ [last source]) dst q, nd)) fs"
    using assms by (auto simp: os_replace_def res_bind_Inr_iff Let_def split: if_splits)
  then show ?thesis by (force simp: fs_keeps_def move_path_def)
qed

end
