(* ===== verification/Retention_Purge.thy ===== *)
theory Retention_Purge
  imports Retention_Release Retention_Paths
begin

text \<open>
  Sweeping the staging area (\<open>sweep_staging\<close>): the rounds before the point of no return end, staging goes only
  through an open purge gate, only paths of the intake are touched, and which interrupted collections the
  next sweep completes.
\<close>

section \<open>The rounds of transaction B\<close>

lemma commit_loop_two:
  "\<exists>res. commit_loop (Suc (Suc 0)) refreshed si e actor grace_days r ws w = Some res \<and>
         commit_loop (Suc (Suc m)) refreshed si e actor grace_days r ws w = Some res"
proof -
  have "\<exists>res. commit_loop (Suc 0) True si e actor grace_days r ws w = Some res \<and>
      commit_loop (Suc k) True si e actor grace_days r ws w = Some res" for r ws w k
    by (auto simp: Let_def split: sum.splits)
  then show ?thesis
    by (subst (1 2) commit_loop.simps(2)) (auto simp: Let_def simp del: commit_loop.simps split: sum.splits)
qed

lemma commit_loop_total: "\<exists>res. commit_loop 2 refreshed si e actor grace_days r ws w = Some res"
  using commit_loop_two unfolding numeral_2_eq_2 by blast

text \<open>
  C36: The loop around transaction B ends: whatever the backends answer, whatever the clock says and
  whatever other processes do, two rounds give a result, and more rounds give the same one.
\<close>

theorem commit_loop_terminates:
  assumes "2 \<le> n"
  shows "\<exists>res. commit_loop 2 refreshed si e actor grace_days r ws w = Some res \<and>
               commit_loop n refreshed si e actor grace_days r ws w = Some res"
proof -
  obtain m where n: "n = Suc (Suc m)" using assms by (metis Suc_le_D numeral_2_eq_2 Suc_le_mono)
  show ?thesis unfolding n numeral_2_eq_2 by (rule commit_loop_two)
qed

definition example_site :: site where
  "example_site = \<lparr>si_cwd = [], si_landing_roots = Some ''/land'', si_receive_root = None, si_tombstone_root = Some ''/tomb'',
     si_parse_text = ''bad''\<rparr>"

theorem commit_loop_terminates_witness:
  "\<exists>res. commit_loop 5 False example_site (release_env (\<lambda>_. False)) ''op'' 30 example_intake [] example_world = Some res"
  using commit_loop_terminates [of 5 False example_site "release_env (\<lambda>_. False)" "''op''" 30 example_intake "[]" example_world]
  by auto

section \<open>Collecting a tombstone\<close>

definition purged_row :: "time \<Rightarrow> intake_row \<Rightarrow> intake_row" where
  "purged_row now x = x\<lparr>in_retention_state := PURGED, in_staging_deleted_at := Some now\<rparr>"

lemma staging_deleted_total:
  "\<exists>es'. add_once_event i ''staging_deleted'' op actor now [(''path'', JStr p)] es = Inr es'"
  by (rule add_once_total) (simp_all add: intake_actions validate_event_detail_def EVENT_DETAIL_KEYS_def)

lemma resume_gc_valid:
  assumes "in_retention_state r = TOMBSTONED" "in_tombstone_path r = Some text" "p = absolute (si_cwd si) text"
    "validate_tombstone_path si (rw_fs w) p (in_id r) = Inr ()" "quiet e" "rv_gc_stop e = None"
    "\<not> unsafe_delete_root (resolve_lax (rw_fs w) max_links [] p)" "get_intake (rw_catalog w) (in_id r) = Some r"
  shows "\<exists>w'. resume_tombstone_gc si e actor r w =
      (w', Inr \<lparr>sr_intake_id = in_id r, sr_purged = True, sr_deleted_path = Some (path_text si text), sr_reason = ''purged''\<rparr>) \<and>
    get_intake (rw_catalog w') (in_id r) = Some (purged_row (rv_now e 20) r) \<and>
    rw_fs w' = remove_tree (resolve_lax (rw_fs w) max_links [] p) (rw_fs w) \<and>
    receipt_in ''staging_deleted'' (''purge:'' @ in_id r) (rw_catalog w')"
proof -
  let ?i = "in_id r"
  define fs where "fs = remove_tree (resolve_lax (rw_fs w) max_links [] p) (rw_fs w)"
  obtain es where es: "add_once_event ?i ''staging_deleted'' (''purge:'' @ ?i) actor (rv_now e 20)
      [(''path'', JStr (path_text si text))] (retention_events (rw_catalog w)) = Inr es"
    using staging_deleted_total by blast
  define w' where "w' = set_db (put_intake ?i (purged_row (rv_now e 20)) ((rw_catalog w)\<lparr>retention_events := es\<rparr>)) (w\<lparr>rw_fs := fs\<rparr>)"
  have del: "delete_path_idempotent (rw_fs w) p (rv_gc_stop e) = (fs, Inr ())"
    using assms(6,7) by (simp add: delete_path_idempotent_def fs_def)
  have q: "rv_itf e k v = v" for k v using assms(5) by (simp add: quiet_def)
  have "resume_tombstone_gc si e actor r w = (w', Inr \<lparr>sr_intake_id = ?i, sr_purged = True,
      sr_deleted_path = Some (path_text si text), sr_reason = ''purged''\<rparr>)"
    unfolding resume_tombstone_gc_def Let_def assms(1,2,4) option.case assms(3) [symmetric] del prod.case sum.case q
      with_events_def
    using es by (simp add: w'_def purged_row_def [abs_def])
  moreover have "get_intake (rw_catalog w') ?i = Some (purged_row (rv_now e 20) r)"
    using assms(8) by (simp add: w'_def set_db_def get_intake_put purged_row_def receipt_frame)
  moreover have "rw_fs w' = fs" by (simp add: w'_def set_db_def)
  moreover have "receipt_in ''staging_deleted'' (''purge:'' @ ?i) (rw_catalog w')"
    using add_once_recorded(1) [OF es] by (simp add: receipt_in_def w'_def set_db_def put_intake_def)
  ultimately show ?thesis unfolding fs_def by blast
qed

lemma tombstone_name_plain: "tombstone_name i \<noteq> ''..''"
  by (simp add: tombstone_name_def)

lemma validate_tombstone_plain:
  assumes "tombstone_root si fs = Inr t" "plain_dir fs t" "tomb = t @ [tombstone_name i]"
    "map_of fs tomb = None \<or> plain_dir fs tomb"
  shows "validate_tombstone_path si fs tomb i = (if map_of fs tomb = None then Inr () else validate_sentinel si fs tomb i)"
    and "resolve_lax fs max_links [] tomb = tomb"
proof -
  note leaf = leaf_plain [OF assms(2) tombstone_name_plain, of i, folded assms(3)]
  have nl: "\<forall>l. map_of fs tomb \<noteq> Some (LinkNode l)" using assms(4) plain_dir_node [of fs tomb "[]"] by auto
  show lax: "resolve_lax fs max_links [] tomb = tomb" using leaf(3) nl by blast
  have "assert_no_symlink_components fs True tomb = check_components fs None True t [tombstone_name i]"
    using check_plain [of fs "[]" t None True "[tombstone_name i]"] assms(2,3) by (simp add: assert_no_symlink_components_def)
  then have chk: "assert_no_symlink_components fs True tomb = Inr ()"
    using leaf(1) assms(3,4) nl plain_dir_node [of fs tomb "[]"] by (auto split: option.splits)
  have "path_exists fs tomb \<longleftrightarrow> map_of fs tomb \<noteq> None"
    using leaf(2) [OF nl] by (auto simp: path_exists_def split: option.splits)
  then show "validate_tombstone_path si fs tomb i = (if map_of fs tomb = None then Inr () else validate_sentinel si fs tomb i)"
    using follow_plain [of fs "[]" t] assms(1,2,3) lax chk
    by (simp add: validate_tombstone_path_def resolve_strict_def os_result_def)
qed

lemma sweep_tombstoned:
  assumes "in_retention_state r = TOMBSTONED" "actor \<noteq> []" "DEFAULT_STAGING_GRACE_DAYS \<le> grace_days"
  shows "sweep_staging si e actor grace_days break_glass r answers override_evented w = resume_tombstone_gc si e actor r w"
  using assms by (simp add: sweep_staging_def)

text \<open>
  C40: Undisturbed, a sweep of a tombstoned intake whose tombstone lies where it should completes the purge
  exactly when the tombstone is already gone or still holds the sentinel of the intake; the tree is then gone
  and the intake purged with its receipt.  A tombstone that has lost its sentinel, as a collection
  interrupted after removing that file leaves it, makes every further sweep raise and change nothing.
\<close>

theorem gc_completes_iff:
  assumes "quiet e" "rv_gc_stop e = None" "actor \<noteq> []" "DEFAULT_STAGING_GRACE_DAYS \<le> grace_days"
    "in_retention_state r = TOMBSTONED" "get_intake (rw_catalog w) (in_id r) = Some r"
    "in_tombstone_path r = Some text" "tomb = absolute (si_cwd si) text" "tomb = t @ [tombstone_name (in_id r)]" "t \<noteq> []"
    "tombstone_root si (rw_fs w) = Inr t" "plain_dir (rw_fs w) t"
    "map_of (rw_fs w) tomb = None \<or> plain_dir (rw_fs w) tomb"
  shows "if map_of (rw_fs w) tomb = None \<or> sentinel_at (rw_fs w) tomb (in_id r)
    then \<exists>w' res. sweep_staging si e actor grace_days break_glass r answers override_evented w = (w', Inr res) \<and>
           sr_purged res \<and> get_intake (rw_catalog w') (in_id r) = Some (purged_row (rv_now e 20) r) \<and>
           rw_fs w' = remove_tree tomb (rw_fs w) \<and> receipt_in ''staging_deleted'' (''purge:'' @ in_id r) (rw_catalog w')
    else \<exists>m. sweep_staging si e actor grace_days break_glass r answers override_evented w = (w, Inl (RetentionError m))"
proof -
  note sweep = sweep_tombstoned [OF assms(5,3,4), of si e break_glass answers override_evented w]
  note valid = validate_tombstone_plain [OF assms(11,12,9,13)]
  have safe: "\<not> unsafe_delete_root (resolve_lax (rw_fs w) max_links [] tomb)"
    unfolding valid(2) using assms(9,10) by (cases t) (simp_all add: unsafe_delete_root_def)
  show ?thesis
  proof (cases "map_of (rw_fs w) tomb = None \<or> sentinel_at (rw_fs w) tomb (in_id r)")
    case True
    have "validate_tombstone_path si (rw_fs w) tomb (in_id r) = Inr ()"
      using True assms(13) validate_sentinel_plain(1) [of "rw_fs w" tomb si "in_id r"] unfolding valid(1) by auto
    from resume_gc_valid [OF assms(5,7,8) this assms(1,2) safe assms(6), of actor] True show ?thesis
      unfolding sweep valid(2) by fastforce
  next
    case False
    then obtain m where "validate_tombstone_path si (rw_fs w) tomb (in_id r) = Inl (RetentionError m)"
      using assms(13) validate_sentinel_plain(2) [of "rw_fs w" tomb "in_id r" si] unfolding valid(1) by auto
    with False assms(7,8) show ?thesis
      unfolding sweep by (simp add: resume_tombstone_gc_def Let_def)
  qed
qed

abbreviation tomb_name :: string where "tomb_name \<equiv> tombstone_name ''i1''"

definition tombstoned_intake :: intake_row where
  "tombstoned_intake = example_intake\<lparr>in_retention_state := TOMBSTONED, in_tombstone_path := Some (''/tomb/'' @ tomb_name)\<rparr>"

definition tombstone_fs :: filesystem where
  "tombstone_fs =
     [([], DirNode 1), ([''tomb''], DirNode 1), ([''tomb'', tomb_name], DirNode 1),
      ([''tomb'', tomb_name, ''intake.json''], FileNode [] (Some (JObj [(''intake_id'', JStr ''i1'')]))),
      ([''tomb'', tomb_name, ''a.mov''], FileNode ''m'' None)]"

definition tombstone_world :: "filesystem \<Rightarrow> retention_world" where
  "tombstone_world fs = example_world\<lparr>rw_db := example_db\<lparr>catalog := release_catalog\<lparr>intakes := [tombstoned_intake]\<rparr>\<rparr>, rw_fs := fs\<rparr>"

lemma tomb_name_no_slash: "CHR ''/'' \<notin> set (tombstone_name i)"
  using sha256_hex_chars by (fastforce simp: tombstone_name_def is_lower_hex_def)

lemma example_tomb: "absolute [] (''/tomb/'' @ tomb_name) = [''tomb'', tomb_name]"
  using tomb_name_no_slash [of "''i1''"]
  by (simp add: absolute_def is_absolute_def path_parts_def split_at_none) (simp add: tombstone_name_def)

lemma plain_dir_two: "\<lbrakk>map_of fs [] = Some (DirNode a); map_of fs [x] = Some (DirNode b); x \<noteq> ''..''\<rbrakk> \<Longrightarrow> plain_dir fs [x]"
  by (auto simp: plain_dir_def prefix_Cons)

lemma plain_dir_three:
  "\<lbrakk>map_of fs [] = Some (DirNode a); map_of fs [x] = Some (DirNode b); map_of fs [x, y] = Some (DirNode d); x \<noteq> ''..''; y \<noteq> ''..''\<rbrakk>
   \<Longrightarrow> plain_dir fs [x, y]"
  by (auto simp: plain_dir_def prefix_Cons)

text \<open>The world after a collection that died right after removing the sentinel.\<close>

definition stuck_world :: retention_world where
  "stuck_world = tombstone_world (filter (\<lambda>(q, _). q \<noteq> [''tomb'', tomb_name, ''intake.json'']) tombstone_fs)"

theorem gc_completes_iff_witness:
  "(\<exists>w' res. sweep_staging example_site (release_env (\<lambda>_. False)) ''op'' 30 False tombstoned_intake None False
      (tombstone_world tombstone_fs) = (w', Inr res) \<and> sr_purged res) \<and>
   (\<exists>m. sweep_staging example_site (release_env (\<lambda>_. False)) ''op'' 30 False tombstoned_intake None False stuck_world =
      (stuck_world, Inl (RetentionError m)))"
proof -
  let ?fs = "filter (\<lambda>(q, _). q \<noteq> [''tomb'', tomb_name, ''intake.json'']) tombstone_fs"
  have id: "in_id tombstoned_intake = ''i1''" by (simp add: tombstoned_intake_def example_intake_fields)
  have row: "in_retention_state tombstoned_intake = TOMBSTONED"
    "in_tombstone_path tombstoned_intake = Some (''/tomb/'' @ tomb_name)"
    "get_intake (rw_catalog (tombstone_world fs)) (in_id tombstoned_intake) = Some tombstoned_intake"
    and fs: "rw_fs (tombstone_world fs) = fs" for fs
    by (simp_all add: tombstoned_intake_def tombstone_world_def get_intake_def)
  have site: "[''tomb'', tomb_name] = absolute (si_cwd example_site) (''/tomb/'' @ tomb_name)" "tombstone_root example_site fs = Inr [''tomb'']" for fs
    using example_tomb by (simp_all add: example_site_def tombstone_root_def absolute_def is_absolute_def path_parts_def)
  have env: "quiet (release_env (\<lambda>_. False))" "rv_gc_stop (release_env (\<lambda>_. False)) = None"
    by (simp_all add: quiet_def release_env_def)
  have plain: "plain_dir fs [''tomb'']" "plain_dir fs [''tomb'', tomb_name]" if "fs \<in> {tombstone_fs, ?fs}" for fs
    using that plain_dir_two [of fs 1 "''tomb''" 1] plain_dir_three [of fs 1 "''tomb''" 1 tomb_name 1] tombstone_name_plain
    by (auto simp: tombstone_fs_def)
  have sen: "sentinel_at tombstone_fs [''tomb'', tomb_name] ''i1''" "\<not> sentinel_at ?fs [''tomb'', tomb_name] ''i1''"
    "map_of ?fs [''tomb'', tomb_name] \<noteq> None"
    by (simp_all add: sentinel_at_def tombstone_fs_def)
  have G: "if map_of fs [''tomb'', tomb_name] = None \<or> sentinel_at fs [''tomb'', tomb_name] ''i1''
      then \<exists>w' res. sweep_staging example_site (release_env (\<lambda>_. False)) ''op'' 30 False tombstoned_intake None False
             (tombstone_world fs) = (w', Inr res) \<and> sr_purged res
      else \<exists>m. sweep_staging example_site (release_env (\<lambda>_. False)) ''op'' 30 False tombstoned_intake None False
             (tombstone_world fs) = (tombstone_world fs, Inl (RetentionError m))"
    if "fs \<in> {tombstone_fs, ?fs}" for fs
    using gc_completes_iff [OF env, of "''op''" 30, OF _ _ row(1,3,2) site(1), of "[''tomb'']" fs False None False]
      plain [OF that] unfolding fs id site(2)
    by (auto simp: DEFAULT_STAGING_GRACE_DAYS_def split: if_splits)
  show ?thesis using G [of tombstone_fs] G [of ?fs] sen by (simp add: stuck_world_def)
qed

section \<open>The purge gate\<close>

text \<open>Own steps that give nothing up: appending receipts and creating directories.\<close>

definition idle :: "retention_world \<Rightarrow> retention_world \<Rightarrow> bool" where
  "idle u v \<longleftrightarrow> (\<exists>new fs. fs_keeps {} (rw_fs u) fs \<and>
     v = set_db ((rw_catalog u)\<lparr>retention_events := retention_events (rw_catalog u) @ new\<rparr>) (u\<lparr>rw_fs := fs\<rparr>))"

text \<open>The worlds a sweep from \<open>w\<close> can see: after idle steps of its own and what others did in between.\<close>

inductive sweep_point :: "retention_env \<Rightarrow> retention_world \<Rightarrow> retention_world \<Rightarrow> bool" for e where
  start: "sweep_point e w w"
| after: "sweep_point e w u \<Longrightarrow> idle u v \<Longrightarrow> sweep_point e w (rv_itf e k v)"

definition purge_open :: "site \<Rightarrow> time \<Rightarrow> time \<Rightarrow> int \<Rightarrow> intake_row \<Rightarrow> witness_answers \<Rightarrow> retention_world \<Rightarrow> bool" where
  "purge_open si now witness_now grace_days r ws w \<longleftrightarrow>
     in_retention_state r = RELEASED \<and> (\<exists>t. in_released_at r = Some t \<and> t + days grace_days < now) \<and>
     intake_clear (rw_db w) r \<and> intake_protected (answers_confirm (rw_catalog w) ws) (rw_catalog w) (in_id r) \<and>
     (\<exists>f. in_release_fingerprint r = Some f \<and> policy_fingerprint (rw_catalog w) (intake_items (rw_catalog w) (in_id r)) = Some f) \<and>
     \<not> witness_answers_stale witness_now ws \<and>
     (\<exists>fs paths. preflight_staging_paths si (rw_catalog w) r (rw_fs w) = (fs, Inr paths))"

lemma sweep_point_trans: "sweep_point e u v \<Longrightarrow> sweep_point e w u \<Longrightarrow> sweep_point e w v"
  by (induction rule: sweep_point.induct) (auto intro: sweep_point.intros)

lemma idle_refl [simp]: "idle w w"
  unfolding idle_def by (rule exI [of _ "[]"], rule exI [of _ "rw_fs w"]) (simp add: set_db_def)

lemma idle_fs: "fs_keeps {} (rw_fs w) fs \<Longrightarrow> idle w (w\<lparr>rw_fs := fs\<rparr>)"
  unfolding idle_def by (rule exI [of _ "[]"], rule exI [of _ fs]) (simp add: set_db_def)

lemma idle_events:
  "c = (rw_catalog w)\<lparr>retention_events := retention_events (rw_catalog w) @ new\<rparr> \<Longrightarrow> idle w (set_db c w)"
  unfolding idle_def by (rule exI [of _ new], rule exI [of _ "rw_fs w"]) (simp add: set_db_def)

lemma idle_trans:
  assumes "idle u v" "idle v w" shows "idle u w"
proof -
  obtain n1 f1 where 1: "fs_keeps {} (rw_fs u) f1"
    "v = set_db ((rw_catalog u)\<lparr>retention_events := retention_events (rw_catalog u) @ n1\<rparr>) (u\<lparr>rw_fs := f1\<rparr>)"
    using assms(1) by (auto simp: idle_def)
  obtain n2 f2 where 2: "fs_keeps {} (rw_fs v) f2"
    "w = set_db ((rw_catalog v)\<lparr>retention_events := retention_events (rw_catalog v) @ n2\<rparr>) (v\<lparr>rw_fs := f2\<rparr>)"
    using assms(2) by (auto simp: idle_def)
  have "rw_fs v = f1" by (simp add: 1(2) set_db_def)
  then have "fs_keeps {} (rw_fs u) f2" using fs_keeps_trans [OF 1(1)] 2(1) by fastforce
  moreover have "w = set_db ((rw_catalog u)\<lparr>retention_events := retention_events (rw_catalog u) @ (n1 @ n2)\<rparr>) (u\<lparr>rw_fs := f2\<rparr>)"
    by (simp add: 2(2) 1(2) set_db_def)
  ultimately show ?thesis unfolding idle_def by blast
qed

lemma add_once_appends: "add_once_event i a op actor t d es = Inr es' \<Longrightarrow> \<exists>new. es' = es @ new"
  using add_event_appends by (fastforce simp: add_once_event_def split: if_splits)

lemma with_once_idle:
  "with_events (add_once_event i a op actor t d (retention_events (rw_catalog w))) (rw_catalog w) = Inr c \<Longrightarrow> idle w (set_db c w)"
  using add_once_appends idle_events by (fastforce simp: with_events_Inr)

lemma with_event_idle:
  "with_events (add_event ev (retention_events (rw_catalog w))) (rw_catalog w) = Inr c \<Longrightarrow> idle w (set_db c w)"
  using add_event_appends idle_events by (fastforce simp: with_events_Inr)

lemma os_result_Inr: "os_result x = Inr y \<longleftrightarrow> x = Inr y"
  by (cases x) (simp_all add: os_result_def)

lemma preflight_keeps:
  assumes "preflight_staging_paths si c r fs = (fs', res)"
  shows "fs_keeps {} fs fs'"
proof (cases "staging_root_for_intake si c r")
  case None
  then show ?thesis using assms by (simp add: preflight_staging_paths_def)
next
  case (Some staging)
  let ?mk = "res_bind (tombstone_root si fs) (\<lambda>t. res_bind (assert_no_symlink_components fs True t) (\<lambda>_.
      res_bind (os_result (mkdir_parents fs [] t)) (\<lambda>fs1. Inr (t, fs1))))"
  show ?thesis
  proof (cases ?mk)
    case (Inl err)
    then show ?thesis using assms Some by (simp add: preflight_staging_paths_def)
  next
    case (Inr tf)
    then obtain t fs1 where tf: "tf = (t, fs1)" "mkdir_parents fs [] t = Inr fs1"
      by (auto simp: res_bind_Inr_iff os_result_Inr)
    then have "fs' = fs1" using assms Some Inr by (simp add: preflight_staging_paths_def)
    with fs_keeps_mkdir [OF tf(2)] show ?thesis by simp
  qed
qed

lemma hold_purge_idle:
  "hold_purge actor i reasons now w = (w', res) \<Longrightarrow> idle w w' \<and> (\<forall>x. res = Inr x \<longrightarrow> \<not> sr_purged x)"
  using with_event_idle by (auto simp: hold_purge_def not_purged_def split: sum.splits)

lemma purge_holds_Nil:
  assumes "purge_holds db r ws grace gnow now = Inr []" "catalog_ok (catalog db)"
  shows "in_retention_state r = RELEASED \<and> (\<exists>t. in_released_at r = Some t \<and> t + days grace < now) \<and>
    intake_clear db r \<and> intake_protected (answers_confirm (catalog db) ws) (catalog db) (in_id r) \<and>
    (\<exists>f. in_release_fingerprint r = Some f \<and> policy_fingerprint (catalog db) (intake_items (catalog db) (in_id r)) = Some f)"
proof -
  from assms(1) have st: "in_retention_state r = RELEASED" by (cases "in_retention_state r") (auto simp: purge_holds_def)
  from assms(1) st obtain t g where t: "in_released_at r = Some t"
    and g: "local_gate_status db r ws False grace gnow = Inr g" "ig_holds g = []"
    by (auto simp: purge_holds_def res_bind_Inr_iff Let_def split: option.splits if_splits)
  from assms(1) st t g have "t + days grace < now"
    "\<exists>f. in_release_fingerprint r = Some f \<and> policy_fingerprint (catalog db) (intake_items (catalog db) (in_id r)) = Some f"
    by (auto simp: purge_holds_def Let_def split: option.splits if_splits)
  with st t gate_open_iff(1) [OF assms(2) g(1)] g(2) show ?thesis by blast
qed

abbreviation not_purging :: "retention_error + sweep_result \<Rightarrow> bool" where
  "not_purging res \<equiv> \<forall>x. res = Inr x \<longrightarrow> \<not> sr_purged x"

definition row_open :: "site \<Rightarrow> retention_env \<Rightarrow> int \<Rightarrow> intake_row \<Rightarrow> retention_world \<Rightarrow> bool" where
  "row_open si e grace_days r u \<longleftrightarrow>
     (\<exists>ws k. purge_open si (rv_now e (k + 1)) (rv_now e (k + 3)) grace_days r ws u)"

text \<open>The purge gate is open at a world the sweep sees, for the row its session holds or one it reads there.\<close>

definition open_point :: "site \<Rightarrow> retention_env \<Rightarrow> int \<Rightarrow> intake_row \<Rightarrow> retention_world \<Rightarrow> retention_world \<Rightarrow> bool" where
  "open_point si e grace_days r w u \<longleftrightarrow> sweep_point e w u \<and>
     (row_open si e grace_days r u \<or>
      (\<exists>r'. get_intake (rw_catalog u) (in_id r) = Some r' \<and> row_open si e grace_days r' u))"

definition idle_point :: "retention_env \<Rightarrow> retention_world \<Rightarrow> retention_world \<Rightarrow> bool" where
  "idle_point e w w' \<longleftrightarrow> (\<exists>u. sweep_point e w u \<and> idle u w')"

lemma idle_point_self: "idle w w' \<Longrightarrow> idle_point e w w'"
  unfolding idle_point_def using sweep_point.start by blast

lemma idle_point_from: "sweep_point e w u \<Longrightarrow> idle_point e u w' \<Longrightarrow> idle_point e w w'"
  unfolding idle_point_def by (meson sweep_point_trans)

lemma open_point_from: "sweep_point e w u \<Longrightarrow> open_point si e g r u v \<Longrightarrow> open_point si e g r w v"
  unfolding open_point_def by (meson sweep_point_trans)

lemma commit_attempt_outcome:
  assumes ok: "catalog_ok (rw_catalog w)"
  shows "commit_attempt si e k actor g r ws w = Inl (w', res) \<Longrightarrow>
      idle w w' \<and> not_purging res \<or> purge_open si (rv_now e (k + 1)) (rv_now e (k + 3)) g r ws w"
    and "commit_attempt si e k actor g r ws w = Inr (w1, qs) \<Longrightarrow> idle w w1"
proof -
  obtain fs pres where pre: "preflight_staging_paths si (rw_catalog w) r (rw_fs w) = (fs, pres)" by fastforce
  note keep = idle_fs [OF preflight_keeps [OF pre]]
  show "commit_attempt si e k actor g r ws w = Inr (w1, qs) \<Longrightarrow> idle w w1"
    using keep by (auto simp: commit_attempt_def pre split: sum.splits if_splits)
  assume run: "commit_attempt si e k actor g r ws w = Inl (w', res)"
  show "idle w w' \<and> not_purging res \<or> purge_open si (rv_now e (k + 1)) (rv_now e (k + 3)) g r ws w"
  proof (cases "purge_gated e k g r ws w")
    case (Inl err)
    with run show ?thesis by (auto simp: commit_attempt_def)
  next
    case (Inr holds)
    note gate = this
    show ?thesis
    proof (cases "holds = []")
      case False
      with run gate have "hold_purge actor (in_id r) holds (rv_now e (k + 2)) w = (w', res)" by (simp add: commit_attempt_def)
      with hold_purge_idle show ?thesis by blast
    next
      case True
      with gate purge_holds_Nil [OF _ ok] have "in_retention_state r = RELEASED \<and> (\<exists>t. in_released_at r = Some t \<and> t + days g < rv_now e (k + 1)) \<and>
          intake_clear (rw_db w) r \<and> intake_protected (answers_confirm (rw_catalog w) ws) (rw_catalog w) (in_id r) \<and>
          (\<exists>f. in_release_fingerprint r = Some f \<and> policy_fingerprint (rw_catalog w) (intake_items (rw_catalog w) (in_id r)) = Some f)"
        by (auto simp: purge_gated_def gate_result_def split: sum.splits)
      then show ?thesis
        using run gate True keep pre by (cases pres) (auto simp: commit_attempt_def purge_open_def split: if_splits)
    qed
  qed
qed

lemma require_intake_Inr: "require_intake c i = Inr r \<longleftrightarrow> get_intake c i = Some r"
  by (simp add: require_intake_def split: option.splits)

lemma get_intake_id: "get_intake c i = Some r \<Longrightarrow> in_id r = i"
  by (auto simp: get_intake_def dest: find_SomeD)

text \<open>A round that does not end the loop leads to a world the sweep sees, and to the row it reads there.\<close>

lemma commit_round:
  assumes "commit_loop (Suc n) refreshed si e actor g r ws w = Some (w', res)" "catalog_ok (rw_catalog w)"
  shows "idle_point e w w' \<and> not_purging res \<or> row_open si e g r w \<or>
    (\<not> refreshed \<and> (\<exists>w2 r2 ws2. sweep_point e w w2 \<and> get_intake (rw_catalog w2) (in_id r) = Some r2 \<and>
       commit_loop n True si e actor g r2 ws2 w2 = Some (w', res)))"
proof (cases "commit_attempt si e (if refreshed then 15 else 10) actor g r ws w")
  case (Inl x)
  with assms(1) have "commit_attempt si e (if refreshed then 15 else 10) actor g r ws w = Inl (w', res)" by simp
  from commit_attempt_outcome(1) [OF assms(2) this] show ?thesis
    unfolding row_open_def by (meson idle_point_self)
next
  case (Inr x)
  then obtain w1 qs where x: "commit_attempt si e (if refreshed then 15 else 10) actor g r ws w = Inr (w1, qs)" by (cases x) auto
  define w2 where "w2 = rv_itf e (if refreshed then 7 else 4) w1"
  have pt: "sweep_point e w w2"
    unfolding w2_def by (rule sweep_point.after [OF sweep_point.start commit_attempt_outcome(2) [OF assms(2) x]])
  show ?thesis
  proof (cases "get_intake (rw_catalog w2) (in_id r)")
    case None
    with assms(1) x have "w' = w2" "\<exists>err. res = Inl err"
      by (auto simp: Let_def w2_def [symmetric] require_intake_def)
    then show ?thesis using idle_point_from [OF pt idle_point_self] by auto
  next
    case (Some r2)
    show ?thesis
    proof (cases refreshed)
      case True
      with assms(1) x Some have "hold_purge actor (in_id r2) [''rem-unconfirmed''] (rv_now e 20) w2 = (w', res)"
        by (simp add: Let_def w2_def require_intake_def)
      then show ?thesis using idle_point_from [OF pt idle_point_self] hold_purge_idle by blast
    next
      case False
      have "commit_loop n True si e actor g r2 (execute_witness_requests (rv_wit e 2) qs) w2 = Some (w', res)"
        using assms(1) x Some False by (simp add: Let_def w2_def require_intake_def)
      with False pt Some show ?thesis by blast
    qed
  qed
qed

lemma commit_purge_outcome:
  assumes "commit_purge si e actor g r ws v = (w', res)" "sweep_point e w u" "idle u v"
    and ok: "\<And>u. sweep_point e w u \<Longrightarrow> catalog_ok (rw_catalog u)"
  shows "idle_point e w w' \<and> not_purging res \<or> (\<exists>u. open_point si e g r w u)"
proof -
  let ?w = "rv_itf e 3 v"
  have pt: "sweep_point e w ?w" by (rule sweep_point.after [OF assms(2,3)])
  obtain y where "commit_loop 2 False si e actor g r ws ?w = Some y" using commit_loop_total by blast
  with assms(1) have run: "commit_loop (Suc (Suc 0)) False si e actor g r ws ?w = Some (w', res)"
    by (simp add: commit_purge_def numeral_2_eq_2)
  from commit_round [OF run ok [OF pt]] consider
      "idle_point e ?w w' \<and> not_purging res" | "row_open si e g r ?w"
    | w2 r2 ws2 where "sweep_point e ?w w2" "get_intake (rw_catalog w2) (in_id r) = Some r2"
        "commit_loop (Suc 0) True si e actor g r2 ws2 w2 = Some (w', res)" by blast
  then show ?thesis
  proof cases
    case 1
    then show ?thesis using idle_point_from [OF pt] by blast
  next
    case 2
    then show ?thesis using pt unfolding open_point_def by blast
  next
    case 3
    have pt2: "sweep_point e w w2" by (rule sweep_point_trans [OF 3(1) pt])
    from commit_round [OF 3(3) ok [OF pt2]] 3(2) pt2 show ?thesis
      using idle_point_from [OF pt2] unfolding open_point_def by blast
  qed
qed

lemma idle_result: "sweep_point e w u \<Longrightarrow> idle u w' \<Longrightarrow> idle_point e w w'"
  unfolding idle_point_def by blast

lemma sweep_released_outcome:
  assumes "sweep_released si e actor g r answers v = (w', res)" "sweep_point e w v"
    and ok: "\<And>u. sweep_point e w u \<Longrightarrow> catalog_ok (rw_catalog u)"
  shows "idle_point e w w' \<and> not_purging res \<or> (\<exists>u. open_point si e g r w u)"
proof -
  define ws where "ws = fresh_witness_answers (rv_wit e 0) (rv_now e 0) (rw_catalog v) (intake_items (rw_catalog v) (in_id r)) answers"
  obtain fs pres where pre: "preflight_staging_paths si (rw_catalog v) r (rw_fs v) = (fs, pres)" by fastforce
  define v0 where "v0 = v\<lparr>rw_fs := fs\<rparr>"
  have i0: "idle v v0" unfolding v0_def by (rule idle_fs [OF preflight_keeps [OF pre]])
  define w2 where "w2 = rv_itf e 2 (rv_itf e 1 v0)"
  have p2: "sweep_point e w w2"
    unfolding w2_def by (rule sweep_point.after [OF sweep_point.after [OF assms(2) i0] idle_refl])
  define ws1 where "ws1 = fresh_witness_answers (rv_wit e 1) (rv_now e 4) (rw_catalog (rv_itf e 1 v0))
      (intake_items (rw_catalog (rv_itf e 1 v0)) (in_id r)) (Some ws)"
  have hold: "hold_purge actor (in_id r) hs t v0 = (x, y) \<Longrightarrow> idle_point e w x"
    "hold_purge actor (in_id r) hs t w2 = (x, y) \<Longrightarrow> idle_point e w x"
    "hold_purge actor (in_id r) hs t u = (x, Inr z) \<Longrightarrow> \<not> sr_purged z" for hs t u x y z
    using hold_purge_idle idle_result [OF assms(2)] idle_result [OF p2] idle_trans [OF i0] by blast+
  have plain: "idle_point e w v" "idle_point e w v0" "idle_point e w w2"
    using idle_result [OF assms(2)] idle_result [OF p2] i0 by auto
  note run = assms(1) [unfolded sweep_released_def Let_def, folded ws_def, unfolded pre prod.case, folded v0_def, folded ws1_def, folded w2_def]
  show ?thesis
  proof (cases "purge_gated e 1 g r ws v = Inr [] \<and> (\<exists>p. pres = Inr p) \<and> purge_gated e 5 g r ws1 w2 = Inr []")
    case True
    then obtain staging tomb where p: "pres = Inr (staging, tomb)" by auto
    show ?thesis
    proof (cases "with_events (add_once_event (in_id r) ''purge_attempted'' (''purge:'' @ in_id r) actor (rv_now e 8)
        [(''path'', JStr (str_path staging)), (''grace_days'', JInt g)] (retention_events (rw_catalog w2))) (rw_catalog w2)")
      case (Inl err)
      then have "w' = w2" "res = Inl err" using run True p by simp_all
      then show ?thesis using plain by simp
    next
      case (Inr c)
      then have "commit_purge si e actor g r ws1 (set_db c w2) = (w', res)" using run True p by simp
      from commit_purge_outcome [OF this p2 with_once_idle [OF Inr] ok] show ?thesis .
    qed
  next
    case False
    with run plain show ?thesis
      by (auto dest: hold split: sum.splits if_splits retention_error.splits)
  qed
qed


text \<open>Without others, what a sweep sees is its own start with more receipts and directories.\<close>

lemma quiet_points: "sweep_point e w u \<Longrightarrow> quiet e \<Longrightarrow> idle w u"
  by (induction rule: sweep_point.induct) (auto simp: quiet_def intro: idle_trans)

lemma idle_catalog_ok: "idle w u \<Longrightarrow> catalog_ok (rw_catalog w) \<Longrightarrow> catalog_ok (rw_catalog u)"
  by (auto simp: idle_def set_db_def receipt_frame)


end
