(* ===== verification/Retention_Confined.thy ===== *)
theory Retention_Confined
  imports Retention_Purge
begin

text \<open>
  The paths a sweep may touch: the resolved staging root, checked to lie inside a landing root and to carry
  the sentinel of the intake, and the tombstone of the intake.
\<close>

section \<open>Checked paths resolve without links\<close>

lemma follow_zero_mono: "follow fs 0 cur xs = Inr q \<Longrightarrow> follow fs n cur xs = Inr q"
proof (induction xs arbitrary: cur)
  case (Cons x xs)
  then show ?case by (auto split: option.splits fs_node.splits if_splits)
qed simp

lemma follow_zero_append: "follow fs 0 cur xs = Inr c \<Longrightarrow> follow fs n cur (xs @ ys) = follow fs n c ys"
proof (induction xs arbitrary: cur)
  case (Cons x xs)
  then show ?case by (auto split: option.splits fs_node.splits if_splits)
qed simp

lemma follow_zero_prefix: "follow fs 0 cur (xs @ ys) = Inr q \<Longrightarrow> \<exists>c. follow fs 0 cur xs = Inr c"
proof (induction xs arbitrary: cur)
  case (Cons x xs)
  then show ?case by (auto split: option.splits fs_node.splits if_splits)
qed simp

lemma follow_zero_snoc:
  assumes "follow fs 0 [] (xs @ [x]) = Inr q" "follow fs n [] xs = Inr c" "x \<noteq> ''..''"
  shows "q = c @ [x]"
proof -
  obtain c' where c': "follow fs 0 [] xs = Inr c'" using follow_zero_prefix [OF assms(1)] by blast
  with follow_zero_mono [OF c', of n] assms(2) have "c' = c" by simp
  with follow_zero_append [OF c', of 0 "[x]"] assms(1) have "follow fs 0 c [x] = Inr q" by simp
  then show ?thesis using assms(3) by (auto split: option.splits fs_node.splits)
qed

lemma lstat_component:
  assumes "follow fs 0 [] lx = Inr cur" "lstat_node fs (lx @ [x]) = Inr nd" "\<forall>l. nd \<noteq> LinkNode l"
  shows "\<exists>cur2. follow fs 0 [] (lx @ [x]) = Inr cur2"
proof (cases "x = ''..''")
  case True
  have "follow fs max_links [] (lx @ [x]) = follow fs max_links cur [x]" by (rule follow_zero_append [OF assms(1)])
  with assms(2) True obtain q where "follow fs max_links cur [x] = Inr q"
    by (auto simp: lstat_node_def stat_node_def res_bind_Inr_iff)
  then have "follow fs 0 cur [x] = Inr (butlast cur)" using True by (auto split: option.splits fs_node.splits)
  then show ?thesis using follow_zero_append [OF assms(1), of 0 "[x]"] by simp
next
  case False
  have "follow fs max_links [] lx = Inr cur" by (rule follow_zero_mono [OF assms(1)])
  with assms(2,3) False have "follow fs 0 cur [x] = Inr (cur @ [x])"
    by (auto simp: lstat_node_def split: option.splits fs_node.splits)
  then show ?thesis using follow_zero_append [OF assms(1), of 0 "[x]"] by simp
qed

lemma checked_follow:
  "check_components fs base False lx xs = Inr () \<Longrightarrow> follow fs 0 [] lx = Inr cur \<Longrightarrow>
   \<exists>q. follow fs 0 [] (lx @ xs) = Inr q"
proof (induction xs arbitrary: lx cur)
  case (Cons x xs)
  from Cons.prems(1) obtain nd where nd: "lstat_node fs (lx @ [x]) = Inr nd" "\<forall>l. nd \<noteq> LinkNode l"
    and rest: "check_components fs base False (lx @ [x]) xs = Inr ()"
    by (auto split: sum.splits os_error.splits fs_node.splits)
  from lstat_component [OF Cons.prems(2) nd] Cons.IH [OF rest] show ?case by auto
qed auto

lemma checked_path: "assert_no_symlink_components fs False p = Inr () \<Longrightarrow> \<exists>q. follow fs 0 [] p = Inr q"
  using checked_follow [of fs None "[]" p] by (simp add: assert_no_symlink_components_def)

section \<open>The two kinds of paths\<close>

definition staging_at :: "site \<Rightarrow> string \<Rightarrow> filesystem \<Rightarrow> path \<Rightarrow> bool" where
  "staging_at si i fs p \<longleftrightarrow>
     (\<exists>roots. landing_roots si fs = Inr roots \<and> (\<exists>l \<in> set roots. prefix l p \<and> p \<noteq> l) \<and> 2 \<le> length p \<and>
        validate_sentinel si fs p i = Inr ())"

definition tombstone_at :: "site \<Rightarrow> string \<Rightarrow> filesystem \<Rightarrow> path \<Rightarrow> bool" where
  "tombstone_at si i fs p \<longleftrightarrow>
     (\<exists>t d. tombstone_root si fs = Inr t \<and> follow fs max_links [] t = Inr d \<and> p = d @ [tombstone_name i])"

text \<open>
  The trees an undisturbed sweep from \<open>fs\<close> may change: its staging root, judged once the tombstone root
  exists, and its tombstone, judged when at most such a staging root has been moved.
\<close>

definition staging_ok :: "site \<Rightarrow> string \<Rightarrow> filesystem \<Rightarrow> path \<Rightarrow> bool" where
  "staging_ok si i fs p \<longleftrightarrow> (\<exists>fs1. fs_keeps {} fs fs1 \<and> staging_at si i fs1 p)"

definition tombstone_ok :: "site \<Rightarrow> string \<Rightarrow> filesystem \<Rightarrow> path \<Rightarrow> bool" where
  "tombstone_ok si i fs p \<longleftrightarrow> (\<exists>fs1. fs_keeps {q. staging_ok si i fs q} fs fs1 \<and> tombstone_at si i fs1 p)"

definition confined :: "site \<Rightarrow> string \<Rightarrow> filesystem \<Rightarrow> filesystem \<Rightarrow> bool" where
  "confined si i fs fs' \<longleftrightarrow> fs_keeps {p. staging_ok si i fs p \<or> tombstone_ok si i fs p} fs fs'"

lemma staging_ok_later: "fs_keeps {} fs fs1 \<Longrightarrow> staging_ok si i fs1 p \<Longrightarrow> staging_ok si i fs p"
  unfolding staging_ok_def using fs_keeps_trans by fastforce

lemma tombstone_ok_later:
  assumes "fs_keeps {} fs fs1" "tombstone_ok si i fs1 p" shows "tombstone_ok si i fs p"
proof -
  obtain fs2 where "fs_keeps {q. staging_ok si i fs1 q} fs1 fs2" "tombstone_at si i fs2 p"
    using assms(2) by (auto simp: tombstone_ok_def)
  moreover have "{} \<union> {q. staging_ok si i fs1 q} \<subseteq> {q. staging_ok si i fs q}" using staging_ok_later [OF assms(1)] by blast
  ultimately show ?thesis unfolding tombstone_ok_def by (meson assms(1) fs_keeps_mono fs_keeps_trans)
qed

lemma confined_refl [simp]: "confined si i fs fs"
  by (simp add: confined_def)

lemma confined_later:
  assumes "fs_keeps {} fs fs1" "confined si i fs1 fs2" shows "confined si i fs fs2"
proof -
  have "{} \<union> {p. staging_ok si i fs1 p \<or> tombstone_ok si i fs1 p} \<subseteq> {p. staging_ok si i fs p \<or> tombstone_ok si i fs p}"
    using staging_ok_later [OF assms(1)] tombstone_ok_later [OF assms(1)] by blast
  with fs_keeps_trans [OF assms(1) assms(2) [unfolded confined_def]] show ?thesis
    unfolding confined_def by (meson fs_keeps_mono)
qed

lemma idle_keeps: "idle w w' \<Longrightarrow> fs_keeps {} (rw_fs w) (rw_fs w')"
  by (auto simp: idle_def set_db_def)

lemma confined_idle: "idle w w' \<Longrightarrow> confined si i (rw_fs w) (rw_fs w')"
  unfolding confined_def by (rule fs_keeps_mono [OF idle_keeps]) auto

lemma confined_after_idle: "idle w v \<Longrightarrow> confined si i (rw_fs v) fs \<Longrightarrow> confined si i (rw_fs w) fs"
  using confined_later [OF idle_keeps] by blast

text \<open>A staging tree moved, then a tombstone removed.\<close>

lemma confined_two:
  assumes "\<forall>p \<in> S. staging_at si i fs p" "fs_keeps S fs fs1" "\<forall>p \<in> T. tombstone_at si i fs1 p" "fs_keeps T fs1 fs2"
  shows "confined si i fs fs2"
proof -
  have st: "S \<subseteq> {q. staging_ok si i fs q}" using assms(1) fs_keeps_refl unfolding staging_ok_def by blast
  have "T \<subseteq> {p. tombstone_ok si i fs p}"
    using assms(3) fs_keeps_mono [OF assms(2) st] by (auto simp: tombstone_ok_def)
  with st have "S \<union> T \<subseteq> {p. staging_ok si i fs p \<or> tombstone_ok si i fs p}" by blast
  with fs_keeps_trans [OF assms(2,4)] show ?thesis unfolding confined_def by (meson fs_keeps_mono)
qed

lemma staging_root_resolved:
  assumes "validate_staging_root si fs p r = Inr ()"
  shows "\<exists>q. follow fs 0 [] p = Inr q \<and> staging_at si (in_id r) fs q"
proof -
  from assms obtain q roots where chk: "assert_no_symlink_components fs False p = Inr ()"
    and q: "follow fs max_links [] p = Inr q" and safe: "\<not> unsafe_delete_root q" and roots: "landing_roots si fs = Inr roots"
    and rel: "list_ex (is_relative_to q) roots" and sen: "validate_sentinel si fs q (in_id r) = Inr ()"
    by (auto simp: validate_staging_root_def res_bind_Inr_iff resolve_strict_def os_result_Inr split: if_splits)
  obtain q' where q': "follow fs 0 [] p = Inr q'" using checked_path [OF chk] by blast
  with q follow_zero_mono [OF q', of max_links] have "q' = q" by simp
  moreover have "2 \<le> length q" using safe by (auto simp: unsafe_delete_root_def)
  ultimately show ?thesis using q' roots rel sen by (auto simp: staging_at_def list_ex_iff is_relative_to_def)
qed

lemma tombstone_confined:
  assumes "preflight_staging_paths si c r fs = (fs1, Inr (staging, tomb))" "atomic_tombstone si staging tomb (in_id r) fs1 = (fs2, res)"
  shows "\<exists>S. fs_keeps S fs1 fs2 \<and> (\<forall>p \<in> S. staging_at si (in_id r) fs1 p)"
proof (cases "path_exists fs1 tomb \<or> fs2 = fs1")
  case True
  then have "fs2 = fs1" using assms(2) by (auto simp: atomic_tombstone_def split: if_splits)
  then show ?thesis by (intro exI [of _ "{}"]) simp
next
  case False
  from assms(1) False have valid: "validate_staging_root si fs1 staging r = Inr ()"
    by (auto simp: preflight_staging_paths_def res_bind_Inr_iff Let_def split: option.splits sum.splits if_splits)
  obtain q where q: "follow fs1 0 [] staging = Inr q" "staging_at si (in_id r) fs1 q" using staging_root_resolved [OF valid] by blast
  from assms(2) False have rep: "os_replace staging tomb fs1 = Inr fs2"
    by (auto simp: atomic_tombstone_def split: if_splits sum.splits)
  have ne: "staging \<noteq> []" using q by (auto simp: staging_at_def)
  from rep obtain sp where sp: "follow fs1 max_links [] (butlast staging) = Inr sp" and dots: "last staging \<noteq> ''..''"
    by (auto simp: os_replace_def res_bind_Inr_iff Let_def split: if_splits)
  have "follow fs1 0 [] (butlast staging @ [last staging]) = Inr q" using q(1) ne by simp
  from follow_zero_snoc [OF this sp dots] have "q = sp @ [last staging]" .
  with fs_keeps_replace [OF rep sp] q(2) show ?thesis by (intro exI [of _ "{q}"]) simp
qed

section \<open>Sweeps\<close>

lemma gc_tombstone:
  assumes "resume_tombstone_gc si e actor r w = (w', res)" "quiet e"
  shows "\<exists>T. fs_keeps T (rw_fs w) (rw_fs w') \<and> (\<forall>p \<in> T. tombstone_at si (in_id r) (rw_fs w) p)"
proof (cases "in_tombstone_path r")
  case None
  then have "w' = w" using assms(1) by (simp add: resume_tombstone_gc_def)
  then show ?thesis by (intro exI [of _ "{}"]) simp
next
  case (Some txt0)
  define p where "p = absolute (si_cwd si) txt0"
  let ?q = "resolve_lax (rw_fs w) max_links [] p"
  obtain fs dres where del: "delete_path_idempotent (rw_fs w) p (rv_gc_stop e) = (fs, dres)" by fastforce
  have q: "rv_itf e k v = v" for k v using assms(2) by (simp add: quiet_def)
  show ?thesis
  proof (cases "validate_tombstone_path si (rw_fs w) p (in_id r) = Inr ()")
    case False
    then have "w' = w" using assms(1) Some by (auto simp: resume_tombstone_gc_def Let_def p_def split: sum.splits)
    then show ?thesis by (intro exI [of _ "{}"]) simp
  next
    case True
    then have "tombstone_at si (in_id r) (rw_fs w) ?q"
      by (auto simp: validate_tombstone_path_def res_bind_Inr_iff resolve_strict_def os_result_Inr Let_def tombstone_at_def
          split: if_splits) (metis append_butlast_last_id)+
    moreover have "fs = rw_fs w \<or> fs_keeps {?q} (rw_fs w) fs"
      using del fs_keeps_remove fs_keeps_stop by (auto simp: delete_path_idempotent_def Let_def split: if_splits option.splits)
    ultimately have "fs_keeps {?q} (rw_fs w) fs \<and> (\<forall>p \<in> {?q}. tombstone_at si (in_id r) (rw_fs w) p)"
      using fs_keeps_refl by auto
    moreover have "rw_fs w' = fs"
      using assms(1) Some True del unfolding resume_tombstone_gc_def p_def [symmetric]
      by (auto simp: Let_def q p_def [symmetric] set_db_def split: sum.splits if_splits)
    ultimately show ?thesis by blast
  qed
qed

lemma gc_confined:
  assumes "resume_tombstone_gc si e actor r w = (w', res)" "quiet e"
  shows "confined si (in_id r) (rw_fs w) (rw_fs w')"
proof -
  obtain T where "fs_keeps T (rw_fs w) (rw_fs w')" "\<forall>p \<in> T. tombstone_at si (in_id r) (rw_fs w) p"
    using gc_tombstone [OF assms] by blast
  then show ?thesis using confined_two [of "{}" si "in_id r" "rw_fs w" "rw_fs w" T] by simp
qed

lemma tombstone_staging_confined:
  assumes "preflight_staging_paths si c r fs = (rw_fs w, Inr (staging, tomb))"
    "tombstone_staging si e k actor r staging tomb w = (w', res)" "quiet e"
  shows "confined si (in_id r) (rw_fs w) (rw_fs w')"
proof -
  obtain fs1 ares where at: "atomic_tombstone si staging tomb (in_id r) (rw_fs w) = (fs1, ares)" by fastforce
  obtain S where S: "fs_keeps S (rw_fs w) fs1" "\<forall>p \<in> S. staging_at si (in_id r) (rw_fs w) p"
    using tombstone_confined [OF assms(1) at] by blast
  have q: "rv_itf e k v = v" for k v using assms(3) by (simp add: quiet_def)
  from assms(2) have "rw_fs w' = fs1 \<or> (\<exists>r' v. in_id r' = in_id r \<and> rw_fs v = fs1 \<and> resume_tombstone_gc si e actor r' v = (w', res))"
    unfolding tombstone_staging_def Let_def at prod.case q
    by (auto simp: set_db_def split: sum.splits if_splits)
  then show ?thesis
  proof
    assume "rw_fs w' = fs1"
    then show ?thesis using confined_two [OF S(2,1), of "{}" fs1] by simp
  next
    assume "\<exists>r' v. in_id r' = in_id r \<and> rw_fs v = fs1 \<and> resume_tombstone_gc si e actor r' v = (w', res)"
    then obtain T where "fs_keeps T fs1 (rw_fs w')" "\<forall>p \<in> T. tombstone_at si (in_id r) fs1 p"
      using gc_tombstone [OF _ assms(3)] by metis
    then show ?thesis using confined_two [OF S(2,1)] by blast
  qed
qed

lemma commit_attempt_confined:
  assumes "commit_attempt si e k actor g r ws w = Inl (w', res)" "quiet e"
  shows "confined si (in_id r) (rw_fs w) (rw_fs w')"
proof -
  obtain fs pres where pre: "preflight_staging_paths si (rw_catalog w) r (rw_fs w) = (fs, pres)" by fastforce
  define v where "v = w\<lparr>rw_fs := fs\<rparr>"
  have v: "idle w v" unfolding v_def by (rule idle_fs [OF preflight_keeps [OF pre]])
  from assms(1) have "w' = w \<or> w' = v \<or> (\<exists>hs t. hold_purge actor (in_id r) hs t w = (w', res)) \<or>
      (\<exists>staging tomb. pres = Inr (staging, tomb) \<and> tombstone_staging si e (k + 4) actor r staging tomb v = (w', res))"
    unfolding commit_attempt_def pre prod.case v_def [symmetric] by (auto split: sum.splits if_splits)
  then consider "w' = w" | "w' = v" | hs t where "hold_purge actor (in_id r) hs t w = (w', res)"
    | staging tomb where "pres = Inr (staging, tomb)" "tombstone_staging si e (k + 4) actor r staging tomb v = (w', res)" by blast
  then show ?thesis
  proof cases
    case 3
    then show ?thesis using hold_purge_idle confined_idle by blast
  next
    case 4
    have "preflight_staging_paths si (rw_catalog w) r (rw_fs w) = (rw_fs v, Inr (staging, tomb))" using pre 4(1) by (simp add: v_def)
    from tombstone_staging_confined [OF this 4(2) assms(2)] show ?thesis using confined_after_idle [OF v] by blast
  qed (use confined_idle [OF v] in simp_all)
qed

lemma commit_loop_confined:
  assumes q: "quiet e" and ok: "catalog_ok (rw_catalog w)"
  shows "commit_loop n refreshed si e actor g r ws w = Some (w', res) \<Longrightarrow> confined si (in_id r) (rw_fs w) (rw_fs w')"
  using ok
proof (induction n arbitrary: refreshed r ws w)
  case (Suc n)
  let ?k = "if refreshed then 15 else 10"
  show ?case
  proof (cases "commit_attempt si e ?k actor g r ws w")
    case (Inl x)
    with Suc.prems(1) have "commit_attempt si e ?k actor g r ws w = Inl (w', res)" by simp
    from commit_attempt_confined [OF this q] show ?thesis .
  next
    case (Inr x)
    then obtain w1 qs where x: "commit_attempt si e ?k actor g r ws w = Inr (w1, qs)" by (cases x) auto
    note i1 = commit_attempt_outcome(2) [OF Suc.prems(2) x]
    have itf: "rv_itf e k v = v" for k v using q by (simp add: quiet_def)
    from Suc.prems(1) x have "w' = w1 \<or> (\<exists>j hs t. hold_purge actor j hs t w1 = (w', res)) \<or>
        (\<exists>r2 ws2. in_id r2 = in_id r \<and> commit_loop n True si e actor g r2 ws2 w1 = Some (w', res))"
      using get_intake_id by (auto simp: Let_def itf require_intake_def split: option.splits if_splits)
    moreover note Suc.IH [OF _ idle_catalog_ok [OF i1 Suc.prems(2)]]
    ultimately have "confined si (in_id r) (rw_fs w1) (rw_fs w')"
      using hold_purge_idle confined_idle by (metis confined_refl)
    then show ?thesis using confined_after_idle [OF i1] by blast
  qed
qed simp

lemma commit_purge_confined:
  assumes "commit_purge si e actor g r ws w = (w', res)" "quiet e" "catalog_ok (rw_catalog w)"
  shows "confined si (in_id r) (rw_fs w) (rw_fs w')"
proof -
  obtain y where y: "commit_loop 2 False si e actor g r ws w = Some y" using commit_loop_total by blast
  have "rv_itf e 3 w = w" using assms(2) by (simp add: quiet_def)
  with assms(1) y have "commit_loop 2 False si e actor g r ws w = Some (w', res)" by (simp add: commit_purge_def)
  from commit_loop_confined [OF assms(2,3) this] show ?thesis .
qed

lemma sweep_released_confined:
  assumes "sweep_released si e actor g r answers w = (w', res)" "quiet e" "catalog_ok (rw_catalog w)"
  shows "confined si (in_id r) (rw_fs w) (rw_fs w')"
proof -
  obtain fs pres where pre: "preflight_staging_paths si (rw_catalog w) r (rw_fs w) = (fs, pres)" by fastforce
  define v where "v = w\<lparr>rw_fs := fs\<rparr>"
  have i: "idle w v" unfolding v_def by (rule idle_fs [OF preflight_keeps [OF pre]])
  have q: "rv_itf e k u = u" for k u using assms(2) by (simp add: quiet_def)
  have hold: "hold_purge actor j hs t v = (x, y) \<Longrightarrow> idle w x" for j hs t x y
    using hold_purge_idle idle_trans [OF i] by blast
  have commit: "confined si (in_id r) (rw_fs w) (rw_fs x)"
    if "commit_purge si e actor g r ws1 (set_db c v) = (x, y)"
      "with_events (add_once_event j a op ac t d (retention_events (rw_catalog v))) (rw_catalog v) = Inr c" for ws1 c x y j a op ac t d
  proof -
    have iv: "idle w (set_db c v)" using idle_trans [OF i with_once_idle [OF that(2)]] .
    from commit_purge_confined [OF that(1) assms(2) idle_catalog_ok [OF iv assms(3)]] confined_after_idle [OF iv]
    show ?thesis by blast
  qed
  from assms(1) show ?thesis
    unfolding sweep_released_def Let_def pre prod.case q v_def [symmetric]
    using confined_idle [OF i, of si "in_id r"]
    by (auto split: sum.splits if_splits retention_error.splits dest: hold [THEN confined_idle] commit)
qed



end
