(* ===== verification/Retention_Lifecycle.thy ===== *)
theory Retention_Lifecycle
  imports Retention_Confined
begin

text \<open>
  The brake of the two batches, and the effect that one operation of retention has on the row of its intake,
  on the other rows and on the receipts.
\<close>

section \<open>Batches\<close>

lemma record_batch_idle:
  assumes "record_batch_invocation op actor action limit n dry refused reason t (rw_catalog w) = Inr c"
  shows "idle w (set_db c w)"
proof -
  from assms obtain es where c: "c = (rw_catalog w)\<lparr>retention_events := es\<rparr>"
    and b: "res_bind (add_event (new_event None ''batch'' op ''batch_invoked'' op actor t (batch_detail action limit n dry refused) 0)
          (retention_events (rw_catalog w)))
        (\<lambda>es. if refused then add_event (new_event None ''batch'' op ''batch_refused'' op actor t
            (batch_detail action limit n dry refused @ [(''reason'', JStr reason)]) 0) es else Inr es) = Inr es"
    unfolding record_batch_invocation_def Let_def with_events_Inr by blast
  from res_bind_InrD [OF b] obtain ev es1 where e1: "add_event ev (retention_events (rw_catalog w)) = Inr es1"
    and e2: "es = es1 \<or> (\<exists>ev. add_event ev es1 = Inr es)" by (auto split: if_splits)
  obtain new where "es = retention_events (rw_catalog w) @ new" using add_event_appends [OF e1] e2 add_event_appends by fastforce
  then show ?thesis using c idle_events by blast
qed

lemma run_each_length: "run_each b f xs w = (w', Inr ys) \<Longrightarrow> length ys = length xs"
  by (induction b f xs w arbitrary: w' ys rule: run_each.induct) (auto simp: Let_def split: prod.splits sum.splits if_splits)

lemma run_batch_brake:
  assumes "run_batch b op actor action limit dry chosen cands held did f w = (w', Inr br)" "length chosen = length cands"
  shows "br_limit br = limit \<and> br_candidate_count br = length cands \<and> (br_refused br \<longleftrightarrow> int (length cands) > limit) \<and>
    (if br_refused br \<or> dry then br_results br = [] \<and> idle w w' else length (br_results br) = length cands)"
proof -
  let ?ref = "int (length cands) > limit"
  obtain c where c: "record_batch_invocation op actor action limit (length cands) dry ?ref ''batch-limit-exceeded'' (bv_at b) (rw_catalog w) = Inr c"
    using assms(1) by (auto simp: run_batch_def Let_def split: sum.splits)
  note i = record_batch_idle [OF c]
  from assms(1) c show ?thesis
    using i run_each_length [of b f chosen "set_db c w"] assms(2)
    by (auto simp: run_batch_def Let_def split: prod.splits sum.splits if_splits)
qed

lemma batch_limit_Inr: "batch_limit v = Inr n \<Longrightarrow> 0 < n \<and> n = (case v of None \<Rightarrow> 25 | Some m \<Rightarrow> m)"
  by (auto simp: batch_limit_def Let_def DEFAULT_BATCH_LIMIT_def split: if_splits option.splits)

lemma release_batch_form:
  assumes "run_retention_batch b actor i limit dry w = (w', Inr br)"
  shows "\<exists>n op (chosen :: assessment list) cands held f. batch_limit limit = Inr n \<and> length chosen = length cands \<and>
    run_batch b op actor ''release'' n dry chosen cands held rr_released f w = (w', Inr br)"
proof -
  from assms obtain n as cands where ne: "actor \<noteq> []" and pre: "release_prepass b i limit w = Inr (n, as, cands)"
    unfolding run_retention_batch_def by (cases "release_prepass b i limit w") (auto split: if_splits)
  have run: "\<exists>op held f. run_batch b op actor ''release'' n dry (filter (\<lambda>(r, g, ws). ig_releasable g) as) cands held rr_released f w = (w', Inr br)"
    using assms unfolding run_retention_batch_def pre sum.case prod.case if_not_P [OF ne] by (intro exI)
  from pre have "batch_limit limit = Inr n" "length cands = length (filter (\<lambda>(r, g, ws). ig_releasable g) as)"
    by (auto simp: release_prepass_def res_bind_Inr_iff dest!: res_map_length)
  with run show ?thesis by metis
qed

lemma sweep_batch_form:
  assumes "sweep_staging_batch si b actor i limit dry grace_days break_glass w = (w', Inr br)" "grace_days \<ge> 30 \<or> break_glass"
  shows "\<exists>n op (chosen :: assessment list) cands held f c. batch_limit limit = Inr n \<and> length chosen = length cands \<and> idle w (set_db c w) \<and>
    run_batch b op actor ''purge'' n dry chosen cands held sr_purged f (set_db c w) = (w', Inr br)"
proof -
  have floor: "\<not> (grace_days < DEFAULT_STAGING_GRACE_DAYS \<and> \<not> break_glass)" using assms(2) by (auto simp: DEFAULT_STAGING_GRACE_DAYS_def)
  let ?op = "''batch:purge:'' @ bv_nonce b"
  note run0 = assms(1) [unfolded sweep_staging_batch_def Let_def if_not_P [OF floor]]
  from run0 obtain n c as cands where ne: "actor \<noteq> []" and n: "batch_limit limit = Inr n"
    and c: "purge_override ?op actor grace_days (bv_at b) (rw_catalog w) = Inr c"
    and pre: "purge_prepass b i grace_days ((rw_db w)\<lparr>catalog := c\<rparr>) = Inr (as, cands)"
    by (cases "batch_limit limit"; cases "purge_override ?op actor grace_days (bv_at b) (rw_catalog w)")
       (auto split: sum.splits if_splits)
  have run: "\<exists>op held f. run_batch b op actor ''purge'' n dry (filter (\<lambda>(r, g, ws). purge_candidate g) as) cands held sr_purged f (set_db c w) = (w', Inr br)"
    using run0 unfolding if_not_P [OF ne] n c pre sum.case prod.case by (intro exI)
  have "idle w (set_db c w)" using c with_event_idle set_db_same idle_refl by (fastforce simp: purge_override_def split: if_splits)
  moreover from pre have "length cands = length (filter (\<lambda>(r, g, ws). purge_candidate g) as)"
    by (auto simp: purge_prepass_def res_bind_Inr_iff dest!: res_map_length)
  ultimately show ?thesis using n run by metis
qed


lemma batch_event_added:
  assumes "validate_event_detail a d = Inr ()" "a \<in> set BATCH_ACTIONS"
  shows "\<exists>es'. add_event (new_event None ''batch'' op a op actor t d 0) es = Inr es'"
proof -
  have "insert_event (new_event None ''batch'' op a op actor t d k) es = Inr (es @ [new_event None ''batch'' op a op actor t d k])" for k
    using assms(2) by (auto simp: insert_event_def new_event_def event_subject_ok_def event_supersession_ok_def once_key_def
        ONCE_ACTIONS_def BATCH_ACTIONS_def)
  then show ?thesis using assms(1) by (simp add: add_event_def new_event_def)
qed

definition example_batch :: batch_env where
  "example_batch = \<lparr>bv_wit = (\<lambda>_. silent_witness), bv_now = (\<lambda>_. 7), bv_run = (\<lambda>_. release_env (\<lambda>_. False)), bv_itf = (\<lambda>_ v. v), bv_reload = (\<lambda>_. False),
     bv_nonce = ''n'', bv_at = 7\<rparr>"


section \<open>The effect of an operation on the tables\<close>

lemma get_intake_put_map:
  "(\<And>x. in_id (f x) = in_id x) \<Longrightarrow> get_intake (put_intake i f c) = (get_intake c)(i := map_option f (get_intake c i))"
  by (auto simp: fun_eq_iff get_intake_def put_intake_def find_update_where intro!: find_update_other)

text \<open>The operation on the intake with row \<open>r\<close> leaves it with row \<open>r'\<close> and keeps the constraints of the tables.\<close>

definition effect :: "intake_row \<Rightarrow> intake_row \<Rightarrow> retention_world \<Rightarrow> retention_world \<Rightarrow> bool" where
  "effect r r' w w' \<longleftrightarrow>
     get_intake (rw_catalog w') = (get_intake (rw_catalog w))(in_id r \<mapsto> r') \<and> in_id r' = in_id r \<and>
     set (retention_events (rw_catalog w)) \<subseteq> set (retention_events (rw_catalog w')) \<and>
     (events_ok (retention_events (rw_catalog w)) \<longrightarrow> events_ok (retention_events (rw_catalog w'))) \<and>
     (catalog_ok (rw_catalog w) \<longrightarrow> catalog_ok (rw_catalog w'))"

lemma effect_same: "get_intake (rw_catalog w) (in_id r) = Some r \<Longrightarrow> rw_catalog w' = rw_catalog w \<Longrightarrow> effect r r w w'"
  by (auto simp: effect_def)

lemma effect_trans: "effect r r1 w w1 \<Longrightarrow> effect r1 r2 w1 w2 \<Longrightarrow> effect r r2 w w2"
  by (auto simp: effect_def)

lemma effect_row: "effect r r' w w' \<Longrightarrow> get_intake (rw_catalog w') (in_id r') = Some r'"
  by (simp add: effect_def)

lemma effect_event:
  assumes "get_intake (rw_catalog w) (in_id r) = Some r"
    "with_events (add_event ev (retention_events (rw_catalog w))) (rw_catalog w) = Inr c"
  shows "effect r r w (set_db c w)"
  using assms add_event_appends add_event_ok
  by (fastforce simp: effect_def with_events_Inr set_db_def receipt_frame)

lemma effect_once:
  assumes "get_intake (rw_catalog w) (in_id r) = Some r"
    "with_events (add_once_event i a op actor t d (retention_events (rw_catalog w))) (rw_catalog w) = Inr c"
  shows "effect r r w (set_db c w)"
  using assms add_once_recorded(2) add_once_event_ok
  by (fastforce simp: effect_def with_events_Inr set_db_def receipt_frame)

lemma catalog_ok_put: "catalog_ok (put_intake i f c) = catalog_ok c"
  by (simp add: catalog_ok_def put_intake_def get_pool_def get_backend_def)

lemma effect_put:
  assumes "get_intake (rw_catalog w) (in_id r) = Some r" "\<And>x. in_id (f x) = in_id x"
  shows "effect r (f r) w (set_db (put_intake (in_id r) f (rw_catalog w)) w)"
  using assms by (simp add: effect_def set_db_def get_intake_put_map catalog_ok_put) (simp add: put_intake_def)

lemma effect_hold:
  assumes "get_intake (rw_catalog w) (in_id r) = Some r" "hold_purge actor i reasons t w = (w', res)"
  shows "effect r r w w'"
  using assms effect_event [OF assms(1)] effect_same [OF assms(1)] by (auto simp: hold_purge_def split: sum.splits)

end
