(* ===== verification/Retention_States.thy ===== *)
theory Retention_States
  imports Retention_Lifecycle
begin

text \<open>
  The state machine of an intake: what every operation does to its row, and the invariant of every sequence
  of operations.
\<close>

section \<open>Releasing\<close>

lemma set_db_twice [simp]: "set_db c (set_db d w) = set_db c w" "rw_catalog (set_db c w) = c"
  by (simp_all add: set_db_def)

lemma mark_deleted_ok: "catalog_ok (c\<lparr>copies := mark_deleted ids t (copies c)\<rparr>) \<longleftrightarrow> catalog_ok c"
proof -
  have ids: "map cp_id (mark_deleted ids t xs) = map cp_id xs" for xs
    unfolding mark_deleted_def by (rule map_update_where) simp
  have one: "(\<forall>r \<in> set (mark_deleted ids t xs). (cp_asset_hash r = None) \<noteq> (cp_bundle_id r = None)) \<longleftrightarrow>
      (\<forall>r \<in> set xs. (cp_asset_hash r = None) \<noteq> (cp_bundle_id r = None))" for xs
    unfolding mark_deleted_def by (induction xs) auto
  show ?thesis unfolding catalog_ok_def using one [of "copies c"] by (simp add: ids get_pool_def get_backend_def)
qed

lemma effect_copies:
  "get_intake (rw_catalog w) (in_id r) = Some r \<Longrightarrow>
   effect r r w (set_db ((rw_catalog w)\<lparr>copies := mark_deleted ids t (copies (rw_catalog w))\<rparr>) w)"
  by (auto simp: effect_def mark_deleted_ok get_intake_def)

lemma effect_receipt:
  assumes "get_intake (rw_catalog w) (in_id r) = Some r" "add_once_event i a op actor t d (retention_events (rw_catalog w)) = Inr es"
  shows "effect r r w (set_db ((rw_catalog w)\<lparr>retention_events := es\<rparr>) w)"
  using effect_once [OF assms(1), of i a op actor t d] assms(2) by (simp add: with_events_def)

lemma release_commit_effect:
  assumes "get_intake (rw_catalog w) (in_id r) = Some r" "release_commit actor r f ids outs now (rw_catalog w) = Inr c4"
  shows "effect r (released_row f now r) w (set_db c4 w) \<and> receipt_in ''released'' (''release:'' @ in_id r) c4"
proof -
  let ?d1 = "[(''bundle_id'', JStr (cloud_bundle_id (in_id r))), (''copy_ids'', JArr (map (\<lambda>k. JInt (int k)) ids)),
     (''outcome'', JStr (aggregate_outcome outs)),
     (''copy_outcomes'', JArr (map (\<lambda>(k, x). JObj [(''copy_id'', JInt (int k)), (''outcome'', JStr x)]) outs))]"
  let ?c = "rw_catalog w" and ?op = "''release:'' @ in_id r"
  from assms(2) obtain es1 es2 where
    e1: "add_once_event (in_id r) ''cloud_blob_deleted'' ?op actor now ?d1 (retention_events ?c) = Inr es1"
    and e2: "add_once_event (in_id r) ''released'' ?op actor now [(''copy_ids'', JArr (map (\<lambda>k. JInt (int k)) ids))] es1 = Inr es2"
    and c4: "c4 = put_intake (in_id r) (released_row f now) (?c\<lparr>retention_events := es2, copies := mark_deleted ids now (copies ?c)\<rparr>)"
    unfolding release_commit_def Let_def res_bind_Inr_iff with_events_Inr by (auto simp: released_row_def [abs_def])
  define w1 where "w1 = set_db (?c\<lparr>retention_events := es1\<rparr>) w"
  define w2 where "w2 = set_db (?c\<lparr>retention_events := es2\<rparr>) w"
  define w3 where "w3 = set_db (?c\<lparr>retention_events := es2, copies := mark_deleted ids now (copies ?c)\<rparr>) w"
  have f1: "effect r r w w1"
    unfolding w1_def by (rule effect_receipt [OF assms(1) e1])
  have f2: "effect r r w1 w2"
    using effect_receipt [OF effect_row [OF f1], where es = es2] e2 by (simp add: w1_def w2_def)
  have f3: "effect r r w2 w3" using effect_copies [OF effect_row [OF f2], of ids now] by (simp add: w2_def w3_def)
  have "effect r (released_row f now r) w3 (set_db c4 w)"
    using effect_put [OF effect_row [OF f3], of "released_row f now"] by (simp add: w3_def c4 released_row_def)
  with f1 f2 f3 have "effect r (released_row f now r) w (set_db c4 w)" using effect_trans by blast
  then show ?thesis using add_once_recorded(1) [OF e2] by (simp add: receipt_in_def c4 put_intake_def)
qed

lemma effect_objects: "effect r r' w (w'\<lparr>rw_objects := os\<rparr>) = effect r r' w w'"
  by (simp add: effect_def)

lemma effect_fs: "effect r r' w (w'\<lparr>rw_fs := fs\<rparr>) = effect r r' w w'"
  by (simp add: effect_def)

lemma effect_set_fs: "effect r r' w (set_db c (v\<lparr>rw_fs := fs\<rparr>)) = effect r r' w (set_db c v)"
  by (simp add: effect_def)

lemma run_effect:
  assumes "run_retention e actor r answers w = (w', res)" "quiet e" "get_intake (rw_catalog w) (in_id r) = Some r"
  shows "effect r r w w' \<or> in_retention_state r = HELD \<and>
    (\<exists>f now. effect r (released_row f now r) w w' \<and> receipt_in ''released'' (''release:'' @ in_id r) (rw_catalog w'))"
proof -
  have q: "rv_itf e k v = v" for k v using assms(2) by (simp add: quiet_def)
  define ws where "ws = fresh_witness_answers (rv_wit e 0) (rv_now e 0) (rw_catalog w) (intake_items (rw_catalog w) (in_id r)) answers"
  define ws1 where "ws1 = fresh_witness_answers (rv_wit e 1) (rv_now e 2) (rw_catalog w) (intake_items (rw_catalog w) (in_id r)) (Some ws)"
  note run = assms(1) [unfolded run_retention_def Let_def q, folded ws_def, folded ws1_def]
  show ?thesis
  proof (cases "w' = w")
    case True
    then show ?thesis using effect_same [OF assms(3)] by simp
  next
    case False
    with run obtain c f cs where held: "in_retention_state r = HELD" "actor \<noteq> []"
      and res: "release_reserve actor r ws1 (rv_now e 3) (rv_now e 4) (rw_db w) = Inr (Inr (c, f, cs))"
      and rest: "\<exists>objs dres. delete_copy_objects (rv_fails e) c cs (rw_objects w) = (objs, dres) \<and>
        (w' = (set_db c w)\<lparr>rw_objects := objs\<rparr> \<or> (\<exists>outs c4. dres = Inr outs \<and>
           release_commit actor r f (map cp_id cs) outs (rv_now e 5) c = Inr c4 \<and> w' = set_db c4 ((set_db c w)\<lparr>rw_objects := objs\<rparr>)))"
      by (auto simp: set_db_def split: if_splits sum.splits prod.splits)
    obtain es where "c = (rw_catalog w)\<lparr>retention_events := es\<rparr>" and
      "add_once_event (in_id r) ''release_attempted'' (''release:'' @ in_id r) actor (rv_now e 4) [(''policy_fingerprint'', JStr f)]
         (retention_events (rw_catalog w)) = Inr es"
      using release_reserve_Inr(4) [OF res] by blast
    then have e1: "effect r r w (set_db c w)" using effect_receipt [OF assms(3)] by simp
    obtain objs dres where w': "w' = (set_db c w)\<lparr>rw_objects := objs\<rparr> \<or> (\<exists>outs c4. dres = Inr outs \<and>
        release_commit actor r f (map cp_id cs) outs (rv_now e 5) c = Inr c4 \<and> w' = set_db c4 ((set_db c w)\<lparr>rw_objects := objs\<rparr>))"
      using rest by blast
    show ?thesis
    proof (cases "w' = (set_db c w)\<lparr>rw_objects := objs\<rparr>")
      case True
      then show ?thesis using e1 by (simp add: effect_objects)
    next
      case False
      with w' obtain outs c4 where com: "release_commit actor r f (map cp_id cs) outs (rv_now e 5) c = Inr c4"
        and w4: "w' = set_db c4 ((set_db c w)\<lparr>rw_objects := objs\<rparr>)" by blast
      let ?v = "(set_db c w)\<lparr>rw_objects := objs\<rparr>"
      have e2: "effect r r w ?v" using e1 by (simp add: effect_objects)
      have "rw_catalog ?v = c" by (simp add: set_db_def)
      then have "effect r (released_row f (rv_now e 5) r) ?v w' \<and> receipt_in ''released'' (''release:'' @ in_id r) c4"
        using release_commit_effect [OF effect_row [OF e2]] com w4 by simp
      then show ?thesis using effect_trans [OF e2] held(1) w4 by auto
    qed
  qed
qed

section \<open>Sweeping\<close>

definition tombstoned_row :: "time \<Rightarrow> string \<Rightarrow> intake_row \<Rightarrow> intake_row" where
  "tombstoned_row now p x = x\<lparr>in_retention_state := TOMBSTONED, in_tombstoned_at := Some now, in_tombstone_path := Some p\<rparr>"

abbreviation purge_receipt :: "string \<Rightarrow> intake_row \<Rightarrow> catalog_db \<Rightarrow> bool" where
  "purge_receipt a r c \<equiv> receipt_in a (''purge:'' @ in_id r) c"

text \<open>Where one sweep can take the row of an intake.\<close>

definition sweep_moves :: "intake_row \<Rightarrow> intake_row \<Rightarrow> catalog_db \<Rightarrow> bool" where
  "sweep_moves r r' c \<longleftrightarrow>
     r' = r \<or>
     in_retention_state r = TOMBSTONED \<and> (\<exists>n. r' = purged_row n r) \<and> purge_receipt ''staging_deleted'' r c \<or>
     in_retention_state r = RELEASED \<and> purge_receipt ''staging_tombstoned'' r c \<and>
       ((\<exists>n p. r' = tombstoned_row n p r) \<or>
        (\<exists>n p m. r' = purged_row m (tombstoned_row n p r)) \<and> purge_receipt ''staging_deleted'' r c)"

lemma gc_effect:
  assumes "resume_tombstone_gc si e actor r w = (w', res)" "quiet e" "get_intake (rw_catalog w) (in_id r) = Some r"
  shows "effect r r w w' \<or> in_retention_state r = TOMBSTONED \<and>
    (\<exists>n. effect r (purged_row n r) w w') \<and> purge_receipt ''staging_deleted'' r (rw_catalog w')"
proof (cases "rw_catalog w' = rw_catalog w")
  case True
  then show ?thesis using effect_same [OF assms(3)] by blast
next
  case False
  have q: "rv_itf e k v = v" for k v using assms(2) by (simp add: quiet_def)
  obtain tp where tp: "in_tombstone_path r = Some tp"
    using assms(1) False by (cases "in_tombstone_path r") (auto simp: resume_tombstone_gc_def)
  define p where "p = path_text si tp"
  obtain fs dres where del: "delete_path_idempotent (rw_fs w) (absolute (si_cwd si) tp) (rv_gc_stop e) = (fs, dres)" by fastforce
  define add where "add = with_events (add_once_event (in_id r) ''staging_deleted'' (''purge:'' @ in_id r) actor (rv_now e 20) [(''path'', JStr p)]
      (retention_events (rw_catalog w))) (rw_catalog w)"
  have cat: "rw_catalog (w\<lparr>rw_fs := fs\<rparr>) = rw_catalog w" by simp
  note run = assms(1) [unfolded resume_tombstone_gc_def Let_def q tp option.case del prod.case cat, folded p_def, folded add_def]
  have no: "w' \<noteq> w" "w' \<noteq> w\<lparr>rw_fs := fs\<rparr>" using False by auto
  from run no obtain c where st: "in_retention_state r = TOMBSTONED" and c: "add = Inr c"
    and w': "w' = set_db (put_intake (in_id r) (purged_row (rv_now e 20)) c) (w\<lparr>rw_fs := fs\<rparr>)"
    unfolding purged_row_def [abs_def] by (cases dres; cases add) (auto split: sum.splits if_splits)
  obtain es where es: "add_once_event (in_id r) ''staging_deleted'' (''purge:'' @ in_id r) actor (rv_now e 20) [(''path'', JStr p)]
      (retention_events (rw_catalog w)) = Inr es" and ce: "c = (rw_catalog w)\<lparr>retention_events := es\<rparr>"
    using c unfolding add_def with_events_Inr by blast
  let ?v = "set_db c w"
  have e1: "effect r r w ?v" unfolding ce by (rule effect_receipt [OF assms(3) es])
  have "effect r (purged_row (rv_now e 20) r) ?v (set_db (put_intake (in_id r) (purged_row (rv_now e 20)) c) w)"
    using effect_put [OF effect_row [OF e1], of "purged_row (rv_now e 20)"] by (simp add: purged_row_def)
  moreover have "effect r r' w w' = effect r r' w (set_db (put_intake (in_id r) (purged_row (rv_now e 20)) c) w)" for r'
    by (simp add: w' effect_def set_db_def)
  ultimately have "effect r (purged_row (rv_now e 20) r) w w'" using effect_trans [OF e1] by simp
  moreover have "purge_receipt ''staging_deleted'' r (rw_catalog w')"
    using add_once_recorded(1) [OF es] by (simp add: receipt_in_def w' ce set_db_def put_intake_def)
  ultimately show ?thesis using st by blast
qed

lemma receipt_kept: "effect r r' w w' \<Longrightarrow> receipt_in a op (rw_catalog w) \<Longrightarrow> receipt_in a op (rw_catalog w')"
  by (auto simp: effect_def receipt_in_def)

lemma tombstone_effect:
  assumes "tombstone_staging si e k actor r staging tomb w = (w', res)" "quiet e" "get_intake (rw_catalog w) (in_id r) = Some r"
    "in_retention_state r = RELEASED"
  shows "\<exists>r'. effect r r' w w' \<and> sweep_moves r r' (rw_catalog w')"
proof -
  have q: "rv_itf e k v = v" for k v using assms(2) by (simp add: quiet_def)
  obtain fs ares where at: "atomic_tombstone si staging tomb (in_id r) (rw_fs w) = (fs, ares)" by fastforce
  let ?ev = "add_once_event (in_id r) ''staging_tombstoned'' (''purge:'' @ in_id r) actor (rv_now e k)
      [(''source_path'', JStr (str_path staging)), (''tombstone_path'', JStr (str_path tomb))] (retention_events (rw_catalog w))"
  define f where "f = tombstoned_row (rv_now e k) (str_path tomb)"
  from assms(1) consider "rw_catalog w' = rw_catalog w"
    | es where "?ev = Inr es" "resume_tombstone_gc si e actor (f r)
        (set_db (put_intake (in_id r) f ((rw_catalog w)\<lparr>retention_events := es\<rparr>)) (w\<lparr>rw_fs := fs\<rparr>)) = (w', res)"
    unfolding tombstone_staging_def Let_def at prod.case q with_events_def f_def tombstoned_row_def [abs_def]
    by (cases ares; cases ?ev) (auto split: if_splits)
  then show ?thesis
  proof cases
    case 1
    then show ?thesis using effect_same [OF assms(3)] by (auto simp: sweep_moves_def)
  next
    case 2
    let ?c = "(rw_catalog w)\<lparr>retention_events := es\<rparr>"
    let ?v = "set_db (put_intake (in_id r) f ?c) (w\<lparr>rw_fs := fs\<rparr>)"
    have fid: "in_id (f x) = in_id x" for x by (simp add: f_def tombstoned_row_def)
    have e1: "effect r r w (set_db ?c w)" by (rule effect_receipt [OF assms(3) 2(1)])
    have "effect r (f r) (set_db ?c w) (set_db (put_intake (in_id r) f ?c) w)"
      using effect_put [OF effect_row [OF e1], of f] fid by simp
    from effect_trans [OF e1 this] have e2: "effect r (f r) w ?v" by (simp add: effect_set_fs)
    have rc: "purge_receipt ''staging_tombstoned'' r (rw_catalog ?v)"
      using add_once_recorded(1) [OF 2(1)] by (simp add: receipt_in_def set_db_def put_intake_def)
    from gc_effect [OF 2(2) assms(2) effect_row [OF e2]] show ?thesis
    proof
      assume g: "effect (f r) (f r) ?v w'"
      have "sweep_moves r (f r) (rw_catalog w')"
        using receipt_kept [OF g rc] assms(4) unfolding sweep_moves_def f_def by blast
      then show ?thesis using effect_trans [OF e2 g] by blast
    next
      assume "in_retention_state (f r) = TOMBSTONED \<and> (\<exists>n. effect (f r) (purged_row n (f r)) ?v w') \<and>
        purge_receipt ''staging_deleted'' (f r) (rw_catalog w')"
      then obtain m where g: "effect (f r) (purged_row m (f r)) ?v w'" and d: "purge_receipt ''staging_deleted'' r (rw_catalog w')"
        by (auto simp: fid)
      have "sweep_moves r (purged_row m (f r)) (rw_catalog w')"
        using receipt_kept [OF g rc] assms(4) d unfolding sweep_moves_def f_def by blast
      then show ?thesis using effect_trans [OF e2 g] by blast
    qed
  qed
qed

lemma purge_holds_released: "purge_holds db r ws g gnow now = Inr [] \<Longrightarrow> in_retention_state r = RELEASED"
  by (cases "in_retention_state r") (auto simp: purge_holds_def)

lemma unmoved: "effect r r w w' \<Longrightarrow> \<exists>r'. effect r r' w w' \<and> sweep_moves r r' (rw_catalog w')"
  by (auto simp: sweep_moves_def)

lemma gc_moves:
  assumes "resume_tombstone_gc si e actor r w = (w', res)" "quiet e" "get_intake (rw_catalog w) (in_id r) = Some r"
  shows "\<exists>r'. effect r r' w w' \<and> sweep_moves r r' (rw_catalog w')"
  using gc_effect [OF assms] unmoved unfolding sweep_moves_def by blast

lemma commit_attempt_effect:
  assumes "quiet e" "get_intake (rw_catalog w) (in_id r) = Some r"
  shows "commit_attempt si e k actor g r ws w = Inl (w', res) \<Longrightarrow> \<exists>r'. effect r r' w w' \<and> sweep_moves r r' (rw_catalog w')"
    and "commit_attempt si e k actor g r ws w = Inr (w1, qs) \<Longrightarrow> rw_catalog w1 = rw_catalog w"
proof -
  obtain fs pres where pre: "preflight_staging_paths si (rw_catalog w) r (rw_fs w) = (fs, pres)" by fastforce
  define v where "v = w\<lparr>rw_fs := fs\<rparr>"
  have v: "rw_catalog v = rw_catalog w" by (simp add: v_def)
  show "commit_attempt si e k actor g r ws w = Inr (w1, qs) \<Longrightarrow> rw_catalog w1 = rw_catalog w"
    unfolding commit_attempt_def pre prod.case v_def [symmetric] using v by (auto split: sum.splits if_splits)
  assume run: "commit_attempt si e k actor g r ws w = Inl (w', res)"
  then consider "rw_catalog w' = rw_catalog w" | hs t where "hold_purge actor (in_id r) hs t w = (w', res)"
    | staging tomb where "purge_gated e k g r ws w = Inr []" "tombstone_staging si e (k + 4) actor r staging tomb v = (w', res)"
    unfolding commit_attempt_def pre prod.case v_def [symmetric] using v by (auto split: sum.splits if_splits)
  then show "\<exists>r'. effect r r' w w' \<and> sweep_moves r r' (rw_catalog w')"
  proof cases
    case 1
    then show ?thesis using unmoved [OF effect_same [OF assms(2)]] by blast
  next
    case 2
    then show ?thesis using unmoved [OF effect_hold [OF assms(2)]] by blast
  next
    case 3
    have "in_retention_state r = RELEASED"
      using 3(1) purge_holds_released by (auto simp: purge_gated_def gate_result_def split: sum.splits)
    then obtain r' where "effect r r' v w'" "sweep_moves r r' (rw_catalog w')"
      using tombstone_effect [OF 3(2) assms(1)] assms(2) v by auto
    then show ?thesis using v by (auto simp: effect_def)
  qed
qed

lemma commit_loop_effect:
  assumes "quiet e" "get_intake (rw_catalog w) (in_id r) = Some r"
  shows "commit_loop n refreshed si e actor g r ws w = Some (w', res) \<Longrightarrow> \<exists>r'. effect r r' w w' \<and> sweep_moves r r' (rw_catalog w')"
  using assms(2)
proof (induction n arbitrary: refreshed ws w)
  case (Suc n)
  let ?k = "if refreshed then 15 else 10"
  show ?case
  proof (cases "commit_attempt si e ?k actor g r ws w")
    case (Inl x)
    with Suc.prems(1) have "commit_attempt si e ?k actor g r ws w = Inl (w', res)" by simp
    from commit_attempt_effect(1) [OF assms(1) Suc.prems(2) this] show ?thesis .
  next
    case (Inr x)
    then obtain w1 qs where x: "commit_attempt si e ?k actor g r ws w = Inr (w1, qs)" by (cases x) auto
    have c1: "rw_catalog w1 = rw_catalog w" by (rule commit_attempt_effect(2) [OF assms(1) Suc.prems(2) x])
    have row: "get_intake (rw_catalog w1) (in_id r) = Some r" using Suc.prems(2) c1 by simp
    have itf: "rv_itf e k v = v" for k v using assms(1) by (simp add: quiet_def)
    from Suc.prems(1) x row have "hold_purge actor (in_id r) [''rem-unconfirmed''] (rv_now e 20) w1 = (w', res) \<or>
        (\<exists>ws2. commit_loop n True si e actor g r ws2 w1 = Some (w', res))"
      by (auto simp: Let_def itf require_intake_def split: if_splits)
    then have "\<exists>r'. effect r r' w1 w' \<and> sweep_moves r r' (rw_catalog w')"
      using unmoved [OF effect_hold [OF row]] Suc.IH [OF _ row] by blast
    then show ?thesis using c1 by (simp add: effect_def)
  qed
qed simp

lemma commit_purge_effect:
  assumes "commit_purge si e actor g r ws w = (w', res)" "quiet e" "get_intake (rw_catalog w) (in_id r) = Some r"
  shows "\<exists>r'. effect r r' w w' \<and> sweep_moves r r' (rw_catalog w')"
proof -
  obtain y where y: "commit_loop 2 False si e actor g r ws w = Some y" using commit_loop_total by blast
  have "rv_itf e 3 w = w" using assms(2) by (simp add: quiet_def)
  with assms(1) y have "commit_loop 2 False si e actor g r ws w = Some (w', res)" by (simp add: commit_purge_def)
  from commit_loop_effect [OF assms(2,3) this] show ?thesis .
qed

lemma sweep_released_effect:
  assumes "sweep_released si e actor g r answers w = (w', res)" "quiet e" "get_intake (rw_catalog w) (in_id r) = Some r"
  shows "\<exists>r'. effect r r' w w' \<and> sweep_moves r r' (rw_catalog w')"
proof -
  obtain fs pres where pre: "preflight_staging_paths si (rw_catalog w) r (rw_fs w) = (fs, pres)" by fastforce
  define v where "v = w\<lparr>rw_fs := fs\<rparr>"
  have cv: "rw_catalog v = rw_catalog w" by (simp add: v_def)
  then have row: "get_intake (rw_catalog v) (in_id r) = Some r" using assms(3) by simp
  have from_v: "\<exists>r'. effect r r' w x \<and> sweep_moves r r' (rw_catalog x)" if "\<exists>r'. effect r r' v x \<and> sweep_moves r r' (rw_catalog x)" for x
    using that cv by (simp add: effect_def)
  have q: "rv_itf e k u = u" for k u using assms(2) by (simp add: quiet_def)
  have hold: "hold_purge actor j hs t v = (x, y) \<Longrightarrow> \<exists>r'. effect r r' w x \<and> sweep_moves r r' (rw_catalog x)" for j hs t x y
    using from_v unmoved [OF effect_hold [OF row]] by blast
  have commit: "\<exists>r'. effect r r' w x \<and> sweep_moves r r' (rw_catalog x)"
    if "commit_purge si e actor g r ws1 (set_db c v) = (x, y)"
      "with_events (add_once_event j a op ac t d (retention_events (rw_catalog v))) (rw_catalog v) = Inr c" for ws1 c x y j a op ac t d
  proof -
    have e1: "effect r r v (set_db c v)" by (rule effect_once [OF row that(2)])
    from commit_purge_effect [OF that(1) assms(2) effect_row [OF e1]] effect_trans [OF e1] show ?thesis
      using from_v by blast
  qed
  have same: "\<exists>r'. effect r r' w x \<and> sweep_moves r r' (rw_catalog x)" if "x = w \<or> x = v" for x
    using that unmoved [OF effect_same [OF assms(3)]] cv by blast
  from assms(1) show ?thesis
    unfolding sweep_released_def Let_def pre prod.case q v_def [symmetric] using same [of w] same [of v]
    by (auto split: sum.splits if_splits retention_error.splits dest: hold commit)
qed

lemma sweep_effect:
  assumes "sweep_staging si e actor g bg r answers ov w = (w', res)" "quiet e" "get_intake (rw_catalog w) (in_id r) = Some r"
  shows "\<exists>r'. effect r r' w w' \<and> sweep_moves r r' (rw_catalog w')"
proof -
  have q: "rv_itf e k u = u" for k u using assms(2) by (simp add: quiet_def)
  from assms(1) have "\<exists>v. effect r r w v \<and> (w' = v \<or> resume_tombstone_gc si e actor r v = (w', res) \<or>
      sweep_released si e actor g r answers v = (w', res))"
    unfolding sweep_staging_def Let_def q
    using effect_event [OF assms(3), of "grace_override_event (''grace-override:'' @ rv_nonce e) actor g (rv_now e 9)"]
      effect_same [OF assms(3), of w]
    by (auto split: sum.splits if_splits)
  then obtain v where v: "effect r r w v" and run: "w' = v \<or> resume_tombstone_gc si e actor r v = (w', res) \<or>
      sweep_released si e actor g r answers v = (w', res)" by blast
  note row = effect_row [OF v]
  from run have "\<exists>r'. effect r r' v w' \<and> sweep_moves r r' (rw_catalog w')"
    using gc_moves [OF _ assms(2) row] sweep_released_effect [OF _ assms(2) row] unmoved [OF effect_same [OF row refl]]
    by blast
  then show ?thesis using effect_trans [OF v] by blast
qed

section \<open>Abandoning and confirming\<close>

definition abandoned_in :: "intake_row \<Rightarrow> catalog_db \<Rightarrow> bool" where
  "abandoned_in r c \<longleftrightarrow> (\<exists>ev \<in> set (retention_events c). ev_action ev = ''abandoned'' \<and> ev_intake_id ev = Some (in_id r))"

lemma abandon_effect:
  assumes "abandon_retention r actor reason nonce now (rw_catalog w) = Inr (c, b)" "get_intake (rw_catalog w) (in_id r) = Some r"
  shows "effect r r w (set_db c w) \<or> in_retention_state r \<in> {HELD, RELEASED} \<and>
    effect r (r\<lparr>in_retention_state := ABANDONED\<rparr>) w (set_db c w) \<and> abandoned_in r c"
proof (cases "in_retention_state r \<in> {HELD, RELEASED}")
  case False
  then have "c = rw_catalog w" using assms(1) by (auto simp: abandon_retention_def split: if_splits)
  then show ?thesis using effect_same [OF assms(2)] set_db_same by simp
next
  case True
  let ?ev = "new_event (Some (in_id r)) ''intake'' (in_id r) ''abandoned'' (''abandon:'' @ in_id r @ '':'' @ nonce) actor now
      [(''reason'', JStr reason), (''previous_state'', JStr (retention_state_text (in_retention_state r)))] 0"
  from assms(1) True have "with_events (add_event ?ev (retention_events (rw_catalog w)))
      (put_intake (in_id r) (\<lambda>x. x\<lparr>in_retention_state := ABANDONED\<rparr>) (rw_catalog w)) = Inr c"
    unfolding abandon_retention_def by (auto simp: res_bind_Inr_iff split: if_splits)
  then obtain es where es: "add_event ?ev (retention_events (rw_catalog w)) = Inr es"
    and c: "c = (put_intake (in_id r) (\<lambda>x. x\<lparr>in_retention_state := ABANDONED\<rparr>) (rw_catalog w))\<lparr>retention_events := es\<rparr>"
    unfolding with_events_Inr by blast
  let ?w1 = "set_db ((rw_catalog w)\<lparr>retention_events := es\<rparr>) w"
  have e1: "effect r r w ?w1" by (rule effect_event [OF assms(2)]) (unfold with_events_Inr, use es in blast)
  have "c = put_intake (in_id r) (\<lambda>x. x\<lparr>in_retention_state := ABANDONED\<rparr>) ((rw_catalog w)\<lparr>retention_events := es\<rparr>)"
    by (cases "rw_catalog w") (simp add: c put_intake_def)
  then have "effect r (r\<lparr>in_retention_state := ABANDONED\<rparr>) ?w1 (set_db c w)"
    using effect_put [OF effect_row [OF e1], of "\<lambda>x. x\<lparr>in_retention_state := ABANDONED\<rparr>"] by simp
  moreover have "abandoned_in r c"
    using add_event_appends [OF es] by (auto simp: abandoned_in_def c new_event_def)
  ultimately show ?thesis using True effect_trans [OF e1] by blast
qed

text \<open>Operations that touch no intake.\<close>

definition keeps_intakes :: "retention_world \<Rightarrow> retention_world \<Rightarrow> bool" where
  "keeps_intakes w w' \<longleftrightarrow>
     get_intake (rw_catalog w') = get_intake (rw_catalog w) \<and>
     set (retention_events (rw_catalog w)) \<subseteq> set (retention_events (rw_catalog w')) \<and>
     (events_ok (retention_events (rw_catalog w)) \<longrightarrow> events_ok (retention_events (rw_catalog w'))) \<and>
     (catalog_ok (rw_catalog w) \<longrightarrow> catalog_ok (rw_catalog w'))"

lemma confirmations_kept:
  assumes "with_events (add_event ev (retention_events (rw_catalog w))) ((rw_catalog w)\<lparr>offsite_confirmations := rows\<rparr>) = Inr c"
  shows "keeps_intakes w (set_db c w)"
proof -
  obtain es where es: "add_event ev (retention_events (rw_catalog w)) = Inr es"
    and c: "c = (rw_catalog w)\<lparr>offsite_confirmations := rows, retention_events := es\<rparr>"
    using assms unfolding with_events_Inr by auto
  have "get_intake c = get_intake (rw_catalog w)" "catalog_ok c = catalog_ok (rw_catalog w)"
    by (simp_all add: c fun_eq_iff get_intake_def catalog_ok_def get_pool_def get_backend_def)
  then show ?thesis using add_event_appends [OF es] add_event_ok [OF _ es] by (auto simp: keeps_intakes_def c)
qed

lemma keeps_refl [simp]: "keeps_intakes w w"
  by (simp add: keeps_intakes_def)

lemma confirm_keeps:
  assumes "confirm_offsite m who ship nonce now (rw_catalog w) = Inr (c, b)" shows "keeps_intakes w (set_db c w)"
  using assms set_db_same [of w]
  by (auto simp: confirm_offsite_def Let_def res_bind_Inr_iff intro: confirmations_kept split: if_splits option.splits)

lemma revoke_keeps:
  assumes "revoke_offsite m who reason nonce now (rw_catalog w) = Inr (c, b)" shows "keeps_intakes w (set_db c w)"
  using assms set_db_same [of w]
  by (auto simp: revoke_offsite_def Let_def res_bind_Inr_iff intro: confirmations_kept split: if_splits option.splits)

section \<open>Every sequence of operations\<close>

text \<open>
  The rest of the program may change everything but the receipts and the retention columns, and receive
  new intakes, which start out held.
\<close>

definition fresh_intake :: "intake_row \<Rightarrow> bool" where
  "fresh_intake r \<longleftrightarrow> in_retention_state r = HELD \<and> in_released_at r = None \<and> in_release_fingerprint r = None \<and>
     in_tombstoned_at r = None \<and> in_tombstone_path r = None \<and> in_staging_deleted_at r = None"

definition same_retention :: "intake_row \<Rightarrow> intake_row \<Rightarrow> bool" where
  "same_retention r r' \<longleftrightarrow> in_id r' = in_id r \<and> in_retention_state r' = in_retention_state r \<and> in_released_at r' = in_released_at r \<and>
     in_release_fingerprint r' = in_release_fingerprint r \<and> in_tombstoned_at r' = in_tombstoned_at r \<and>
     in_tombstone_path r' = in_tombstone_path r \<and> in_staging_deleted_at r' = in_staging_deleted_at r"

definition other_work :: "retention_world \<Rightarrow> retention_world \<Rightarrow> bool" where
  "other_work w w' \<longleftrightarrow>
     catalog_ok (rw_catalog w') \<and> retention_events (rw_catalog w') = retention_events (rw_catalog w) \<and>
     (\<forall>i. case get_intake (rw_catalog w) i of
            None \<Rightarrow> (\<forall>r'. get_intake (rw_catalog w') i = Some r' \<longrightarrow> fresh_intake r')
          | Some r \<Rightarrow> (\<exists>r'. get_intake (rw_catalog w') i = Some r' \<and> same_retention r r'))"

inductive retention_step :: "retention_world \<Rightarrow> retention_world \<Rightarrow> bool" where
  release: "get_intake (rw_catalog w) (in_id r) = Some r \<Longrightarrow> quiet e \<Longrightarrow> run_retention e actor r answers w = (w', res) \<Longrightarrow>
    retention_step w w'"
| sweep: "get_intake (rw_catalog w) (in_id r) = Some r \<Longrightarrow> quiet e \<Longrightarrow>
    sweep_staging si e actor g bg r answers ov w = (w', res) \<Longrightarrow> retention_step w w'"
| abandon: "get_intake (rw_catalog w) (in_id r) = Some r \<Longrightarrow>
    abandon_retention r actor reason nonce now (rw_catalog w) = Inr (c, b) \<Longrightarrow> retention_step w (set_db c w)"
| confirm: "confirm_offsite m who ship nonce now (rw_catalog w) = Inr (c, b) \<Longrightarrow> retention_step w (set_db c w)"
| revoke: "revoke_offsite m who reason nonce now (rw_catalog w) = Inr (c, b) \<Longrightarrow> retention_step w (set_db c w)"
| other: "other_work w w' \<Longrightarrow> retention_step w w'"

inductive retention_run :: "retention_world \<Rightarrow> bool" where
  init: "catalog_ok (rw_catalog w) \<Longrightarrow> events_ok (retention_events (rw_catalog w)) \<Longrightarrow>
    \<forall>r \<in> set (intakes (rw_catalog w)). fresh_intake r \<Longrightarrow> retention_run w"
| step: "retention_run w \<Longrightarrow> retention_step w w' \<Longrightarrow> retention_run w'"

text \<open>Where one operation takes a row.\<close>

definition moves :: "intake_row \<Rightarrow> intake_row \<Rightarrow> catalog_db \<Rightarrow> bool" where
  "moves r r' c \<longleftrightarrow> sweep_moves r r' c \<or>
     in_retention_state r = HELD \<and> (\<exists>f n. r' = released_row f n r) \<and> receipt_in ''released'' (''release:'' @ in_id r) c \<or>
     in_retention_state r \<in> {HELD, RELEASED} \<and> r' = r\<lparr>in_retention_state := ABANDONED\<rparr> \<and> abandoned_in r c"

lemma moves_refl [simp]: "moves r r c"
  by (simp add: moves_def sweep_moves_def)

lemma retention_step_cases:
  assumes "retention_step w w'"
  obtains (row) r r' where "get_intake (rw_catalog w) (in_id r) = Some r" "effect r r' w w'" "moves r r' (rw_catalog w')"
    | (keep) "keeps_intakes w w'" | (other) "other_work w w'"
  using assms
proof cases
  case (release r e actor answers res)
  from run_effect [OF release(3,2,1)] release(1) row show ?thesis by (auto simp: moves_def sweep_moves_def)
next
  case (sweep r e si actor g bg answers ov res)
  from sweep_effect [OF sweep(3,2,1)] sweep(1) row show ?thesis unfolding moves_def by blast
next
  case (abandon r actor reason nonce now c b)
  from abandon_effect [OF abandon(3,2)] abandon(1,2) row show ?thesis by (auto simp: moves_def sweep_moves_def)
next
  case (confirm m who ship nonce now c b)
  then show ?thesis using confirm_keeps keep by blast
next
  case (revoke m who reason nonce now c b)
  then show ?thesis using revoke_keeps keep by blast
qed (use other in blast)


text \<open>The receipts an intake in a state has: the action and the operation, which ends with the intake's id.\<close>

fun state_receipts :: "retention_state \<Rightarrow> (string \<times> string) list" where
  "state_receipts HELD = []"
| "state_receipts RELEASED = [(''released'', ''release:'')]"
| "state_receipts TOMBSTONED = [(''released'', ''release:''), (''staging_tombstoned'', ''purge:'')]"
| "state_receipts PURGED = [(''released'', ''release:''), (''staging_tombstoned'', ''purge:''), (''staging_deleted'', ''purge:'')]"
| "state_receipts ABANDONED = []"

definition row_receipts :: "catalog_db \<Rightarrow> intake_row \<Rightarrow> bool" where
  "row_receipts c r \<longleftrightarrow>
     (\<forall>x \<in> set (state_receipts (in_retention_state r)). receipt_in (fst x) (snd x @ in_id r) c) \<and>
     (in_retention_state r = ABANDONED \<longrightarrow> abandoned_in r c)"

definition row_columns :: "intake_row \<Rightarrow> bool" where
  "row_columns r \<longleftrightarrow>
     (in_retention_state r = HELD \<longrightarrow> in_released_at r = None \<and> in_release_fingerprint r = None) \<and>
     (in_retention_state r \<in> {RELEASED, TOMBSTONED, PURGED} \<longrightarrow> in_released_at r \<noteq> None \<and> in_release_fingerprint r \<noteq> None) \<and>
     (in_tombstone_path r \<noteq> None \<longleftrightarrow> in_retention_state r \<in> {TOMBSTONED, PURGED}) \<and>
     (in_tombstoned_at r \<noteq> None \<longleftrightarrow> in_retention_state r \<in> {TOMBSTONED, PURGED}) \<and>
     (in_staging_deleted_at r \<noteq> None \<longleftrightarrow> in_retention_state r = PURGED)"

definition row_ok :: "catalog_db \<Rightarrow> intake_row \<Rightarrow> bool" where
  "row_ok c r \<longleftrightarrow> row_columns r \<and> row_receipts c r"

definition next_states :: "retention_state \<Rightarrow> retention_state set" where
  "next_states s = (case s of HELD \<Rightarrow> {HELD, RELEASED, ABANDONED} | RELEASED \<Rightarrow> {RELEASED, TOMBSTONED, PURGED, ABANDONED}
     | TOMBSTONED \<Rightarrow> {TOMBSTONED, PURGED} | ABANDONED \<Rightarrow> {ABANDONED} | PURGED \<Rightarrow> {PURGED})"

lemma row_ok_mono:
  assumes "row_ok c r" "set (retention_events c) \<subseteq> set (retention_events c')"
  shows "row_ok c' r"
proof -
  have "receipt_in a op c'" if "receipt_in a op c" for a op using that assms(2) by (auto simp: receipt_in_def)
  moreover have "abandoned_in r c'" if "abandoned_in r c" using that assms(2) by (auto simp: abandoned_in_def)
  ultimately show ?thesis using assms(1) unfolding row_ok_def row_receipts_def by blast
qed

lemma row_ok_same: "row_ok c r \<Longrightarrow> same_retention r r' \<Longrightarrow> row_ok c r'"
  by (simp add: row_ok_def row_columns_def row_receipts_def same_retention_def abandoned_in_def)

lemma row_ok_fresh: "fresh_intake r \<Longrightarrow> row_ok c r"
  by (simp add: row_ok_def row_columns_def row_receipts_def fresh_intake_def)

lemma moved_columns:
  "row_columns r \<Longrightarrow> in_retention_state r = HELD \<Longrightarrow> row_columns (released_row f n r)"
  "row_columns r \<Longrightarrow> in_retention_state r = RELEASED \<Longrightarrow> row_columns (tombstoned_row n p r)"
  "row_columns r \<Longrightarrow> in_retention_state r = TOMBSTONED \<Longrightarrow> row_columns (purged_row n r)"
  "row_columns r \<Longrightarrow> in_retention_state r \<in> {HELD, RELEASED} \<Longrightarrow> row_columns (r\<lparr>in_retention_state := ABANDONED\<rparr>)"
  by (auto simp: row_columns_def released_row_def tombstoned_row_def purged_row_def)

lemma moved_receipts:
  "receipt_in ''released'' (''release:'' @ in_id r) c \<Longrightarrow> row_receipts c (released_row f n r)"
  "row_receipts c r \<Longrightarrow> in_retention_state r = RELEASED \<Longrightarrow> purge_receipt ''staging_tombstoned'' r c \<Longrightarrow> row_receipts c (tombstoned_row n p r)"
  "row_receipts c r \<Longrightarrow> in_retention_state r = TOMBSTONED \<Longrightarrow> purge_receipt ''staging_deleted'' r c \<Longrightarrow> row_receipts c (purged_row n r)"
  "abandoned_in r c \<Longrightarrow> row_receipts c (r\<lparr>in_retention_state := ABANDONED\<rparr>)"
  by (simp_all add: row_receipts_def released_row_def tombstoned_row_def purged_row_def abandoned_in_def)

lemma moves_row_ok:
  assumes "moves r r' c" "row_ok c r"
  shows "row_ok c r'"
proof -
  have col: "row_columns r" and rec: "row_receipts c r" using assms(2) by (simp_all add: row_ok_def)
  have st: "in_retention_state (tombstoned_row n p r) = TOMBSTONED" "in_id (tombstoned_row n p r) = in_id r" for n p
    by (simp_all add: tombstoned_row_def)
  have tomb: "row_ok c (tombstoned_row n p r)" if "in_retention_state r = RELEASED" "purge_receipt ''staging_tombstoned'' r c" for n p
    using moved_columns(2) [OF col that(1)] moved_receipts(2) [OF rec that] by (simp add: row_ok_def)
  have purge: "row_ok c (purged_row m x)" if "in_retention_state x = TOMBSTONED" "purge_receipt ''staging_deleted'' x c" "row_ok c x" for m x
    using moved_columns(3) [OF _ that(1)] moved_receipts(3) [OF _ that(1,2)] that(3) by (simp add: row_ok_def)
  from assms(1) consider "r' = r"
    | n where "in_retention_state r = TOMBSTONED" "purge_receipt ''staging_deleted'' r c" "r' = purged_row n r"
    | n p where "in_retention_state r = RELEASED" "purge_receipt ''staging_tombstoned'' r c" "r' = tombstoned_row n p r"
    | n p m where "in_retention_state r = RELEASED" "purge_receipt ''staging_tombstoned'' r c" "purge_receipt ''staging_deleted'' r c"
        "r' = purged_row m (tombstoned_row n p r)"
    | f n where "in_retention_state r = HELD" "receipt_in ''released'' (''release:'' @ in_id r) c" "r' = released_row f n r"
    | "in_retention_state r \<in> {HELD, RELEASED}" "abandoned_in r c" "r' = r\<lparr>in_retention_state := ABANDONED\<rparr>"
    unfolding moves_def sweep_moves_def by blast
  then show ?thesis
  proof cases
    case 4
    then show ?thesis using purge [OF st(1) _ tomb [OF 4(1,2)]] st(2) by simp
  next
    case 5
    then show ?thesis using moved_columns(1) [OF col] moved_receipts(1) by (simp add: row_ok_def)
  next
    case 6
    then show ?thesis using moved_columns(4) [OF col] moved_receipts(4) by (simp add: row_ok_def)
  qed (use assms(2) tomb purge in simp_all)
qed

lemma moves_next: "moves r r' c \<Longrightarrow> in_retention_state r' \<in> next_states (in_retention_state r)"
  unfolding moves_def sweep_moves_def
  by (auto simp: next_states_def released_row_def tombstoned_row_def purged_row_def split: retention_state.splits)

lemma other_work_row:
  assumes "other_work w w'"
  shows "get_intake (rw_catalog w) i = Some r \<Longrightarrow> \<exists>r'. get_intake (rw_catalog w') i = Some r' \<and> same_retention r r'"
    and "get_intake (rw_catalog w) i = None \<Longrightarrow> get_intake (rw_catalog w') i = Some r' \<Longrightarrow> fresh_intake r'"
proof -
  have "case get_intake (rw_catalog w) i of
            None \<Rightarrow> (\<forall>r'. get_intake (rw_catalog w') i = Some r' \<longrightarrow> fresh_intake r')
          | Some r \<Rightarrow> (\<exists>r'. get_intake (rw_catalog w') i = Some r' \<and> same_retention r r')"
    using assms unfolding other_work_def by blast
  then show "get_intake (rw_catalog w) i = Some r \<Longrightarrow> \<exists>r'. get_intake (rw_catalog w') i = Some r' \<and> same_retention r r'"
    "get_intake (rw_catalog w) i = None \<Longrightarrow> get_intake (rw_catalog w') i = Some r' \<Longrightarrow> fresh_intake r'" by simp_all
qed

lemma step_row:
  assumes "retention_step w w'" "get_intake (rw_catalog w) i = Some r"
  shows "\<exists>r'. get_intake (rw_catalog w') i = Some r' \<and> in_retention_state r' \<in> next_states (in_retention_state r)"
proof -
  have refl: "in_retention_state r \<in> next_states (in_retention_state r)" by (cases "in_retention_state r") (simp_all add: next_states_def)
  from assms(1) show ?thesis
  proof (cases rule: retention_step_cases)
    case (row r0 r0')
    then show ?thesis using moves_next [OF row(3)] assms(2) refl by (cases "i = in_id r0") (auto simp: effect_def)
  next
    case keep
    then show ?thesis using assms(2) refl by (simp add: keeps_intakes_def)
  next
    case other
    from other_work_row(1) [OF this assms(2)] refl show ?thesis by (auto simp: same_retention_def)
  qed
qed

lemma run_rows: "retention_run w \<Longrightarrow> get_intake (rw_catalog w) i = Some r \<Longrightarrow> row_ok (rw_catalog w) r"
proof (induction arbitrary: i r rule: retention_run.induct)
  case (init w)
  then show ?case using row_ok_fresh by (auto simp: get_intake_def dest: find_SomeD)
next
  case (step w w')
  from step.hyps(2) show ?case
  proof (cases rule: retention_step_cases)
    case (row r0 r0')
    then have ev: "set (retention_events (rw_catalog w)) \<subseteq> set (retention_events (rw_catalog w'))" by (simp add: effect_def)
    show ?thesis
    proof (cases "i = in_id r0")
      case True
      then have "r = r0'" using row(2) step.prems by (simp add: effect_def)
      with moves_row_ok [OF row(3)] row_ok_mono [OF step.IH [OF row(1)] ev] show ?thesis by simp
    next
      case False
      then have "get_intake (rw_catalog w) i = Some r" using row(2) step.prems by (simp add: effect_def)
      from row_ok_mono [OF step.IH [OF this] ev] show ?thesis .
    qed
  next
    case keep
    then show ?thesis using step.IH [of i r] step.prems row_ok_mono by (auto simp: keeps_intakes_def)
  next
    case other
    then have ev: "retention_events (rw_catalog w') = retention_events (rw_catalog w)" by (simp add: other_work_def)
    show ?thesis
    proof (cases "get_intake (rw_catalog w) i")
      case None
      from other_work_row(2) [OF other None step.prems] show ?thesis by (rule row_ok_fresh)
    next
      case (Some r0)
      from other_work_row(1) [OF other Some] step.prems have "same_retention r0 r" by simp
      moreover have "row_ok (rw_catalog w') r0" by (rule row_ok_mono [OF step.IH [OF Some]]) (simp add: ev)
      ultimately show ?thesis using row_ok_same by blast
    qed
  qed
qed

text \<open>
  C4: In every such sequence an intake has exactly the columns and receipts of its state (released with
  the time and policy fingerprint of the release and its receipt, tombstoned with the tombstone's path, purged
  with the deletion receipt, abandoned with its receipt), and one more operation moves it only forward: held to
  released, released to tombstoned and purged, held or released to abandoned, never back and never out of
  abandoned or purged.
\<close>

theorem retention_lifecycle:
  assumes "retention_run w" "get_intake (rw_catalog w) i = Some r"
  shows "row_ok (rw_catalog w) r \<and>
    (\<forall>w'. retention_step w w' \<longrightarrow>
       (\<exists>r'. get_intake (rw_catalog w') i = Some r' \<and> in_retention_state r' \<in> next_states (in_retention_state r)))"
  using run_rows [OF assms] step_row [OF _ assms(2)] by blast

section \<open>An example\<close>

lemma example_start: "retention_run example_world"
proof (rule retention_run.init)
  show "catalog_ok (rw_catalog example_world)" using release_catalog_ok by (simp add: example_world_def example_intake_fields)
  show "events_ok (retention_events (rw_catalog example_world))"
    by (simp add: example_world_def example_intake_fields release_example_defs events_ok_def List.map_filter_def)
  show "\<forall>r \<in> set (intakes (rw_catalog example_world)). fresh_intake r"
    by (simp add: example_world_def example_intake_fields) (simp add: release_example_defs fresh_intake_def)
qed

lemma example_released:
  "\<exists>w' f. retention_run w' \<and> get_intake (rw_catalog w') ''i1'' = Some (released_row f 7 example_intake)"
proof -
  have nf: "\<forall>x \<in> set cs. \<not> rv_fails (release_env (\<lambda>_. False)) (cp_id x)" for cs by (simp add: release_env_def)
  have row: "get_intake (rw_catalog example_world) (in_id example_intake) = Some example_intake"
    by (simp add: example_world_def example_intake_fields)
  obtain w' f res where run: "run_retention (release_env (\<lambda>_. False)) ''op'' example_intake None example_world = (w', Inr res)"
    and rel: "get_intake (rw_catalog w') (in_id example_intake) = Some (released_row f (rv_now (release_env (\<lambda>_. False)) 5) example_intake)"
    using release_succeeds [OF example_ready _ refl refl nf, of "''op''"] by blast
  have "quiet (release_env (\<lambda>_. False))" by (simp add: quiet_def release_env_def)
  then have "retention_run w'" using retention_run.step [OF example_start retention_step.release [OF row _ run]] by blast
  then show ?thesis using rel by (auto simp: example_intake_fields release_env_def)
qed


theorem retention_lifecycle_witness:
  "\<exists>w f. get_intake (rw_catalog w) ''i1'' = Some (released_row f 7 example_intake) \<and> receipt_in ''released'' ''release:i1'' (rw_catalog w)"
proof -
  obtain w f where w: "retention_run w" "get_intake (rw_catalog w) ''i1'' = Some (released_row f 7 example_intake)"
    using example_released by blast
  then have "row_ok (rw_catalog w) (released_row f 7 example_intake)" using retention_lifecycle [OF w] by blast
  then have "receipt_in ''released'' ''release:i1'' (rw_catalog w)"
    by (simp add: row_ok_def row_receipts_def released_row_def example_intake_fields)
  with w(2) show ?thesis by blast
qed

end
