(* ===== verification/Spec2Isabelle.thy ===== *)
theory Spec2Isabelle
  imports Copy_Reconciler Archive_Predicate Archive_Flush_Properties Journal_Properties Retention_States
begin

text \<open>
  A verification development for sutradhara, an archive catalog that decides which copies of received
  material must exist, drives the jobs that make them, and lets temporary bytes go once the copies are safe.
  Paths below are relative to \<^verbatim>\<open>src/sutradhara/\<close>.

  \<^bold>\<open>How the parts interact.\<close>  Reconcilers compare the catalog with the policy and write condition rows; an open
  gap becomes a job.  Received files join the open bundle of their group; a due bundle is flushed, which builds
  one archive per pool, writes it, verifies it and seals the bundle.  The worker claims pending jobs whose resources fit its leases, the engine runs each
  behind a savepoint, and the outcome flows back into the condition row.  The durability and archive
  predicates read the copies that jobs recorded.  Retention gates an intake on these predicates, on witnesses
  of the backends and on offsite confirmations, then deletes cloud objects and staged files, leaving a receipt
  for each act.  The journal exporter publishes the receipts as hash-chained segments and ships them.

  \<^bold>\<open>Shared vocabulary.\<close>
  \<^item> \<open>Sutra_Prelude\<close>: JSON values, dictionaries, tables as lists of rows, results with the error on the left.
  \<^item> \<open>Py_Text\<close>, \<open>Py_Hex\<close>, \<open>Sha256\<close>, \<open>Canonical_Json\<close>: what the program uses of Python's text, time,
    hashing and JSON functions, executable down to the rounds of SHA-256.
  \<^item> \<open>Staging_Fs\<close>: the calls of \<open>pathlib\<close>, \<open>os\<close> and \<open>shutil\<close> on a tree with devices and links.

  \<^bold>\<open>Jobs.\<close>
  \<^item> \<open>Leases\<close> is \<^verbatim>\<open>jobs/leases.py\<close>.  The locale \<open>lease_account\<close> is the contract of the worker; the tally never passes
    a capacity, whatever is reserved and released.
  \<^item> \<open>Job_Config\<close>, \<open>Job_Models\<close>, \<open>Job_Context\<close> are \<^verbatim>\<open>jobs/config.py\<close>, \<^verbatim>\<open>models.py\<close>, \<^verbatim>\<open>registry.py\<close>: retry delays and
    their bounds, the tables, touched components and checkpoint obligations.
  \<^item> \<open>Conditions\<close> is \<^verbatim>\<open>jobs/reconcilers/conditions.py\<close>.  The locale \<open>condition_writer\<close> is what every update of a
    row keeps; three failures in a row block a condition.
  \<^item> \<open>Job_Engine\<close> is \<^verbatim>\<open>jobs/engine.py\<close> and \<^verbatim>\<open>attempts.py\<close>; \<open>Job_Engine_Facts\<close> shows deduplicated submission, the exclusive
    claim and the choice of candidates.  \<open>Job_Run\<close> shows that a run ends the job and records its attempt, for any
    handler with the contract \<open>job_handler\<close>.
  \<^item> \<open>Worker\<close> is \<^verbatim>\<open>jobs/worker.py\<close>, with job threads that finish in any order (\<open>worker_run\<close>); \<open>Job_History\<close> shows
    that a succeeded job stays so.
  \<^item> \<open>Reconcile_Spine\<close> and \<open>Copy_Reconciler\<close> are \<^verbatim>\<open>jobs/reconcilers/spine.py\<close> and \<^verbatim>\<open>copy.py\<close>; the locale
    \<open>reconciler_hooks\<close> is what the loop needs of a reconciler.  One gap has at most one live job.

  \<^bold>\<open>Catalog.\<close>
  \<^item> \<open>Catalog\<close> holds the tables of \<^verbatim>\<open>catalog/models.py\<close> with the columns that modelled code reads or writes.
  \<^item> \<open>Durability\<close> is \<^verbatim>\<open>durability.py\<close> and the target pools of \<^verbatim>\<open>replication.py\<close>; placements and their counts are
    characterised exactly.
  \<^item> \<open>Archive_Predicate\<close> is \<^verbatim>\<open>archive_predicate.py\<close>, refined to a declarative notion of archive evidence.

  \<^bold>\<open>Archive.\<close>
  \<^item> \<open>Member_Name\<close> is \<^verbatim>\<open>member_name.py\<close> of the receive package: escaped names determine the bytes they stand for.
  \<^item> \<open>Bundle_Group\<close> is \<^verbatim>\<open>bundle_group.py\<close>: two classes share a fingerprint exactly when they share pools and
    representations, up to SHA-256 collisions.
  \<^item> \<open>Archive_Bundle\<close> is \<^verbatim>\<open>archive_bundle.py\<close>.  \<open>Archive_Bundle_Facts\<close> shows the invariant of the bundle tables, with the
    locale \<open>bundle_update\<close> for the updates of a row; \<open>Archive_Append\<close> the names and merged metadata; \<open>Archive_Retry\<close> what
    a retry finds; \<open>Archive_Late\<close> that a repeated enqueue changes nothing, and that an append that lost a race with a
    flush still joins the sealed bundle.
  \<^item> \<open>Copy_Evidence\<close> is the bundle part of \<^verbatim>\<open>catalog/copies.py\<close> and \<^verbatim>\<open>evidence_recorder.py\<close>; \<open>Hdcache_Targets\<close> the cache
    fills that a flush asks for, from \<^verbatim>\<open>hdcache/fill.py\<close>.
  \<^item> \<open>Archive_Flush\<close> is \<open>flush_bundle\<close> of \<^verbatim>\<open>archive_fanout.py\<close> with everything it calls.  \<open>Archive_Flush_Facts\<close> shows what
    building and writing leave alone, \<open>Archive_Quarantine\<close> the rounds that set failed members aside, and
    \<open>Archive_Flush_Properties\<close> that a sealed bundle is on every pool that is not reported, that no member is lost,
    that nothing is written before everything is built and checked, and that the rounds end.

  \<^bold>\<open>Retention.\<close>
  \<^item> \<open>Retention_Events\<close>, \<open>Retention_Gate\<close> and \<open>Retention\<close> are \<^verbatim>\<open>retention.py\<close>: receipts; gates, witnesses and policy
    fingerprints, with what they use of \<^verbatim>\<open>jobs/reconcilers/profiles.py\<close>, \<^verbatim>\<open>intake.py\<close> and \<^verbatim>\<open>backend/factory.py\<close>;
    confirmations, abandoning, release, sweep and batches.
  \<^item> \<open>Retention_Facts\<close> and \<open>Retention_Paths\<close> say what the gates and the path checks establish.
  \<^item> \<open>Retention_Release\<close>: when an intake is releasable, that no object goes without an open gate, that a failed
    run is resumed, and that an abandonment during a run is lost.
  \<^item> \<open>Retention_Purge\<close> and \<open>Retention_Confined\<close>: staging goes only through the purge gate, nothing outside the
    intake's own trees is removed, the commit rounds end, and which interrupted collections complete.
  \<^item> \<open>Retention_Lifecycle\<close> and \<open>Retention_States\<close>: the brake of the batches, and the states of an intake over any
    sequence of operations (\<open>retention_run\<close>).

  \<^bold>\<open>Journal.\<close>
  \<^item> \<open>Journal_Format\<close> and \<open>Retention_Journal\<close> are \<^verbatim>\<open>retention_journal.py\<close>: segments, export, shipping,
    verification, alarms and corrections.
  \<^item> \<open>Journal_Chain\<close>, \<open>Journal_Facts\<close>, \<open>Journal_Shipping\<close>, \<open>Journal_Properties\<close>: every receipt is published once
    over any history of crashes and outages, equal heads mean equal entries up to SHA-256 collisions, the
    destination only grows, and an export with a working transport verifies.

  \<^bold>\<open>Conventions.\<close>  A transaction is one change of the database.  The clock, random draws, handler and
  backend answers, crashes, and the acts of other processes between transactions are arguments, so a theorem
  holds for all of them.  Foreign keys, unique keys and check constraints that a proof uses are part of the
  invariants \<open>catalog_ok\<close>, \<open>conditions_inv\<close> and \<open>events_ok\<close>.

  \<^bold>\<open>Bounds.\<close>  Resolution of a path follows forty links, the kernel's own limit.  The loop of the sweep's last
  transaction carries a count of rounds; two are enough, which is proved.  Printed numbers and the rounds of
  SHA-256 recurse on their arguments.  A flush counts the rounds that the code allows, one per
  member, which is proved to be enough.
  Strings hold the characters up to code point 255; paths of bundle members are the UTF-8 bytes of their text.

  \<^bold>\<open>Not modelled.\<close>  Handlers other than \<open>copy\<close>, backends, archive builders, sealing, keys, restore, scrub and
  partial-file restore drive devices and external tools; they are parameters where modelled code calls them.
  The command line, the HTTP and gRPC services, schema migrations, logging and generated code translate requests
  or text.  Receiving, arrangements, the sweeper, the disks of the hard-disk cache and the seeding of policies
  are separate components that the theories here do not call.  Of a flush, the refresh of the copy condition
  after the commit and the text of the customer manifest are left out, and messages keep their leading part.
\<close>

section \<open>From a missing placement to a parked condition\<close>

lemma conclude_blocks:
  assumes inv: "conditions_inv (conditions db)"
    and row: "get_condition (conditions db) d k = Some c"
    and job: "j_recon_domain j = Some d" "j_recon_target_key j = Some k"
    and p: "p_condition p = Some CONDITION_BLOCKED"
  shows "\<exists>db' a. conclude env clk granted ctx j (Some p) db = Inr db' \<and> conditions_inv (conditions db') \<and>
           jobs db' = put_job j (jobs db) \<and>
           get_condition (conditions db') d k = Some (blocked_row (t_condition clk) p (link_attempt (Some a) c))"
proof -
  let ?rec = "record_attempt env (t_finish clk) granted (attempt_detail (j_step_state j) ctx) j
    (db\<lparr>jobs := put_job j (jobs db)\<rparr>)"
  obtain db2 a where rec: "?rec = (db2, a)" by (cases ?rec)
  have db2: "conditions db2 = conditions db" "jobs db2 = put_job j (jobs db)"
    using rec by (auto simp: record_attempt_def Let_def)
  have g2: "get_condition (conditions db2) d k = Some c" using row db2 by simp
  have r: "axis_b_row (t_jitter clk) (t_condition clk) p (Some a) c =
      blocked_row (t_condition clk) p (link_attempt (Some a) c)"
    using p by (simp add: axis_b_row_def)
  from record_condition_found [OF g2, of p "t_jitter clk" "t_condition clk" "Some a"] p obtain ccs where
    eq: "record_condition (t_jitter clk) (t_condition clk) d k p (Some a) db2 =
      Inr (db2\<lparr>conditions := put_condition (blocked_row (t_condition clk) p (link_attempt (Some a) c)) (conditions db2),
              condition_components := ccs\<rparr>, blocked_row (t_condition clk) p (link_attempt (Some a) c))"
    unfolding r by auto
  have inv2: "conditions_inv (conditions db2)" using inv db2 by simp
  have "conclude env clk granted ctx j (Some p) db =
      Inr (db2\<lparr>conditions := put_condition (blocked_row (t_condition clk) p (link_attempt (Some a) c)) (conditions db2),
              condition_components := ccs\<rparr>)"
    using rec eq job by (simp add: conclude_def record_reconciler_condition_def)
  then show ?thesis
    using record_condition_inv [OF inv2 eq] db2
      get_put_condition [OF inv2 g2 blocked_link.condition_writer_axioms]
    by (intro exI conjI) (assumption | simp)+
qed

lemma run_copy_job:
  assumes ok: "jobs_ok (jobs db)" and inv: "conditions_inv (conditions db)"
    and own: "get_job (jobs db) i = Some j" and job: "j_status j = PENDING" "j_kind j = ''copy''"
      "j_recon_domain j = Some d" "j_recon_target_key j = Some k"
    and row: "get_condition (conditions db) d k = Some c"
    and reg: "map_of (e_handlers env) ''copy'' = Some (handle_copy rv tb)"
  shows "\<exists>db' r j' c'. run_one env clk granted db0 i db = Inr (db', r) \<and> \<not> r_ok r \<and>
           get_job (jobs db') i = Some j' \<and> j_status j' = FAILED \<and> j_attempts j' = j_attempts j + 1 \<and>
           get_condition (conditions db') d k = Some c' \<and> c_condition c' = CONDITION_BLOCKED \<and>
           c_reason c' = Some ''not-implemented'' \<and> c_next_eligible_at c' = None"
proof -
  let ?j = "claim_row (t_claim clk) j" and ?db = "db\<lparr>jobs := put_job (claim_row (t_claim clk) j) (jobs db)\<rparr>"
  have i: "j_id j = i" "i \<in> j_id ` set (jobs db)" using get_job_Some [OF own] by auto
  have enter: "enter_job clk i db = Inr (?db, ?j)"
    using own job(1) by (simp add: enter_job_def claim_job_by_id_iff [OF ok] TERMINAL_STATUSES_def)
  obtain e where h: "\<And>ctx. handle_copy rv tb ctx i ?db = (?db, ctx, RaisedNotImplemented e)"
    by (simp add: handle_copy_def Let_def)
  have own1: "get_job (jobs ?db) i = Some ?j" using i by (auto simp: get_job_put_job)
  let ?ctx = "new_context (e_host env) granted ?j"
  have batch: "\<not> x_batch_touched ?ctx"
    by (rule new_context_untouched)
  let ?p = "plain_projection (Some CONDITION_BLOCKED) (Some ''not-implemented'') (Some (exc_msg e))"
  let ?f = "fail_row clk (exc_text e) ?j"
  have "p_condition ?p = Some CONDITION_BLOCKED" "p_reason ?p = Some ''not-implemented''"
    by (simp_all add: plain_projection_def)
  from conclude_blocks [of ?db d k c ?f ?p env clk granted ?ctx] inv row job this(1)
  obtain db' a where con: "conclude env clk granted ?ctx ?f (Some ?p) ?db = Inr db'"
    and jobs: "jobs db' = put_job ?f (jobs ?db)"
    and c': "get_condition (conditions db') d k = Some (blocked_row (t_condition clk) ?p (link_attempt (Some a) c))"
    by auto
  have "run_one env clk granted db0 i db = Inr (db', failed_result (exc_msg e))"
    using enter reg job(2) own1 con batch
    by (simp add: run_one_def Let_def invoke_handler_in_savepoint_def h finish_run_def with_result_def)
  moreover have "get_job (jobs db') i = Some ?f"
    unfolding jobs get_job_put_job using i by auto
  ultimately show ?thesis
    using c' by (intro exI conjI) (assumption | simp add: blocked_row_def set_blocked_tool_def plain_projection_def)+
qed

lemma copy_enqueues:
  assumes "parse_target_key key = Inr (sha, pool)" "get_pool (catalog db) pool = Some p"
    and "copy_dedupe_key key \<notin> set (dedupe_keys_live (jobs db))"
  shows "\<exists>j. copy_reconcile_target now key db = Inr (db\<lparr>jobs := jobs db @ [j]\<rparr>) \<and> j_status j = PENDING \<and>
           j_kind j = ''copy'' \<and> j_recon_domain j = Some COPY_DOMAIN \<and> j_recon_target_key j = Some key \<and>
           j_attempts j = 0 \<and> j_id j = fresh_id (map j_id (jobs db)) \<and> live_key j = Some (copy_dedupe_key key)"
proof -
  note p = assms(2)
  let ?s = "copy_submission key sha (case get_backend (catalog db) (po_backend_id p) of None \<Rightarrow> [] | Some b \<Rightarrow> be_name b) pool"
  let ?j = "new_job now ?s (fresh_id (map j_id (jobs db)))"
  have none: "live_job_for_dedupe (jobs db) (copy_dedupe_key key) = None"
    using assms(3) by (simp add: live_job_for_dedupe_None)
  have s: "s_dedupe_key ?s = Some (copy_dedupe_key key)" by (simp add: copy_submission_def)
  have k: "live_key ?j = Some (copy_dedupe_key key)"
    by (simp add: live_key_def is_live_def new_job_def copy_submission_def LIVE_JOB_STATUSES_def)
  have "submit now ?s (jobs db) (jobs db) = Inr (jobs db @ [?j], ?j)"
    unfolding submit_def s using none k assms(3) by (simp add: insert_job_def Let_def)
  with assms(1) p k show ?thesis
    by (intro exI [of _ ?j]) (simp add: copy_reconcile_target_def Let_def, simp add: new_job_def copy_submission_def)
qed

text \<open>
  C24: From a gap to a parked condition: when a wanted asset/pool placement is missing, its condition is due
  and no copy job for it is live, processing the target enqueues exactly one copy job for it; running
  that job with the registered (unimplemented) copy handler fails it with one attempt and blocks the
  condition as not implemented, so that the target is no longer due and later passes leave it alone.
\<close>

theorem copy_gap_ends_blocked:
  assumes ok: "jobs_ok (jobs db)" and inv: "conditions_inv (conditions db)"
    and key: "parse_target_key key = Inr (sha, pool)" "get_pool (catalog db) pool = Some p"
    and want: "pool \<in> set (desired_pool_ids_for_asset (catalog db) (the (fromhex sha)))"
      "pool \<notin> set (observed_pool_ids db (the (fromhex sha)))"
    and due: "get_condition (conditions db) COPY_DOMAIN key = Some c" "is_due COPY_DOMAIN now c"
    and idle: "\<not> (\<exists>j \<in> set (jobs db). is_live j \<and> j_recon_domain j = Some COPY_DOMAIN \<and> j_recon_target_key j = Some key)"
      "copy_dedupe_key key \<notin> set (dedupe_keys_live (jobs db))"
    and reg: "map_of (e_handlers env) ''copy'' = Some (handle_copy rv tb)"
  shows "\<exists>db1 j db2 r j' c'. process_one now copy_reconciler COPY_DOMAIN key db = Inr db1 \<and>
           jobs db1 = jobs db @ [j] \<and> j_kind j = ''copy'' \<and> j_recon_target_key j = Some key \<and>
           run_one env clk granted db0 (j_id j) db1 = Inr (db2, r) \<and> \<not> r_ok r \<and>
           get_job (jobs db2) (j_id j) = Some j' \<and> j_status j' = FAILED \<and> j_attempts j' = 1 \<and>
           get_condition (conditions db2) COPY_DOMAIN key = Some c' \<and> c_condition c' = CONDITION_BLOCKED \<and>
           c_reason c' = Some ''not-implemented'' \<and> \<not> is_due COPY_DOMAIN later c'"
proof -
  obtain ob where "rc_observe copy_reconciler db key = Inr (db, ob)" "ob_desired ob"
    "ob_observed_state ob \<noteq> OBSERVED_PRESENT"
    using key want by (simp add: copy_reconciler_def copy_observe_def observed_state_of_def condition_names)
  from copy_hooks.process_one_enqueues [OF this inv due idle(1)] obtain db' c1 where
    db': "jobs db' = jobs db" "catalog db' = catalog db" "conditions_inv (conditions db')"
      "get_condition (conditions db') COPY_DOMAIN key = Some c1"
    and "process_one now copy_reconciler COPY_DOMAIN key db = rc_reconcile_target copy_reconciler now key db'"
    by blast
  then have one: "process_one now copy_reconciler COPY_DOMAIN key db = copy_reconcile_target now key db'"
    by (simp add: copy_reconciler_def)
  from copy_enqueues [of key sha pool db' p now] key idle(2) db'(1,2)
  obtain j where run1: "process_one now copy_reconciler COPY_DOMAIN key db = Inr (db'\<lparr>jobs := jobs db @ [j]\<rparr>)"
    and j: "j_status j = PENDING" "j_kind j = ''copy''" "j_recon_domain j = Some COPY_DOMAIN"
      "j_recon_target_key j = Some key" "j_attempts j = 0"
    and new: "j_id j = fresh_id (map j_id (jobs db))" "live_key j = Some (copy_dedupe_key key)"
    unfolding one by auto
  let ?db1 = "db'\<lparr>jobs := jobs db @ [j]\<rparr>"
  have ok1: "jobs_ok (jobs ?db1)" using jobs_ok_append [OF ok, of j] new idle(2) by simp
  have "get_job (jobs ?db1) (j_id j) = Some j" by (rule get_job_unique) (use ok1 in \<open>simp_all add: jobs_ok_def\<close>)
  from run_copy_job [OF ok1 _ this j(1-4) _ reg, of c1 clk granted db0] db'(3,4) j(5)
  obtain db2 r j' c' where "run_one env clk granted db0 (j_id j) ?db1 = Inr (db2, r)" "\<not> r_ok r"
    "get_job (jobs db2) (j_id j) = Some j'" "j_status j' = FAILED" "j_attempts j' = 1"
    "get_condition (conditions db2) COPY_DOMAIN key = Some c'" "c_condition c' = CONDITION_BLOCKED"
    "c_reason c' = Some ''not-implemented''" "c_next_eligible_at c' = None"
    by auto
  with run1 j show ?thesis by (intro exI conjI) (assumption | simp add: is_due_def)+
qed

definition gap_hash :: bytes where
  "gap_hash = replicate 32 (CHR ''h'')"

definition gap_key :: string where
  "gap_key = make_target_key gap_hash ''A''"

definition gap_engine :: "catalog_db engine_db" where
  "gap_engine =
     \<lparr>jobs = [], job_attempts = [], conditions = [example_open_row\<lparr>c_target_key := gap_key\<rparr>],
      condition_components = [],
      catalog = example_catalog\<lparr>copies := [],
        ingest_items := map (\<lambda>i. i\<lparr>it_asset_hash := gap_hash\<rparr>) (ingest_items example_catalog)\<rparr>\<rparr>"

definition gap_env :: "catalog_db run_env" where
  "gap_env = \<lparr>e_handlers = [(''copy'', handle_copy (\<lambda>_. ''None'') ''tb'')], e_host = ''h'',
     e_worker_id = ''h:1'', e_code_version = ''1''\<rparr>"

lemma gap_key_parses: "parse_target_key gap_key = Inr (hex_of gap_hash, ''A'')"
  unfolding gap_key_def by (rule parse_make_key) (simp_all add: gap_hash_def)

lemma gap_conditions: "conditions_inv (conditions gap_engine)"
  by (simp add: gap_engine_def conditions_inv_def conditions_ok_def condition_row_ok_def example_open_row_def
      new_condition_def condition_names WORKABLE_CONDITIONS_def)

lemma gap_wanted:
  "''A'' \<in> set (desired_pool_ids_for_asset (catalog gap_engine) gap_hash)"
  by (simp add: desired_pool_ids_for_asset_def live_classes_for_asset_def active_pool_ids_for_class_def
      gap_engine_def example_catalog_defs accepting_pool_def get_pool_def)

theorem copy_gap_ends_blocked_witness:
  "\<exists>db1 j db2 r c'. process_one 5 copy_reconciler COPY_DOMAIN gap_key gap_engine = Inr db1 \<and> jobs db1 = [j] \<and>
     run_one gap_env example_clock [] gap_engine (j_id j) db1 = Inr (db2, r) \<and> \<not> r_ok r \<and>
     get_condition (conditions db2) COPY_DOMAIN gap_key = Some c' \<and> c_condition c' = CONDITION_BLOCKED"
proof -
  have "get_pool (catalog gap_engine) ''A'' = Some (example_pool ''A'')"
    by (simp add: gap_engine_def example_catalog_defs get_pool_def)
  moreover have "''A'' \<in> set (desired_pool_ids_for_asset (catalog gap_engine) (the (fromhex (hex_of gap_hash))))"
    by (simp add: fromhex_hex_of gap_wanted)
  moreover have "''A'' \<notin> set (observed_pool_ids gap_engine (the (fromhex (hex_of gap_hash))))"
    by (simp add: observed_pool_ids_def gap_engine_def direct_copies_def Let_def)
  moreover have "get_condition (conditions gap_engine) COPY_DOMAIN gap_key = Some (example_open_row\<lparr>c_target_key := gap_key\<rparr>)"
    by (simp add: gap_engine_def get_condition_def example_open_row_def new_condition_def COPY_DOMAIN_def)
  moreover have "is_due COPY_DOMAIN 5 (example_open_row\<lparr>c_target_key := gap_key\<rparr>)"
    by (simp add: is_due_def example_open_row_def new_condition_def COPY_DOMAIN_def)
  moreover have "jobs gap_engine = []" by (simp add: gap_engine_def)
  moreover have "map_of (e_handlers gap_env) ''copy'' = Some (handle_copy (\<lambda>_. ''None'') ''tb'')"
    by (simp add: gap_env_def)
  ultimately show ?thesis
    using copy_gap_ends_blocked [of gap_engine gap_key "hex_of gap_hash" "''A''" "example_pool ''A''"
        "example_open_row\<lparr>c_target_key := gap_key\<rparr>" 5 gap_env "\<lambda>_. ''None''" "''tb''" example_clock "[]" gap_engine 0]
      gap_key_parses gap_conditions jobs_ok_Nil
    by (auto simp: dedupe_keys_live_def)
qed

end
